(* ===== verification/X86Spec.thy ===== *)
theory X86Spec
  imports Prelude
begin

text \<open>
  The data types of the x86 instruction decoder (\<^verbatim>\<open>x86_insn_decode.h\<close>) and the macros that
  build its tables (the first part of \<^verbatim>\<open>x86_insn_decode.c\<close>). An operand specification is the
  pair of bytes of a two-letter string literal, so its fields are of type \<open>char\<close>. Enumerators
  are kept as constructors with the value that C gives them.
\<close>

section \<open>Operand and instruction specifications\<close>

record x86_insn_operand_spec_t =
  op_code :: char
  op_type :: char

record x86_insn_spec_t =
  spec_name :: string
  spec_operands :: "x86_insn_operand_spec_t list"
  spec_flags :: u16

text \<open>The \<^verbatim>\<open>.data = "Eb"\<close> initialiser of the union: code and type overlay the two bytes.\<close>

fun operand_data :: "string \<Rightarrow> x86_insn_operand_spec_t" where
  "operand_data (c # t # _) = \<lparr>op_code = c, op_type = t\<rparr>"
| "operand_data [c] = \<lparr>op_code = c, op_type = CHR 0x00\<rparr>"
| "operand_data [] = \<lparr>op_code = CHR 0x00, op_type = CHR 0x00\<rparr>"

definition op3_flag :: "string \<Rightarrow> u16 \<Rightarrow> string \<Rightarrow> string \<Rightarrow> string \<Rightarrow> x86_insn_spec_t" where
  "op3_flag x f o0 o1 o2 =
     \<lparr>spec_name = x, spec_operands = [operand_data o0, operand_data o1, operand_data o2], spec_flags = f\<rparr>"

definition op2_flag :: "string \<Rightarrow> u16 \<Rightarrow> string \<Rightarrow> string \<Rightarrow> x86_insn_spec_t" where
  "op2_flag x f o0 o1 = op3_flag x f o0 o1 ''__''"

definition op1_flag :: "string \<Rightarrow> u16 \<Rightarrow> string \<Rightarrow> x86_insn_spec_t" where
  "op1_flag x f o0 = op2_flag x f o0 ''__''"

definition op0_flag :: "string \<Rightarrow> u16 \<Rightarrow> x86_insn_spec_t" where
  "op0_flag x f = op1_flag x f ''__''"

abbreviation op3f :: "string \<Rightarrow> u16 \<Rightarrow> string \<Rightarrow> string \<Rightarrow> string \<Rightarrow> x86_insn_spec_t" where
  "op3f \<equiv> op3_flag"

abbreviation op2f :: "string \<Rightarrow> u16 \<Rightarrow> string \<Rightarrow> string \<Rightarrow> x86_insn_spec_t" where
  "op2f \<equiv> op2_flag"

abbreviation op1f :: "string \<Rightarrow> u16 \<Rightarrow> string \<Rightarrow> x86_insn_spec_t" where
  "op1f \<equiv> op1_flag"

abbreviation op0f :: "string \<Rightarrow> u16 \<Rightarrow> x86_insn_spec_t" where
  "op0f \<equiv> op0_flag"

definition op3 :: "string \<Rightarrow> string \<Rightarrow> string \<Rightarrow> string \<Rightarrow> x86_insn_spec_t" where
  "op3 x o0 o1 o2 = op3f x 0 o0 o1 o2"

definition op2 :: "string \<Rightarrow> string \<Rightarrow> string \<Rightarrow> x86_insn_spec_t" where
  "op2 x o0 o1 = op2f x 0 o0 o1"

definition op1 :: "string \<Rightarrow> string \<Rightarrow> x86_insn_spec_t" where
  "op1 x o0 = op1f x 0 o0"

definition op0 :: "string \<Rightarrow> x86_insn_spec_t" where
  "op0 x = op0f x 0"

text \<open>What a zero-initialised specification holds: no name, no operand codes, no flags.\<close>

definition zero_spec :: x86_insn_spec_t where
  "zero_spec = \<lparr>spec_name = [], spec_operands = replicate 3 (operand_data []), spec_flags = 0\<rparr>"

definition zero_group8 :: "x86_insn_spec_t list" where
  "zero_group8 = replicate 8 zero_spec"

section \<open>Flags of a specification and opcode groups\<close>

definition X86_INSN_SPEC_DEFAULT_64_BIT :: u16 where
  "X86_INSN_SPEC_DEFAULT_64_BIT = push_bit 0 1"

datatype x86_insn_group =
    X86_INSN_GROUP_START
  | X86_INSN_MODRM_REG_GROUP_1 | X86_INSN_MODRM_REG_GROUP_1a | X86_INSN_MODRM_REG_GROUP_2
  | X86_INSN_MODRM_REG_GROUP_3 | X86_INSN_MODRM_REG_GROUP_4 | X86_INSN_MODRM_REG_GROUP_5
  | X86_INSN_MODRM_REG_GROUP_6 | X86_INSN_MODRM_REG_GROUP_7 | X86_INSN_MODRM_REG_GROUP_8
  | X86_INSN_MODRM_REG_GROUP_9 | X86_INSN_MODRM_REG_GROUP_10 | X86_INSN_MODRM_REG_GROUP_11
  | X86_INSN_MODRM_REG_GROUP_12 | X86_INSN_MODRM_REG_GROUP_13 | X86_INSN_MODRM_REG_GROUP_14
  | X86_INSN_MODRM_REG_GROUP_15 | X86_INSN_MODRM_REG_GROUP_16 | X86_INSN_MODRM_REG_GROUP_p
  | X86_INSN_SSE_GROUP_START
  | X86_INSN_SSE_GROUP_10 | X86_INSN_SSE_GROUP_28 | X86_INSN_SSE_GROUP_50
  | X86_INSN_SSE_GROUP_58 | X86_INSN_SSE_GROUP_60 | X86_INSN_SSE_GROUP_68
  | X86_INSN_SSE_GROUP_70 | X86_INSN_SSE_GROUP_78 | X86_INSN_SSE_GROUP_c0
  | X86_INSN_SSE_GROUP_d0 | X86_INSN_SSE_GROUP_d8 | X86_INSN_SSE_GROUP_e0
  | X86_INSN_SSE_GROUP_e8 | X86_INSN_SSE_GROUP_f0 | X86_INSN_SSE_GROUP_f8
  | X86_INSN_GROUP_END

text \<open>The value of each enumerator, counted the way C counts them.\<close>

primrec group_value :: "x86_insn_group \<Rightarrow> nat" where
  "group_value X86_INSN_GROUP_START = 0"
| "group_value X86_INSN_MODRM_REG_GROUP_1 = 1"
| "group_value X86_INSN_MODRM_REG_GROUP_1a = 2"
| "group_value X86_INSN_MODRM_REG_GROUP_2 = 3"
| "group_value X86_INSN_MODRM_REG_GROUP_3 = 4"
| "group_value X86_INSN_MODRM_REG_GROUP_4 = 5"
| "group_value X86_INSN_MODRM_REG_GROUP_5 = 6"
| "group_value X86_INSN_MODRM_REG_GROUP_6 = 7"
| "group_value X86_INSN_MODRM_REG_GROUP_7 = 8"
| "group_value X86_INSN_MODRM_REG_GROUP_8 = 9"
| "group_value X86_INSN_MODRM_REG_GROUP_9 = 10"
| "group_value X86_INSN_MODRM_REG_GROUP_10 = 11"
| "group_value X86_INSN_MODRM_REG_GROUP_11 = 12"
| "group_value X86_INSN_MODRM_REG_GROUP_12 = 13"
| "group_value X86_INSN_MODRM_REG_GROUP_13 = 14"
| "group_value X86_INSN_MODRM_REG_GROUP_14 = 15"
| "group_value X86_INSN_MODRM_REG_GROUP_15 = 16"
| "group_value X86_INSN_MODRM_REG_GROUP_16 = 17"
| "group_value X86_INSN_MODRM_REG_GROUP_p = 18"
| "group_value X86_INSN_SSE_GROUP_START = 19"
| "group_value X86_INSN_SSE_GROUP_10 = 20"
| "group_value X86_INSN_SSE_GROUP_28 = 21"
| "group_value X86_INSN_SSE_GROUP_50 = 22"
| "group_value X86_INSN_SSE_GROUP_58 = 23"
| "group_value X86_INSN_SSE_GROUP_60 = 24"
| "group_value X86_INSN_SSE_GROUP_68 = 25"
| "group_value X86_INSN_SSE_GROUP_70 = 26"
| "group_value X86_INSN_SSE_GROUP_78 = 27"
| "group_value X86_INSN_SSE_GROUP_c0 = 28"
| "group_value X86_INSN_SSE_GROUP_d0 = 29"
| "group_value X86_INSN_SSE_GROUP_d8 = 30"
| "group_value X86_INSN_SSE_GROUP_e0 = 31"
| "group_value X86_INSN_SSE_GROUP_e8 = 32"
| "group_value X86_INSN_SSE_GROUP_f0 = 33"
| "group_value X86_INSN_SSE_GROUP_f8 = 34"
| "group_value X86_INSN_GROUP_END = 35"

definition X86_INSN_FLAG_SET_GROUP :: "nat \<Rightarrow> u16" where
  "X86_INSN_FLAG_SET_GROUP n = push_bit 5 (of_nat n)"

definition X86_INSN_FLAG_GET_GROUP :: "u16 \<Rightarrow> nat" where
  "X86_INSN_FLAG_GET_GROUP f = unat (drop_bit 5 f AND (push_bit 6 1 - 1))"

text \<open>The enumerators \<^verbatim>\<open>X86_INSN_FLAG_MODRM_REG_GROUP_x\<close> and \<^verbatim>\<open>X86_INSN_FLAG_SSE_GROUP_x\<close>.\<close>

definition X86_INSN_FLAG :: "x86_insn_group \<Rightarrow> u16" where
  "X86_INSN_FLAG g = X86_INSN_FLAG_SET_GROUP (group_value g)"

section \<open>Repetition macros of the tables\<close>

definition foreach_x86_operand_combine :: "string \<Rightarrow> x86_insn_spec_t list" where
  "foreach_x86_operand_combine x =
     [op2 x ''Eb'' ''Gb'', op2 x ''Ev'' ''Gv'', op2 x ''Gb'' ''Eb'', op2 x ''Gv'' ''Ev'',
      op2 x ''AL'' ''Ib'', op2 x ''AX'' ''Iz'']"

definition foreach_x86_gp_reg :: "string list" where
  "foreach_x86_gp_reg = [''AX'', ''CX'', ''DX'', ''BX'', ''SP'', ''BP'', ''SI'', ''DI'']"

definition foreach_x86_condition :: "string list" where
  "foreach_x86_condition =
     [''o'', ''no'', ''b'', ''nb'', ''z'', ''nz'', ''be'', ''nbe'',
      ''s'', ''ns'', ''p'', ''np'', ''l'', ''nl'', ''le'', ''nle'']"

section \<open>Decoded instructions\<close>

text \<open>The prefix enumerators; the aliases of the source (\<^verbatim>\<open>REPNE\<close>, \<^verbatim>\<open>REPE\<close>) share a value.\<close>

definition INSN_PREFIX_LOCK :: u32 where "INSN_PREFIX_LOCK = 0x01"
definition INSN_PREFIX_REPNZ :: u32 where "INSN_PREFIX_REPNZ = 0x02"
definition INSN_PREFIX_REP :: u32 where "INSN_PREFIX_REP = 0x04"
definition INSN_PREFIX_ES :: u32 where "INSN_PREFIX_ES = 0x0008"
definition INSN_PREFIX_CS :: u32 where "INSN_PREFIX_CS = 0x0010"
definition INSN_PREFIX_SS :: u32 where "INSN_PREFIX_SS = 0x0020"
definition INSN_PREFIX_DS :: u32 where "INSN_PREFIX_DS = 0x0040"
definition INSN_PREFIX_FS :: u32 where "INSN_PREFIX_FS = 0x0080"
definition INSN_PREFIX_GS :: u32 where "INSN_PREFIX_GS = 0x0100"
definition INSN_PREFIX_OPERAND_SIZE :: u32 where "INSN_PREFIX_OPERAND_SIZE = 0x0200"
definition INSN_PREFIX_ADDRESS_SIZE :: u32 where "INSN_PREFIX_ADDRESS_SIZE = 0x0400"

lemmas insn_prefix_defs =
  INSN_PREFIX_LOCK_def INSN_PREFIX_REPNZ_def INSN_PREFIX_REP_def INSN_PREFIX_ES_def
  INSN_PREFIX_CS_def INSN_PREFIX_SS_def INSN_PREFIX_DS_def INSN_PREFIX_FS_def INSN_PREFIX_GS_def
  INSN_PREFIX_OPERAND_SIZE_def INSN_PREFIX_ADDRESS_SIZE_def

definition X86_INSN_DECODE_FLAG_HAS_BASE :: u32 where
  "X86_INSN_DECODE_FLAG_HAS_BASE = push_bit 0 1"

definition X86_INSN_DECODE_FLAG_HAS_INDEX :: u32 where
  "X86_INSN_DECODE_FLAG_HAS_INDEX = push_bit 1 1"

definition X86_INSN_DECODE_FLAG_IS_ADDRESS :: u32 where
  "X86_INSN_DECODE_FLAG_IS_ADDRESS = push_bit 2 1"

definition X86_INSN_DECODE_FLAG_IP_RELATIVE :: u32 where
  "X86_INSN_DECODE_FLAG_IP_RELATIVE = push_bit 3 1"

definition X86_INSN_DECODE_FLAG_OPERAND_SIZE_64 :: u32 where
  "X86_INSN_DECODE_FLAG_OPERAND_SIZE_64 = push_bit 4 1"

lemmas decode_flag_defs =
  X86_INSN_DECODE_FLAG_HAS_BASE_def X86_INSN_DECODE_FLAG_HAS_INDEX_def
  X86_INSN_DECODE_FLAG_IS_ADDRESS_def X86_INSN_DECODE_FLAG_IP_RELATIVE_def
  X86_INSN_DECODE_FLAG_OPERAND_SIZE_64_def

text \<open>
  The two register enumerations: \<^verbatim>\<open>x86_insn_gp_register_t\<close> follows the hardware numbers,
  \<^verbatim>\<open>x86_ia32e_register_t\<close> does not.
\<close>

definition X86_INSN_GP_REG_BX :: u8 where "X86_INSN_GP_REG_BX = 3"
definition X86_INSN_GP_REG_SP :: u8 where "X86_INSN_GP_REG_SP = 4"
definition X86_INSN_GP_REG_BP :: u8 where "X86_INSN_GP_REG_BP = 5"
definition X86_INSN_GP_REG_SI :: u8 where "X86_INSN_GP_REG_SI = 6"

datatype x86_ia32e_register_t =
    RNone | RAX | RBX | RCX | RDX | RDI | RSI | RBP | RSP
  | R8 | R9 | R10 | R11 | R12 | R13 | R14 | R15 | RIP

primrec ia32e_value :: "x86_ia32e_register_t \<Rightarrow> u8" where
  "ia32e_value RNone = 0"
| "ia32e_value RAX = 1"
| "ia32e_value RBX = 2"
| "ia32e_value RCX = 3"
| "ia32e_value RDX = 4"
| "ia32e_value RDI = 5"
| "ia32e_value RSI = 6"
| "ia32e_value RBP = 7"
| "ia32e_value RSP = 8"
| "ia32e_value R8 = 9"
| "ia32e_value R9 = 10"
| "ia32e_value R10 = 11"
| "ia32e_value R11 = 12"
| "ia32e_value R12 = 13"
| "ia32e_value R13 = 14"
| "ia32e_value R14 = 15"
| "ia32e_value R15 = 16"
| "ia32e_value RIP = 17"

text \<open>The bit-fields of the ModR/M and SIB unions, low bits first.\<close>

definition modrm_rm :: "u8 \<Rightarrow> u8" where "modrm_rm byte = take_bit 3 byte"
definition modrm_reg :: "u8 \<Rightarrow> u8" where "modrm_reg byte = take_bit 3 (drop_bit 3 byte)"
definition modrm_mode :: "u8 \<Rightarrow> u8" where "modrm_mode byte = take_bit 2 (drop_bit 6 byte)"
definition sib_base :: "u8 \<Rightarrow> u8" where "sib_base byte = take_bit 3 byte"
definition sib_index :: "u8 \<Rightarrow> u8" where "sib_index byte = take_bit 3 (drop_bit 3 byte)"
definition sib_log2_scale :: "u8 \<Rightarrow> u8" where "sib_log2_scale byte = take_bit 2 (drop_bit 6 byte)"

record x86_insn_mem_t =
  mem_base :: u8
  mem_index :: u8
  mem_scale :: u8
  mem_disp :: u32

record x86_insn_operand_t =
  opr_reg :: u8
  opr_mem :: x86_insn_mem_t

record x86_insn_decode_t =
  d_flags :: u32
  d_length :: u32
  d_displacement_offset :: u8
  d_immediate_offset :: u8
  d_operand0 :: x86_insn_operand_t
  d_operand1 :: x86_insn_operand_t
  d_operand2 :: x86_insn_operand_t
  d_prefix :: u32
  d_rex :: u8
  d_primary_opcode :: u8
  d_modrm :: u8
  d_sib :: u8
  d_immediate :: u64
  d_insn_spec :: x86_insn_spec_t

record x86_options_t =
  mode :: int

text \<open>The decoder works on a structure that its callers clear with \<^verbatim>\<open>memset\<close>.\<close>

definition zero_operand :: x86_insn_operand_t where
  "zero_operand = \<lparr>opr_reg = 0, opr_mem = \<lparr>mem_base = 0, mem_index = 0, mem_scale = 0, mem_disp = 0\<rparr>\<rparr>"

definition zero_insn :: x86_insn_decode_t where
  "zero_insn =
     \<lparr>d_flags = 0, d_length = 0, d_displacement_offset = 0, d_immediate_offset = 0,
      d_operand0 = zero_operand, d_operand1 = zero_operand, d_operand2 = zero_operand,
      d_prefix = 0, d_rex = 0, d_primary_opcode = 0, d_modrm = 0, d_sib = 0, d_immediate = 0,
      d_insn_spec = zero_spec\<rparr>"

section \<open>Lemmas\<close>

lemmas op_defs [simp] =
  op3_flag_def op2_flag_def op1_flag_def op0_flag_def op3_def op2_def op1_def op0_def

lemma group_value_bound: "group_value g < 64"
  by (cases g) simp_all

text \<open>
  A group number survives the flag field: six bits from bit 5 hold every enumerator.
\<close>

lemma get_set_group: "n < 64 \<Longrightarrow> X86_INSN_FLAG_GET_GROUP (X86_INSN_FLAG_SET_GROUP n) = n"
proof -
  assume n: "n < 64"
  have "drop_bit 5 (push_bit 5 w) AND mask 6 = take_bit 6 w" for w :: u16
    by (rule bit_word_eqI) (auto simp: bit_simps)
  then have "X86_INSN_FLAG_GET_GROUP (X86_INSN_FLAG_SET_GROUP n) = unat (take_bit 6 (of_nat n :: u16))"
    unfolding X86_INSN_FLAG_GET_GROUP_def X86_INSN_FLAG_SET_GROUP_def push_bit_1_minus_1 by simp
  also have "\<dots> = n"
    using n unfolding unsigned_take_bit_eq by (simp add: unat_of_nat take_bit_nat_eq_self)
  finally show ?thesis .
qed

lemma get_group_flag [simp]: "X86_INSN_FLAG_GET_GROUP (X86_INSN_FLAG g) = group_value g"
  by (simp add: X86_INSN_FLAG_def get_set_group group_value_bound)

lemma get_group_0 [simp]: "X86_INSN_FLAG_GET_GROUP 0 = 0"
  by (simp add: X86_INSN_FLAG_GET_GROUP_def)

lemma get_group_default_64 [simp]: "X86_INSN_FLAG_GET_GROUP X86_INSN_SPEC_DEFAULT_64_BIT = 0"
  by (simp add: X86_INSN_FLAG_GET_GROUP_def X86_INSN_SPEC_DEFAULT_64_BIT_def)

end
