(* ===== verification/X86Reader.thy ===== *)
theory X86Reader
  imports X86Spec
begin

text \<open>
  The byte reader of the x86 decoder (\<^verbatim>\<open>x86_insn_reader.c\<close>). A pointer of the reader points
  either into its own 20-byte buffer or into the code that the decoder was given, so it is a
  base and an offset; \<open>rd_code\<close> holds the bytes that are readable at \<^verbatim>\<open>begin\<close>. A read past the
  end of the array it points into is the fault \<open>OutOfBounds\<close>, the difference of pointers into
  different arrays \<open>ForeignPointer\<close>. The logging macro \<^verbatim>\<open>DLOG\<close> is left out.
\<close>

section \<open>State\<close>

text \<open>
  The ways in which a decode can stop: a read outside an array, a pointer difference across
  arrays, the use of a variable that was not assigned, and the macros \<^verbatim>\<open>UNREACHABLE\<close>,
  \<^verbatim>\<open>UNIMPLEMENTED\<close> and \<^verbatim>\<open>FATAL\<close> of \<^verbatim>\<open>logging.h\<close>, which call \<^verbatim>\<open>abort\<close>.
\<close>

datatype x86_fault = OutOfBounds | ForeignPointer | Uninitialised | Unreachable | Unimplemented | Fatal

datatype rd_base = RdBuffer | RdCode

type_synonym rd_ptr = "rd_base \<times> nat"

record x86_insn_reader_t =
  rd_prefix :: rd_ptr
  rd_opcode :: rd_ptr
  rd_modrm :: rd_ptr
  rd_buffer :: "u8 list"
  rd_cursor :: rd_ptr
  rd_code :: "u8 list"

section \<open>Operations\<close>

definition init_reader :: "u8 list \<Rightarrow> nat \<Rightarrow> x86_fault + x86_insn_reader_t" where
  "init_reader code n =
     (if n < 20 then
        (if n \<le> length code then
           Inr \<lparr>rd_prefix = (RdBuffer, 0), rd_opcode = (RdBuffer, 0), rd_modrm = (RdBuffer, 0),
                rd_buffer = take n code @ replicate (20 - n) 0xcc,
                rd_cursor = (RdBuffer, 0), rd_code = code\<rparr>
         else Inl OutOfBounds)
      else
        Inr \<lparr>rd_prefix = (RdCode, 0), rd_opcode = (RdCode, 0), rd_modrm = (RdCode, 0),
             rd_buffer = [], rd_cursor = (RdCode, 0), rd_code = code\<rparr>)"

fun rd_array :: "x86_insn_reader_t \<Rightarrow> rd_base \<Rightarrow> u8 list" where
  "rd_array rd RdBuffer = rd_buffer rd"
| "rd_array rd RdCode = rd_code rd"

text \<open>The \<open>k\<close> bytes at a pointer, and a pointer advanced by \<open>k\<close>.\<close>

definition rd_load :: "x86_insn_reader_t \<Rightarrow> rd_ptr \<Rightarrow> nat \<Rightarrow> x86_fault + u8 list" where
  "rd_load rd p k =
     (if snd p + k \<le> length (rd_array rd (fst p))
      then Inr (take k (drop (snd p) (rd_array rd (fst p)))) else Inl OutOfBounds)"

definition rd_advance :: "nat \<Rightarrow> x86_insn_reader_t \<Rightarrow> x86_insn_reader_t" where
  "rd_advance k rd = rd\<lparr>rd_cursor := (fst (rd_cursor rd), snd (rd_cursor rd) + k)\<rparr>"

definition reader_offset :: "x86_insn_reader_t \<Rightarrow> x86_fault + u32" where
  "reader_offset rd =
     (case fst (rd_cursor rd) of RdBuffer \<Rightarrow> Inr (of_nat (snd (rd_cursor rd)))
      | RdCode \<Rightarrow> Inl ForeignPointer)"

definition peek_byte :: "x86_insn_reader_t \<Rightarrow> x86_fault + u8" where
  "peek_byte rd = bindE (rd_load rd (rd_cursor rd) 1) (\<lambda>p. Inr (p ! 0))"

definition read_byte :: "x86_insn_reader_t \<Rightarrow> x86_fault + (u8 \<times> x86_insn_reader_t)" where
  "read_byte rd = bindE (rd_load rd (rd_cursor rd) 1) (\<lambda>p. Inr (p ! 0, rd_advance 1 rd))"

definition read_word :: "x86_insn_reader_t \<Rightarrow> x86_fault + (u16 \<times> x86_insn_reader_t)" where
  "read_word rd =
     bindE (rd_load rd (rd_cursor rd) 2)
       (\<lambda>p. Inr (ucast (p ! 0) OR push_bit 8 (ucast (p ! 1)), rd_advance 2 rd))"

definition read_dword :: "x86_insn_reader_t \<Rightarrow> x86_fault + (u32 \<times> x86_insn_reader_t)" where
  "read_dword rd =
     bindE (rd_load rd (rd_cursor rd) 4)
       (\<lambda>p. Inr (ucast (p ! 0) OR push_bit 8 (ucast (p ! 1)) OR push_bit 16 (ucast (p ! 2)) OR
                  push_bit 24 (ucast (p ! 3)), rd_advance 4 rd))"

text \<open>The eight bytes are loaded as one integer, but the cursor moves by four only.\<close>

definition read_qword :: "x86_insn_reader_t \<Rightarrow> x86_fault + (u64 \<times> x86_insn_reader_t)" where
  "read_qword rd = bindE (rd_load rd (rd_cursor rd) 8) (\<lambda>p. Inr (le_word p, rd_advance 4 rd))"

definition read_imm :: "x86_insn_reader_t \<Rightarrow> int \<Rightarrow> x86_fault + (u32 \<times> x86_insn_reader_t)" where
  "read_imm rd sz =
     (if sz = 8 then bindE (read_byte rd) (\<lambda>(b, rd). Inr (ucast b, rd))
      else if sz = 16 then bindE (read_word rd) (\<lambda>(w, rd). Inr (ucast w, rd))
      else if sz = 32 then read_dword rd
      else Inr (0, rd))"

definition read_modrm :: "x86_insn_reader_t \<Rightarrow> x86_fault + (u8 \<times> x86_insn_reader_t)" where
  "read_modrm rd =
     (let rd = (if rd_cursor rd = rd_modrm rd then rd_advance 1 rd else rd)
      in bindE (rd_load rd (rd_modrm rd) 1) (\<lambda>p. Inr (p ! 0, rd)))"

definition continue_modrm :: "x86_insn_reader_t \<Rightarrow> x86_insn_reader_t" where
  "continue_modrm rd = rd\<lparr>rd_modrm := rd_cursor rd\<rparr>"

definition continue_opcode :: "x86_insn_reader_t \<Rightarrow> x86_insn_reader_t" where
  "continue_opcode rd = rd\<lparr>rd_modrm := rd_cursor rd, rd_opcode := rd_cursor rd\<rparr>"

lemma rd_array_advance [simp]: "rd_array (rd_advance k rd) b = rd_array rd b"
  by (cases b) (simp_all add: rd_advance_def)

lemma rd_cursor_advance [simp]:
  "rd_cursor (rd_advance k rd) = (fst (rd_cursor rd), snd (rd_cursor rd) + k)"
  by (simp add: rd_advance_def)

section \<open>A reader on its own buffer\<close>

text \<open>
  The decoder hands the reader 15 bytes, so the reader works on its buffer. \<open>rd_at rd i\<close> says
  that it does and that the cursor is at offset \<open>i\<close> of the 20 bytes.
\<close>

definition rd_at :: "x86_insn_reader_t \<Rightarrow> nat \<Rightarrow> bool" where
  "rd_at rd i \<longleftrightarrow> rd_cursor rd = (RdBuffer, i) \<and> length (rd_buffer rd) = 20"

lemma rd_at_advance [simp]: "rd_at rd i \<Longrightarrow> rd_at (rd_advance k rd) (i + k)"
  by (simp add: rd_at_def rd_advance_def)

lemma rd_buffer_advance [simp]: "rd_buffer (rd_advance k rd) = rd_buffer rd"
  by (simp add: rd_advance_def)

lemma rd_load_at:
  "rd_at rd i \<Longrightarrow>
     rd_load rd (rd_cursor rd) k =
       (if i + k \<le> 20 then Inr (take k (drop i (rd_buffer rd))) else Inl OutOfBounds)"
  by (simp add: rd_at_def rd_load_def)

lemma peek_byte_at:
  "rd_at rd i \<Longrightarrow> i < 20 \<Longrightarrow> peek_byte rd = Inr (rd_buffer rd ! i)"
  by (simp add: peek_byte_def rd_load_at) (simp add: rd_at_def)

lemma read_byte_at:
  "rd_at rd i \<Longrightarrow> i < 20 \<Longrightarrow> read_byte rd = Inr (rd_buffer rd ! i, rd_advance 1 rd)"
  by (simp add: read_byte_def rd_load_at) (simp add: rd_at_def)

lemma reader_offset_at: "rd_at rd i \<Longrightarrow> reader_offset rd = Inr (of_nat i)"
  by (simp add: reader_offset_def rd_at_def)

text \<open>A multi-byte read is the little-endian word of the bytes at the cursor.\<close>

lemma or_push_bit_le_word:
  "ucast a OR push_bit 8 (ucast b) = (le_word [a, b] :: u16)"
  "ucast a OR push_bit 8 (ucast b) OR push_bit 16 (ucast c) OR push_bit 24 (ucast d)
     = (le_word [a, b, c, d] :: u32)"
  by (rule bit_word_eqI, auto simp: bit_simps)+

lemma take_2_drop: "i + 2 \<le> length xs \<Longrightarrow> take 2 (drop i xs) = [xs ! i, xs ! (i + 1)]"
  by (rule nth_equalityI) (auto simp: less_Suc_eq numeral_eq_Suc)

lemma take_4_drop:
  "i + 4 \<le> length xs \<Longrightarrow> take 4 (drop i xs) = [xs ! i, xs ! (i + 1), xs ! (i + 2), xs ! (i + 3)]"
  by (rule nth_equalityI) (auto simp: less_Suc_eq numeral_eq_Suc)

lemma read_word_at:
  assumes "rd_at rd i" and "i + 2 \<le> 20"
  shows "read_word rd = Inr (le_word (take 2 (drop i (rd_buffer rd))), rd_advance 2 rd)"
proof -
  have "length (rd_buffer rd) = 20" using assms(1) by (simp add: rd_at_def)
  then have "take 2 (drop i (rd_buffer rd)) = [rd_buffer rd ! i, rd_buffer rd ! (i + 1)]"
    using assms(2) by (simp add: take_2_drop)
  then show ?thesis
    using assms by (simp add: read_word_def rd_load_at or_push_bit_le_word del: le_word.simps)
qed

lemma read_dword_at:
  assumes "rd_at rd i" and "i + 4 \<le> 20"
  shows "read_dword rd = Inr (le_word (take 4 (drop i (rd_buffer rd))), rd_advance 4 rd)"
proof -
  have "length (rd_buffer rd) = 20" using assms(1) by (simp add: rd_at_def)
  then have "take 4 (drop i (rd_buffer rd)) =
      [rd_buffer rd ! i, rd_buffer rd ! (i + 1), rd_buffer rd ! (i + 2), rd_buffer rd ! (i + 3)]"
    using assms(2) by (simp add: take_4_drop)
  then show ?thesis
    using assms by (simp add: read_dword_def rd_load_at or_push_bit_le_word del: le_word.simps)
qed

lemma read_qword_at:
  "rd_at rd i \<Longrightarrow> i + 8 \<le> 20 \<Longrightarrow>
     read_qword rd = Inr (le_word (take 8 (drop i (rd_buffer rd))), rd_advance 4 rd)"
  by (simp add: read_qword_def rd_load_at)

lemmas reader_at = read_byte_at read_word_at read_dword_at read_qword_at peek_byte_at reader_offset_at

text \<open>What \<^verbatim>\<open>init_reader\<close> sets up for the decoder: 15 bytes of code, then five \<^verbatim>\<open>0xcc\<close>.\<close>

lemma init_reader_15:
  assumes "15 \<le> length code"
  shows "\<exists>rd. init_reader code 15 = Inr rd \<and> rd_at rd 0 \<and>
           rd_buffer rd = take 15 code @ replicate 5 0xcc"
  using assms by (simp add: init_reader_def rd_at_def)

end
