(* ===== verification/X86GroupTables.thy ===== *)
theory X86GroupTables
  imports X86Spec
begin

text \<open>
  The opcode groups of the x86 decoder: \<^verbatim>\<open>x86_opcode_modrm_reg_group.c\<close>, indexed by the group
  number and by the reg field of the ModR/M byte, and \<^verbatim>\<open>x86_opcode_sse_group.c\<close>, the three
  tables of SSE instructions that a mandatory prefix selects. Entries that the designated
  initialisers of the source leave out are zero (\<open>zero_group8\<close>).
\<close>

section \<open>Groups selected by the reg field of the ModR/M byte\<close>

definition modrm_reg_group_1 :: "x86_insn_spec_t list" where
  "modrm_reg_group_1 =
     [op0 ''add'',
      op0 ''or'',
      op0 ''adc'',
      op0 ''sbb'',
      op0 ''and'',
      op0 ''sub'',
      op0 ''xor'',
      op0 ''cmp'']"

definition modrm_reg_group_1a :: "x86_insn_spec_t list" where
  "modrm_reg_group_1a =
     [op0f ''pop'' X86_INSN_SPEC_DEFAULT_64_BIT,
      op0 ''bad'',
      op0 ''bad'',
      op0 ''bad'',
      op0 ''bad'',
      op0 ''bad'',
      op0 ''bad'',
      op0 ''bad'']"

definition modrm_reg_group_2 :: "x86_insn_spec_t list" where
  "modrm_reg_group_2 =
     [op0 ''rol'',
      op0 ''ror'',
      op0 ''rcl'',
      op0 ''rcr'',
      op0 ''shl'',
      op0 ''shr'',
      op0 ''sal'',
      op0 ''sar'']"

definition modrm_reg_group_3 :: "x86_insn_spec_t list" where
  "modrm_reg_group_3 =
     [op0 ''test'',
      op0 ''test'',
      op0 ''not'',
      op0 ''neg'',
      op0 ''mul'',
      op0 ''imul'',
      op0 ''div'',
      op0 ''idiv'']"

definition modrm_reg_group_4 :: "x86_insn_spec_t list" where
  "modrm_reg_group_4 =
     [op0 ''inc'',
      op0 ''dec'',
      op0 ''bad'',
      op0 ''bad'',
      op0 ''bad'',
      op0 ''bad'',
      op0 ''bad'',
      op0 ''bad'']"

definition modrm_reg_group_5 :: "x86_insn_spec_t list" where
  "modrm_reg_group_5 =
     [op1 ''inc'' ''Ev'',
      op1 ''dec'' ''Ev'',
      op1f ''call'' X86_INSN_SPEC_DEFAULT_64_BIT ''Ev'',
      op1 ''call'' ''Mp'',
      op1f ''jmp'' X86_INSN_SPEC_DEFAULT_64_BIT ''Ev'',
      op1 ''jmp'' ''Mp'',
      op1f ''push'' X86_INSN_SPEC_DEFAULT_64_BIT ''Ev'',
      op0 ''bad'']"

definition modrm_reg_group_6 :: "x86_insn_spec_t list" where
  "modrm_reg_group_6 =
     [op1 ''sldt'' ''Ev'',
      op1 ''str'' ''Ev'',
      op1 ''lldt'' ''Ev'',
      op1 ''ltr'' ''Ev'',
      op1 ''verr'' ''Ev'',
      op1 ''verw'' ''Ev'',
      op0 ''bad'',
      op0 ''bad'']"

definition modrm_reg_group_7 :: "x86_insn_spec_t list" where
  "modrm_reg_group_7 =
     [op1 ''sgdt'' ''Mv'',
      op1 ''sidt'' ''Mv'',
      op1 ''lgdt'' ''Mv'',
      op1 ''lidt'' ''Mv'',
      op1 ''smsw'' ''Ev'',
      op0 ''bad'',
      op1 ''lmsw'' ''Ew'',
      op1 ''invlpg'' ''Mv'']"

definition modrm_reg_group_8 :: "x86_insn_spec_t list" where
  "modrm_reg_group_8 =
     [op0 ''bad'',
      op0 ''bad'',
      op0 ''bad'',
      op0 ''bad'',
      op2 ''bt'' ''Ev'' ''Ib'',
      op2 ''bts'' ''Ev'' ''Ib'',
      op2 ''btr'' ''Ev'' ''Ib'',
      op2 ''btc'' ''Ev'' ''Ib'']"

definition modrm_reg_group_9 :: "x86_insn_spec_t list" where
  "modrm_reg_group_9 =
     [op0 ''bad'',
      op1 ''cmpxchg'' ''Mx'',
      op0 ''bad'',
      op0 ''bad'',
      op0 ''bad'',
      op0 ''bad'',
      op0 ''bad'',
      op0 ''bad'']"

definition modrm_reg_group_10 :: "x86_insn_spec_t list" where
  "modrm_reg_group_10 =
     [op0 ''bad'',
      op0 ''bad'',
      op0 ''bad'',
      op0 ''bad'',
      op0 ''bad'',
      op0 ''bad'',
      op0 ''bad'',
      op0 ''bad'']"

definition modrm_reg_group_11 :: "x86_insn_spec_t list" where
  "modrm_reg_group_11 =
     [op0 ''mov'',
      op0 ''bad'',
      op0 ''bad'',
      op0 ''bad'',
      op0 ''bad'',
      op0 ''bad'',
      op0 ''bad'',
      op0 ''bad'']"

definition modrm_reg_group_12 :: "x86_insn_spec_t list" where
  "modrm_reg_group_12 =
     [op0 ''bad'',
      op0 ''bad'',
      op2 ''psrlw'' ''Rm'' ''Ib'',
      op0 ''bad'',
      op2 ''psraw'' ''Rm'' ''Ib'',
      op0 ''bad'',
      op2 ''psllw'' ''Rm'' ''Ib'',
      op0 ''bad'']"

definition modrm_reg_group_13 :: "x86_insn_spec_t list" where
  "modrm_reg_group_13 =
     [op0 ''bad'',
      op0 ''bad'',
      op2 ''psrld'' ''Rm'' ''Ib'',
      op0 ''bad'',
      op2 ''psrad'' ''Rm'' ''Ib'',
      op0 ''bad'',
      op2 ''pslld'' ''Rm'' ''Ib'',
      op0 ''bad'']"

definition modrm_reg_group_14 :: "x86_insn_spec_t list" where
  "modrm_reg_group_14 =
     [op0 ''bad'',
      op0 ''bad'',
      op2 ''psrlq'' ''Rm'' ''Ib'',
      op0f ''bad'' 0,
      op0 ''bad'',
      op0 ''bad'',
      op2 ''psllq'' ''Rm'' ''Ib'',
      op0f ''bad'' 0]"

definition modrm_reg_group_15 :: "x86_insn_spec_t list" where
  "modrm_reg_group_15 =
     [op1 ''fxsave'' ''Mv'',
      op1 ''fxrstor'' ''Mv'',
      op1 ''ldmxcsr'' ''Mv'',
      op1 ''stmxcsr'' ''Mv'',
      op0 ''bad'',
      op1 ''lfence'' ''Mv'',
      op1 ''mfence'' ''Mv'',
      op1 ''sfence'' ''Mv'']"

definition modrm_reg_group_16 :: "x86_insn_spec_t list" where
  "modrm_reg_group_16 =
     [op1 ''prefetch_nta'' ''Mv'',
      op1 ''prefetch_t0'' ''Mv'',
      op1 ''prefetch_t1'' ''Mv'',
      op1 ''prefetch_t2'' ''Mv'',
      op1 ''prefetch_nop'' ''Mv'',
      op1 ''prefetch_nop'' ''Mv'',
      op1 ''prefetch_nop'' ''Mv'',
      op1 ''prefetch_nop'' ''Mv'']"

definition modrm_reg_group_p :: "x86_insn_spec_t list" where
  "modrm_reg_group_p =
     [op1 ''prefetch_exclusive'' ''Mv'',
      op1 ''prefetch_modified'' ''Mv'',
      op1 ''prefetch_nop'' ''Mv'',
      op1 ''prefetch_modified'' ''Mv'',
      op1 ''prefetch_nop'' ''Mv'',
      op1 ''prefetch_nop'' ''Mv'',
      op1 ''prefetch_nop'' ''Mv'',
      op1 ''prefetch_nop'' ''Mv'']"

definition x86_insn_modrm_reg_groups :: "x86_insn_spec_t list list" where
  "x86_insn_modrm_reg_groups =
     replicate 1 zero_group8 @
     [modrm_reg_group_1, modrm_reg_group_1a, modrm_reg_group_2, modrm_reg_group_3, modrm_reg_group_4, modrm_reg_group_5, modrm_reg_group_6, modrm_reg_group_7, modrm_reg_group_8, modrm_reg_group_9, modrm_reg_group_10, modrm_reg_group_11, modrm_reg_group_12, modrm_reg_group_13, modrm_reg_group_14, modrm_reg_group_15, modrm_reg_group_16, modrm_reg_group_p]"

section \<open>SSE groups\<close>

definition sse_repz_10 :: "x86_insn_spec_t list" where
  "sse_repz_10 =
     [op2 ''movss'' ''Gx'' ''Ex'',
      op2 ''movss'' ''Ex'' ''Gx'',
      op2 ''movsldup'' ''Gx'' ''Ex'',
      op0 ''bad'',
      op0 ''bad'',
      op0 ''bad'',
      op2 ''movshdup'' ''Gx'' ''Ex'',
      op0 ''bad'']"

definition sse_repz_28 :: "x86_insn_spec_t list" where
  "sse_repz_28 =
     [op0 ''bad'',
      op0 ''bad'',
      op2 ''cvtsi2ss'' ''Gx'' ''Ev'',
      op0 ''bad'',
      op2 ''cvttss2si'' ''Gv'' ''Ex'',
      op2 ''cvtss2si'' ''Gv'' ''Ex'',
      op0 ''bad'',
      op0 ''bad'']"

definition sse_repz_50 :: "x86_insn_spec_t list" where
  "sse_repz_50 =
     [op0 ''bad'',
      op2 ''sqrtss'' ''Gx'' ''Ex'',
      op2 ''rsqrtps'' ''Gx'' ''Ex'',
      op2 ''rcpss'' ''Gx'' ''Ex'',
      op0 ''bad'',
      op0 ''bad'',
      op0 ''bad'',
      op0 ''bad'']"

definition sse_repz_58 :: "x86_insn_spec_t list" where
  "sse_repz_58 =
     [op2 ''addss'' ''Gx'' ''Ex'',
      op2 ''mulss'' ''Gx'' ''Ex'',
      op2 ''cvtss2sd'' ''Gx'' ''Ex'',
      op2 ''cvttps2dq'' ''Gx'' ''Ex'',
      op2 ''subss'' ''Gx'' ''Ex'',
      op2 ''minss'' ''Gx'' ''Ex'',
      op2 ''divss'' ''Gx'' ''Ex'',
      op2 ''maxss'' ''Gx'' ''Ex'']"

definition sse_repz_60 :: "x86_insn_spec_t list" where
  "sse_repz_60 =
     [op0 ''bad'',
      op0 ''bad'',
      op0 ''bad'',
      op0 ''bad'',
      op0 ''bad'',
      op0 ''bad'',
      op0 ''bad'',
      op0 ''bad'']"

definition sse_repz_68 :: "x86_insn_spec_t list" where
  "sse_repz_68 =
     [op0 ''bad'',
      op0 ''bad'',
      op0 ''bad'',
      op0 ''bad'',
      op0 ''bad'',
      op0 ''bad'',
      op0 ''bad'',
      op2 ''movdqu'' ''Gx'' ''Ex'']"

definition sse_repz_70 :: "x86_insn_spec_t list" where
  "sse_repz_70 =
     [op3 ''pshufhw'' ''Gx'' ''Ex'' ''Ib'',
      op0 ''bad'',
      op0 ''bad'',
      op0 ''bad'',
      op0 ''bad'',
      op0 ''bad'',
      op0 ''bad'',
      op0 ''bad'']"

definition sse_repz_78 :: "x86_insn_spec_t list" where
  "sse_repz_78 =
     [op0 ''bad'',
      op0 ''bad'',
      op0 ''bad'',
      op0 ''bad'',
      op0 ''bad'',
      op0 ''bad'',
      op2 ''movq'' ''Gx'' ''Ex'',
      op2 ''movdqu'' ''Ex'' ''Gx'']"

definition sse_repz_c0 :: "x86_insn_spec_t list" where
  "sse_repz_c0 =
     [op0 ''bad'',
      op0 ''bad'',
      op3 ''cmpss'' ''Gx'' ''Ex'' ''Ib'',
      op0 ''bad'',
      op0 ''bad'',
      op0 ''bad'',
      op0 ''bad'',
      op0 ''bad'']"

definition sse_repz_d0 :: "x86_insn_spec_t list" where
  "sse_repz_d0 =
     [op0 ''bad'',
      op0 ''bad'',
      op0 ''bad'',
      op0 ''bad'',
      op0 ''bad'',
      op0 ''bad'',
      op2 ''movq2dq'' ''Gx'' ''Em'',
      op0 ''bad'']"

definition sse_repz_d8 :: "x86_insn_spec_t list" where
  "sse_repz_d8 =
     [op0 ''bad'',
      op0 ''bad'',
      op0 ''bad'',
      op0 ''bad'',
      op0 ''bad'',
      op0 ''bad'',
      op0 ''bad'',
      op0 ''bad'']"

definition sse_repz_e0 :: "x86_insn_spec_t list" where
  "sse_repz_e0 =
     [op0 ''bad'',
      op0 ''bad'',
      op0 ''bad'',
      op0 ''bad'',
      op0 ''bad'',
      op0 ''bad'',
      op2 ''cvtdq2pd'' ''Gx'' ''Ex'',
      op0 ''bad'']"

definition sse_repz_e8 :: "x86_insn_spec_t list" where
  "sse_repz_e8 =
     [op0 ''bad'',
      op0 ''bad'',
      op0 ''bad'',
      op0 ''bad'',
      op0 ''bad'',
      op0 ''bad'',
      op0 ''bad'',
      op0 ''bad'']"

definition sse_repz_f0 :: "x86_insn_spec_t list" where
  "sse_repz_f0 =
     [op0 ''bad'',
      op0 ''bad'',
      op0 ''bad'',
      op0 ''bad'',
      op0 ''bad'',
      op0 ''bad'',
      op0 ''bad'',
      op0 ''bad'']"

definition sse_repz_f8 :: "x86_insn_spec_t list" where
  "sse_repz_f8 =
     [op0 ''bad'',
      op0 ''bad'',
      op0 ''bad'',
      op0 ''bad'',
      op0 ''bad'',
      op0 ''bad'',
      op0 ''bad'',
      op0 ''bad'']"

definition x86_insn_sse_groups_repz :: "x86_insn_spec_t list list" where
  "x86_insn_sse_groups_repz =
     replicate 20 zero_group8 @
     [sse_repz_10, sse_repz_28, sse_repz_50, sse_repz_58, sse_repz_60, sse_repz_68, sse_repz_70, sse_repz_78, sse_repz_c0, sse_repz_d0, sse_repz_d8, sse_repz_e0, sse_repz_e8, sse_repz_f0, sse_repz_f8]"

definition sse_operand_size_10 :: "x86_insn_spec_t list" where
  "sse_operand_size_10 =
     [op2 ''movupd'' ''Gx'' ''Ex'',
      op2 ''movupd'' ''Ex'' ''Gx'',
      op2 ''movlpd'' ''Gx'' ''Ex'',
      op2 ''movlpd'' ''Ex'' ''Gx'',
      op2 ''unpcklpd'' ''Gx'' ''Ex'',
      op2 ''unpckhpd'' ''Gx'' ''Ex'',
      op2 ''movhpd'' ''Gx'' ''Mx'',
      op2 ''movhpd'' ''Mx'' ''Gx'']"

definition sse_operand_size_28 :: "x86_insn_spec_t list" where
  "sse_operand_size_28 =
     [op2 ''movapd'' ''Gx'' ''Ex'',
      op2 ''movapd'' ''Ex'' ''Gx'',
      op2 ''cvtpi2pd'' ''Gx'' ''Ex'',
      op2 ''movntpd'' ''Mx'' ''Gx'',
      op2 ''cvttpd2pi'' ''Gx'' ''Mx'',
      op2 ''cvtpd2pi'' ''Gx'' ''Mx'',
      op2 ''ucomisd'' ''Gx'' ''Ex'',
      op2 ''comisd'' ''Gx'' ''Ex'']"

definition sse_operand_size_50 :: "x86_insn_spec_t list" where
  "sse_operand_size_50 =
     [op2 ''movmskpd'' ''Gd'' ''Rx'',
      op2 ''sqrtpd'' ''Gx'' ''Ex'',
      op0 ''bad'',
      op0 ''bad'',
      op2 ''andpd'' ''Gx'' ''Ex'',
      op2 ''andnpd'' ''Gx'' ''Ex'',
      op2 ''orpd'' ''Gx'' ''Ex'',
      op2 ''xorpd'' ''Gx'' ''Ex'']"

definition sse_operand_size_58 :: "x86_insn_spec_t list" where
  "sse_operand_size_58 =
     [op2 ''addpd'' ''Gx'' ''Ex'',
      op2 ''mulpd'' ''Gx'' ''Ex'',
      op2 ''cvtpd2ps'' ''Gx'' ''Ex'',
      op2 ''cvtps2dq'' ''Gx'' ''Ex'',
      op2 ''subpd'' ''Gx'' ''Ex'',
      op2 ''minpd'' ''Gx'' ''Ex'',
      op2 ''divpd'' ''Gx'' ''Ex'',
      op2 ''maxpd'' ''Gx'' ''Ex'']"

definition sse_operand_size_60 :: "x86_insn_spec_t list" where
  "sse_operand_size_60 =
     [op2 ''punpcklbw'' ''Gx'' ''Ex'',
      op2 ''punpcklwd'' ''Gx'' ''Ex'',
      op2 ''punpckldq'' ''Gx'' ''Ex'',
      op2 ''packsswb'' ''Gx'' ''Ex'',
      op2 ''pcmpgtb'' ''Gx'' ''Ex'',
      op2 ''pcmpgtw'' ''Gx'' ''Ex'',
      op2 ''pcmpgtd'' ''Gx'' ''Ex'',
      op2 ''packuswb'' ''Gx'' ''Ex'']"

definition sse_operand_size_68 :: "x86_insn_spec_t list" where
  "sse_operand_size_68 =
     [op2 ''punpckhbw'' ''Gx'' ''Ex'',
      op2 ''punpckhwd'' ''Gx'' ''Ex'',
      op2 ''punpckhdq'' ''Gx'' ''Ex'',
      op2 ''packssdw'' ''Gx'' ''Ex'',
      op2 ''punpcklqdq'' ''Gx'' ''Ex'',
      op2 ''punpckhqdq'' ''Gx'' ''Ex'',
      op2 ''movd'' ''Gx'' ''Ev'',
      op2 ''movdqa'' ''Gx'' ''Ex'']"

definition sse_operand_size_70 :: "x86_insn_spec_t list" where
  "sse_operand_size_70 =
     [op3 ''pshufd'' ''Gx'' ''Ex'' ''Ib'',
      op0f ''modrm_group_12'' (X86_INSN_FLAG X86_INSN_MODRM_REG_GROUP_12),
      op0f ''modrm_group_13'' (X86_INSN_FLAG X86_INSN_MODRM_REG_GROUP_13),
      op0f ''modrm_group_14'' (X86_INSN_FLAG X86_INSN_MODRM_REG_GROUP_14),
      op2 ''pcmpeqb'' ''Gx'' ''Ex'',
      op2 ''pcmpeqw'' ''Gx'' ''Ex'',
      op2 ''pcmpeqd'' ''Gx'' ''Ex'',
      op0 ''bad'']"

definition sse_operand_size_78 :: "x86_insn_spec_t list" where
  "sse_operand_size_78 =
     [op0 ''bad'',
      op0 ''bad'',
      op0 ''bad'',
      op0 ''bad'',
      op2 ''haddpd'' ''Gx'' ''Ex'',
      op2 ''hsubpd'' ''Gx'' ''Ex'',
      op2 ''movd'' ''Ev'' ''Gx'',
      op2 ''movdqa'' ''Ex'' ''Gx'']"

definition sse_operand_size_c0 :: "x86_insn_spec_t list" where
  "sse_operand_size_c0 =
     [op0 ''bad'',
      op0 ''bad'',
      op3 ''cmppd'' ''Gx'' ''Ex'' ''Ib'',
      op0 ''bad'',
      op3 ''pinsrw'' ''Gx'' ''Ew'' ''Ib'',
      op3 ''pextrw'' ''Gd'' ''Gx'' ''Ib'',
      op3 ''shufpd'' ''Gx'' ''Ex'' ''Ib'',
      op0 ''bad'']"

definition sse_operand_size_d0 :: "x86_insn_spec_t list" where
  "sse_operand_size_d0 =
     [op2 ''addsubpd'' ''Gx'' ''Ex'',
      op2 ''psrlw'' ''Gx'' ''Ex'',
      op2 ''psrld'' ''Gx'' ''Ex'',
      op2 ''psrlq'' ''Gx'' ''Ex'',
      op2 ''paddq'' ''Gx'' ''Ex'',
      op2 ''pmullw'' ''Gx'' ''Ex'',
      op2 ''movq'' ''Ex'' ''Gx'',
      op2 ''pmovmskb'' ''Gd'' ''Rx'']"

definition sse_operand_size_d8 :: "x86_insn_spec_t list" where
  "sse_operand_size_d8 =
     [op2 ''psubusb'' ''Gx'' ''Ex'',
      op2 ''psubusw'' ''Gx'' ''Ex'',
      op2 ''pminub'' ''Gx'' ''Ex'',
      op2 ''pand'' ''Gx'' ''Ex'',
      op2 ''paddusb'' ''Gx'' ''Ex'',
      op2 ''paddusw'' ''Gx'' ''Ex'',
      op2 ''pmaxub'' ''Gx'' ''Ex'',
      op2 ''pandn'' ''Gx'' ''Ex'']"

definition sse_operand_size_e0 :: "x86_insn_spec_t list" where
  "sse_operand_size_e0 =
     [op2 ''pavgb'' ''Gx'' ''Ex'',
      op2 ''psraw'' ''Gx'' ''Ex'',
      op2 ''psrad'' ''Gx'' ''Ex'',
      op2 ''pavgw'' ''Gx'' ''Ex'',
      op2 ''pmulhuw'' ''Gx'' ''Ex'',
      op2 ''pmulhw'' ''Gx'' ''Ex'',
      op2 ''cvttpd2dq'' ''Gx'' ''Ex'',
      op2 ''movntdq'' ''Mx'' ''Gx'']"

definition sse_operand_size_e8 :: "x86_insn_spec_t list" where
  "sse_operand_size_e8 =
     [op2 ''psubsb'' ''Gx'' ''Ex'',
      op2 ''psubsw'' ''Gx'' ''Ex'',
      op2 ''pminsw'' ''Gx'' ''Ex'',
      op2 ''por'' ''Gx'' ''Ex'',
      op2 ''paddsb'' ''Gx'' ''Ex'',
      op2 ''paddsw'' ''Gx'' ''Ex'',
      op2 ''pmaxsw'' ''Gx'' ''Ex'',
      op2 ''pxor'' ''Gx'' ''Ex'']"

definition sse_operand_size_f0 :: "x86_insn_spec_t list" where
  "sse_operand_size_f0 =
     [op0 ''bad'',
      op2 ''psllw'' ''Gx'' ''Ex'',
      op2 ''pslld'' ''Gx'' ''Ex'',
      op2 ''psllq'' ''Gx'' ''Ex'',
      op2 ''pmuludq'' ''Gx'' ''Ex'',
      op2 ''pmaddwd'' ''Gx'' ''Ex'',
      op2 ''psadbw'' ''Gx'' ''Ex'',
      op2 ''maskmovdqu'' ''Gx'' ''Ex'']"

definition sse_operand_size_f8 :: "x86_insn_spec_t list" where
  "sse_operand_size_f8 =
     [op2 ''psubb'' ''Gx'' ''Ex'',
      op2 ''psubw'' ''Gx'' ''Ex'',
      op2 ''psubd'' ''Gx'' ''Ex'',
      op2 ''psubq'' ''Gx'' ''Ex'',
      op2 ''paddb'' ''Gx'' ''Ex'',
      op2 ''paddw'' ''Gx'' ''Ex'',
      op2 ''paddd'' ''Gx'' ''Ex'',
      op0 ''bad'']"

definition x86_insn_sse_groups_operand_size :: "x86_insn_spec_t list list" where
  "x86_insn_sse_groups_operand_size =
     replicate 20 zero_group8 @
     [sse_operand_size_10, sse_operand_size_28, sse_operand_size_50, sse_operand_size_58, sse_operand_size_60, sse_operand_size_68, sse_operand_size_70, sse_operand_size_78, sse_operand_size_c0, sse_operand_size_d0, sse_operand_size_d8, sse_operand_size_e0, sse_operand_size_e8, sse_operand_size_f0, sse_operand_size_f8]"

definition sse_repnz_10 :: "x86_insn_spec_t list" where
  "sse_repnz_10 =
     [op2 ''movsd'' ''Gx'' ''Ex'',
      op2 ''movsd'' ''Ex'' ''Gx'',
      op2 ''movddup'' ''Gx'' ''Ex'',
      op0 ''bad'',
      op0 ''bad'',
      op0 ''bad'',
      op0 ''bad'',
      op0 ''bad'']"

definition sse_repnz_28 :: "x86_insn_spec_t list" where
  "sse_repnz_28 =
     [op0 ''bad'',
      op0 ''bad'',
      op2 ''cvtsi2sd'' ''Gx'' ''Ev'',
      op0 ''bad'',
      op2 ''cvttsd2si'' ''Gv'' ''Ex'',
      op2 ''cvtsd2si'' ''Gv'' ''Ex'',
      op0 ''bad'',
      op0 ''bad'']"

definition sse_repnz_50 :: "x86_insn_spec_t list" where
  "sse_repnz_50 =
     [op0 ''bad'',
      op2 ''sqrtsd'' ''Gx'' ''Ex'',
      op0 ''bad'',
      op0 ''bad'',
      op0 ''bad'',
      op0 ''bad'',
      op0 ''bad'',
      op0 ''bad'']"

definition sse_repnz_58 :: "x86_insn_spec_t list" where
  "sse_repnz_58 =
     [op2 ''addsd'' ''Gx'' ''Ex'',
      op2 ''mulsd'' ''Gx'' ''Ex'',
      op2 ''cvtsd2ss'' ''Gx'' ''Ex'',
      op0 ''bad'',
      op2 ''subsd'' ''Gx'' ''Ex'',
      op2 ''minsd'' ''Gx'' ''Ex'',
      op2 ''divsd'' ''Gx'' ''Ex'',
      op2 ''maxsd'' ''Gx'' ''Ex'']"

definition sse_repnz_60 :: "x86_insn_spec_t list" where
  "sse_repnz_60 =
     [op0 ''bad'',
      op0 ''bad'',
      op0 ''bad'',
      op0 ''bad'',
      op0 ''bad'',
      op0 ''bad'',
      op0 ''bad'',
      op0 ''bad'']"

definition sse_repnz_68 :: "x86_insn_spec_t list" where
  "sse_repnz_68 =
     [op0 ''bad'',
      op0 ''bad'',
      op0 ''bad'',
      op0 ''bad'',
      op0 ''bad'',
      op0 ''bad'',
      op0 ''bad'',
      op0 ''bad'']"

definition sse_repnz_70 :: "x86_insn_spec_t list" where
  "sse_repnz_70 =
     [op3 ''pshuflw'' ''Gx'' ''Ex'' ''Ib'',
      op0 ''bad'',
      op0 ''bad'',
      op0 ''bad'',
      op0 ''bad'',
      op0 ''bad'',
      op0 ''bad'',
      op0 ''bad'']"

definition sse_repnz_78 :: "x86_insn_spec_t list" where
  "sse_repnz_78 =
     [op0 ''bad'',
      op0 ''bad'',
      op0 ''bad'',
      op0 ''bad'',
      op2 ''haddps'' ''Gx'' ''Ex'',
      op2 ''hsubps'' ''Gx'' ''Ex'',
      op0 ''bad'',
      op0 ''bad'']"

definition sse_repnz_c0 :: "x86_insn_spec_t list" where
  "sse_repnz_c0 =
     [op0 ''bad'',
      op0 ''bad'',
      op3 ''cmpsd'' ''Gx'' ''Ex'' ''Ib'',
      op0 ''bad'',
      op0 ''bad'',
      op0 ''bad'',
      op0 ''bad'',
      op0 ''bad'']"

definition sse_repnz_d0 :: "x86_insn_spec_t list" where
  "sse_repnz_d0 =
     [op2 ''addsubps'' ''Gx'' ''Ex'',
      op0 ''bad'',
      op0 ''bad'',
      op0 ''bad'',
      op0 ''bad'',
      op0 ''bad'',
      op2 ''movdq2q'' ''Gm'' ''Ex'',
      op0 ''bad'']"

definition sse_repnz_d8 :: "x86_insn_spec_t list" where
  "sse_repnz_d8 =
     [op0 ''bad'',
      op0 ''bad'',
      op0 ''bad'',
      op0 ''bad'',
      op0 ''bad'',
      op0 ''bad'',
      op0 ''bad'',
      op0 ''bad'']"

definition sse_repnz_e0 :: "x86_insn_spec_t list" where
  "sse_repnz_e0 =
     [op0 ''bad'',
      op0 ''bad'',
      op0 ''bad'',
      op0 ''bad'',
      op0 ''bad'',
      op0 ''bad'',
      op2 ''cvtpd2dq'' ''Gx'' ''Ex'',
      op0 ''bad'']"

definition sse_repnz_e8 :: "x86_insn_spec_t list" where
  "sse_repnz_e8 =
     [op0 ''bad'',
      op0 ''bad'',
      op0 ''bad'',
      op0 ''bad'',
      op0 ''bad'',
      op0 ''bad'',
      op0 ''bad'',
      op0 ''bad'']"

definition sse_repnz_f0 :: "x86_insn_spec_t list" where
  "sse_repnz_f0 =
     [op2 ''lddqu'' ''Gx'' ''Mx'',
      op0 ''bad'',
      op0 ''bad'',
      op0 ''bad'',
      op0 ''bad'',
      op0 ''bad'',
      op0 ''bad'',
      op0 ''bad'']"

definition sse_repnz_f8 :: "x86_insn_spec_t list" where
  "sse_repnz_f8 =
     [op0 ''bad'',
      op0 ''bad'',
      op0 ''bad'',
      op0 ''bad'',
      op0 ''bad'',
      op0 ''bad'',
      op0 ''bad'',
      op0 ''bad'']"

definition x86_insn_sse_groups_repnz :: "x86_insn_spec_t list list" where
  "x86_insn_sse_groups_repnz =
     replicate 20 zero_group8 @
     [sse_repnz_10, sse_repnz_28, sse_repnz_50, sse_repnz_58, sse_repnz_60, sse_repnz_68, sse_repnz_70, sse_repnz_78, sse_repnz_c0, sse_repnz_d0, sse_repnz_d8, sse_repnz_e0, sse_repnz_e8, sse_repnz_f0, sse_repnz_f8]"

lemmas modrm_reg_group_rows =
  modrm_reg_group_1_def modrm_reg_group_1a_def modrm_reg_group_2_def modrm_reg_group_3_def
  modrm_reg_group_4_def modrm_reg_group_5_def modrm_reg_group_6_def modrm_reg_group_7_def
  modrm_reg_group_8_def modrm_reg_group_9_def modrm_reg_group_10_def modrm_reg_group_11_def
  modrm_reg_group_12_def modrm_reg_group_13_def modrm_reg_group_14_def modrm_reg_group_15_def
  modrm_reg_group_16_def modrm_reg_group_p_def

lemmas sse_repz_rows =
  sse_repz_10_def sse_repz_28_def sse_repz_50_def sse_repz_58_def
  sse_repz_60_def sse_repz_68_def sse_repz_70_def sse_repz_78_def
  sse_repz_c0_def sse_repz_d0_def sse_repz_d8_def sse_repz_e0_def
  sse_repz_e8_def sse_repz_f0_def sse_repz_f8_def

lemmas sse_operand_size_rows =
  sse_operand_size_10_def sse_operand_size_28_def sse_operand_size_50_def
  sse_operand_size_58_def sse_operand_size_60_def sse_operand_size_68_def
  sse_operand_size_70_def sse_operand_size_78_def sse_operand_size_c0_def
  sse_operand_size_d0_def sse_operand_size_d8_def sse_operand_size_e0_def
  sse_operand_size_e8_def sse_operand_size_f0_def sse_operand_size_f8_def

lemmas sse_repnz_rows =
  sse_repnz_10_def sse_repnz_28_def sse_repnz_50_def sse_repnz_58_def
  sse_repnz_60_def sse_repnz_68_def sse_repnz_70_def sse_repnz_78_def
  sse_repnz_c0_def sse_repnz_d0_def sse_repnz_d8_def sse_repnz_e0_def
  sse_repnz_e8_def sse_repnz_f0_def sse_repnz_f8_def

lemma length_x86_insn_modrm_reg_groups [simp]: "length x86_insn_modrm_reg_groups = 19"
  by (simp add: x86_insn_modrm_reg_groups_def)

lemma length_modrm_reg_group: "\<forall>g \<in> set x86_insn_modrm_reg_groups. length g = 8"
  by (simp add: x86_insn_modrm_reg_groups_def modrm_reg_group_rows zero_group8_def)

end
