(* ===== verification/X86Decode.thy ===== *)
theory X86Decode
  imports X86Reader X86OpcodeMaps X86GroupTables
begin

text \<open>
  The x86 instruction decoder (\<^verbatim>\<open>x86_insn_decode.c\<close>), function by function. The decoder reads
  through the reader of \<open>X86Reader\<close> and returns the filled structure or the fault that stopped
  it. \<^verbatim>\<open>x86_insn_decode_modrm_sib\<close> is split at its three blocks (no SIB, SIB, 16-bit addresses).
\<close>

section \<open>Field macros\<close>

definition REX_W :: "u8 \<Rightarrow> u8" where "REX_W byte = drop_bit 3 (byte AND 0b00001000)"
definition REX_R :: "u8 \<Rightarrow> u8" where "REX_R byte = drop_bit 2 (byte AND 0b00000100)"
definition REX_X :: "u8 \<Rightarrow> u8" where "REX_X byte = drop_bit 1 (byte AND 0b00000010)"
definition REX_B :: "u8 \<Rightarrow> u8" where "REX_B byte = byte AND 0b00000001"

section \<open>Prefixes\<close>

text \<open>The switch over the legacy prefixes; 0 for a byte that is none.\<close>

definition legacy_prefix :: "u8 \<Rightarrow> u32" where
  "legacy_prefix c =
     (if c = 0xF0 then INSN_PREFIX_LOCK
      else if c = 0xF2 then INSN_PREFIX_REPNZ
      else if c = 0xF3 then INSN_PREFIX_REP
      else if c = 0x2E then INSN_PREFIX_CS
      else if c = 0x36 then INSN_PREFIX_SS
      else if c = 0x3E then INSN_PREFIX_DS
      else if c = 0x26 then INSN_PREFIX_ES
      else if c = 0x64 then INSN_PREFIX_FS
      else if c = 0x65 then INSN_PREFIX_GS
      else if c = 0x66 then INSN_PREFIX_OPERAND_SIZE
      else if c = 0x67 then INSN_PREFIX_ADDRESS_SIZE
      else 0)"

definition is_rex :: "x86_options_t \<Rightarrow> u8 \<Rightarrow> bool" where
  "is_rex conf c \<longleftrightarrow> mode conf = 64 \<and> 0x40 \<le> c \<and> c \<le> 0x4f"

definition set_rex :: "u8 \<Rightarrow> x86_insn_decode_t \<Rightarrow> x86_insn_decode_t" where
  "set_rex rex insn =
     (let insn = (if REX_W rex \<noteq> 0
                  then insn\<lparr>d_flags := d_flags insn OR X86_INSN_DECODE_FLAG_OPERAND_SIZE_64\<rparr> else insn)
      in insn\<lparr>d_rex := rex\<rparr>)"

text \<open>The \<^verbatim>\<open>for (;;)\<close> loop; \<open>insn_prefix\<close> is the accumulated prefix set.\<close>

function decode_prefix_loop ::
  "u32 \<Rightarrow> x86_insn_reader_t \<Rightarrow> x86_insn_decode_t \<Rightarrow> x86_options_t \<Rightarrow>
     x86_fault + (u32 \<times> x86_insn_reader_t \<times> x86_insn_decode_t)" where
  "decode_prefix_loop insn_prefix rd insn conf =
     bindE (peek_byte rd) (\<lambda>c.
       if is_rex conf c then
         bindE (read_byte rd) (\<lambda>(rex, rd). Inr (insn_prefix, rd, set_rex rex insn))
       else if legacy_prefix c = 0 then Inr (insn_prefix, rd, insn)
       else bindE (read_byte rd)
              (\<lambda>(b, rd'). decode_prefix_loop (insn_prefix OR legacy_prefix c) rd' insn conf))"
  by pat_completeness auto
termination
  by (relation "measure (\<lambda>(_, rd, _, _).
        length (rd_array rd (fst (rd_cursor rd))) - snd (rd_cursor rd))")
     (auto simp: read_byte_def rd_load_def split: if_splits)

declare decode_prefix_loop.simps [simp del]

definition x86_insn_decode_prefix ::
  "x86_insn_reader_t \<Rightarrow> x86_insn_decode_t \<Rightarrow> x86_options_t \<Rightarrow>
     x86_fault + (u32 \<times> x86_insn_reader_t \<times> x86_insn_decode_t)" where
  "x86_insn_decode_prefix rd insn conf = decode_prefix_loop 0 rd insn conf"

section \<open>Operand shape of a specification\<close>

definition x86_insn_has_modrm_byte :: "x86_insn_spec_t \<Rightarrow> bool" where
  "x86_insn_has_modrm_byte insn \<longleftrightarrow> list_ex (\<lambda>o1. op_code o1 \<in> set ''GEMR'') (spec_operands insn)"

definition immediate_code :: "char \<Rightarrow> bool" where
  "immediate_code c \<longleftrightarrow> c = CHR ''J'' \<or> c = CHR ''I'' \<or> c = CHR ''O''"

text \<open>
  The loop bound is the size of the array in bytes (6), not its length (3): the loop leaves the
  array when none of the three operands is an immediate.
\<close>

function immediate_type_loop :: "nat \<Rightarrow> x86_insn_spec_t \<Rightarrow> x86_fault + char" where
  "immediate_type_loop i insn =
     (if i < 6 then
        (case nth_opt (spec_operands insn) i of
           None \<Rightarrow> Inl OutOfBounds
         | Some o1 \<Rightarrow> if immediate_code (op_code o1) then Inr (op_type o1)
                     else immediate_type_loop (i + 1) insn)
      else Inr (CHR 0x00))"
  by pat_completeness auto
termination
  by (relation "measure (\<lambda>(i, _). 6 - i)") auto

declare immediate_type_loop.simps [simp del]

definition x86_insn_immediate_type :: "x86_insn_spec_t \<Rightarrow> x86_fault + char" where
  "x86_insn_immediate_type insn = immediate_type_loop 0 insn"

definition x86_insn_has_immediate :: "x86_insn_spec_t \<Rightarrow> bool" where
  "x86_insn_has_immediate insn \<longleftrightarrow> list_ex (\<lambda>o1. immediate_code (op_code o1)) (spec_operands insn)"

section \<open>Numbers\<close>

definition x86_insn_decode_number ::
  "x86_insn_reader_t \<Rightarrow> u8 \<Rightarrow> x86_fault + (u64 \<times> x86_insn_reader_t)" where
  "x86_insn_decode_number rd number_bits =
     (if number_bits = 64 then read_qword rd
      else if number_bits = 32 then bindE (read_dword rd) (\<lambda>(n, rd). Inr (ucast n, rd))
      else if number_bits = 16 then bindE (read_word rd) (\<lambda>(n, rd). Inr (ucast n, rd))
      else if number_bits = 8 then bindE (read_byte rd) (\<lambda>(n, rd). Inr (ucast n, rd))
      else Inl Unreachable)"

section \<open>ModR/M, SIB and displacement\<close>

definition or_flags :: "u32 \<Rightarrow> x86_insn_decode_t \<Rightarrow> x86_insn_decode_t" where
  "or_flags f insn = insn\<lparr>d_flags := d_flags insn OR f\<rparr>"

definition upd_mem :: "(x86_insn_mem_t \<Rightarrow> x86_insn_mem_t) \<Rightarrow> x86_insn_decode_t \<Rightarrow> x86_insn_decode_t" where
  "upd_mem f insn = insn\<lparr>d_operand1 := (d_operand1 insn)\<lparr>opr_mem := f (opr_mem (d_operand1 insn))\<rparr>\<rparr>"

definition op1_base :: "x86_insn_decode_t \<Rightarrow> u8" where
  "op1_base insn = mem_base (opr_mem (d_operand1 insn))"

text \<open>The first half of the 32/64-bit block: base register and displacement width from mod and rm.\<close>

definition decode_base_disp ::
  "u8 \<Rightarrow> u8 \<Rightarrow> x86_insn_decode_t \<Rightarrow> x86_insn_decode_t \<times> u8" where
  "decode_base_disp md rm insn =
     (let insn = or_flags X86_INSN_DECODE_FLAG_HAS_BASE (upd_mem (mem_base_update (\<lambda>_. rm)) insn)
      in if md = 0 \<and> rm AND 7 = 5
         then (upd_mem (mem_base_update (\<lambda>_. ia32e_value RIP))
                 (insn\<lparr>d_flags := X86_INSN_DECODE_FLAG_IP_RELATIVE\<rparr>), 32)
         else if md = 0 then (insn, 0)
         else if md = 1 then (insn, 8)
         else if md = 2 then (insn, 32)
         else (insn, 0))"

text \<open>The register comparisons of the SIB block and the displacement width that they choose.\<close>

definition sib_fix_base :: "u8 \<Rightarrow> bool \<Rightarrow> x86_insn_decode_t \<times> u8 \<Rightarrow> x86_insn_decode_t \<times> u8" where
  "sib_fix_base md hit st =
     (if hit
      then (if md = 0 then upd_mem (mem_base_update (\<lambda>_. ia32e_value RNone)) (fst st) else fst st,
            if md = 1 then 8 else 32)
      else st)"

definition decode_sib ::
  "x86_insn_reader_t \<Rightarrow> u8 \<Rightarrow> u8 \<Rightarrow> x86_insn_decode_t \<times> u8 \<Rightarrow>
     x86_fault + (x86_insn_reader_t \<times> x86_insn_decode_t \<times> u8)" where
  "decode_sib rd md effective_address_bits st =
     bindE (read_byte rd) (\<lambda>(sib, rd).
       let insn = (fst st)\<lparr>d_sib := sib\<rparr>;
           base = sib_base sib OR push_bit 3 (REX_B (d_rex insn));
           index = sib_index sib OR push_bit 3 (REX_X (d_rex insn));
           scale = push_bit (unat (sib_log2_scale sib)) 1;
           insn = or_flags X86_INSN_DECODE_FLAG_HAS_BASE insn;
           insn = (if sib_index sib \<noteq> X86_INSN_GP_REG_SP
                   then or_flags X86_INSN_DECODE_FLAG_HAS_INDEX insn else insn);
           insn = upd_mem (\<lambda>m. m\<lparr>mem_base := base, mem_index := index, mem_scale := scale\<rparr>) insn;
           insn = (if sib_index sib = X86_INSN_GP_REG_SP
                   then upd_mem (\<lambda>m. m\<lparr>mem_index := ia32e_value RNone, mem_scale := 0\<rparr>) insn else insn);
           st = (insn, snd st);
           st = (if effective_address_bits = 64
                 then (let st = sib_fix_base md (op1_base (fst st) = ia32e_value RBP \<or>
                                                  op1_base (fst st) = ia32e_value R13) st
                       in if sib_index sib \<noteq> X86_INSN_GP_REG_SP
                          then (or_flags X86_INSN_DECODE_FLAG_HAS_INDEX (fst st), snd st) else st)
                 else st);
           st = (if effective_address_bits = 32
                 then sib_fix_base md (op1_base (fst st) = ia32e_value RBP) st else st)
       in Inr (rd, st))"

text \<open>The 16-bit block: base and index of the eight forms, and the displacement width.\<close>

definition decode_address_16 :: "u8 \<Rightarrow> x86_insn_decode_t \<times> u8 \<Rightarrow> x86_insn_decode_t \<times> u8" where
  "decode_address_16 modrm st =
     (let insn = fst st; rm = modrm_rm modrm; md = modrm_mode modrm;
          with_base = (\<lambda>b. or_flags X86_INSN_DECODE_FLAG_HAS_BASE (upd_mem (mem_base_update (\<lambda>_. b)) insn));
          with_both = (\<lambda>b i. or_flags (X86_INSN_DECODE_FLAG_HAS_BASE OR X86_INSN_DECODE_FLAG_HAS_INDEX)
                              (upd_mem (\<lambda>m. m\<lparr>mem_base := b, mem_index := i\<rparr>) insn))
      in if md = 0 \<and> rm = 6 then (insn, 16)
         else if md = 0 \<or> md = 1 \<or> md = 2 then
           (if rm = 0 \<or> rm = 1 then with_both X86_INSN_GP_REG_BX (X86_INSN_GP_REG_SI + (rm AND 1))
            else if rm = 2 \<or> rm = 3 then with_both X86_INSN_GP_REG_BP (X86_INSN_GP_REG_SI + (rm AND 1))
            else if rm = 4 \<or> rm = 5 then with_base (X86_INSN_GP_REG_SI + (rm AND 1))
            else if rm = 6 then with_base X86_INSN_GP_REG_BP
            else with_base X86_INSN_GP_REG_BX,
            if md \<noteq> 0 then (if md = 1 then 8 else 16) else snd st)
         else st)"

definition decode_displacement ::
  "x86_insn_reader_t \<Rightarrow> x86_insn_decode_t \<Rightarrow> u8 \<Rightarrow> x86_fault + (x86_insn_reader_t \<times> x86_insn_decode_t)" where
  "decode_displacement rd insn disp_bits =
     (if disp_bits \<noteq> 0 then
        bindE (reader_offset rd) (\<lambda>off.
        bindE (x86_insn_decode_number rd disp_bits) (\<lambda>(disp, rd).
          Inr (rd, upd_mem (mem_disp_update (\<lambda>_. ucast disp)) (insn\<lparr>d_displacement_offset := ucast off\<rparr>))))
      else Inr (rd, insn))"

definition effective_address :: "x86_options_t \<Rightarrow> x86_insn_decode_t \<Rightarrow> x86_fault + u8" where
  "effective_address conf insn =
     (if mode conf = 64 then Inr (if d_prefix insn AND INSN_PREFIX_ADDRESS_SIZE \<noteq> 0 then 32 else 64)
      else if mode conf = 32 then Inr (if d_prefix insn AND INSN_PREFIX_ADDRESS_SIZE \<noteq> 0 then 16 else 32)
      else Inl Fatal)"

definition x86_insn_decode_modrm_sib ::
  "x86_insn_reader_t \<Rightarrow> x86_insn_decode_t \<Rightarrow> x86_options_t \<Rightarrow>
     x86_fault + (x86_insn_reader_t \<times> x86_insn_decode_t)" where
  "x86_insn_decode_modrm_sib rd insn conf =
     bindE (read_byte rd) (\<lambda>(modrm, rd).
       let insn = insn\<lparr>d_modrm := modrm\<rparr>;
           md = modrm_mode modrm;
           rm = push_bit 3 (REX_B (d_rex insn)) OR modrm_rm modrm;
           reg = push_bit 3 (REX_R (d_rex insn)) OR modrm_reg modrm;
           insn = insn\<lparr>d_operand0 := (d_operand0 insn)\<lparr>opr_reg := reg\<rparr>\<rparr>
       in if md = 3 then Inr (rd, insn\<lparr>d_operand1 := (d_operand1 insn)\<lparr>opr_reg := rm\<rparr>\<rparr>)
          else
            (let insn = or_flags X86_INSN_DECODE_FLAG_IS_ADDRESS insn in
             bindE (effective_address conf insn) (\<lambda>effective_address_bits.
             bindE (if effective_address_bits = 32 \<or> effective_address_bits = 64
                    then (let st = decode_base_disp md rm insn in
                          if rm AND 7 = 4 then decode_sib rd md effective_address_bits st
                          else Inr (rd, st))
                    else Inr (rd, insn, - 1)) (\<lambda>(rd, st).
             let st = (if effective_address_bits = 16 then decode_address_16 modrm st else st)
             in decode_displacement rd (fst st) (snd st)))))"

section \<open>Opcode\<close>

text \<open>
  The group entry replaces the name and the flags of the specification, not its operands.
\<close>

definition group_insn :: "nat \<Rightarrow> nat \<Rightarrow> x86_fault + x86_insn_spec_t" where
  "group_insn group_ndx insn_ndx =
     (case nth_opt x86_insn_modrm_reg_groups group_ndx of None \<Rightarrow> Inl OutOfBounds
      | Some g \<Rightarrow> (case nth_opt g insn_ndx of None \<Rightarrow> Inl OutOfBounds | Some s \<Rightarrow> Inr s))"

definition decode_group ::
  "x86_insn_reader_t \<Rightarrow> x86_insn_decode_t \<Rightarrow> u8 \<Rightarrow> x86_insn_spec_t \<Rightarrow>
     x86_fault + (x86_insn_reader_t \<times> x86_insn_decode_t)" where
  "decode_group rd insn opcode insn_spec =
     (let group_ndx = X86_INSN_FLAG_GET_GROUP (spec_flags insn_spec) in
      if group_value X86_INSN_SSE_GROUP_START < group_ndx then Inl Unimplemented
      else
        bindE (if group_value X86_INSN_GROUP_START < group_ndx \<and>
                  group_ndx < group_value X86_INSN_SSE_GROUP_START
               then bindE (peek_byte rd) (\<lambda>modrm.
                    bindE (group_insn group_ndx (unat (modrm_reg modrm))) (\<lambda>g.
                      Inr (insn_spec\<lparr>spec_name := spec_name g, spec_flags := spec_flags g\<rparr>)))
               else Inr insn_spec) (\<lambda>insn_spec.
          Inr (rd, insn\<lparr>d_primary_opcode := opcode, d_insn_spec := insn_spec\<rparr>)))"

definition x86_insn_decode_opcode ::
  "x86_insn_reader_t \<Rightarrow> x86_insn_decode_t \<Rightarrow> x86_options_t \<Rightarrow>
     x86_fault + (x86_insn_reader_t \<times> x86_insn_decode_t)" where
  "x86_insn_decode_opcode rd insn conf =
     bindE (read_byte rd) (\<lambda>(opcode, rd).
       if opcode = 0x0f
       then bindE (read_byte rd) (\<lambda>(opcode, rd).
              decode_group rd insn opcode (x86_opcode_map_two_byte ! unat opcode))
       else decode_group rd insn opcode (x86_opcode_map_one_byte ! unat opcode))"

section \<open>Immediate\<close>

definition x86_insn_imm_bits :: "x86_insn_spec_t \<Rightarrow> u8 \<Rightarrow> x86_fault + u8" where
  "x86_insn_imm_bits insn operand_bits =
     bindE (x86_insn_immediate_type insn) (\<lambda>t.
       Inr (if t = CHR ''b'' then 8
            else if t = CHR ''w'' then 16
            else if t = CHR ''d'' then 32
            else if t = CHR ''q'' then 64
            else if t = CHR ''z'' then (if operand_bits = 64 then 32 else operand_bits)
            else if t = CHR ''v'' then operand_bits
            else 0))"

text \<open>\<open>None\<close> is the value of the local variable before any of the three assignments.\<close>

definition effective_operand :: "x86_options_t \<Rightarrow> x86_insn_decode_t \<Rightarrow> u8 option" where
  "effective_operand conf insn =
     (let e = (if mode conf = 64 \<or> mode conf = 32
               then Some (if d_prefix insn AND INSN_PREFIX_OPERAND_SIZE \<noteq> 0 then 16 else 32) else None);
          e = (if d_flags insn AND X86_INSN_DECODE_FLAG_OPERAND_SIZE_64 \<noteq> 0 then Some 64 else e)
      in if mode conf = 64 \<and> spec_flags (d_insn_spec insn) AND X86_INSN_SPEC_DEFAULT_64_BIT \<noteq> 0
         then Some 64 else e)"

definition x86_insn_decode_immediate ::
  "x86_insn_reader_t \<Rightarrow> x86_insn_decode_t \<Rightarrow> x86_options_t \<Rightarrow>
     x86_fault + (x86_insn_reader_t \<times> x86_insn_decode_t)" where
  "x86_insn_decode_immediate rd insn conf =
     (case effective_operand conf insn of None \<Rightarrow> Inl Uninitialised
      | Some effective_operand_bits \<Rightarrow>
        bindE (x86_insn_imm_bits (d_insn_spec insn) effective_operand_bits) (\<lambda>imm_bits.
          if imm_bits = 0 then Inr (rd, insn)
          else
            bindE (reader_offset rd) (\<lambda>off.
            bindE (x86_insn_decode_number rd imm_bits) (\<lambda>(immediate, rd).
              Inr (rd, insn\<lparr>d_immediate_offset := ucast off, d_immediate := immediate\<rparr>)))))"

section \<open>The decoder\<close>

definition x86_insn_decode ::
  "x86_insn_decode_t \<Rightarrow> u8 list \<Rightarrow> x86_options_t \<Rightarrow> x86_fault + x86_insn_decode_t" where
  "x86_insn_decode insn buffer conf =
     bindE (init_reader buffer 15) (\<lambda>rd.
     bindE (x86_insn_decode_prefix rd insn conf) (\<lambda>(prefix, rd, insn).
     bindE (x86_insn_decode_opcode rd (insn\<lparr>d_prefix := prefix\<rparr>) conf) (\<lambda>(rd, insn).
     bindE (if x86_insn_has_modrm_byte (d_insn_spec insn)
            then x86_insn_decode_modrm_sib rd insn conf else Inr (rd, insn)) (\<lambda>(rd, insn).
     bindE (if x86_insn_has_immediate (d_insn_spec insn)
            then x86_insn_decode_immediate rd insn conf else Inr (rd, insn)) (\<lambda>(rd, insn).
     bindE (reader_offset rd) (\<lambda>len. Inr (insn\<lparr>d_length := len\<rparr>)))))))"

end
