(* ===== verification/X86Shape.thy ===== *)
theory X86Shape
  imports X86Decode
begin

text \<open>
  Two reference views of what the decoder reads: the prefixes of a byte sequence, computed by
  three functions on lists without a reader, and the shape of the opcode maps, as the number of
  bytes that an instruction of a table entry can occupy.
\<close>

section \<open>Prefixes\<close>

text \<open>
  The number of prefix bytes, the set of legacy prefixes and the REX byte at the start of a
  sequence. A REX byte ends the prefixes.
\<close>

fun prefix_len :: "x86_options_t \<Rightarrow> u8 list \<Rightarrow> nat" where
  "prefix_len conf [] = 0"
| "prefix_len conf (c # cs) =
     (if is_rex conf c then 1 else if legacy_prefix c = 0 then 0 else Suc (prefix_len conf cs))"

fun prefix_set :: "x86_options_t \<Rightarrow> u8 list \<Rightarrow> u32" where
  "prefix_set conf [] = 0"
| "prefix_set conf (c # cs) =
     (if is_rex conf c \<or> legacy_prefix c = 0 then 0 else legacy_prefix c OR prefix_set conf cs)"

fun prefix_rex :: "x86_options_t \<Rightarrow> u8 list \<Rightarrow> u8 option" where
  "prefix_rex conf [] = None"
| "prefix_rex conf (c # cs) =
     (if is_rex conf c then Some c else if legacy_prefix c = 0 then None else prefix_rex conf cs)"

definition apply_rex :: "u8 option \<Rightarrow> x86_insn_decode_t \<Rightarrow> x86_insn_decode_t" where
  "apply_rex r insn = (case r of None \<Rightarrow> insn | Some rex \<Rightarrow> set_rex rex insn)"

lemma prefix_len_le: "prefix_len conf cs \<le> length cs"
  by (induction cs) auto

lemma prefix_append_int3:
  "prefix_len conf (cs @ replicate k 0xcc) = prefix_len conf cs"
  "prefix_set conf (cs @ replicate k 0xcc) = prefix_set conf cs"
  "prefix_rex conf (cs @ replicate k 0xcc) = prefix_rex conf cs"
proof (induction cs)
  case Nil
  have "\<not> is_rex conf 0xcc" "legacy_prefix 0xcc = 0"
    by (simp_all add: is_rex_def legacy_prefix_def)
  { case 1 then show ?case using \<open>\<not> is_rex conf 0xcc\<close> \<open>legacy_prefix 0xcc = 0\<close> by (cases k) simp_all
  next case 2 then show ?case using \<open>legacy_prefix 0xcc = 0\<close> by (cases k) simp_all
  next case 3 then show ?case using \<open>\<not> is_rex conf 0xcc\<close> \<open>legacy_prefix 0xcc = 0\<close> by (cases k) simp_all
  }
qed simp_all

lemma decode_prefix_loop_at:
  assumes "rd_at rd i" and "i + prefix_len conf (drop i (rd_buffer rd)) < 20"
  shows "decode_prefix_loop acc rd insn conf =
    Inr (acc OR prefix_set conf (drop i (rd_buffer rd)),
         rd_advance (prefix_len conf (drop i (rd_buffer rd))) rd,
         apply_rex (prefix_rex conf (drop i (rd_buffer rd))) insn)"
  using assms
proof (induction "20 - i" arbitrary: rd i acc rule: less_induct)
  case less
  define c where "c = rd_buffer rd ! i"
  have i: "i < 20" using less.prems(2) by simp
  have len: "length (rd_buffer rd) = 20" using less.prems(1) by (simp add: rd_at_def)
  have d: "drop i (rd_buffer rd) = c # drop (Suc i) (rd_buffer rd)"
    using i len by (simp add: c_def Cons_nth_drop_Suc)
  note unfold = decode_prefix_loop.simps [of acc rd insn conf]
    peek_byte_at [OF less.prems(1) i] read_byte_at [OF less.prems(1) i]
  consider (rex) "is_rex conf c" | (none) "\<not> is_rex conf c" "legacy_prefix c = 0"
    | (legacy) "\<not> is_rex conf c" "legacy_prefix c \<noteq> 0" by blast
  then show ?case
  proof cases
    case rex
    then show ?thesis by (simp add: unfold d c_def [symmetric] apply_rex_def)
  next
    case none
    then show ?thesis
      by (simp add: unfold d c_def [symmetric] apply_rex_def rd_advance_def)
  next
    case legacy
    have at: "rd_at (rd_advance 1 rd) (i + 1)" using less.prems(1) by (rule rd_at_advance)
    have pl: "i + 1 + prefix_len conf (drop (i + 1) (rd_buffer (rd_advance 1 rd))) < 20"
      using less.prems(2) legacy d by simp
    have adv: "rd_advance m (rd_advance (Suc 0) rd) = rd_advance (Suc m) rd" for m
      by (simp add: rd_advance_def)
    show ?thesis
      using less.hyps [OF _ at pl, of "acc OR legacy_prefix c"] i legacy
      by (simp add: unfold d c_def [symmetric] or.assoc adv)
  qed
qed
section \<open>Shape of the opcode maps\<close>

text \<open>
  The number of bytes that an immediate of a type letter makes the reader load. The letters
  \<^verbatim>\<open>d\<close> and \<^verbatim>\<open>q\<close> do not occur in the maps; the bound 20 for them fails every check below.
\<close>

fun imm_load :: "char \<Rightarrow> nat" where
  "imm_load t = (if t = CHR ''b'' then 1 else if t = CHR ''w'' then 2
                 else if t = CHR ''z'' then 4 else if t = CHR ''v'' then 8 else 20)"

text \<open>
  An entry whose opcode takes \<open>k\<close> bytes fits when opcode, ModR/M, SIB, displacement and immediate
  take at most 11 bytes, and when the search for its immediate stays inside the operand array.
\<close>

definition spec_fits :: "nat \<Rightarrow> x86_insn_spec_t \<Rightarrow> bool" where
  "spec_fits k s \<longleftrightarrow> length (spec_operands s) = 3 \<and>
     (let m = (if x86_insn_has_modrm_byte s then 6 else 0) in
      k + m \<le> 11 \<and> 
      (x86_insn_has_immediate s \<longrightarrow>
         (case x86_insn_immediate_type s of Inl _ \<Rightarrow> False | Inr t \<Rightarrow> k + m + imm_load t \<le> 11)))"

lemma immediate_type_3:
  "x86_insn_immediate_type \<lparr>spec_name = x, spec_operands = [a, b, c], spec_flags = f\<rparr> =
     (if immediate_code (op_code a) then Inr (op_type a)
      else if immediate_code (op_code b) then Inr (op_type b)
      else if immediate_code (op_code c) then Inr (op_type c) else Inl OutOfBounds)"
  by (simp add: x86_insn_immediate_type_def immediate_type_loop.simps nth_opt_def)

lemmas spec_fits_simps = spec_fits_def x86_insn_has_modrm_byte_def x86_insn_has_immediate_def
  immediate_code_def immediate_type_3

lemma one_byte_fits: "list_all (spec_fits 1) x86_opcode_map_one_byte"
  unfolding x86_opcode_map_one_byte_def one_byte_rows table_defs by (simp add: spec_fits_simps)

lemma two_byte_fits: "list_all (spec_fits 2) x86_opcode_map_two_byte"
  unfolding x86_opcode_map_two_byte_def two_byte_rows table_defs by (simp add: spec_fits_simps)

lemma list_all_nth: "list_all P xs \<Longrightarrow> i < length xs \<Longrightarrow> P (xs ! i)"
  by (simp add: list_all_length)

lemma unat_u8_less [simp]: "unat (w :: u8) < 256"
  using unsigned_less [of w] by simp

lemma immediate_type_loop_operands:
  "spec_operands s' = spec_operands s \<Longrightarrow> immediate_type_loop i s' = immediate_type_loop i s"
proof (induction i s rule: immediate_type_loop.induct)
  case (1 i s)
  show ?case
    by (subst (1 2) immediate_type_loop.simps)
       (auto simp: "1.prems" split: option.split intro!: "1.IH" [simplified])
qed

lemma spec_fits_group [simp]:
  "spec_fits k (s\<lparr>spec_name := n, spec_flags := f\<rparr>) = spec_fits k s"
  "x86_insn_has_modrm_byte (s\<lparr>spec_name := n, spec_flags := f\<rparr>) = x86_insn_has_modrm_byte s"
  by (simp_all add: spec_fits_def x86_insn_has_modrm_byte_def x86_insn_has_immediate_def
       x86_insn_immediate_type_def immediate_type_loop_operands [of "s\<lparr>spec_name := n, spec_flags := f\<rparr>" s])


end
