(* ===== verification/X86Stages.thy ===== *)
theory X86Stages
  imports X86Shape
begin

text \<open>
  The stages of the decoder as steps of the cursor: each stage is described by the faults it may
  raise, the number of bytes it may take and a postcondition on the structure. The lemmas compose
  along the monad (\<open>stage_bind\<close>), so the decoder's theorem is the composition of its stages.
\<close>

section \<open>Stages of the decoder\<close>

definition stage ::
  "x86_fault set \<Rightarrow> x86_insn_reader_t \<Rightarrow> nat \<Rightarrow> nat \<Rightarrow> (nat \<Rightarrow> x86_insn_decode_t \<Rightarrow> bool) \<Rightarrow>
     x86_fault + (x86_insn_reader_t \<times> x86_insn_decode_t) \<Rightarrow> bool" where
  "stage E rd i k P m \<longleftrightarrow>
     (case m of Inl e \<Rightarrow> e \<in> E
      | Inr (rd', insn') \<Rightarrow> \<exists>j. rd_at rd' j \<and> rd_buffer rd' = rd_buffer rd \<and> i \<le> j \<and> j \<le> i + k \<and> P j insn')"

lemma stage_Inl [simp]: "stage E rd i k P (Inl e) \<longleftrightarrow> e \<in> E"
  by (simp add: stage_def)

lemma stage_Inr: "stage E rd i k P (Inr (rd', insn')) \<longleftrightarrow>
   (\<exists>j. rd_at rd' j \<and> rd_buffer rd' = rd_buffer rd \<and> i \<le> j \<and> j \<le> i + k \<and> P j insn')"
  by (simp add: stage_def)

lemma stage_mono: 
  assumes "stage E rd i k P m" and "E \<subseteq> E'" and "k \<le> k'" 
    and "\<And>j insn'. i \<le> j \<Longrightarrow> j \<le> i + k \<Longrightarrow> P j insn' \<Longrightarrow> Q j insn'"
  shows "stage E' rd i k' Q m"
proof (cases m)
  case (Inl e)
  then show ?thesis using assms by auto
next
  case (Inr r)
  obtain rd' insn' where "r = (rd', insn')" by (cases r)
  then show ?thesis using assms Inr by (fastforce simp: stage_Inr)
qed

lemma stage_bind:
  assumes "stage E rd i k P m"
    and "\<And>rd' insn' j. rd_at rd' j \<Longrightarrow> rd_buffer rd' = rd_buffer rd \<Longrightarrow> i \<le> j \<Longrightarrow> j \<le> i + k \<Longrightarrow> P j insn' \<Longrightarrow>
           stage E rd0 p n Q (f (rd', insn'))"
  shows "stage E rd0 p n Q (bindE m f)"
  using assms by (cases m) (auto simp: stage_Inr)

lemma decode_number_at:
  assumes "rd_at rd i" and "n \<in> {8, 16, 32, 64}" and "i + unat n div 8 \<le> 20"
  shows "\<exists>v. x86_insn_decode_number rd n = Inr (v, rd_advance (min 4 (unat n div 8)) rd)"
  using assms by (auto simp: x86_insn_decode_number_def reader_at)

lemma decode_displacement_stage:
  assumes at: "rd_at rd i" and room: "i + 4 \<le> 20"
    and bits: "n \<notin> {0, 8, 16, 32} \<Longrightarrow> n \<noteq> 64 \<and> Unreachable \<in> E"
  shows "stage E rd i 4 (\<lambda>j insn'. \<exists>d. insn' = (if n = 0 then insn else
             upd_mem (mem_disp_update (\<lambda>_. d)) (insn\<lparr>d_displacement_offset := of_nat i\<rparr>)) \<and>
             j = i + unat n div 8 \<and> n \<in> {0, 8, 16, 32}) (decode_displacement rd insn n)"
proof -
  consider "n = 0" | "n \<in> {8, 16, 32}" | "n \<notin> {0, 8, 16, 32, 64}" using bits by blast
  then show ?thesis
  proof cases
    case 1
    then show ?thesis using at by (auto simp: decode_displacement_def stage_Inr)
  next
    case 2
    then have "i + unat n div 8 \<le> 20" using room by auto
    then obtain v where v: "x86_insn_decode_number rd n = Inr (v, rd_advance (unat n div 8) rd)"
      using decode_number_at [OF at, of n] 2 by auto
    have 4: "unat n div 8 \<le> 4" "n \<noteq> 0" using 2 by auto
    have at': "rd_at (rd_advance (unat n div 8) rd) (i + unat n div 8)" using at by (rule rd_at_advance)
    have "ucast (of_nat i :: u32) = (of_nat i :: u8)" using room by (simp add: unsigned_of_nat take_bit_nat_eq_self)
    with 2 4 at' show ?thesis
      by (auto simp: decode_displacement_def reader_offset_at [OF at] v stage_Inr)
  next
    case 3
    then show ?thesis using bits
      by (auto simp: decode_displacement_def reader_offset_at [OF at] x86_insn_decode_number_def)
  qed
qed

text \<open>What the addressing stage may leave behind in \<^verbatim>\<open>disp_bits\<close>.\<close>

definition disp_bits_ok :: "u8 \<Rightarrow> bool" where
  "disp_bits_ok n \<longleftrightarrow> n = 0 \<or> n = 8 \<or> n = 32"

lemma disp_bits_ok [simp]: "disp_bits_ok 0" "disp_bits_ok 8" "disp_bits_ok 32"
  by (simp_all add: disp_bits_ok_def)

lemma sib_fix_base_bits [simp]: "disp_bits_ok (snd st) \<Longrightarrow> disp_bits_ok (snd (sib_fix_base md hit st))"
  by (simp add: sib_fix_base_def)

definition keeps :: "x86_insn_decode_t \<Rightarrow> x86_insn_decode_t \<Rightarrow> bool" where
  "keeps a b \<longleftrightarrow> d_insn_spec b = d_insn_spec a \<and> d_prefix b = d_prefix a \<and> d_rex b = d_rex a \<and>
     d_displacement_offset b = d_displacement_offset a \<and> d_immediate_offset b = d_immediate_offset a"

lemma keeps_refl [simp]: "keeps a a" by (simp add: keeps_def)

lemma keeps_trans [trans]: "keeps a b \<Longrightarrow> keeps b c \<Longrightarrow> keeps a c" by (simp add: keeps_def)

lemma keeps_updates [simp]:
  "keeps a (or_flags f b) = keeps a b"
  "keeps a (upd_mem g b) = keeps a b"
  "keeps a (b\<lparr>d_flags := f\<rparr>) = keeps a b"
  "keeps a (b\<lparr>d_modrm := m\<rparr>) = keeps a b"
  "keeps a (b\<lparr>d_sib := m\<rparr>) = keeps a b"
  "keeps a (b\<lparr>d_operand0 := p\<rparr>) = keeps a b"
  "keeps a (b\<lparr>d_operand1 := p\<rparr>) = keeps a b"
  by (simp_all add: keeps_def or_flags_def upd_mem_def)

abbreviation ip_relative :: "x86_insn_decode_t \<Rightarrow> bool" where
  "ip_relative insn \<equiv> bit (d_flags insn) 3"

lemma ip_relative_simps [simp]:
  "ip_relative (or_flags X86_INSN_DECODE_FLAG_HAS_BASE insn) = ip_relative insn"
  "ip_relative (or_flags X86_INSN_DECODE_FLAG_HAS_INDEX insn) = ip_relative insn"
  "ip_relative (or_flags X86_INSN_DECODE_FLAG_IS_ADDRESS insn) = ip_relative insn"
  "ip_relative (upd_mem g insn) = ip_relative insn"
  "bit X86_INSN_DECODE_FLAG_IP_RELATIVE 3"
  "ip_relative (insn\<lparr>d_modrm := m\<rparr>) = ip_relative insn"
  "ip_relative (insn\<lparr>d_sib := m\<rparr>) = ip_relative insn"
  "ip_relative (insn\<lparr>d_operand0 := p\<rparr>) = ip_relative insn"
  by (auto simp: or_flags_def upd_mem_def decode_flag_defs bit_simps)

lemma decode_base_disp_result:
  assumes "\<not> ip_relative insn"
  shows "keeps insn (fst (decode_base_disp md rm insn))"
    and "disp_bits_ok (snd (decode_base_disp md rm insn))"
    and "ip_relative (fst (decode_base_disp md rm insn)) \<longleftrightarrow> md = 0 \<and> rm AND 7 = 5"
    and "ip_relative (fst (decode_base_disp md rm insn)) \<Longrightarrow> snd (decode_base_disp md rm insn) = 32"
  using assms by (simp_all add: decode_base_disp_def Let_def split: if_splits)

lemma sib_fix_base_result [simp]:
  "keeps a (fst (sib_fix_base md hit st)) = keeps a (fst st)"
  "ip_relative (fst (sib_fix_base md hit st)) = ip_relative (fst st)"
  by (simp_all add: sib_fix_base_def)

lemma decode_sib_at:
  assumes "rd_at rd i" and "i < 20" and "disp_bits_ok (snd st)"
  shows "\<exists>st'. decode_sib rd md ea st = Inr (rd_advance 1 rd, st') \<and> disp_bits_ok (snd st') \<and>
           keeps (fst st) (fst st') \<and> ip_relative (fst st') = ip_relative (fst st)"
  using assms by (simp add: decode_sib_def reader_at Let_def)


text \<open>What the stages after the opcode do to the structure: the ones before kept, offsets inside.\<close>

definition modrm_post :: "nat \<Rightarrow> x86_insn_decode_t \<Rightarrow> nat \<Rightarrow> x86_insn_decode_t \<Rightarrow> bool" where
  "modrm_post i insn j insn' \<longleftrightarrow> i < j \<and>
     d_insn_spec insn' = d_insn_spec insn \<and> d_prefix insn' = d_prefix insn \<and>
     d_immediate_offset insn' = d_immediate_offset insn \<and>
     (d_displacement_offset insn' = d_displacement_offset insn \<and> \<not> ip_relative insn' \<or>
      (\<exists>k. d_displacement_offset insn' = of_nat k \<and> i < k \<and> k < j \<and> (ip_relative insn' \<longrightarrow> k + 4 = j)))"

lemma decode_displacement_post:
  assumes at: "rd_at rd i'" and i: "i < i'" "i' \<le> i + 2" "i + 6 \<le> 20" and keep: "keeps insn (fst st)"
    and bits: "snd st \<notin> {0, 8, 16, 32} \<Longrightarrow> snd st \<noteq> 64 \<and> Unreachable \<in> E"
    and ip: "ip_relative (fst st) \<Longrightarrow> snd st = 32" and buf: "rd_buffer rd = rd_buffer rd0"
  shows "stage E rd0 i 6 (modrm_post i insn) (decode_displacement rd (fst st) (snd st))"
proof -
  have room: "i' + 4 \<le> 20" using i by simp
  let ?Q = "\<lambda>j insn'. \<exists>d. insn' = (if snd st = 0 then fst st else
             upd_mem (mem_disp_update (\<lambda>_. d)) ((fst st)\<lparr>d_displacement_offset := of_nat i'\<rparr>)) \<and>
             j = i' + unat (snd st) div 8 \<and> snd st \<in> {0, 8, 16, 32}"
  note st = decode_displacement_stage [OF at room bits, of "fst st"]
  have "stage E rd i' 4 (modrm_post i insn) (decode_displacement rd (fst st) (snd st))"
  proof (rule stage_mono [OF st])
    fix j insn'
    assume j: "i' \<le> j" "j \<le> i' + 4" and Q: "?Q j insn'"
    show "modrm_post i insn j insn'"
    proof (cases "snd st = 0")
      case True
      then show ?thesis using Q j i keep ip by (auto simp: modrm_post_def keeps_def)
    next
      case False
      then have "i' < j" using Q by auto
      then show ?thesis using False Q i keep ip
        by (auto simp: modrm_post_def keeps_def upd_mem_def)
    qed
  qed auto
  then show ?thesis using i buf unfolding stage_def by (auto split: sum.splits)
qed

lemma decode_address_16_result:
  assumes "\<not> ip_relative (fst st)" and "snd st = - 1"
  shows "keeps a (fst (decode_address_16 modrm st)) = keeps a (fst st)"
    and "\<not> ip_relative (fst (decode_address_16 modrm st))"
    and "snd (decode_address_16 modrm st) \<in> {8, 16, - 1}"
  using assms by (simp_all add: decode_address_16_def Let_def or_flags_def decode_flag_defs upd_mem_def
      keeps_def bit_simps)

lemma effective_address_cases:
  assumes "mode conf = 32 \<or> mode conf = 64"
  obtains (narrow) "effective_address conf insn = Inr 16" "mode conf = 32"
      "d_prefix insn AND INSN_PREFIX_ADDRESS_SIZE \<noteq> 0"
    | (wide) ea where "effective_address conf insn = Inr ea" "ea = 32 \<or> ea = 64"
  using assms by (force simp: effective_address_def)

lemma modrm_sib_stage:
  assumes at: "rd_at rd i" and room: "i + 6 \<le> 20" and md: "mode conf = 32 \<or> mode conf = 64"
    and nip: "\<not> ip_relative insn"
    and abort: "mode conf = 32 \<Longrightarrow> d_prefix insn AND INSN_PREFIX_ADDRESS_SIZE \<noteq> 0 \<Longrightarrow> Unreachable \<in> E"
  shows "stage E rd i 6 (modrm_post i insn) (x86_insn_decode_modrm_sib rd insn conf)"
proof -
  have i: "i < 20" "i + 1 < 20" using room by simp_all
  have at1: "rd_at (rd_advance 1 rd) (i + 1)" using at by (rule rd_at_advance)
  have at2: "rd_at (rd_advance 1 (rd_advance 1 rd)) (i + 1 + 1)" using at1 by (rule rd_at_advance)
  define m where "m = rd_buffer rd ! i"
  define rm where "rm = push_bit 3 (REX_B (d_rex insn)) OR modrm_rm m"
  define insn1 where "insn1 = or_flags X86_INSN_DECODE_FLAG_IS_ADDRESS (insn\<lparr>d_modrm := m,
     d_operand0 := (d_operand0 insn)\<lparr>opr_reg := push_bit 3 (REX_R (d_rex insn)) OR modrm_reg m\<rparr>\<rparr>)"
  have keep1: "keeps insn insn1" and nip1: "\<not> ip_relative insn1" and pre1: "d_prefix insn1 = d_prefix insn"
    using nip by (simp_all add: insn1_def) (simp add: or_flags_def)
  note res = decode_base_disp_result [OF nip1, of "modrm_mode m" rm]
  show ?thesis
  proof (cases "modrm_mode m = 3")
    case True
    then show ?thesis using at1 nip
      by (auto simp: x86_insn_decode_modrm_sib_def reader_at [OF at] i m_def stage_Inr modrm_post_def Let_def)
  next
    case False
    have unfold: "x86_insn_decode_modrm_sib rd insn conf =
        bindE (if ea = 32 \<or> ea = 64
               then (let st = decode_base_disp (modrm_mode m) rm insn1 in
                     if rm AND 7 = 4 then decode_sib (rd_advance 1 rd) (modrm_mode m) ea st
                     else Inr (rd_advance 1 rd, st))
               else Inr (rd_advance 1 rd, insn1, - 1)) (\<lambda>(rd, st).
        let st = (if ea = 16 then decode_address_16 m st else st)
        in decode_displacement rd (fst st) (snd st))" if "effective_address conf insn1 = Inr ea" for ea
      using False that i
      by (simp add: x86_insn_decode_modrm_sib_def reader_at [OF at] m_def rm_def insn1_def Let_def)
    from md show ?thesis
    proof (cases rule: effective_address_cases [where insn = insn1])
      case narrow
      let ?st = "decode_address_16 m (insn1, - 1)"
      have res16: "keeps insn (fst ?st)" "\<not> ip_relative (fst ?st)" "snd ?st \<in> {8, 16, - 1}"
        using decode_address_16_result [of "(insn1, - 1)"] nip1 keep1 by simp_all
      have "Unreachable \<in> E" using narrow abort by (simp add: pre1)
      then have "stage E rd i 6 (modrm_post i insn) (decode_displacement (rd_advance 1 rd) (fst ?st) (snd ?st))"
        using res16 room by (intro decode_displacement_post [OF at1]) auto
      then show ?thesis by (simp add: unfold [OF narrow(1)] Let_def)
    next
      case (wide ea)
      let ?st = "decode_base_disp (modrm_mode m) rm insn1"
      have keep: "keeps insn (fst ?st)" using keep1 res(1) by (rule keeps_trans)
      show ?thesis
      proof (cases "rm AND 7 = 4")
        case True
        obtain st' where st': "decode_sib (rd_advance 1 rd) (modrm_mode m) ea ?st =
              Inr (rd_advance 1 (rd_advance 1 rd), st')" "disp_bits_ok (snd st')"
            "keeps (fst ?st) (fst st')" "\<not> ip_relative (fst st')"
          using decode_sib_at [OF at1 i(2) res(2), of "modrm_mode m" ea] res(3) True by auto
        have "stage E rd i 6 (modrm_post i insn)
            (decode_displacement (rd_advance 1 (rd_advance 1 rd)) (fst st') (snd st'))"
          using st' room keeps_trans [OF keep st'(3)]
          by (intro decode_displacement_post [OF at2]) (auto simp: disp_bits_ok_def)
        then show ?thesis using wide(2) True st'(1) by (auto simp: unfold [OF wide(1)] Let_def)
      next
        case no_sib: False
        have "stage E rd i 6 (modrm_post i insn) (decode_displacement (rd_advance 1 rd) (fst ?st) (snd ?st))"
          using res keep room by (intro decode_displacement_post [OF at1]) (auto simp: disp_bits_ok_def)
        then show ?thesis using wide(2) no_sib by (auto simp: unfold [OF wide(1)] Let_def)
      qed
    qed
  qed
qed

lemma group_insn_total:
  assumes "n < 19" and "k < 8"
  shows "\<exists>g. group_insn n k = Inr g"
proof -
  have "x86_insn_modrm_reg_groups ! n \<in> set x86_insn_modrm_reg_groups" using assms by simp
  then have "length (x86_insn_modrm_reg_groups ! n) = 8" using length_modrm_reg_group by blast
  then show ?thesis using assms by (simp add: group_insn_def)
qed

lemma modrm_reg_less: "unat (modrm_reg m) < 8"
  unfolding modrm_reg_def unsigned_take_bit_eq using take_bit_nat_less_exp [of 3] by simp

definition opcode_post :: "nat \<Rightarrow> x86_insn_decode_t \<Rightarrow> nat \<Rightarrow> x86_insn_decode_t \<Rightarrow> bool" where
  "opcode_post i insn j insn' \<longleftrightarrow> i < j \<and> spec_fits (j - i) (d_insn_spec insn') \<and>
     d_prefix insn' = d_prefix insn \<and> d_rex insn' = d_rex insn \<and> d_flags insn' = d_flags insn \<and>
     d_displacement_offset insn' = d_displacement_offset insn \<and>
     d_immediate_offset insn' = d_immediate_offset insn"

text \<open>The part of the opcode stage that follows the lookup in the opcode map.\<close>

lemma opcode_select_stage:
  assumes at: "rd_at rd j" and j: "j < 20" "i < j" "j \<le> i + 2" and fits: "spec_fits (j - i) s"
    and buf: "rd_buffer rd = rd_buffer rd0"
  shows "stage {Unimplemented} rd0 i 2 (opcode_post i insn)
     (decode_group rd insn opcode s)"
proof -
  let ?n = "X86_INSN_FLAG_GET_GROUP (spec_flags s)"
  have fin: "stage {Unimplemented} rd0 i 2 (opcode_post i insn)
        (Inr (rd, insn\<lparr>d_primary_opcode := opcode, d_insn_spec := s'\<rparr>))" if "spec_fits (j - i) s'" for s'
    using that at j buf by (auto simp: stage_Inr opcode_post_def)
  consider "19 < ?n" | "?n = 19 \<or> ?n = 0" | "0 < ?n" "?n < 19" by linarith
  then show ?thesis
  proof cases
    case 3
    then obtain g where "group_insn ?n (unat (modrm_reg (rd_buffer rd ! j))) = Inr g"
      using group_insn_total modrm_reg_less by blast
    then show ?thesis
      using 3 fits by (simp add: decode_group_def reader_at [OF at] j fin)
  qed (use fits fin in \<open>auto simp: decode_group_def\<close>)
qed

lemma decode_opcode_stage:
  assumes at: "rd_at rd i" and room: "i + 2 < 20"
  shows "stage {Unimplemented} rd i 2 (opcode_post i insn) (x86_insn_decode_opcode rd insn conf)"
proof -
  have i: "i < 20" "i + 1 < 20" using room by simp_all
  have at1: "rd_at (rd_advance 1 rd) (i + 1)" using at by (rule rd_at_advance)
  have at2: "rd_at (rd_advance 1 (rd_advance 1 rd)) (i + 1 + 1)" using at1 by (rule rd_at_advance)
  have c1: "i + 1 < 20" "i < i + 1" "i + 1 \<le> i + 2" and b1: "rd_buffer (rd_advance 1 rd) = rd_buffer rd"
    using room by simp_all
  have c2: "i + 1 + 1 < 20" "i < i + 1 + 1" "i + 1 + 1 \<le> i + 2"
    and b2: "rd_buffer (rd_advance 1 (rd_advance 1 rd)) = rd_buffer rd"
    using room by simp_all
  let ?c = "rd_buffer rd ! i" and ?d = "rd_buffer rd ! (i + 1)"
  show ?thesis
  proof (cases "?c = 0x0f")
    case True
    have fits: "spec_fits (i + 1 + 1 - i) (x86_opcode_map_two_byte ! unat ?d)"
      using list_all_nth [OF two_byte_fits, of "unat ?d"] by simp
    show ?thesis
      using opcode_select_stage [OF at2 c2 fits b2, of insn ?d] True
      unfolding x86_insn_decode_opcode_def read_byte_at [OF at i(1)]
      by (simp add: read_byte_at [OF at1 i(2), simplified])
  next
    case False
    have fits: "spec_fits (i + 1 - i) (x86_opcode_map_one_byte ! unat ?c)"
      using list_all_nth [OF one_byte_fits, of "unat ?c"] by simp
    show ?thesis
      using opcode_select_stage [OF at1 c1 fits b1, of insn ?c] False
      unfolding x86_insn_decode_opcode_def read_byte_at [OF at i(1)] by simp
  qed
qed

definition imm_post :: "nat \<Rightarrow> x86_insn_decode_t \<Rightarrow> nat \<Rightarrow> x86_insn_decode_t \<Rightarrow> bool" where
  "imm_post i insn j insn' \<longleftrightarrow> i < j \<and> j \<le> i + 4 \<and> d_immediate_offset insn' = of_nat i \<and>
     d_displacement_offset insn' = d_displacement_offset insn \<and> d_flags insn' = d_flags insn"

lemma effective_operand_cases:
  assumes "mode conf = 32 \<or> mode conf = 64"
  obtains w where "effective_operand conf insn = Some w" "w = 16 \<or> w = 32 \<or> w = 64"
  using assms by (cases "effective_operand conf insn") (auto simp: effective_operand_def Let_def split: if_splits)

lemma imm_bits_cases:
  assumes "x86_insn_immediate_type s = Inr t" and "w = 16 \<or> w = 32 \<or> w = 64" and "imm_load t \<le> 10"
  obtains n where "x86_insn_imm_bits s w = Inr n" "n \<in> {8, 16, 32, 64}" "unat n div 8 \<le> imm_load t"
  using assms by (cases "x86_insn_imm_bits s w") (auto simp: x86_insn_imm_bits_def split: if_splits)

lemma decode_immediate_stage:
  assumes at: "rd_at rd i" and md: "mode conf = 32 \<or> mode conf = 64"
    and ty: "x86_insn_immediate_type (d_insn_spec insn) = Inr t" and room: "i + imm_load t \<le> 20" 
    and t: "imm_load t \<le> 10"
  shows "stage E rd i (imm_load t) (imm_post i insn) (x86_insn_decode_immediate rd insn conf)"
proof -
  obtain w where w: "effective_operand conf insn = Some w" "w = 16 \<or> w = 32 \<or> w = 64"
    using md by (rule effective_operand_cases)
  obtain n where n: "x86_insn_imm_bits (d_insn_spec insn) w = Inr n" "n \<in> {8, 16, 32, 64}"
      "unat n div 8 \<le> imm_load t" using ty w(2) t by (rule imm_bits_cases)
  have "i + unat n div 8 \<le> 20" using n(3) room by simp
  then obtain v where v: "x86_insn_decode_number rd n = Inr (v, rd_advance (min 4 (unat n div 8)) rd)"
    using decode_number_at [OF at n(2)] by blast
  have at': "rd_at (rd_advance (min 4 (unat n div 8)) rd) (i + min 4 (unat n div 8))"
    using at by (rule rd_at_advance)
  have pos: "0 < unat n div 8" "n \<noteq> 0" "min 4 (unat n div 8) \<le> imm_load t" using n(2,3) by auto
  have "i \<le> 20" using room by simp
  then have "ucast (of_nat i :: u32) = (of_nat i :: u8)" by (simp add: unsigned_of_nat take_bit_nat_eq_self)
  then show ?thesis using at' pos
    by (auto simp: x86_insn_decode_immediate_def w(1) n(1) v reader_offset_at [OF at] stage_Inr imm_post_def
        intro!: exI [of _ "i + min 4 (unat n div 8)"])
qed

section \<open>The whole decoder\<close>

definition allowed_faults :: "x86_options_t \<Rightarrow> u32 \<Rightarrow> x86_fault set" where
  "allowed_faults conf prefix =
     (if mode conf = 32 \<and> prefix AND INSN_PREFIX_ADDRESS_SIZE \<noteq> 0 then {Unimplemented, Unreachable}
      else {Unimplemented})"

definition layout_ok :: "nat \<Rightarrow> x86_insn_decode_t \<Rightarrow> bool" where
  "layout_ok p insn \<longleftrightarrow>
     (let n = unat (d_length insn); d = unat (d_displacement_offset insn); m = unat (d_immediate_offset insn)
      in p < n \<and> n \<le> p + 11 \<and> (d \<noteq> 0 \<longrightarrow> p < d \<and> d < n) \<and> (m \<noteq> 0 \<longrightarrow> p < m \<and> d < m \<and> m < n \<and> n \<le> m + 4) \<and>
         (bit (d_flags insn) 3 \<longrightarrow> p < d \<and> d + 4 = (if m \<noteq> 0 then m else n)))"

definition tail_post :: "nat \<Rightarrow> nat \<Rightarrow> x86_insn_decode_t \<Rightarrow> bool" where
  "tail_post p j insn' \<longleftrightarrow> layout_ok p (insn'\<lparr>d_length := of_nat j\<rparr>)"

lemma unat_of_nat_small [simp]:
  "i \<le> 20 \<Longrightarrow> unat (of_nat i :: u8) = i"
  "i \<le> 20 \<Longrightarrow> unat (of_nat i :: u32) = i"
  by (simp_all add: unat_of_nat)

lemma stage_rebase:
  assumes "stage E rd i k P m" and "p \<le> i" and "i + k \<le> p + n" and "rd_buffer rd = rd_buffer rd0"
    and "\<And>j insn'. i \<le> j \<Longrightarrow> j \<le> i + k \<Longrightarrow> P j insn' \<Longrightarrow> Q j insn'"
  shows "stage E rd0 p n Q m"
proof (cases m)
  case (Inl e)
  then show ?thesis using assms(1) by simp
next
  case (Inr r)
  obtain rd' insn' where "r = (rd', insn')" by (cases r)
  then show ?thesis using assms Inr by (fastforce simp: stage_Inr)
qed

definition mid_post :: "nat \<Rightarrow> x86_insn_decode_t \<Rightarrow> nat \<Rightarrow> x86_insn_decode_t \<Rightarrow> bool" where
  "mid_post i insn j insn' \<longleftrightarrow> d_insn_spec insn' = d_insn_spec insn \<and> d_immediate_offset insn' = 0 \<and>
     (d_displacement_offset insn' \<noteq> 0 \<longrightarrow>
        i < unat (d_displacement_offset insn') \<and> unat (d_displacement_offset insn') < j) \<and>
     (ip_relative insn' \<longrightarrow> d_displacement_offset insn' \<noteq> 0 \<and> unat (d_displacement_offset insn') + 4 = j)"

lemma mid_stage:
  assumes at: "rd_at rd i" and room: "x86_insn_has_modrm_byte (d_insn_spec insn) \<Longrightarrow> i + 6 \<le> 20"
    and md: "mode conf = 32 \<or> mode conf = 64" and clear: "\<not> ip_relative insn"
      "d_displacement_offset insn = 0" "d_immediate_offset insn = 0"
  shows "stage (allowed_faults conf (d_prefix insn)) rd i
     (if x86_insn_has_modrm_byte (d_insn_spec insn) then 6 else 0) (mid_post i insn)
     (if x86_insn_has_modrm_byte (d_insn_spec insn)
      then x86_insn_decode_modrm_sib rd insn conf else Inr (rd, insn))"
proof (cases "x86_insn_has_modrm_byte (d_insn_spec insn)")
  case True
  have "stage (allowed_faults conf (d_prefix insn)) rd i 6 (modrm_post i insn)
      (x86_insn_decode_modrm_sib rd insn conf)"
    using at room [OF True] md clear(1) by (rule modrm_sib_stage) (simp add: allowed_faults_def)
  then have "stage (allowed_faults conf (d_prefix insn)) rd i 6 (mid_post i insn)
      (x86_insn_decode_modrm_sib rd insn conf)"
    using clear room [OF True]
    by (elim stage_rebase) (auto simp: modrm_post_def mid_post_def unat_eq_0 [symmetric])
  then show ?thesis using True by simp
next
  case False
  then show ?thesis using at clear by (auto simp: stage_Inr mid_post_def)
qed

lemma tail_post_layout:
  "j \<le> 20 \<Longrightarrow> tail_post p j insn \<longleftrightarrow>
    (let d = unat (d_displacement_offset insn); m = unat (d_immediate_offset insn)
      in p < j \<and> j \<le> p + 11 \<and> (d \<noteq> 0 \<longrightarrow> p < d \<and> d < j) \<and> (m \<noteq> 0 \<longrightarrow> p < m \<and> d < m \<and> m < j \<and> j \<le> m + 4) \<and>
         (ip_relative insn \<longrightarrow> p < d \<and> d + 4 = (if m \<noteq> 0 then m else j)))"
  by (simp add: tail_post_def layout_ok_def)

lemma tail_stage:
  assumes at: "rd_at rd i" and i: "p < i" "i \<le> p + 2" "p \<le> 9" and fits: "spec_fits (i - p) (d_insn_spec insn)"
    and md: "mode conf = 32 \<or> mode conf = 64" and clear: "\<not> ip_relative insn"
      "d_displacement_offset insn = 0" "d_immediate_offset insn = 0"
  shows "stage (allowed_faults conf (d_prefix insn)) rd p 11 (tail_post p)
     (bindE (if x86_insn_has_modrm_byte (d_insn_spec insn)
            then x86_insn_decode_modrm_sib rd insn conf else Inr (rd, insn)) (\<lambda>(rd, insn).
        if x86_insn_has_immediate (d_insn_spec insn)
            then x86_insn_decode_immediate rd insn conf else Inr (rd, insn)))"
    (is "stage ?E rd p 11 _ (bindE ?mid ?imm)")
proof -
  let ?m = "if x86_insn_has_modrm_byte (d_insn_spec insn) then 6 else 0 :: nat"
  have m: "i - p + ?m \<le> 11" using fits by (simp add: spec_fits_def Let_def)
  then have room: "i + ?m \<le> 20" using i by linarith
  have fin: "stage ?E rd p 11 (tail_post p) (?imm (rd', insn'))"
    if at': "rd_at rd' j" and buf: "rd_buffer rd' = rd_buffer rd" and j: "i \<le> j" "j \<le> i + ?m"
      and mid: "mid_post i insn j insn'" for rd' insn' j
  proof (cases "x86_insn_has_immediate (d_insn_spec insn)")
    case True
    then obtain t where t: "x86_insn_immediate_type (d_insn_spec insn) = Inr t" "i - p + ?m + imm_load t \<le> 11"
      using fits by (auto simp: spec_fits_def Let_def split: sum.splits)
    have "stage ?E rd' j (imm_load t) (imm_post j insn') (x86_insn_decode_immediate rd' insn' conf)"
      using at' md t mid i j m by (intro decode_immediate_stage) (auto simp: mid_post_def)
    then have "stage ?E rd p 11 (tail_post p) (x86_insn_decode_immediate rd' insn' conf)"
    proof (rule stage_rebase)
      fix j' insn''
      assume "j \<le> j'" "j' \<le> j + imm_load t" and post: "imm_post j insn' j' insn''"
      then have j': "j < j'" "j' \<le> j + 4" "j' \<le> p + 11" using t(2) j i by (auto simp: imm_post_def)
      show "tail_post p j' insn''"
        using mid post j' i j
        by (cases "d_displacement_offset insn' = 0")
           (auto simp: tail_post_layout mid_post_def imm_post_def Let_def)
    qed (use buf i j t(2) in auto)
    then show ?thesis using True mid by (simp add: mid_post_def)
  next
    case False
    have "tail_post p j insn'"
      using mid i j m room
      by (cases "d_displacement_offset insn' = 0") (auto simp: tail_post_layout mid_post_def Let_def)
    then show ?thesis using False mid at' buf i j m by (auto simp: mid_post_def stage_Inr)
  qed
  have "stage ?E rd i ?m (mid_post i insn) ?mid"
    using at md clear room by (intro mid_stage) auto
  then show ?thesis using fin by (rule stage_bind)
qed

lemma decode_prefix_15:
  assumes "15 \<le> length buffer" and "prefix_len conf (take 15 buffer) \<le> 9"
  shows "\<exists>rd. bindE (init_reader buffer 15) (\<lambda>rd. x86_insn_decode_prefix rd insn conf) =
      Inr (prefix_set conf (take 15 buffer), rd, apply_rex (prefix_rex conf (take 15 buffer)) insn) \<and>
      rd_at rd (prefix_len conf (take 15 buffer)) \<and> rd_buffer rd = take 15 buffer @ replicate 5 0xcc"
proof -
  obtain rd where rd: "init_reader buffer 15 = Inr rd" "rd_at rd 0"
      "rd_buffer rd = take 15 buffer @ replicate 5 0xcc"
    using init_reader_15 [OF assms(1)] by blast
  have "rd_at (rd_advance n rd) n" for n using rd_at_advance [OF rd(2), of n] by simp
  then show ?thesis
    using decode_prefix_loop_at [OF rd(2), of conf 0 insn] assms(2)
    by (simp add: rd x86_insn_decode_prefix_def prefix_append_int3)
qed

text \<open>The decoder after the opcode: operands and immediate, then the length.\<close>

definition decode_operands ::
  "x86_options_t \<Rightarrow> x86_insn_reader_t \<times> x86_insn_decode_t \<Rightarrow>
     x86_fault + (x86_insn_reader_t \<times> x86_insn_decode_t)" where
  "decode_operands conf = (\<lambda>(rd, insn).
     bindE (if x86_insn_has_modrm_byte (d_insn_spec insn)
            then x86_insn_decode_modrm_sib rd insn conf else Inr (rd, insn)) (\<lambda>(rd, insn).
       if x86_insn_has_immediate (d_insn_spec insn)
       then x86_insn_decode_immediate rd insn conf else Inr (rd, insn)))"

definition decode_length ::
  "x86_insn_reader_t \<times> x86_insn_decode_t \<Rightarrow> x86_fault + x86_insn_decode_t" where
  "decode_length = (\<lambda>(rd, insn). bindE (reader_offset rd) (\<lambda>len. Inr (insn\<lparr>d_length := len\<rparr>)))"

lemma x86_insn_decode_stages:
  assumes len: "15 \<le> length buffer" and pre: "prefix_len conf (take 15 buffer) \<le> 9"
  obtains rd where "rd_at rd (prefix_len conf (take 15 buffer))"
    and "rd_buffer rd = take 15 buffer @ replicate 5 0xcc"
    and "x86_insn_decode insn buffer conf =
      bindE (bindE (x86_insn_decode_opcode rd
                     ((apply_rex (prefix_rex conf (take 15 buffer)) insn)
                        \<lparr>d_prefix := prefix_set conf (take 15 buffer)\<rparr>) conf)
               (decode_operands conf)) decode_length"
proof -
  obtain rd where rd: "bindE (init_reader buffer 15) (\<lambda>rd. x86_insn_decode_prefix rd insn conf) =
      Inr (prefix_set conf (take 15 buffer), rd, apply_rex (prefix_rex conf (take 15 buffer)) insn)"
      "rd_at rd (prefix_len conf (take 15 buffer))" "rd_buffer rd = take 15 buffer @ replicate 5 0xcc"
    using decode_prefix_15 [OF len pre] by blast
  then show ?thesis
    by (intro that)
       (auto simp: x86_insn_decode_def bindE_assoc split_def decode_operands_def decode_length_def)
qed

lemma apply_rex_fields [simp]:
  "d_displacement_offset (apply_rex r insn) = d_displacement_offset insn"
  "d_immediate_offset (apply_rex r insn) = d_immediate_offset insn"
  "ip_relative (apply_rex r insn) = ip_relative insn"
  by (auto simp: apply_rex_def set_rex_def Let_def decode_flag_defs bit_simps split: option.split)

lemma finish_stage:
  "stage E rd p n (tail_post p) m \<Longrightarrow>
     case bindE m decode_length of Inl e \<Rightarrow> e \<in> E | Inr insn \<Rightarrow> layout_ok p insn"
  by (cases m) (auto simp: stage_Inr reader_offset_at tail_post_def decode_length_def)

lemma decode_operands_stage:
  assumes "rd_at rd i" "p < i" "i \<le> p + 2" "p \<le> 9" "spec_fits (i - p) (d_insn_spec insn)"
    "mode conf = 32 \<or> mode conf = 64" "\<not> ip_relative insn"
    "d_displacement_offset insn = 0" "d_immediate_offset insn = 0"
  shows "stage (allowed_faults conf (d_prefix insn)) rd p 11 (tail_post p) (decode_operands conf (rd, insn))"
  using tail_stage [OF assms] by (simp add: decode_operands_def)

end
