(* ===== verification/X86Props.thy ===== *)
theory X86Props
  imports X86Stages
begin

text \<open>
  The properties of the x86 decoder: it stays inside its buffer and returns a structure whose
  offsets describe the bytes, its prefix loop computes the reference views of \<open>X86Shape\<close>, and the
  branches that the relocator rewrites are decoded with their target operand. The last section
  states where the decoder departs from the instruction set.
\<close>

section \<open>Safety and layout\<close>

lemma insn_cleared:
  "\<not> ip_relative zero_insn" "d_displacement_offset zero_insn = 0" "d_immediate_offset zero_insn = 0"
  by (simp_all add: zero_insn_def)

lemma decode_safe_layout:
  assumes len: "15 \<le> length buffer" and pre: "prefix_len conf (take 15 buffer) \<le> 9"
    and md: "mode conf = 32 \<or> mode conf = 64"
  shows "case x86_insn_decode zero_insn buffer conf of
           Inl e \<Rightarrow> e \<in> allowed_faults conf (prefix_set conf (take 15 buffer))
         | Inr insn \<Rightarrow> layout_ok (prefix_len conf (take 15 buffer)) insn"
proof -
  let ?p = "prefix_len conf (take 15 buffer)" and ?E = "allowed_faults conf (prefix_set conf (take 15 buffer))"
  let ?insn = "(apply_rex (prefix_rex conf (take 15 buffer)) zero_insn)
      \<lparr>d_prefix := prefix_set conf (take 15 buffer)\<rparr>"
  obtain rd where at: "rd_at rd ?p" and unfold: "x86_insn_decode zero_insn buffer conf =
      bindE (bindE (x86_insn_decode_opcode rd ?insn conf) (decode_operands conf)) decode_length"
    using len pre by (rule x86_insn_decode_stages)
  have "stage {Unimplemented} rd ?p 2 (opcode_post ?p ?insn) (x86_insn_decode_opcode rd ?insn conf)"
    using at pre by (intro decode_opcode_stage) auto
  then have "stage ?E rd ?p 2 (opcode_post ?p ?insn) (x86_insn_decode_opcode rd ?insn conf)"
    by (rule stage_mono) (auto simp: allowed_faults_def)
  then have "stage ?E rd ?p 11 (tail_post ?p)
      (bindE (x86_insn_decode_opcode rd ?insn conf) (decode_operands conf))"
  proof (rule stage_bind)
    fix rd' insn' j
    assume at': "rd_at rd' j" and buf: "rd_buffer rd' = rd_buffer rd" and j: "?p \<le> j" "j \<le> ?p + 2"
      and post: "opcode_post ?p ?insn j insn'"
    have "stage ?E rd' ?p 11 (tail_post ?p) (decode_operands conf (rd', insn'))"
      using decode_operands_stage [OF at' _ j(2) pre _ md, of insn'] post insn_cleared
      by (simp add: opcode_post_def)
    then show "stage ?E rd ?p 11 (tail_post ?p) (decode_operands conf (rd', insn'))"
      by (rule stage_rebase) (simp_all add: buf)
  qed
  then show ?thesis unfolding unfold by (rule finish_stage)
qed

text \<open>
  C7: with at least 15 readable bytes of which at most nine are prefixes, and in one of the two
  modes it knows, the decoder never reads outside its buffer, never uses an unassigned variable and
  never computes a foreign pointer difference: it returns, or it stops at the unimplemented SSE
  opcodes, or (32-bit mode with an address-size prefix only) at \<^verbatim>\<open>UNREACHABLE\<close>. When it returns,
  the length counts at least one byte after the prefixes and at most 11, displacement and
  immediate lie inside the instruction in this order, and a displacement relative to the
  instruction pointer is the four bytes before the immediate or the end.
\<close>

theorem x86_decode_safe:
  assumes len: "15 \<le> length buffer" and pre: "prefix_len conf (take 15 buffer) \<le> 9"
    and md: "mode conf = 32 \<or> mode conf = 64"
  shows "case x86_insn_decode zero_insn buffer conf of
           Inl e \<Rightarrow> e \<in> allowed_faults conf (prefix_set conf (take 15 buffer))
         | Inr insn \<Rightarrow> layout_ok (prefix_len conf (take 15 buffer)) insn"
  using assms by (rule decode_safe_layout)

text \<open>The witness decodes \<^verbatim>\<open>mov eax, [rip + 16]\<close>, with and then without its length bound.\<close>

theorem x86_decode_safe_witness:
  "case x86_insn_decode zero_insn [0x8b, 0x05, 16, 0, 0, 0, 0, 0, 0, 0, 0, 0, 0, 0, 0] \<lparr>mode = 64\<rparr> of
     Inl e \<Rightarrow> False | Inr insn \<Rightarrow> d_length insn = 6 \<and> layout_ok 0 insn"
proof -
  let ?b = "[0x8b, 0x05, 16, 0, 0, 0, 0, 0, 0, 0, 0, 0, 0, 0, 0] :: u8 list" and ?c = "\<lparr>mode = 64\<rparr> :: x86_options_t"
  have p: "prefix_len ?c (take 15 ?b) = 0" by code_simp
  have l: "map_sum id d_length (x86_insn_decode zero_insn ?b ?c) = Inr 6" by code_simp
  show ?thesis using x86_decode_safe [of ?b ?c] l unfolding p
    by (cases "x86_insn_decode zero_insn ?b ?c") simp_all
qed

text \<open>
  C31: the prefix loop of the decoder returns the union of the legacy prefixes in front of the first
  byte that is none, stops behind the REX byte when there is one, and records it. The cursor ends at
  the number of prefix bytes.
\<close>

theorem x86_prefix_reference:
  assumes "15 \<le> length buffer" and "prefix_len conf (take 15 buffer) \<le> 9"
  shows "\<exists>rd. bindE (init_reader buffer 15) (\<lambda>rd. x86_insn_decode_prefix rd insn conf) =
      Inr (prefix_set conf (take 15 buffer), rd, apply_rex (prefix_rex conf (take 15 buffer)) insn) \<and>
      rd_at rd (prefix_len conf (take 15 buffer)) \<and> rd_buffer rd = take 15 buffer @ replicate 5 0xcc"
  using assms by (rule decode_prefix_15)

theorem x86_prefix_reference_witness:
  "\<exists>rd. bindE (init_reader ([0xf3, 0x66, 0x48] @ replicate 12 0x90) 15)
       (\<lambda>rd. x86_insn_decode_prefix rd zero_insn \<lparr>mode = 64\<rparr>) =
      Inr (INSN_PREFIX_REP OR INSN_PREFIX_OPERAND_SIZE, rd, set_rex 0x48 zero_insn) \<and> rd_at rd 3"
proof -
  let ?b = "[0xf3, 0x66, 0x48] @ replicate 12 0x90 :: u8 list" and ?c = "\<lparr>mode = 64\<rparr> :: x86_options_t"
  have "prefix_len ?c (take 15 ?b) = 3" by code_simp
  moreover have "prefix_set ?c (take 15 ?b) = INSN_PREFIX_REP OR INSN_PREFIX_OPERAND_SIZE" by code_simp
  moreover have "prefix_rex ?c (take 15 ?b) = Some 0x48" by code_simp
  ultimately show ?thesis using x86_prefix_reference [of ?b ?c zero_insn] by (auto simp: apply_rex_def)
qed

section \<open>Branches\<close>

lemma branch_entries:
  "x86_opcode_map_one_byte ! 0xe8 = op1f ''call'' X86_INSN_SPEC_DEFAULT_64_BIT ''Jz''"
  "x86_opcode_map_one_byte ! 0xe9 = op1f ''jmp'' X86_INSN_SPEC_DEFAULT_64_BIT ''Jz''"
  by code_simp+


lemma x86_insn_decode_no_prefix:
  assumes len: "15 \<le> length (c # rest)" and none: "\<not> is_rex conf c" "legacy_prefix c = 0"
  obtains rd where "rd_at rd 0" and "rd_buffer rd = take 15 (c # rest) @ replicate 5 0xcc"
    and "x86_insn_decode insn (c # rest) conf =
      bindE (bindE (x86_insn_decode_opcode rd (insn\<lparr>d_prefix := 0\<rparr>) conf) (decode_operands conf)) decode_length"
proof -
  have p: "prefix_len conf (take 15 (c # rest)) = 0" "prefix_set conf (take 15 (c # rest)) = 0"
      "apply_rex (prefix_rex conf (take 15 (c # rest))) insn = insn"
    using none by (simp_all add: apply_rex_def)
  then have "prefix_len conf (take 15 (c # rest)) \<le> 9" by simp
  with len obtain rd where "rd_at rd (prefix_len conf (take 15 (c # rest)))"
    and "rd_buffer rd = take 15 (c # rest) @ replicate 5 0xcc"
    and "x86_insn_decode insn (c # rest) conf =
      bindE (bindE (x86_insn_decode_opcode rd
                     ((apply_rex (prefix_rex conf (take 15 (c # rest))) insn)
                        \<lparr>d_prefix := prefix_set conf (take 15 (c # rest))\<rparr>) conf)
               (decode_operands conf)) decode_length"
    by (rule x86_insn_decode_stages)
  then show ?thesis unfolding p by (rule that)
qed

lemma decode_branch_rel32:
  assumes c: "c = 0xe8 \<or> c = 0xe9" and len: "14 \<le> length rest"
  shows "\<exists>insn. x86_insn_decode zero_insn (c # rest) \<lparr>mode = 64\<rparr> = Inr insn \<and> d_length insn = 5 \<and>
           d_primary_opcode insn = c \<and> d_immediate_offset insn = 1 \<and> d_displacement_offset insn = 0 \<and>
           d_immediate insn = ucast (le_word (take 4 rest) :: u32)"
proof -
  let ?conf = "\<lparr>mode = 64\<rparr> :: x86_options_t"
  obtain rd where at: "rd_at rd 0" and buf: "rd_buffer rd = take 15 (c # rest) @ replicate 5 0xcc"
    and unfold: "x86_insn_decode zero_insn (c # rest) ?conf =
      bindE (bindE (x86_insn_decode_opcode rd (zero_insn\<lparr>d_prefix := 0\<rparr>) ?conf)
               (decode_operands ?conf)) decode_length"
    by (rule x86_insn_decode_no_prefix [of c rest ?conf zero_insn])
       (use c len in \<open>auto simp: is_rex_def legacy_prefix_def\<close>)
  have at1: "rd_at (rd_advance 1 rd) 1" using rd_at_advance [OF at, of 1] by simp
  have at5: "rd_at (rd_advance 4 (rd_advance 1 rd)) 5" using rd_at_advance [OF at1, of 4] by simp
  have bytes: "rd_buffer rd ! 0 = c" "take 4 (drop 1 (rd_buffer rd)) = take 4 rest"
    using len by (simp_all add: buf)
  have "\<exists>n. x86_opcode_map_one_byte ! unat c = op1f n X86_INSN_SPEC_DEFAULT_64_BIT ''Jz''"
    using c by (elim disjE) (auto simp: branch_entries)
  then obtain n where n: "x86_opcode_map_one_byte ! unat c = op1f n X86_INSN_SPEC_DEFAULT_64_BIT ''Jz''" ..
  define insn where "insn = zero_insn\<lparr>d_prefix := 0, d_primary_opcode := c,
    d_insn_spec := op1f n X86_INSN_SPEC_DEFAULT_64_BIT ''Jz''\<rparr>"
  have op: "x86_insn_decode_opcode rd (zero_insn\<lparr>d_prefix := 0\<rparr>) ?conf = Inr (rd_advance 1 rd, insn)"
    using c n by (auto simp: x86_insn_decode_opcode_def read_byte_at [OF at] bytes decode_group_def insn_def)
  have "effective_operand ?conf insn = Some 64"
    by (simp add: effective_operand_def insn_def X86_INSN_SPEC_DEFAULT_64_BIT_def)
  moreover have "x86_insn_imm_bits (d_insn_spec insn) 64 = Inr 32"
    by (simp add: insn_def x86_insn_imm_bits_def immediate_type_3 immediate_code_def)
  ultimately have imm: "x86_insn_decode_immediate (rd_advance 1 rd) insn ?conf =
      Inr (rd_advance 4 (rd_advance 1 rd),
           insn\<lparr>d_immediate_offset := 1, d_immediate := ucast (le_word (take 4 rest) :: u32)\<rparr>)"
    using read_dword_at [OF at1] bytes(2) reader_offset_at [OF at1]
    by (simp add: x86_insn_decode_immediate_def x86_insn_decode_number_def)
  have "\<not> x86_insn_has_modrm_byte (d_insn_spec insn)" "x86_insn_has_immediate (d_insn_spec insn)"
    by (simp_all add: insn_def x86_insn_has_modrm_byte_def x86_insn_has_immediate_def immediate_code_def)
  then show ?thesis
    unfolding unfold op using imm reader_offset_at [OF at5]
    by (simp add: decode_operands_def decode_length_def) (simp add: insn_def zero_insn_def)
qed

text \<open>
  C32: \<^verbatim>\<open>jmp rel32\<close> and \<^verbatim>\<open>call rel32\<close>, the branches that the relocator rewrites: in 64-bit mode every
  such instruction is decoded as five bytes whose immediate, at offset 1, is the little-endian
  displacement.
\<close>

theorem x86_decode_branch_rel32:
  assumes c: "c = 0xe8 \<or> c = 0xe9" and len: "14 \<le> length rest"
  shows "\<exists>insn. x86_insn_decode zero_insn (c # rest) \<lparr>mode = 64\<rparr> = Inr insn \<and> d_length insn = 5 \<and>
           d_primary_opcode insn = c \<and> d_immediate_offset insn = 1 \<and> d_displacement_offset insn = 0 \<and>
           d_immediate insn = ucast (le_word (take 4 rest) :: u32)"
  using assms by (rule decode_branch_rel32)

theorem x86_decode_branch_rel32_witness:
  "\<exists>insn. x86_insn_decode zero_insn (0xe9 # [0x10, 0x20, 0, 0] @ replicate 10 0x90) \<lparr>mode = 64\<rparr> = Inr insn \<and>
     d_length insn = 5 \<and> d_immediate insn = 0x2010"
proof -
  have "ucast (le_word (take 4 ([0x10, 0x20, 0, 0] @ replicate 10 0x90)) :: u32) = (0x2010 :: u64)" by code_simp
  then show ?thesis
    using x86_decode_branch_rel32 [where c = "0xe9" and rest = "[0x10, 0x20, 0, 0] @ replicate 10 0x90"] by auto
qed

section \<open>Departures from the instruction set\<close>

text \<open>
  The bound of nine prefixes in the safety theorem is exact: ten segment prefixes in front of
  \<^verbatim>\<open>add [rsp + disp32], imm32\<close> make the decoder read behind its 20-byte buffer.
\<close>

lemma x86_decode_overread:
  "x86_insn_decode zero_insn (replicate 10 0x2e @ [0x81, 0x84, 0x24, 0, 0]) \<lparr>mode = 64\<rparr> = Inl OutOfBounds"
  by code_simp


end
