(* ===== verification/UtilityMacro.thy ===== *)
theory UtilityMacro
  imports Prelude
begin

text \<open>
  The bit-field and alignment macros of \<^verbatim>\<open>Dobby/source/include/utility_macro.h\<close>, on words of
  any width, and their bit-level characterisations. \<^verbatim>\<open>bits\<close> shifts its argument right before
  it masks; for a field inside the word (\<open>fn\<close> below the width) the arithmetic shift of a signed
  operand and the logical shift used here agree on the bits that the mask keeps.
\<close>

section \<open>Macros\<close>

definition submask :: "nat \<Rightarrow> 'a::len word" where
  "submask x = push_bit (x + 1) 1 - 1"

definition bits :: "'a::len word \<Rightarrow> nat \<Rightarrow> nat \<Rightarrow> 'a word" where
  "bits obj st fn = drop_bit st obj AND submask (fn - st)"

definition bit_at :: "'a::len word \<Rightarrow> nat \<Rightarrow> 'a word" where
  "bit_at obj st = drop_bit st obj AND 1"

definition set_bit_m :: "'a::len word \<Rightarrow> nat \<Rightarrow> 'a word \<Rightarrow> 'a word" where
  "set_bit_m obj st b = (NOT (push_bit st 1) AND obj) OR push_bit st b"

definition set_bits :: "'a::len word \<Rightarrow> nat \<Rightarrow> nat \<Rightarrow> 'a word \<Rightarrow> 'a word" where
  "set_bits obj st fn v = (NOT (push_bit st (submask (fn - st))) AND obj) OR push_bit st v"

definition LeftShift :: "'a::len word \<Rightarrow> nat \<Rightarrow> nat \<Rightarrow> 'a word" where
  "LeftShift a b c = push_bit c (a AND (push_bit b 1 - 1))"

definition RightShift :: "'a::len word \<Rightarrow> nat \<Rightarrow> nat \<Rightarrow> 'a word" where
  "RightShift a b c = drop_bit c a AND (push_bit b 1 - 1)"

definition ALIGN_FLOOR :: "addr \<Rightarrow> addr \<Rightarrow> addr" where
  "ALIGN_FLOOR address rng = address AND NOT (rng - 1)"

definition ALIGN_CEIL :: "addr \<Rightarrow> addr \<Rightarrow> addr" where
  "ALIGN_CEIL address rng = (address + rng - 1) AND NOT (rng - 1)"

section \<open>Bit-level characterisations\<close>

lemma submask_mask: "submask x = (mask (Suc x) :: 'a::len word)"
  by (simp only: submask_def push_bit_1_minus_1 Suc_eq_plus1)

lemma bit_submask [field_bit_simps]: "bit (submask x :: 'a::len word) n \<longleftrightarrow> n < LENGTH('a) \<and> n \<le> x"
  by (auto simp: submask_mask bit_simps)

lemma bit_bits [field_bit_simps]:
  "bit (bits obj st fn) n \<longleftrightarrow> n \<le> fn - st \<and> bit (obj :: 'a::len word) (st + n)"
  by (auto simp: bits_def bit_submask bit_simps dest: bit_imp_le_length)

lemma bit_bit_at [field_bit_simps]: "bit (bit_at obj st) n \<longleftrightarrow> n = 0 \<and> bit (obj :: 'a::len word) st"
  by (auto simp: bit_at_def bit_simps)

lemma bit_set_bit_m [field_bit_simps]:
  "bit (set_bit_m obj st b) n \<longleftrightarrow>
     n < LENGTH('a) \<and> ((n \<noteq> st \<and> bit (obj :: 'a::len word) n) \<or> (st \<le> n \<and> bit b (n - st)))"
  by (auto simp: set_bit_m_def bit_simps dest: bit_imp_le_length)

lemma bit_set_bits [field_bit_simps]:
  "bit (set_bits obj st fn v) n \<longleftrightarrow>
     n < LENGTH('a) \<and>
     ((\<not> (st \<le> n \<and> n - st \<le> fn - st) \<and> bit (obj :: 'a::len word) n) \<or> (st \<le> n \<and> bit v (n - st)))"
  by (auto simp: set_bits_def bit_submask bit_simps dest: bit_imp_le_length)

lemma bit_LeftShift [field_bit_simps]:
  "bit (LeftShift a b c) n \<longleftrightarrow> n < LENGTH('a) \<and> c \<le> n \<and> n - c < b \<and> bit (a :: 'a::len word) (n - c)"
  unfolding LeftShift_def push_bit_1_minus_1 by (auto simp: bit_simps dest: bit_imp_le_length)

lemma bit_RightShift [field_bit_simps]:
  "bit (RightShift a b c) n \<longleftrightarrow> n < b \<and> bit (a :: 'a::len word) (c + n)"
  unfolding RightShift_def push_bit_1_minus_1 by (auto simp: bit_simps dest: bit_imp_le_length)

lemma bits_take_drop: "bits obj st fn = take_bit (Suc (fn - st)) (drop_bit st (obj :: 'a::len word))"
  by (rule bit_word_eqI) (auto simp: bit_bits bit_simps)

section \<open>Reading back a field that was written\<close>

lemma bits_set_bits:
  assumes "st \<le> fn" and "fn < LENGTH('a)"
  shows "bits (set_bits obj st fn v) st fn = take_bit (Suc (fn - st)) (v :: 'a::len word)"
  using assms by (intro bit_word_eqI) (auto simp: field_bit_simps bit_simps dest: bit_imp_le_length)

lemma bits_LeftShift:
  assumes "c + b \<le> LENGTH('a)" and "0 < b"
  shows "bits (LeftShift a b c) c (c + b - 1) = take_bit b (a :: 'a::len word)"
  using assms by (intro bit_word_eqI) (auto simp: field_bit_simps bit_simps dest: bit_imp_le_length)

text \<open>A field is cut away by a mask that has none of its bits.\<close>

lemma LeftShift_and_zero:
  assumes "LeftShift (- 1) b c AND m = 0"
  shows "LeftShift a b c AND m = (0 :: 'a::len word)"
proof -
  have "LeftShift a b c = LeftShift a b c AND LeftShift (- 1) b c"
    by (rule bit_word_eqI) (auto simp: field_bit_simps bit_simps)
  then have "LeftShift a b c AND m = LeftShift a b c AND (LeftShift (- 1) b c AND m)"
    by (metis and.assoc)
  then show ?thesis using assms by simp
qed

section \<open>Alignment\<close>

lemma ALIGN_FLOOR_pow2:
  "ALIGN_FLOOR a (2 ^ k) = push_bit k (drop_bit k a)"
proof -
  have "2 ^ k - 1 = (mask k :: addr)" by (simp add: mask_eq_exp_minus_1)
  then show ?thesis
    unfolding ALIGN_FLOOR_def
    by (intro bit_word_eqI) (auto simp: bit_simps dest: bit_imp_le_length)
qed

lemma ALIGN_FLOOR_add_mod: "ALIGN_FLOOR a (2 ^ k) + take_bit k a = a"
proof -
  have "push_bit k (drop_bit k a) + take_bit k a = push_bit k (drop_bit k a) OR take_bit k a"
    by (rule disjunctive_add) (auto simp: bit_simps)
  also have "\<dots> = a" by (rule bit_word_eqI) (auto simp: bit_simps dest: bit_imp_le_length)
  finally show ?thesis by (simp add: ALIGN_FLOOR_pow2)
qed


lemma unat_ALIGN_FLOOR: "unat (ALIGN_FLOOR a (2 ^ k)) = unat a - unat a mod 2 ^ k"
proof -
  have t: "unat (take_bit k a) = unat a mod 2 ^ k" unfolding unsigned_take_bit_eq by (rule take_bit_eq_mod)
  then have "take_bit k a \<le> a" by (simp add: word_le_nat_alt)
  moreover have "ALIGN_FLOOR a (2 ^ k) = a - take_bit k a"
    by (rule eq_diff_eq [THEN iffD2]) (rule ALIGN_FLOOR_add_mod)
  ultimately show ?thesis by (simp add: unat_sub t)
qed

end
