(* ===== verification/LiteContainers.thy ===== *)
theory LiteContainers
  imports UtilityMacro
begin

text \<open>
  The growable containers of \<^verbatim>\<open>Dobby/external/xnucxx\<close>: \<^verbatim>\<open>LiteMutableBuffer\<close> (bytes) and
  \<^verbatim>\<open>LiteMutableArray\<close> (object pointers, with its iterator). \<^verbatim>\<open>malloc\<close> is a parameter: it maps a
  size to the content of the new block, or to \<open>None\<close> for a null pointer. A store outside a block is
  the fault \<open>Wild_access\<close>. Both containers are shown to implement lists.
\<close>

section \<open>Faults of the C++ model\<close>

datatype asm_fault = Wild_access | Abort_unreachable | Abort_unimplemented | Null_pointer

text \<open>Overwriting a range of a block, as \<^verbatim>\<open>memcpy\<close> and a store through a cast pointer do.\<close>

definition store_at :: "nat \<Rightarrow> 'a list \<Rightarrow> 'a list \<Rightarrow> asm_fault + 'a list" where
  "store_at i bs xs =
     (if i + length bs \<le> length xs then Inr (take i xs @ bs @ drop (i + length bs) xs) else Inl Wild_access)"

definition load_at :: "nat \<Rightarrow> nat \<Rightarrow> 'a list \<Rightarrow> asm_fault + 'a list" where
  "load_at i k xs = (if i + k \<le> length xs then Inr (take k (drop i xs)) else Inl Wild_access)"

section \<open>LiteMutableBuffer\<close>

text \<open>The block, the cursor as an offset into it, and the capacity field.\<close>

record LiteMutableBuffer =
  buffer :: "u8 list"
  buffer_cursor :: nat
  buffer_capacity :: u32

definition initWithCapacity :: "(u32 \<Rightarrow> u8 list option) \<Rightarrow> u32 \<Rightarrow> LiteMutableBuffer option" where
  "initWithCapacity malloc initCapacity =
     (if initCapacity = 0 then None
      else case malloc initCapacity of None \<Rightarrow> None
        | Some blk \<Rightarrow> Some \<lparr>buffer = blk, buffer_cursor = 0, buffer_capacity = initCapacity\<rparr>)"

definition getSize :: "LiteMutableBuffer \<Rightarrow> u32" where
  "getSize b = of_nat (buffer_cursor b)"

definition getCapacity :: "LiteMutableBuffer \<Rightarrow> u32" where
  "getCapacity b = buffer_capacity b"

text \<open>
  Growing by half of the request: the block is filled with \<^verbatim>\<open>'A'\<close>, then the old content is copied.
  The result 0 says that the allocation failed.
\<close>

definition ensureCapacity ::
  "(u32 \<Rightarrow> u8 list option) \<Rightarrow> u32 \<Rightarrow> LiteMutableBuffer \<Rightarrow> asm_fault + (u32 \<times> LiteMutableBuffer)" where
  "ensureCapacity malloc newCapacity b =
     (if newCapacity \<le> buffer_capacity b then Inr (buffer_capacity b, b)
      else let newCapacity = newCapacity + newCapacity div 2 in
        case malloc newCapacity of None \<Rightarrow> Inr (0, b)
        | Some newBuffer \<Rightarrow>
            bindE (store_at 0 (replicate (unat newCapacity) 0x41) newBuffer) (\<lambda>newBuffer.
            bindE (load_at 0 (buffer_cursor b) (buffer b)) (\<lambda>content.
            bindE (store_at 0 content newBuffer) (\<lambda>newBuffer.
              Inr (newCapacity, \<lparr>buffer = newBuffer, buffer_cursor = buffer_cursor b,
                                 buffer_capacity = newCapacity\<rparr>)))))"

text \<open>The bytes before the cursor, and the invariant that ties the fields to the block.\<close>

definition content :: "LiteMutableBuffer \<Rightarrow> u8 list" where
  "content b = take (buffer_cursor b) (buffer b)"

definition buffer_ok :: "LiteMutableBuffer \<Rightarrow> bool" where
  "buffer_ok b \<longleftrightarrow> length (buffer b) = unat (buffer_capacity b) \<and> buffer_cursor b \<le> length (buffer b)"

text \<open>What the containers rely on of \<^verbatim>\<open>malloc\<close>: a block of the requested size.\<close>

definition malloc_ok :: "(u32 \<Rightarrow> 'a list option) \<Rightarrow> bool" where
  "malloc_ok malloc \<longleftrightarrow> (\<forall>n. \<exists>blk. malloc n = Some blk \<and> length blk = unat n)"

section \<open>LiteMutableArray\<close>

text \<open>Cells that hold no object yet are \<open>None\<close>; \<^verbatim>\<open>sizeof (LiteObject *)\<close> is one cell.\<close>

record 'a LiteMutableArray =
  array :: "'a option list"
  array_count :: u32
  array_capacity :: u32

definition new_array :: "(u32 \<Rightarrow> 'a option list option) \<Rightarrow> u32 \<Rightarrow> 'a LiteMutableArray option" where
  "new_array malloc initCapacity =
     (case malloc initCapacity of None \<Rightarrow> None
      | Some blk \<Rightarrow> Some \<lparr>array = blk, array_count = 0, array_capacity = initCapacity\<rparr>)"

definition CAPACITY_STEP :: u32 where "CAPACITY_STEP = 64"

definition array_ensureCapacity ::
  "(u32 \<Rightarrow> 'a option list option) \<Rightarrow> u32 \<Rightarrow> 'a LiteMutableArray \<Rightarrow>
     asm_fault + (u32 \<times> 'a LiteMutableArray)" where
  "array_ensureCapacity malloc newCapacity a =
     (if newCapacity \<le> array_capacity a then Inr (array_capacity a, a)
      else let newCapacity = ucast (ALIGN_FLOOR (ucast newCapacity + ucast CAPACITY_STEP) (ucast CAPACITY_STEP)) in
        case malloc newCapacity of None \<Rightarrow> Inr (0, a)
        | Some newArray \<Rightarrow>
            bindE (store_at 0 (replicate (unat newCapacity) None) newArray) (\<lambda>newArray.
            bindE (load_at 0 (unat (array_count a)) (array a)) (\<lambda>objects.
            bindE (store_at 0 objects newArray) (\<lambda>newArray.
              Inr (newCapacity, a\<lparr>array := newArray, array_capacity := newCapacity\<rparr>)))))"

definition pushObject ::
  "(u32 \<Rightarrow> 'a option list option) \<Rightarrow> 'a \<Rightarrow> 'a LiteMutableArray \<Rightarrow> asm_fault + (bool \<times> 'a LiteMutableArray)" where
  "pushObject malloc obj a =
     (let newCount = array_count a + 1 in
      bindE (if newCount > array_capacity a then array_ensureCapacity malloc newCount a
             else Inr (newCount, a)) (\<lambda>(cap, a).
        if newCount > cap then Inr (False, a)
        else bindE (store_at (unat (array_count a)) [Some obj] (array a)) (\<lambda>arr.
               Inr (True, a\<lparr>array := arr, array_count := array_count a + 1\<rparr>))))"

definition getObject :: "u32 \<Rightarrow> 'a LiteMutableArray \<Rightarrow> asm_fault + 'a option" where
  "getObject index a = bindE (load_at (unat index) 1 (array a)) (\<lambda>p. Inr (p ! 0))"

definition initIterator :: u32 where
  "initIterator = 0"

text \<open>The object is \<open>None\<close> (a null pointer) at the end; the index moves in either case.\<close>

definition getNextObjectForIterator :: "u32 \<Rightarrow> 'a LiteMutableArray \<Rightarrow> asm_fault + ('a option \<times> u32)" where
  "getNextObjectForIterator ndx a =
     (if ndx < array_count a then bindE (getObject ndx a) (\<lambda>ret. Inr (ret, ndx + 1))
      else Inr (None, ndx + 1))"

text \<open>The loop \<^verbatim>\<open>while ((obj = iter.getNextObject()) != NULL)\<close>, with the objects that it visits.\<close>

function iterate_from :: "u32 \<Rightarrow> 'a LiteMutableArray \<Rightarrow> asm_fault + 'a list" where
  "iterate_from ndx a =
     bindE (getNextObjectForIterator ndx a) (\<lambda>(ret, ndx').
       case ret of None \<Rightarrow> Inr [] | Some obj \<Rightarrow> bindE (iterate_from ndx' a) (\<lambda>rest. Inr (obj # rest)))"
  by pat_completeness auto
termination
proof (relation "measure (\<lambda>(ndx, a). unat (array_count a) - unat ndx)")
  fix ndx :: u32 and a :: "'a LiteMutableArray" and p ret ndx' obj
  assume "getNextObjectForIterator ndx a = Inr p" "(ret, ndx') = p" "ret = Some obj"
  then have "ndx < array_count a" "ndx' = ndx + 1"
    by (auto simp: getNextObjectForIterator_def split: if_splits)
  then show "((ndx', a), (ndx, a)) \<in> measure (\<lambda>(ndx, a). unat (array_count a) - unat ndx)"
    by (auto simp: unat_inc word_less_nat_alt)
qed simp

declare iterate_from.simps [simp del]

definition objects :: "'a LiteMutableArray \<Rightarrow> 'a list" where
  "objects a = map the (take (unat (array_count a)) (array a))"

definition array_ok :: "'a LiteMutableArray \<Rightarrow> bool" where
  "array_ok a \<longleftrightarrow> length (array a) = unat (array_capacity a) \<and> array_count a \<le> array_capacity a \<and>
     list_all (\<lambda>x. x \<noteq> None) (take (unat (array_count a)) (array a))"


section \<open>The buffer implements a list of bytes\<close>

lemma store_at_Inr [simp]:
  "i + length bs \<le> length xs \<Longrightarrow> store_at i bs xs = Inr (take i xs @ bs @ drop (i + length bs) xs)"
  by (simp add: store_at_def)

lemma load_at_Inr [simp]: "i + k \<le> length xs \<Longrightarrow> load_at i k xs = Inr (take k (drop i xs))"
  by (simp add: load_at_def)

lemma store_at_faults: "store_at i bs xs = Inl e \<Longrightarrow> length xs < i + length bs"
  by (simp add: store_at_def split: if_splits)

lemma content_length: "buffer_ok b \<Longrightarrow> length (content b) = buffer_cursor b"
  by (simp add: buffer_ok_def content_def)

lemma getSize_content:
  assumes "buffer_ok b"
  shows "unat (getSize b) = length (content b)"
proof -
  have "buffer_cursor b < 2 ^ 32"
    using assms unat_u32_less [of "buffer_capacity b"] by (simp add: buffer_ok_def)
  then show ?thesis using assms by (simp add: getSize_def content_length unat_of_nat)
qed

lemma grow_by_half:
  assumes "3 * unat n < 2 ^ 33"
  shows "unat (n + n div 2) = unat n + unat (n :: u32) div 2"
proof -
  have "unat (n div 2) = unat n div 2" by (simp add: unat_div)
  then show ?thesis using assms by (simp add: unat_add_small)
qed

lemma ensureCapacity_ok:
  assumes ok: "buffer_ok b" and mem: "malloc_ok malloc" and n: "3 * unat n < 2 ^ 33"
  shows "\<exists>cap b'. ensureCapacity malloc n b = Inr (cap, b') \<and> buffer_ok b' \<and> content b' = content b \<and>
           buffer_cursor b' = buffer_cursor b \<and> unat n \<le> length (buffer b')"
proof (cases "n \<le> buffer_capacity b")
  case True
  then show ?thesis using ok by (auto simp: ensureCapacity_def buffer_ok_def word_le_nat_alt)
next
  case False
  let ?n = "n + n div 2"
  obtain blk where blk: "malloc ?n = Some blk" "length blk = unat ?n"
    using mem by (auto simp: malloc_ok_def)
  have cur: "buffer_cursor b \<le> length (buffer b)" "buffer_cursor b \<le> unat ?n"
    using ok False grow_by_half [OF n] by (auto simp: buffer_ok_def word_le_nat_alt)
  then show ?thesis
    using False blk grow_by_half [OF n]
    by (simp add: ensureCapacity_def Let_def buffer_ok_def content_def min_def)
qed

section \<open>The array implements a list of objects\<close>

lemma ALIGN_step:
  assumes "unat n + 64 < 2 ^ 32"
  shows "n < (ucast (ALIGN_FLOOR (ucast n + ucast CAPACITY_STEP) (ucast CAPACITY_STEP)) :: u32)"
proof -
  let ?a = "ucast n + 64 :: addr"
  have a: "unat ?a = unat n + 64"
    using assms unat_add_small [of "ucast n :: addr" 64]
    by (simp add: unsigned_ucast_eq take_bit_nat_eq_self)
  have f: "unat (ALIGN_FLOOR ?a 64) = unat ?a - unat ?a mod 64"
    using unat_ALIGN_FLOOR [of ?a 6] by simp
  have "unat ?a - unat ?a mod 64 < 2 ^ 32" "unat n < unat ?a - unat ?a mod 64"
    using a assms mod_less_divisor [of 64 "unat ?a"] by linarith+
  then show ?thesis
    by (simp add: word_less_nat_alt CAPACITY_STEP_def f unsigned_ucast_eq take_bit_nat_eq_self)
qed

lemma array_ensureCapacity_ok:
  assumes ok: "array_ok a" and mem: "malloc_ok malloc" and n: "unat n + 64 < 2 ^ 32"
  shows "\<exists>cap a'. array_ensureCapacity malloc n a = Inr (cap, a') \<and> array_ok a' \<and> objects a' = objects a \<and>
           n \<le> cap \<and> array_count a' = array_count a \<and> n \<le> array_capacity a'"
proof (cases "n \<le> array_capacity a")
  case True
  then show ?thesis using ok by (auto simp: array_ensureCapacity_def)
next
  case False
  define m where "m = (ucast (ALIGN_FLOOR (ucast n + ucast CAPACITY_STEP) (ucast CAPACITY_STEP)) :: u32)"
  have nm: "n < m" unfolding m_def using n by (rule ALIGN_step)
  obtain blk where blk: "malloc m = Some blk" "length blk = unat m"
    using mem by (auto simp: malloc_ok_def)
  have "unat (array_count a) \<le> length (array a)" "unat (array_count a) \<le> unat m" "array_count a \<le> m"
    using ok False nm by (auto simp: array_ok_def word_le_nat_alt word_less_nat_alt)
  then show ?thesis
    using ok False blk nm
    by (auto simp: array_ensureCapacity_def Let_def array_ok_def objects_def min_def m_def [symmetric])
qed

lemma store_object:
  assumes ok: "array_ok a" and room: "array_count a < array_capacity a"
  shows "\<exists>arr. store_at (unat (array_count a)) [Some obj] (array a) = Inr arr \<and>
           array_ok (a\<lparr>array := arr, array_count := array_count a + 1\<rparr>) \<and>
           objects (a\<lparr>array := arr, array_count := array_count a + 1\<rparr>) = objects a @ [obj]"
proof -
  have len: "unat (array_count a) < length (array a)" and inc: "unat (array_count a + 1) = Suc (unat (array_count a))"
    using ok room unat_inc [OF room] by (simp_all add: array_ok_def word_less_nat_alt)
  then show ?thesis
    using ok room by (simp add: array_ok_def objects_def word_le_nat_alt word_less_nat_alt min_def)
qed

lemma pushObject_ok:
  assumes ok: "array_ok a" and mem: "malloc_ok malloc" and room: "unat (array_count a) + 65 < 2 ^ 32"
  shows "\<exists>a'. pushObject malloc obj a = Inr (True, a') \<and> array_ok a' \<and> objects a' = objects a @ [obj]"
proof -
  let ?n = "array_count a + 1"
  have n: "unat ?n = Suc (unat (array_count a))" using room by (simp add: unat_add_small)
  obtain cap a' where e: "(if ?n > array_capacity a then array_ensureCapacity malloc ?n a else Inr (?n, a)) = Inr (cap, a')"
    and a': "array_ok a'" "objects a' = objects a" "?n \<le> cap" "array_count a' = array_count a" "?n \<le> array_capacity a'"
  proof (cases "?n > array_capacity a")
    case True
    have "unat ?n + 64 < 2 ^ 32" using n room by simp
    from array_ensureCapacity_ok [OF ok mem this] show ?thesis using True that by auto
  next
    case False
    show ?thesis by (rule that [of ?n a]) (use False ok in \<open>auto simp: not_less\<close>)
  qed
  have "array_count a < ?n" by (simp add: word_less_nat_alt n)
  then have lt: "array_count a' < array_capacity a'" unfolding a'(4) using a'(5) by (rule less_le_trans)
  obtain arr where arr: "store_at (unat (array_count a')) [Some obj] (array a') = Inr arr"
    "array_ok (a'\<lparr>array := arr, array_count := array_count a' + 1\<rparr>)"
    "objects (a'\<lparr>array := arr, array_count := array_count a' + 1\<rparr>) = objects a' @ [obj]"
    using store_object [OF a'(1) lt, of obj] by blast
  have "pushObject malloc obj a = Inr (True, a'\<lparr>array := arr, array_count := array_count a' + 1\<rparr>)"
    unfolding pushObject_def Let_def e using a'(3) arr(1) by simp
  then show ?thesis using arr(2,3) a'(2) by simp
qed

lemma iterate_from_objects:
  assumes "array_ok a" and "ndx \<le> array_count a"
  shows "iterate_from ndx a = Inr (drop (unat ndx) (objects a))"
  using assms(2)
proof (induction "unat (array_count a) - unat ndx" arbitrary: ndx rule: less_induct)
  case less
  show ?case
  proof (cases "ndx = array_count a")
    case True
    then show ?thesis
      by (subst iterate_from.simps) (simp add: getNextObjectForIterator_def objects_def)
  next
    case False
    with less.prems have lt: "ndx < array_count a" by simp
    then have i: "unat ndx < unat (array_count a)" "unat (ndx + 1) = Suc (unat ndx)"
      by (simp_all add: word_less_nat_alt unat_inc)
    have len: "unat (array_count a) \<le> length (array a)" using assms(1) by (simp add: array_ok_def word_le_nat_alt)
    have "array a ! unat ndx \<noteq> None" 
      using assms(1) i len by (auto simp: array_ok_def list_all_length)
    then obtain obj where obj: "array a ! unat ndx = Some obj" by blast
    have nxt: "getNextObjectForIterator ndx a = Inr (Some obj, ndx + 1)"
      using lt i len obj by (simp add: getNextObjectForIterator_def getObject_def)
    have "ndx + 1 \<le> array_count a" using i by (simp add: word_le_nat_alt)
    then have "iterate_from (ndx + 1) a = Inr (drop (Suc (unat ndx)) (objects a))"
      using less.hyps [of "ndx + 1"] i by simp
    moreover have "drop (unat ndx) (objects a) = obj # drop (Suc (unat ndx)) (objects a)"
      using i len obj by (simp add: objects_def Cons_nth_drop_Suc [symmetric])
    ultimately show ?thesis by (simp add: iterate_from.simps [of ndx] nxt)
  qed
qed

end
