(* ===== verification/CodeBuffer.thy ===== *)
theory CodeBuffer
  imports LiteContainers
begin

text \<open>
  The code buffer: the emitters of \<^verbatim>\<open>CodeBufferBase.cc\<close> and the loads and fix-ups of
  \<^verbatim>\<open>code-buffer-arm64.cc\<close>, \<^verbatim>\<open>code-buffer-x64.cc\<close> and \<^verbatim>\<open>code-buffer-x86.cc\<close>. The interface \<open>byte_sink\<close>
  says what the assemblers rely on: emitting appends bytes and a fix-up overwrites bytes that were
  emitted. \<open>LiteMutableBuffer\<close> provides it, so a sequence of emissions and fix-ups can be computed
  on a list of bytes, as the assembler theories do.
\<close>

section \<open>Operations\<close>

text \<open>The common body of the emitters: reserve, store at the cursor, advance.\<close>

definition emit_bytes ::
  "(u32 \<Rightarrow> u8 list option) \<Rightarrow> u8 list \<Rightarrow> LiteMutableBuffer \<Rightarrow> asm_fault + LiteMutableBuffer" where
  "emit_bytes malloc bs b =
     bindE (ensureCapacity malloc (of_nat (length bs) + getSize b) b) (\<lambda>(_, b).
     bindE (store_at (buffer_cursor b) bs (buffer b)) (\<lambda>blk.
       Inr (b\<lparr>buffer := blk, buffer_cursor := buffer_cursor b + length bs\<rparr>)))"

definition Emit8 :: "(u32 \<Rightarrow> u8 list option) \<Rightarrow> u8 \<Rightarrow> LiteMutableBuffer \<Rightarrow> asm_fault + LiteMutableBuffer" where
  "Emit8 malloc v b = emit_bytes malloc (le_bytes 1 v) b"

definition Emit16 :: "(u32 \<Rightarrow> u8 list option) \<Rightarrow> u16 \<Rightarrow> LiteMutableBuffer \<Rightarrow> asm_fault + LiteMutableBuffer" where
  "Emit16 malloc v b = emit_bytes malloc (le_bytes 2 v) b"

definition Emit32 :: "(u32 \<Rightarrow> u8 list option) \<Rightarrow> u32 \<Rightarrow> LiteMutableBuffer \<Rightarrow> asm_fault + LiteMutableBuffer" where
  "Emit32 malloc v b = emit_bytes malloc (le_bytes 4 v) b"

definition Emit64 :: "(u32 \<Rightarrow> u8 list option) \<Rightarrow> u64 \<Rightarrow> LiteMutableBuffer \<Rightarrow> asm_fault + LiteMutableBuffer" where
  "Emit64 malloc v b = emit_bytes malloc (le_bytes 8 v) b"

definition EmitBuffer ::
  "(u32 \<Rightarrow> u8 list option) \<Rightarrow> u8 list \<Rightarrow> LiteMutableBuffer \<Rightarrow> asm_fault + LiteMutableBuffer" where
  "EmitBuffer malloc bs b = emit_bytes malloc bs b"

definition EmitInst :: "(u32 \<Rightarrow> u8 list option) \<Rightarrow> u32 \<Rightarrow> LiteMutableBuffer \<Rightarrow> asm_fault + LiteMutableBuffer" where
  "EmitInst malloc instr b = emit_bytes malloc (le_bytes 4 instr) b"

text \<open>A load or store at an offset of the block; a negative offset is outside of it.\<close>

definition LoadInst :: "int \<Rightarrow> LiteMutableBuffer \<Rightarrow> asm_fault + u32" where
  "LoadInst off b =
     (if off < 0 then Inl Wild_access
      else bindE (load_at (nat off) 4 (buffer b)) (\<lambda>p. Inr (le_word p)))"

definition fix_bytes :: "int \<Rightarrow> u8 list \<Rightarrow> LiteMutableBuffer \<Rightarrow> asm_fault + LiteMutableBuffer" where
  "fix_bytes off bs b =
     (if off < 0 then Inl Wild_access
      else bindE (store_at (nat off) bs (buffer b)) (\<lambda>blk. Inr (b\<lparr>buffer := blk\<rparr>)))"

definition FixBindLabel :: "int \<Rightarrow> u32 \<Rightarrow> LiteMutableBuffer \<Rightarrow> asm_fault + LiteMutableBuffer" where
  "FixBindLabel off instr b = fix_bytes off (le_bytes 4 instr) b"

definition Copy :: "(u32 \<Rightarrow> u8 list option) \<Rightarrow> LiteMutableBuffer \<Rightarrow> asm_fault + LiteMutableBuffer" where
  "Copy malloc b =
     (case initWithCapacity malloc (getCapacity b) of None \<Rightarrow> Inl Null_pointer
      | Some result \<Rightarrow> EmitBuffer malloc (take (unat (getSize b)) (buffer b)) result)"

section \<open>The interface of the assemblers\<close>

datatype sink_op = Emit_op "u8 list" | Fix_op int "u8 list"

text \<open>A sequence of operations on a list of at most \<open>limit\<close> bytes; \<open>None\<close> when one does not fit.\<close>

fun sink_spec :: "nat \<Rightarrow> sink_op list \<Rightarrow> u8 list \<Rightarrow> u8 list option" where
  "sink_spec limit [] xs = Some xs"
| "sink_spec limit (Emit_op bs # ops) xs =
     (if length xs + length bs \<le> limit then sink_spec limit ops (xs @ bs) else None)"
| "sink_spec limit (Fix_op off bs # ops) xs =
     (if 0 \<le> off \<and> nat off + length bs \<le> length xs
      then sink_spec limit ops (take (nat off) xs @ bs @ drop (nat off + length bs) xs) else None)"

fun sink_run ::
  "(u8 list \<Rightarrow> 'b \<Rightarrow> asm_fault + 'b) \<Rightarrow> (int \<Rightarrow> u8 list \<Rightarrow> 'b \<Rightarrow> asm_fault + 'b) \<Rightarrow> sink_op list \<Rightarrow> 'b \<Rightarrow>
     asm_fault + 'b" where
  "sink_run emit fixup [] b = Inr b"
| "sink_run emit fixup (Emit_op bs # ops) b = bindE (emit bs b) (sink_run emit fixup ops)"
| "sink_run emit fixup (Fix_op off bs # ops) b = bindE (fixup off bs b) (sink_run emit fixup ops)"

locale byte_sink =
  fixes inv :: "'b \<Rightarrow> bool"
    and bytes :: "'b \<Rightarrow> u8 list"
    and emit :: "u8 list \<Rightarrow> 'b \<Rightarrow> asm_fault + 'b"
    and fixup :: "int \<Rightarrow> u8 list \<Rightarrow> 'b \<Rightarrow> asm_fault + 'b"
    and limit :: nat
  assumes emit_appends:
      "\<lbrakk>inv b; length (bytes b) + length bs \<le> limit\<rbrakk> \<Longrightarrow>
         \<exists>b'. emit bs b = Inr b' \<and> inv b' \<and> bytes b' = bytes b @ bs"
    and fixup_overwrites:
      "\<lbrakk>inv b; 0 \<le> off; nat off + length bs \<le> length (bytes b)\<rbrakk> \<Longrightarrow>
         \<exists>b'. fixup off bs b = Inr b' \<and> inv b' \<and>
              bytes b' = take (nat off) (bytes b) @ bs @ drop (nat off + length bs) (bytes b)"
begin

lemma run_refines_spec:
  "\<lbrakk>inv b; sink_spec limit ops (bytes b) = Some xs\<rbrakk> \<Longrightarrow>
     \<exists>b'. sink_run emit fixup ops b = Inr b' \<and> inv b' \<and> bytes b' = xs"
proof (induction ops arbitrary: b)
  case Nil
  then show ?case by simp
next
  case (Cons op ops)
  show ?case
  proof (cases op)
    case (Emit_op bs)
    with Cons.prems obtain b' where "emit bs b = Inr b'" "inv b'" "bytes b' = bytes b @ bs"
      using emit_appends [of b bs] by (auto split: if_splits)
    then show ?thesis using Cons Emit_op by (auto split: if_splits)
  next
    case (Fix_op off bs)
    with Cons.prems obtain b' where "fixup off bs b = Inr b'" "inv b'"
      "bytes b' = take (nat off) (bytes b) @ bs @ drop (nat off + length bs) (bytes b)"
      using fixup_overwrites [of b off bs] by (auto split: if_splits)
    then show ?thesis using Cons Fix_op by (auto split: if_splits)
  qed
qed

end

section \<open>LiteMutableBuffer provides the interface\<close>

text \<open>
  Growing asks for half as much again in 32 bits, so the buffer works up to a third of the range.
\<close>

definition sink_limit :: nat where
  "sink_limit = 0x7fffffff"

lemma emit_bytes_appends:
  assumes ok: "buffer_ok b" and mem: "malloc_ok malloc" and room: "length (content b) + length bs \<le> sink_limit"
  shows "\<exists>b'. emit_bytes malloc bs b = Inr b' \<and> buffer_ok b' \<and> content b' = content b @ bs"
proof -
  let ?n = "of_nat (length bs) + getSize b"
  have small: "unat (of_nat (length bs) :: u32) = length bs"
    using room by (simp add: sink_limit_def unat_of_nat)
  have n: "unat ?n = length bs + length (content b)"
    using room unat_add_small [of "of_nat (length bs) :: u32" "getSize b"]
    by (simp add: small getSize_content [OF ok] sink_limit_def)
  then obtain cap b' where e: "ensureCapacity malloc ?n b = Inr (cap, b')"
    and b': "buffer_ok b'" "content b' = content b" "buffer_cursor b' = buffer_cursor b" "unat ?n \<le> length (buffer b')"
    using ensureCapacity_ok [OF ok mem, of ?n] room by (auto simp: sink_limit_def)
  have cur: "buffer_cursor b' + length bs \<le> length (buffer b')"
    using b' n content_length [OF ok] by simp
  then show ?thesis
    using b' ok by (simp add: emit_bytes_def e buffer_ok_def content_def)
qed

lemma take_overwrite:
  assumes "i + length bs \<le> c" and "c \<le> length xs"
  shows "take c (take i xs @ bs @ drop (i + length bs) xs) =
           take i (take c xs) @ bs @ drop (i + length bs) (take c xs)"
proof -
  have "min c i = i" "min (length xs) i = i" "min i c = i" using assms by simp_all
  then show ?thesis using assms by (simp add: drop_take)
qed

lemma fix_bytes_overwrites:
  assumes ok: "buffer_ok b" and off: "0 \<le> off" "nat off + length bs \<le> length (content b)"
  shows "\<exists>b'. fix_bytes off bs b = Inr b' \<and> buffer_ok b' \<and>
           content b' = take (nat off) (content b) @ bs @ drop (nat off + length bs) (content b)"
proof -
  have cur: "nat off + length bs \<le> buffer_cursor b" "buffer_cursor b \<le> length (buffer b)"
    using off(2) ok content_length [OF ok] by (simp_all add: buffer_ok_def)
  then show ?thesis
    using off(1) ok take_overwrite [OF cur] by (simp add: fix_bytes_def buffer_ok_def content_def)
qed

interpretation lmb: byte_sink
  "\<lambda>b. buffer_ok b \<and> malloc_ok malloc" content "emit_bytes malloc" fix_bytes sink_limit
  for malloc :: "u32 \<Rightarrow> u8 list option"
proof unfold_locales
  fix b :: LiteMutableBuffer and bs :: "u8 list"
  assume "buffer_ok b \<and> malloc_ok malloc" "length (content b) + length bs \<le> sink_limit"
  then show "\<exists>b'. emit_bytes malloc bs b = Inr b' \<and> (buffer_ok b' \<and> malloc_ok malloc) \<and> content b' = content b @ bs"
    using emit_bytes_appends by blast
next
  fix b :: LiteMutableBuffer and off :: int and bs :: "u8 list"
  assume "buffer_ok b \<and> malloc_ok malloc" "0 \<le> off" "nat off + length bs \<le> length (content b)"
  then show "\<exists>b'. fix_bytes off bs b = Inr b' \<and> (buffer_ok b' \<and> malloc_ok malloc) \<and>
      content b' = take (nat off) (content b) @ bs @ drop (nat off + length bs) (content b)"
    using fix_bytes_overwrites by blast
qed

lemma LoadInst_content:
  assumes "buffer_ok b" and "0 \<le> off" and "nat off + 4 \<le> length (content b)"
  shows "LoadInst off b = Inr (le_word (take 4 (drop (nat off) (content b))))"
proof -
  have "nat off + 4 \<le> buffer_cursor b" "buffer_cursor b \<le> length (buffer b)"
    using assms content_length [OF assms(1)] by (auto simp: buffer_ok_def)
  then show ?thesis using assms(2) by (simp add: LoadInst_def content_def drop_take min_def)
qed

section \<open>Properties\<close>





end
