(* ===== verification/LinkedList.thy ===== *)
theory LinkedList
  imports LiteContainers
begin

text \<open>
  The intrusive doubly linked list of \<^verbatim>\<open>list_structure.h\<close> on an explicit heap of nodes, and its refinement
  to a list of node addresses. Following a pointer to no node (the null pointer among them) is a
  wild access.
\<close>

section \<open>Nodes and operations\<close>

record list_head =
  next_ptr :: addr
  prev_ptr :: addr

type_synonym node_heap = "addr \<rightharpoonup> list_head"

definition set_next :: "addr \<Rightarrow> addr \<Rightarrow> node_heap \<Rightarrow> asm_fault + node_heap" where
  "set_next a v h = (case h a of None \<Rightarrow> Inl Wild_access | Some n \<Rightarrow> Inr (h(a \<mapsto> n\<lparr>next_ptr := v\<rparr>)))"

definition set_prev :: "addr \<Rightarrow> addr \<Rightarrow> node_heap \<Rightarrow> asm_fault + node_heap" where
  "set_prev a v h = (case h a of None \<Rightarrow> Inl Wild_access | Some n \<Rightarrow> Inr (h(a \<mapsto> n\<lparr>prev_ptr := v\<rparr>)))"

definition get_next :: "addr \<Rightarrow> node_heap \<Rightarrow> asm_fault + addr" where
  "get_next a h = (case h a of None \<Rightarrow> Inl Wild_access | Some n \<Rightarrow> Inr (next_ptr n))"

definition get_prev :: "addr \<Rightarrow> node_heap \<Rightarrow> asm_fault + addr" where
  "get_prev a h = (case h a of None \<Rightarrow> Inl Wild_access | Some n \<Rightarrow> Inr (prev_ptr n))"

definition INIT_LIST_HEAD :: "addr \<Rightarrow> node_heap \<Rightarrow> asm_fault + node_heap" where
  "INIT_LIST_HEAD p h = bindE (set_next p p h) (set_prev p p)"

definition list_empty :: "addr \<Rightarrow> node_heap \<Rightarrow> asm_fault + bool" where
  "list_empty head h = bindE (get_next head h) (\<lambda>n. Inr (n = head))"

definition list_add_between :: "addr \<Rightarrow> addr \<Rightarrow> addr \<Rightarrow> node_heap \<Rightarrow> asm_fault + node_heap" where
  "list_add_between new_node prv nxt h =
     bindE (set_prev nxt new_node h) (\<lambda>h.
     bindE (set_next new_node nxt h) (\<lambda>h.
     bindE (set_prev new_node prv h) (\<lambda>h.
       set_next prv new_node h)))"

definition list_add :: "addr \<Rightarrow> addr \<Rightarrow> node_heap \<Rightarrow> asm_fault + node_heap" where
  "list_add new_node head h = bindE (get_next head h) (\<lambda>nxt. list_add_between new_node head nxt h)"

definition list_del_between :: "addr \<Rightarrow> addr \<Rightarrow> node_heap \<Rightarrow> asm_fault + node_heap" where
  "list_del_between prv nxt h = bindE (set_prev nxt prv h) (set_next prv nxt)"

definition list_del :: "addr \<Rightarrow> node_heap \<Rightarrow> asm_fault + node_heap" where
  "list_del entry h =
     bindE (get_prev entry h) (\<lambda>prv.
     bindE (get_next entry h) (\<lambda>nxt.
     bindE (list_del_between prv nxt h) (\<lambda>h.
     bindE (set_next entry 0 h) (\<lambda>h.
       set_prev entry 0 h))))"

section \<open>The list that a heap represents\<close>

definition nxt_of :: "node_heap \<Rightarrow> addr \<Rightarrow> addr option" where
  "nxt_of h a = map_option next_ptr (h a)"

definition prv_of :: "node_heap \<Rightarrow> addr \<Rightarrow> addr option" where
  "prv_of h a = map_option prev_ptr (h a)"

fun chain :: "node_heap \<Rightarrow> addr list \<Rightarrow> bool" where
  "chain h (a # b # r) \<longleftrightarrow> nxt_of h a = Some b \<and> prv_of h b = Some a \<and> chain h (b # r)"
| "chain h _ \<longleftrightarrow> True"

definition linked :: "node_heap \<Rightarrow> addr \<Rightarrow> addr list \<Rightarrow> bool" where
  "linked h head xs \<longleftrightarrow> chain h (head # xs @ [head]) \<and> distinct (head # xs)"

lemma chain_split: "chain h (A @ b # C) \<longleftrightarrow> chain h (A @ [b]) \<and> chain h (b # C)"
proof (induction A)
  case (Cons a A)
  then show ?case by (cases A) auto
qed simp

lemma chain_cong:
  assumes "\<And>v. v \<in> set (butlast L) \<Longrightarrow> nxt_of h' v = nxt_of h v" and "\<And>v. v \<in> set (tl L) \<Longrightarrow> prv_of h' v = prv_of h v"
  shows "chain h' L = chain h L"
  using assms
proof (induction h L rule: chain.induct)
  case (1 h a b r)
  then show ?case by (cases r) auto
qed auto

lemma chain_dom: "chain h L \<Longrightarrow> length L \<ge> 2 \<Longrightarrow> v \<in> set L \<Longrightarrow> h v \<noteq> None"
proof (induction h L rule: chain.induct)
  case (1 h a b r)
  then show ?case by (cases r) (auto simp: nxt_of_def prv_of_def)
qed auto

lemma linked_dom: "linked h head xs \<Longrightarrow> v \<in> set (head # xs) \<Longrightarrow> h v \<noteq> None"
  using chain_dom [of h "head # xs @ [head]" v] by (auto simp: linked_def)

lemma set_ptr_simps [simp]:
  "set_next a v h = Inr h' \<Longrightarrow> nxt_of h' = (nxt_of h)(a := Some v)"
  "set_next a v h = Inr h' \<Longrightarrow> prv_of h' = prv_of h"
  "set_prev a v h = Inr h' \<Longrightarrow> nxt_of h' = nxt_of h"
  "set_prev a v h = Inr h' \<Longrightarrow> prv_of h' = (prv_of h)(a := Some v)"
  by (auto simp: set_next_def set_prev_def nxt_of_def prv_of_def split: option.splits)

lemma set_ptr_total:
  "h a \<noteq> None \<Longrightarrow> \<exists>h'. set_next a v h = Inr h' \<and> dom h' = dom h"
  "h a \<noteq> None \<Longrightarrow> \<exists>h'. set_prev a v h = Inr h' \<and> dom h' = dom h"
  by (auto simp: set_next_def set_prev_def)

text \<open>Linking two nodes: what the two assignments of insertion and removal have in common.\<close>

lemma list_del_between_ok:
  assumes "h p \<noteq> None" and "h n \<noteq> None"
  shows "\<exists>h'. list_del_between p n h = Inr h' \<and> dom h' = dom h \<and> nxt_of h' = (nxt_of h)(p := Some n) \<and>
     prv_of h' = (prv_of h)(n := Some p)"
proof -
  obtain h1 where h1: "set_prev n p h = Inr h1" "dom h1 = dom h" using set_ptr_total(2) assms(2) by blast
  then have "h1 p \<noteq> None" using assms(1) by (auto simp: dom_def)
  then obtain h2 where h2: "set_next p n h1 = Inr h2" "dom h2 = dom h1" using set_ptr_total(1) by blast
  then show ?thesis using h1 by (intro exI [of _ h2]) (simp add: list_del_between_def)
qed

lemma INIT_LIST_HEAD_linked:
  assumes "h p \<noteq> None"
  shows "\<exists>h'. INIT_LIST_HEAD p h = Inr h' \<and> dom h' = dom h \<and> linked h' p []"
proof -
  obtain h1 where h1: "set_next p p h = Inr h1" "dom h1 = dom h" using set_ptr_total(1) assms by blast
  then have "h1 p \<noteq> None" using assms by (auto simp: dom_def)
  then obtain h2 where h2: "set_prev p p h1 = Inr h2" "dom h2 = dom h1" using set_ptr_total(2) by blast
  then show ?thesis using h1 by (intro exI [of _ h2]) (simp add: INIT_LIST_HEAD_def linked_def)
qed

lemma linked_hd: "linked h head xs \<Longrightarrow> get_next head h = Inr (hd (xs @ [head]))"
  by (cases xs) (auto simp: linked_def get_next_def nxt_of_def split: option.splits)

lemma list_empty_iff: "linked h head xs \<Longrightarrow> list_empty head h = Inr (xs = [])"
  using linked_hd [of h head xs] by (cases xs) (auto simp: list_empty_def linked_def)

lemma list_add_linked:
  assumes l: "linked h head xs" and new: "new_node \<notin> set (head # xs)" "h new_node \<noteq> None"
  shows "\<exists>h'. list_add new_node head h = Inr h' \<and> dom h' = dom h \<and> linked h' head (new_node # xs)"
proof -
  let ?n = "hd (xs @ [head])"
  have n: "?n \<in> set (head # xs)" by (cases xs) auto
  then have "h ?n \<noteq> None" using linked_dom [OF l] by blast
  then obtain h1 where h1: "set_prev ?n new_node h = Inr h1" "dom h1 = dom h" using set_ptr_total(2) by blast
  then obtain h2 where h2: "set_next new_node ?n h1 = Inr h2" "dom h2 = dom h"
    using set_ptr_total(1) [of h1 new_node ?n] new(2) by (auto simp: dom_def)
  then obtain h3 where h3: "set_prev new_node head h2 = Inr h3" "dom h3 = dom h"
    using set_ptr_total(2) [of h2 new_node head] new(2) by (auto simp: dom_def)
  then obtain h4 where h4: "set_next head new_node h3 = Inr h4" "dom h4 = dom h"
    using set_ptr_total(1) [of h3 head new_node] linked_dom [OF l, of head] by (auto simp: dom_def)
  have add: "list_add new_node head h = Inr h4"
    using linked_hd [OF l] by (simp add: list_add_def list_add_between_def h1(1) h2(1) h3(1) h4(1))
  have ptr: "nxt_of h4 = (nxt_of h)(new_node := Some ?n, head := Some new_node)"
      "prv_of h4 = (prv_of h)(?n := Some new_node, new_node := Some head)"
    using h1(1) h2(1) h3(1) h4(1) by simp_all
  have d: "distinct (head # xs)" using l by (simp add: linked_def)
  have "chain h4 (xs @ [head]) = chain h (xs @ [head])"
  proof (rule chain_cong)
    fix v assume "v \<in> set (butlast (xs @ [head]))"
    then show "nxt_of h4 v = nxt_of h v" using new(1) d by (auto simp: ptr)
  next
    fix v assume v: "v \<in> set (tl (xs @ [head]))"
    then have "v \<in> set (head # xs)" "v \<noteq> ?n" using d by (cases xs; auto)+
    then show "prv_of h4 v = prv_of h v" using new(1) by (auto simp: ptr)
  qed
  moreover have "chain h (xs @ [head])" using l by (cases xs) (auto simp: linked_def)
  ultimately have "chain h4 (xs @ [head])" by simp
  then have "chain h4 (head # new_node # xs @ [head])"
    using new(1) n by (cases xs) (auto simp: ptr)
  then show ?thesis using add h4(2) l new(1) by (auto simp: linked_def)
qed

lemma chain_unlink:
  assumes ch: "chain h (A @ p # y # n # C)"
    and ptr: "nxt_of h' = (nxt_of h)(p := Some n, y := Some 0)" "prv_of h' = (prv_of h)(n := Some p, y := Some 0)"
    and y: "y \<notin> set (A @ p # n # C)"
    and p: "p \<notin> set A" "p \<notin> set (butlast (n # C))" and n: "n \<notin> set C" "n \<notin> set (tl (A @ [p]))"
  shows "chain h' (A @ p # n # C)"
proof -
  have parts: "chain h (A @ [p])" "chain h (n # C)" using ch chain_split [of h A p "y # n # C"] by auto
  have "chain h' (A @ [p]) = chain h (A @ [p])"
  proof (rule chain_cong)
    fix v assume "v \<in> set (butlast (A @ [p]))"
    then show "nxt_of h' v = nxt_of h v" using p(1) y by (auto simp: ptr)
  next
    fix v assume v: "v \<in> set (tl (A @ [p]))"
    then have "v \<in> set (A @ [p])" by (rule list.set_sel(2) [rotated]) simp
    then show "prv_of h' v = prv_of h v" using v y n(2) by (auto simp: ptr)
  qed
  moreover have "chain h' (n # C) = chain h (n # C)"
  proof (rule chain_cong)
    fix v assume v: "v \<in> set (butlast (n # C))"
    then have "v \<in> set (n # C)" by (rule in_set_butlastD)
    then show "nxt_of h' v = nxt_of h v" using v p(2) y by (auto simp: ptr)
  next
    fix v assume "v \<in> set (tl (n # C))"
    then show "prv_of h' v = prv_of h v" using n(1) y by (auto simp: ptr)
  qed
  ultimately show ?thesis using parts chain_split [of h' A p "n # C"] y by (auto simp: ptr)
qed

lemma list_del_ok:
  assumes y: "nxt_of h y = Some n" "prv_of h y = Some p" and "h p \<noteq> None" and "h n \<noteq> None"
  shows "\<exists>h'. list_del y h = Inr h' \<and> dom h' = dom h \<and>
     nxt_of h' = (nxt_of h)(p := Some n, y := Some 0) \<and> prv_of h' = (prv_of h)(n := Some p, y := Some 0)"
proof -
  have hy: "h y \<noteq> None" using y(1) by (auto simp: nxt_of_def)
  obtain h1 where h1: "list_del_between p n h = Inr h1" "dom h1 = dom h" "nxt_of h1 = (nxt_of h)(p := Some n)"
      "prv_of h1 = (prv_of h)(n := Some p)"
    using list_del_between_ok assms(3,4) by blast
  obtain h2 where h2: "set_next y 0 h1 = Inr h2" "dom h2 = dom h"
    using set_ptr_total(1) [of h1 y 0] h1(2) hy by (auto simp: dom_def)
  obtain h3 where h3: "set_prev y 0 h2 = Inr h3" "dom h3 = dom h"
    using set_ptr_total(2) [of h2 y 0] h2(2) hy by (auto simp: dom_def)
  have "get_prev y h = Inr p" "get_next y h = Inr n"
    using y by (auto simp: get_prev_def get_next_def prv_of_def nxt_of_def)
  then have "list_del y h = Inr h3" by (simp add: list_del_def h1(1) h2(1) h3(1))
  moreover have "nxt_of h3 = (nxt_of h)(p := Some n, y := Some 0)" "prv_of h3 = (prv_of h)(n := Some p, y := Some 0)"
    using h1(3,4) h2(1) h3(1) by simp_all
  ultimately show ?thesis using h3(2) by blast
qed

lemma list_del_linked:
  assumes l: "linked h head (xs @ y # ys)"
  shows "\<exists>h'. list_del y h = Inr h' \<and> dom h' = dom h \<and> linked h' head (xs @ ys)"
proof -
  obtain A p where A: "head # xs = A @ [p]" by (metis list.distinct(1) rev_exhaust)
  obtain n C where C: "ys @ [head] = n # C" by (cases ys) auto
  have d: "distinct (head # xs @ y # ys)" using l by (simp add: linked_def)
  have "head # (xs @ y # ys) @ [head] = (head # xs) @ y # (ys @ [head])" by simp
  also have "\<dots> = A @ p # y # n # C" unfolding A C by simp
  finally have ch: "chain h (A @ p # y # n # C)" using l by (simp add: linked_def)
  then have y: "nxt_of h y = Some n" "prv_of h y = Some p" using chain_split [of h A p "y # n # C"] by auto
  have mem: "set (head # xs) = insert p (set A)" "set (head # ys) = insert n (set C)"
    using arg_cong [OF A, of set] arg_cong [OF C, of set] by auto
  have "h p \<noteq> None" "h n \<noteq> None" using linked_dom [OF l] mem by auto
  from list_del_ok [OF y this] obtain h' where h': "list_del y h = Inr h'" "dom h' = dom h"
      "nxt_of h' = (nxt_of h)(p := Some n, y := Some 0)" "prv_of h' = (prv_of h)(n := Some p, y := Some 0)" by blast
  have "distinct (head # xs)" "distinct ys" using d by simp_all
  then have "distinct (A @ [p])" "distinct ys" unfolding A .
  moreover have "set (tl (A @ [p])) = set xs" "set (butlast (n # C)) = set ys"
    unfolding A [symmetric] C [symmetric] by simp_all
  moreover have "n \<notin> set C" "n \<notin> set xs" "p \<notin> set ys" "y \<notin> set (A @ p # n # C)"
    using d C mem by (cases ys; auto)+
  ultimately have "chain h' (A @ p # n # C)" by (intro chain_unlink [OF ch h'(3,4)]) auto
  moreover have "head # (xs @ ys) @ [head] = A @ p # n # C" using A C by simp
  ultimately have "linked h' head (xs @ ys)" using d by (simp add: linked_def)
  then show ?thesis using h'(1,2) by blast
qed

end
