(* ===== verification/MemoryArena.thy ===== *)
theory MemoryArena
  imports UtilityMacro "HOL-Library.Multiset"
begin

text \<open>
  The page arena (\<^verbatim>\<open>MemoryArena.h\<close>, \<^verbatim>\<open>MemoryArena.cc\<close>): chunks are cut from pages by moving a cursor, a
  new page is mapped when no page has room. The array of pages is a list (it is used through
  the operations whose list behaviour is shown in \<open>CodeBuffer\<close>); the address that
  \<^verbatim>\<open>OSMemory::Allocate\<close> returns is an argument of the allocation, 0 where mapping fails.
\<close>

section \<open>Data\<close>

datatype MemoryPermission = kNoAccess | kRead | kReadWrite | kReadWriteExecute | kReadExecute

record MemoryChunk =
  chunk_address :: addr
  chunk_length :: u64

definition init_region_range :: "addr \<Rightarrow> u64 \<Rightarrow> MemoryChunk" where
  "init_region_range a n = \<lparr>chunk_address = a, chunk_length = n\<rparr>"

record PageChunk =
  page :: MemoryChunk
  page_cursor :: addr
  permission :: MemoryPermission
  page_objects :: "MemoryChunk list"

type_synonym arena = "PageChunk list option"

definition arena_pages :: "arena \<Rightarrow> PageChunk list" where
  "arena_pages ar = (case ar of None \<Rightarrow> [] | Some ps \<Rightarrow> ps)"

section \<open>Allocation\<close>

text \<open>The test of the search loop: the permission and the room behind the cursor.\<close>

definition page_has_room :: "int \<Rightarrow> MemoryPermission \<Rightarrow> PageChunk \<Rightarrow> bool" where
  "page_has_room alloc_size perm pg \<longleftrightarrow>
     permission pg = perm \<and>
     page_cursor pg + word_of_int alloc_size < chunk_address (page pg) + chunk_length (page pg)"

fun find_page :: "(PageChunk \<Rightarrow> bool) \<Rightarrow> PageChunk list \<Rightarrow> nat option" where
  "find_page P [] = None"
| "find_page P (pg # pgs) = (if P pg then Some 0 else map_option Suc (find_page P pgs))"

definition new_page :: "addr \<Rightarrow> u64 \<Rightarrow> MemoryPermission \<Rightarrow> PageChunk" where
  "new_page pageAddress pageSize perm =
     \<lparr>page = \<lparr>chunk_address = pageAddress, chunk_length = pageSize\<rparr>, page_cursor = pageAddress, permission = perm,
      page_objects = []\<rparr>"

definition cut_chunk :: "int \<Rightarrow> PageChunk \<Rightarrow> MemoryChunk \<times> PageChunk" where
  "cut_chunk alloc_size pg =
     (let chunk = \<lparr>chunk_address = page_cursor pg, chunk_length = word_of_int alloc_size\<rparr>
      in (chunk, pg\<lparr>page_objects := page_objects pg @ [chunk], page_cursor := page_cursor pg + word_of_int alloc_size\<rparr>))"

definition AllocateChunk ::
  "int \<Rightarrow> addr \<Rightarrow> int \<Rightarrow> MemoryPermission \<Rightarrow> arena \<Rightarrow> MemoryChunk option \<times> arena" where
  "AllocateChunk pageSize pageAddress alloc_size perm ar =
     (let pgs = arena_pages ar in
      case find_page (page_has_room alloc_size perm) pgs of
        Some i \<Rightarrow> (let (chunk, pg) = cut_chunk alloc_size (pgs ! i) in (Some chunk, Some (pgs[i := pg])))
      | None \<Rightarrow>
          if pageAddress = 0 then (None, Some pgs)
          else (let (chunk, pg) = cut_chunk alloc_size (new_page pageAddress (word_of_int pageSize) perm)
                in (Some chunk, Some (pgs @ [pg]))))"

definition AllocateCodeChunk :: "int \<Rightarrow> addr \<Rightarrow> int \<Rightarrow> arena \<Rightarrow> MemoryChunk option \<times> arena" where
  "AllocateCodeChunk pageSize pageAddress alloc_size = AllocateChunk pageSize pageAddress alloc_size kReadExecute"

definition AllocateDataChunk :: "int \<Rightarrow> addr \<Rightarrow> int \<Rightarrow> arena \<Rightarrow> MemoryChunk option \<times> arena" where
  "AllocateDataChunk pageSize pageAddress alloc_size = AllocateChunk pageSize pageAddress alloc_size kReadWrite"

section \<open>The interface of an allocator\<close>

definition chunk_end :: "MemoryChunk \<Rightarrow> nat" where
  "chunk_end c = unat (chunk_address c) + unat (chunk_length c)"

definition apart :: "MemoryChunk \<Rightarrow> MemoryChunk \<Rightarrow> bool" where
  "apart c d \<longleftrightarrow> chunk_end c \<le> unat (chunk_address d) \<or> chunk_end d \<le> unat (chunk_address c)"

definition inside :: "MemoryChunk \<Rightarrow> MemoryChunk \<Rightarrow> bool" where
  "inside c d \<longleftrightarrow> unat (chunk_address d) \<le> unat (chunk_address c) \<and> chunk_end c \<le> chunk_end d"

lemma apart_sym: "apart c d \<Longrightarrow> apart d c"
  by (auto simp: apart_def)

lemma apart_inside: "\<lbrakk>apart p q; inside c p; inside d q\<rbrakk> \<Longrightarrow> apart c d"
  by (auto simp: apart_def inside_def)

text \<open>A sequence of requests, and that every request is admissible when it is made.\<close>

fun alloc_run :: "('r \<Rightarrow> 's \<Rightarrow> MemoryChunk option \<times> 's) \<Rightarrow> 'r list \<Rightarrow> 's \<Rightarrow> MemoryChunk list \<times> 's" where
  "alloc_run alloc [] s = ([], s)"
| "alloc_run alloc (r # rs) s =
     (let (c, s') = alloc r s; (cs, s'') = alloc_run alloc rs s'
      in (case c of None \<Rightarrow> cs | Some c \<Rightarrow> c # cs, s''))"

fun admissible_run :: "('r \<Rightarrow> 's \<Rightarrow> bool) \<Rightarrow> ('r \<Rightarrow> 's \<Rightarrow> MemoryChunk option \<times> 's) \<Rightarrow> 'r list \<Rightarrow> 's \<Rightarrow> bool" where
  "admissible_run ok alloc [] s \<longleftrightarrow> True"
| "admissible_run ok alloc (r # rs) s \<longleftrightarrow> ok r s \<and> admissible_run ok alloc rs (snd (alloc r s))"

fun all_apart :: "MemoryChunk list \<Rightarrow> bool" where
  "all_apart [] \<longleftrightarrow> True"
| "all_apart (c # cs) \<longleftrightarrow> list_all (apart c) cs \<and> all_apart cs"

text \<open>
  The laws: the invariant is kept, a granted chunk is added to the live chunks and overlaps none of
  them, and a refusal leaves the live chunks alone.
\<close>

locale chunk_allocator =
  fixes alloc :: "'r \<Rightarrow> 's \<Rightarrow> MemoryChunk option \<times> 's"
    and inv :: "'s \<Rightarrow> bool"
    and ok :: "'r \<Rightarrow> 's \<Rightarrow> bool"
    and live :: "'s \<Rightarrow> MemoryChunk multiset"
  assumes alloc_inv: "\<lbrakk>inv s; ok r s; alloc r s = (res, s')\<rbrakk> \<Longrightarrow> inv s'"
    and alloc_grant: "\<lbrakk>inv s; ok r s; alloc r s = (Some c, s')\<rbrakk> \<Longrightarrow>
           live s' = add_mset c (live s) \<and> (\<forall>d \<in># live s. apart c d)"
    and alloc_refuse: "\<lbrakk>inv s; ok r s; alloc r s = (None, s')\<rbrakk> \<Longrightarrow> live s' = live s"
begin

lemma run_live:
  "\<lbrakk>inv s; admissible_run ok alloc rs s; alloc_run alloc rs s = (cs, s')\<rbrakk> \<Longrightarrow> inv s' \<and> live s' = mset cs + live s"
proof (induction rs arbitrary: s cs)
  case (Cons r rs)
  obtain c s1 where a: "alloc r s = (c, s1)" by fastforce
  obtain cs1 where r: "alloc_run alloc rs s1 = (cs1, s')" using Cons.prems(3) a by (auto split: prod.splits)
  have "inv s' \<and> live s' = mset cs1 + live s1"
    using Cons.IH [OF _ _ r] alloc_inv [OF _ _ a] Cons.prems a by simp
  then show ?case
    using Cons.prems a r alloc_grant [of s r _ s1] alloc_refuse [of s r s1] by (cases c) auto
qed simp

lemma run_apart_live:
  "\<lbrakk>inv s; admissible_run ok alloc rs s; alloc_run alloc rs s = (cs, s'); d \<in># live s; c \<in> set cs\<rbrakk> \<Longrightarrow> apart c d"
proof (induction rs arbitrary: s cs c)
  case (Cons r rs)
  obtain c1 s1 where a: "alloc r s = (c1, s1)" by fastforce
  obtain cs1 where r: "alloc_run alloc rs s1 = (cs1, s')" using Cons.prems(3) a by (auto split: prod.splits)
  have keep: "d \<in># live s1"
    using Cons.prems a alloc_grant [of s r _ s1] alloc_refuse [of s r s1] by (cases c1) auto
  have "\<And>c. c \<in> set cs1 \<Longrightarrow> apart c d"
    using Cons.IH [OF _ _ r keep] alloc_inv [OF _ _ a] Cons.prems(1,2) a by simp
  then show ?case
    using Cons.prems a r alloc_grant [of s r _ s1] by (cases c1) auto
qed simp

lemma run_all_apart:
  "\<lbrakk>inv s; admissible_run ok alloc rs s; alloc_run alloc rs s = (cs, s')\<rbrakk> \<Longrightarrow> all_apart cs"
proof (induction rs arbitrary: s cs)
  case (Cons r rs)
  obtain c1 s1 where a: "alloc r s = (c1, s1)" by fastforce
  obtain cs1 where r: "alloc_run alloc rs s1 = (cs1, s')" using Cons.prems(3) a by (auto split: prod.splits)
  have pre: "inv s1" "admissible_run ok alloc rs s1" using alloc_inv [OF _ _ a] Cons.prems(1,2) a by simp_all
  have "all_apart cs1" using Cons.IH [OF pre r] .
  moreover have "list_all (apart c) cs1" if "c1 = Some c" for c
  proof -
    have "c \<in># live s1" using alloc_grant [of s r c s1] Cons.prems(1,2) a that by simp
    then show ?thesis using run_apart_live [OF pre r] by (auto simp: list_all_iff apart_sym)
  qed
  ultimately show ?case using Cons.prems(3) a r by (cases c1) auto
qed simp

end

section \<open>The arena as an allocator\<close>

text \<open>The chunks of a page follow each other from its start to the cursor, and the cursor stays in the page.\<close>

fun laid_out :: "nat \<Rightarrow> MemoryChunk list \<Rightarrow> nat \<Rightarrow> bool" where
  "laid_out p [] q \<longleftrightarrow> p = q"
| "laid_out p (c # cs) q \<longleftrightarrow> unat (chunk_address c) = p \<and> laid_out (chunk_end c) cs q"

definition page_ok :: "PageChunk \<Rightarrow> bool" where
  "page_ok pg \<longleftrightarrow> laid_out (unat (chunk_address (page pg))) (page_objects pg) (unat (page_cursor pg)) \<and>
     unat (page_cursor pg) \<le> chunk_end (page pg) \<and> chunk_end (page pg) < 2 ^ 63"

definition pages_ok :: "PageChunk list \<Rightarrow> bool" where
  "pages_ok pgs \<longleftrightarrow> list_all page_ok pgs \<and> all_apart (map page pgs)"

definition pages_live :: "PageChunk list \<Rightarrow> MemoryChunk multiset" where
  "pages_live pgs = mset (concat (map page_objects pgs))"

text \<open>The mapped page is new: it overlaps no page of the arena (what \<^verbatim>\<open>mmap\<close> promises without \<^verbatim>\<open>MAP_FIXED\<close>).\<close>

definition mapped_ok :: "int \<Rightarrow> addr \<Rightarrow> PageChunk list \<Rightarrow> bool" where
  "mapped_ok pageSize pageAddress pgs \<longleftrightarrow>
     pageAddress = 0 \<or> unat pageAddress + nat pageSize < 2 ^ 63 \<and>
       list_all (\<lambda>pg. apart (page pg) \<lparr>chunk_address = pageAddress, chunk_length = word_of_int pageSize\<rparr>) pgs"

lemma laid_out_append: "laid_out p (cs @ ds) q \<longleftrightarrow> (\<exists>m. laid_out p cs m \<and> laid_out m ds q)"
  by (induction cs arbitrary: p) auto

lemma laid_out_mono: "laid_out p cs q \<Longrightarrow> p \<le> q"
proof (induction cs arbitrary: p)
  case (Cons c cs)
  then have "chunk_end c \<le> q" by simp
  then show ?case using Cons.prems by (simp add: chunk_end_def)
qed simp

lemma laid_out_inside: "laid_out p cs q \<Longrightarrow> c \<in> set cs \<Longrightarrow> p \<le> unat (chunk_address c) \<and> chunk_end c \<le> q"
proof (induction cs arbitrary: p)
  case (Cons d ds)
  then have "unat (chunk_address d) = p" "laid_out (chunk_end d) ds q" by simp_all
  moreover have "p \<le> chunk_end d" using \<open>unat (chunk_address d) = p\<close> by (simp add: chunk_end_def)
  ultimately show ?case
    using laid_out_mono [of "chunk_end d" ds q] Cons.IH [of "chunk_end d"] Cons.prems(2) by fastforce
qed simp

lemma unat_word_of_int: "0 \<le> n \<Longrightarrow> n < 2 ^ 64 \<Longrightarrow> unat (word_of_int n :: u64) = nat n"
  by (simp add: unsigned_of_int take_bit_int_eq_self)

lemma cut_chunk_ok:
  assumes ok: "page_ok pg" and size: "0 \<le> n" "n < 2 ^ 31" and room: "unat (page_cursor pg) + nat n \<le> chunk_end (page pg)"
    and cut: "cut_chunk n pg = (c, pg')"
  shows "page_ok pg'" "page pg' = page pg" "permission pg' = permission pg" "page_objects pg' = page_objects pg @ [c]"
    "chunk_length c = word_of_int n" "inside c (page pg)" "\<forall>d \<in> set (page_objects pg). apart c d"
proof -
  have c: "c = \<lparr>chunk_address = page_cursor pg, chunk_length = word_of_int n\<rparr>"
    and pg': "pg' = pg\<lparr>page_objects := page_objects pg @ [c], page_cursor := page_cursor pg + word_of_int n\<rparr>"
    using cut by (auto simp: cut_chunk_def Let_def)
  have n: "unat (word_of_int n :: u64) = nat n" using size by (intro unat_word_of_int) simp_all
  then have cursor: "unat (page_cursor pg + word_of_int n) = unat (page_cursor pg) + nat n"
    using ok room by (subst unat_add_small) (simp_all add: page_ok_def)
  have ends: "chunk_end c = unat (page_cursor pg) + nat n" by (simp add: c chunk_end_def n)
  show "page_ok pg'" using ok room cursor ends by (simp add: page_ok_def pg' laid_out_append) (simp add: c)
  have "unat (chunk_address (page pg)) \<le> unat (page_cursor pg)"
    using ok laid_out_mono by (auto simp: page_ok_def)
  then show "inside c (page pg)" using room ends by (simp add: inside_def c)
  show "\<forall>d \<in> set (page_objects pg). apart c d"
    using ok laid_out_inside by (fastforce simp: page_ok_def apart_def c)
qed (use cut in \<open>auto simp: cut_chunk_def Let_def\<close>)

lemma new_page_ok: "\<lbrakk>unat a + nat n < 2 ^ 63; 0 \<le> n; n < 2 ^ 31\<rbrakk> \<Longrightarrow> page_ok (new_page a (word_of_int n) perm)"
  by (simp add: page_ok_def new_page_def chunk_end_def unat_word_of_int)

lemma find_page_Some: "find_page P pgs = Some i \<Longrightarrow> i < length pgs \<and> P (pgs ! i)"
  by (induction pgs arbitrary: i) (auto split: if_splits)

lemma find_page_None: "find_page P pgs = None \<longleftrightarrow> (\<forall>pg \<in> set pgs. \<not> P pg)"
  by (induction pgs) auto

lemma page_has_room_nat:
  assumes ok: "page_ok pg" and room: "page_has_room n perm pg" and n: "0 \<le> n" "n < 2 ^ 31"
  shows "unat (page_cursor pg) + nat n < chunk_end (page pg)"
proof -
  have u: "unat (word_of_int n :: u64) = nat n" using n by (intro unat_word_of_int) simp_all
  have small: "nat n < 2 ^ 31" "unat (page_cursor pg) < 2 ^ 63" "chunk_end (page pg) < 2 ^ 63"
    using ok n by (auto simp: page_ok_def)
  have "unat (page_cursor pg + word_of_int n) = unat (page_cursor pg) + nat n"
    using small by (subst unat_add_small) (simp_all add: u)
  moreover have "unat (chunk_address (page pg) + chunk_length (page pg)) = chunk_end (page pg)"
    using small by (subst unat_add_small) (simp_all add: chunk_end_def)
  ultimately show ?thesis using room by (simp add: page_has_room_def word_less_nat_alt)
qed

text \<open>A request: the address that the system would map, the size and the permission.\<close>

type_synonym request = "addr \<times> int \<times> MemoryPermission"

definition arena_alloc :: "int \<Rightarrow> request \<Rightarrow> arena \<Rightarrow> MemoryChunk option \<times> arena" where
  "arena_alloc pageSize r ar = (case r of (mapped, n, perm) \<Rightarrow> AllocateChunk pageSize mapped n perm ar)"

definition arena_request_ok :: "int \<Rightarrow> request \<Rightarrow> arena \<Rightarrow> bool" where
  "arena_request_ok pageSize r ar =
     (case r of (mapped, n, perm) \<Rightarrow>
        0 \<le> n \<and> n \<le> pageSize \<and> pageSize < 2 ^ 31 \<and> mapped_ok pageSize mapped (arena_pages ar))"

lemma all_apart_nth: "all_apart cs \<longleftrightarrow> (\<forall>i j. i < j \<longrightarrow> j < length cs \<longrightarrow> apart (cs ! i) (cs ! j))"
proof -
  have "all_apart cs \<longleftrightarrow> sorted_wrt apart cs" by (induction cs) (auto simp: list_all_iff)
  then show ?thesis by (simp add: sorted_wrt_iff_nth_less)
qed

lemma all_apart_snoc: "all_apart (cs @ [c]) \<longleftrightarrow> all_apart cs \<and> list_all (\<lambda>d. apart d c) cs"
  by (induction cs) auto

lemma page_object_inside: "page_ok pg \<Longrightarrow> c \<in> set (page_objects pg) \<Longrightarrow> inside c (page pg)"
  using laid_out_inside [of _ "page_objects pg"] by (fastforce simp: page_ok_def inside_def)

lemma AllocateChunk_cases:
  assumes inv: "pages_ok (arena_pages ar)" and ok: "arena_request_ok pageSize (mapped, n, perm) ar"
    and res: "AllocateChunk pageSize mapped n perm ar = (res, ar')"
  obtains
    (cut) i c pg where "i < length (arena_pages ar)" "page_has_room n perm (arena_pages ar ! i)"
      "cut_chunk n (arena_pages ar ! i) = (c, pg)" "res = Some c" "ar' = Some ((arena_pages ar)[i := pg])"
  | (fresh) c pg where "mapped \<noteq> 0" "cut_chunk n (new_page mapped (word_of_int pageSize) perm) = (c, pg)" "res = Some c"
      "ar' = Some (arena_pages ar @ [pg])" "\<forall>pg \<in> set (arena_pages ar). \<not> page_has_room n perm pg"
  | (refused) "mapped = 0" "res = None" "ar' = Some (arena_pages ar)"
      "\<forall>pg \<in> set (arena_pages ar). \<not> page_has_room n perm pg"
  using res find_page_Some [of "page_has_room n perm" "arena_pages ar"]
    find_page_None [of "page_has_room n perm" "arena_pages ar"]
  by (auto simp: AllocateChunk_def Let_def split: option.splits prod.splits if_splits)

lemma pages_ok_nth: "pages_ok pgs \<Longrightarrow> i < length pgs \<Longrightarrow> page_ok (pgs ! i)"
  by (simp add: pages_ok_def list_all_length)

text \<open>Two chunks of different pages are apart because the pages are.\<close>

lemma other_page_apart:
  assumes "pages_ok pgs" and "i < length pgs" and "j < length pgs" and "i \<noteq> j"
    and "inside c (page (pgs ! i))" and "d \<in> set (page_objects (pgs ! j))"
  shows "apart c d"
proof -
  have "apart (page (pgs ! i)) (page (pgs ! j))"
    using assms(1-4) by (cases "i < j") (auto simp: pages_ok_def all_apart_nth intro: apart_sym)
  then show ?thesis
    using apart_inside assms(5) page_object_inside [OF pages_ok_nth [OF assms(1,3)] assms(6)] by blast
qed

lemma live_member: "d \<in># pages_live pgs \<longleftrightarrow> (\<exists>j < length pgs. d \<in> set (page_objects (pgs ! j)))"
  by (simp add: pages_live_def) (metis in_set_conv_nth)

lemma live_update:
  "i < length pgs \<Longrightarrow> page_objects pg = page_objects (pgs ! i) @ [c] \<Longrightarrow>
     pages_live (pgs[i := pg]) = add_mset c (pages_live pgs)"
proof (induction pgs arbitrary: i)
  case (Cons p pgs)
  then show ?case by (cases i) (auto simp: pages_live_def)
qed simp

text \<open>What a granted chunk means for the pages before and after.\<close>

definition granted :: "int \<Rightarrow> MemoryPermission \<Rightarrow> MemoryChunk \<Rightarrow> PageChunk list \<Rightarrow> PageChunk list \<Rightarrow> bool" where
  "granted n perm c pgs pgs' \<longleftrightarrow>
     pages_ok pgs' \<and> pages_live pgs' = add_mset c (pages_live pgs) \<and> (\<forall>d \<in># pages_live pgs. apart c d) \<and>
     chunk_length c = word_of_int n \<and> (\<exists>pg \<in> set pgs'. permission pg = perm \<and> inside c (page pg))"

lemma cut_granted:
  assumes inv: "pages_ok pgs" and i: "i < length pgs" "permission (pgs ! i) = perm" and n: "0 \<le> n" "n < 2 ^ 31"
    and room: "unat (page_cursor (pgs ! i)) + nat n \<le> chunk_end (page (pgs ! i))"
    and cut: "cut_chunk n (pgs ! i) = (c, pg)"
  shows "granted n perm c pgs (pgs[i := pg])"
proof -
  note k = cut_chunk_ok [OF pages_ok_nth [OF inv i(1)] n room cut]
  have "map page (pgs[i := pg]) = map page pgs" using i(1) k(2) by (simp add: map_update list_update_same_conv)
  then have "pages_ok (pgs[i := pg])"
    using inv k(1) i(1) by (auto simp: pages_ok_def list_all_length nth_list_update)
  moreover have "apart c d" if d: "d \<in># pages_live pgs" for d
  proof -
    obtain j where j: "j < length pgs" "d \<in> set (page_objects (pgs ! j))" using d by (auto simp: live_member)
    show ?thesis using k(6,7) other_page_apart [OF inv i(1) j(1)] j(2) by (cases "i = j") auto
  qed
  moreover have "pg \<in> set (pgs[i := pg])" "permission pg = perm" using i k(3) by (auto simp: set_update_memI)
  ultimately show ?thesis unfolding granted_def using live_update [OF i(1) k(4)] k(2,5,6) by metis
qed

lemma push_page:
  assumes "pages_ok pgs" and "mapped_ok pageSize a pgs" and "a \<noteq> 0" and "0 \<le> pageSize" and "pageSize < 2 ^ 31"
  shows "pages_ok (pgs @ [new_page a (word_of_int pageSize) perm])"
    and "pages_live (pgs @ [new_page a (word_of_int pageSize) perm]) = pages_live pgs"
    and "chunk_end (page (new_page a (word_of_int pageSize) perm)) = unat a + nat pageSize"
  using assms new_page_ok [of a pageSize]
  by (auto simp: mapped_ok_def pages_ok_def all_apart_snoc list_all_iff new_page_def pages_live_def chunk_end_def
      unat_word_of_int)

lemma arena_alloc_granted:
  assumes inv: "pages_ok (arena_pages ar)" and ok: "arena_request_ok pageSize (mapped, n, perm) ar"
    and res: "AllocateChunk pageSize mapped n perm ar = (Some c, ar')"
  shows "granted n perm c (arena_pages ar) (arena_pages ar')"
proof -
  have n: "0 \<le> n" "n < 2 ^ 31" "n \<le> pageSize" "pageSize < 2 ^ 31" "0 \<le> pageSize"
      "mapped_ok pageSize mapped (arena_pages ar)"
    using ok by (auto simp: arena_request_ok_def)
  let ?pgs = "arena_pages ar" let ?new = "new_page mapped (word_of_int pageSize) perm"
  show ?thesis using inv ok res
  proof (cases rule: AllocateChunk_cases)
    case (cut i c' pg)
    then have "unat (page_cursor (?pgs ! i)) + nat n \<le> chunk_end (page (?pgs ! i))"
      using page_has_room_nat [OF pages_ok_nth [OF inv cut(1)] cut(2) n(1,2)] by simp
    then show ?thesis
      using cut_granted [OF inv cut(1) _ n(1,2) _ cut(3)] cut(2,4,5) by (simp add: arena_pages_def page_has_room_def)
  next
    case (fresh c' pg)
    note new = push_page [OF inv n(6) fresh(1) n(5,4), of perm]
    have "unat (page_cursor ?new) + nat n \<le> chunk_end (page ?new)"
      unfolding new(3) using n(3) by (simp add: new_page_def nat_mono)
    then have "granted n perm c (?pgs @ [?new]) ((?pgs @ [?new])[length ?pgs := pg])"
      using cut_granted [OF new(1), of "length ?pgs" perm n c pg] n(1,2) fresh(2,3) by (simp add: new_page_def)
    then show ?thesis using new(2) fresh(4) by (simp add: granted_def arena_pages_def)
  next
    case refused
    then show ?thesis by simp
  qed
qed

text \<open>
  The arena keeps the contract of an allocator, for every page size.
\<close>

interpretation arena: chunk_allocator "arena_alloc pageSize" "\<lambda>ar. pages_ok (arena_pages ar)"
  "arena_request_ok pageSize" "\<lambda>ar. pages_live (arena_pages ar)" for pageSize
proof
  fix s s' :: arena and r res
  assume a: "pages_ok (arena_pages s)" "arena_request_ok pageSize r s" "arena_alloc pageSize r s = (res, s')"
  obtain mapped n perm where r: "r = (mapped, n, perm)" by (cases r) auto
  show "pages_ok (arena_pages s')"
  proof (cases res)
    case None
    then show ?thesis using a
      by (auto simp: arena_alloc_def r AllocateChunk_def Let_def arena_pages_def split: option.splits prod.splits if_splits)
  next
    case (Some c)
    then show ?thesis
      using arena_alloc_granted [of s pageSize mapped n perm c s'] a by (simp add: r arena_alloc_def granted_def)
  qed
next
  fix s s' :: arena and r c
  assume "pages_ok (arena_pages s)" "arena_request_ok pageSize r s" "arena_alloc pageSize r s = (Some c, s')"
  then show "pages_live (arena_pages s') = add_mset c (pages_live (arena_pages s)) \<and>
      (\<forall>d \<in># pages_live (arena_pages s). apart c d)"
    using arena_alloc_granted [of s pageSize] by (cases r) (auto simp: arena_alloc_def granted_def)
next
  fix s s' :: arena and r
  assume "pages_ok (arena_pages s)" "arena_request_ok pageSize r s" "arena_alloc pageSize r s = (None, s')"
  then show "pages_live (arena_pages s') = pages_live (arena_pages s)"
    by (cases r)
      (auto simp: arena_alloc_def AllocateChunk_def Let_def arena_pages_def split: option.splits prod.splits if_splits)
qed

lemma arena_request_served:
  assumes "pages_ok (arena_pages ar)" and "arena_request_ok pageSize (mapped, n, perm) ar"
  shows "case AllocateChunk pageSize mapped n perm ar of
      (Some c, ar') \<Rightarrow> granted n perm c (arena_pages ar) (arena_pages ar')
    | (None, ar') \<Rightarrow> mapped = 0 \<and> arena_pages ar' = arena_pages ar"
proof (cases "AllocateChunk pageSize mapped n perm ar")
  case (Pair res ar')
  show ?thesis
  proof (cases res)
    case (Some c)
    then show ?thesis using arena_alloc_granted [OF assms] Pair by simp
  next
    case None
    from assms Pair have "mapped = 0 \<and> ar' = Some (arena_pages ar)"
      by (cases rule: AllocateChunk_cases) (use None in auto)
    then show ?thesis using Pair None by (simp add: arena_pages_def)
  qed
qed

text \<open>
  C16: the memory that the arena hands out never overlaps: for any sequence of requests that each fit
  a page, from the first use on and with mappings that are really new, all granted chunks are
  pairwise disjoint, and the chunks recorded in the pages are exactly the granted ones. A further request that fits a page is
  granted whenever the system can map a page, with the size that was asked for, inside one page of the asked permission, and
  apart from everything granted before; without a new page and without room it is refused and no chunk is lost.
\<close>

theorem arena_chunks_disjoint:
  assumes "admissible_run (arena_request_ok pageSize) (arena_alloc pageSize) rs None"
    and "alloc_run (arena_alloc pageSize) rs None = (cs, ar)" and "arena_request_ok pageSize (mapped, n, perm) ar"
  shows "all_apart cs \<and> pages_live (arena_pages ar) = mset cs \<and>
    (case AllocateChunk pageSize mapped n perm ar of
      (Some c, ar') \<Rightarrow> granted n perm c (arena_pages ar) (arena_pages ar')
    | (None, ar') \<Rightarrow> mapped = 0 \<and> arena_pages ar' = arena_pages ar)"
proof -
  have "pages_ok (arena_pages None)" by (simp add: arena_pages_def pages_ok_def)
  from arena.run_live [OF this assms(1,2)] have "pages_ok (arena_pages ar)" "pages_live (arena_pages ar) = mset cs"
    by (simp_all add: arena_pages_def pages_live_def)
  then show ?thesis
    using arena.run_all_apart [OF _ assms(1,2)] arena_request_served [OF _ assms(3)] by (simp add: arena_pages_def pages_ok_def)
qed

theorem arena_chunks_disjoint_witness:
  "all_apart (fst (alloc_run (arena_alloc 4096)
     [(0x10000, 24, kReadExecute), (0x20000, 4000, kReadExecute), (0x30000, 200, kReadExecute)] None))"
proof -
  let ?rs = "[(0x10000, 24, kReadExecute), (0x20000, 4000, kReadExecute), (0x30000, 200, kReadExecute)]"
  let ?ar = "snd (alloc_run (arena_alloc 4096) ?rs None)"
  have "admissible_run (arena_request_ok 4096) (arena_alloc 4096) ?rs None" "arena_request_ok 4096 (0, 16, kReadExecute) ?ar"
    by (simp_all add: arena_request_ok_def mapped_ok_def arena_alloc_def AllocateChunk_def arena_pages_def cut_chunk_def new_page_def
        page_has_room_def Let_def apart_def chunk_end_def)
  from arena_chunks_disjoint [OF this(1) _ this(2), of "fst (alloc_run (arena_alloc 4096) ?rs None)"]
  show ?thesis by simp
qed

end
