(* ===== verification/Interceptor.thy ===== *)
theory Interceptor
  imports LinkedList MemoryArena
begin

text \<open>
  The registry of hooks (\<^verbatim>\<open>Interceptor.cpp\<close>): hook entries in the linked list of \<open>LinkedList\<close>, newest first. The
  search loops follow pointers until they are at the head again, so they are partial functions (\<open>None\<close>
  is a loop that does not end); on a well-formed list they end. The list of entries that the
  registry stands for is the specification, stated as a locale that the pointer code interprets.
\<close>

section \<open>Hook entries\<close>

datatype HookEntryType = kFunctionWrapper | kFunctionInlineHook | kDynamicBinaryInstrument

text \<open>
  The state that a routing object keeps; its back pointer to the entry is an argument of its operations. \<open>routing_argument\<close>
  is the member that the classes for the two kinds of hooks add, at one offset: \<^verbatim>\<open>replace_call\<close> and \<^verbatim>\<open>handler\<close>.
\<close>

record InterceptRouting =
  origin :: MemoryChunk
  relocated :: MemoryChunk
  trampoline_buffer :: "u8 list option"
  trampoline_target :: addr
  routing_argument :: addr

record HookEntry =
  entry_id :: int
  entry_type :: HookEntryType
  function_address :: addr
  route :: InterceptRouting
  relocated_origin_function :: addr
  origin_chunk :: MemoryChunk
  chunk_buffer :: "u8 list"

section \<open>The interceptor\<close>

record Interceptor =
  nodes :: node_heap
  hook_entry_list :: addr
  node_entry :: "addr \<rightharpoonup> HookEntry"

text \<open>
  \<^verbatim>\<open>SharedInstance\<close> builds the interceptor on first use, at an address that \<^verbatim>\<open>new\<close> returns. The members
  of a new node are unset until \<^verbatim>\<open>list_add\<close> or \<^verbatim>\<open>INIT_LIST_HEAD\<close> assigns them.
\<close>

definition unset_node :: list_head where
  "unset_node = \<lparr>next_ptr = 0, prev_ptr = 0\<rparr>"

definition SharedInstance :: "addr \<Rightarrow> Interceptor option \<Rightarrow> asm_fault + Interceptor" where
  "SharedInstance p I =
     (case I of Some i \<Rightarrow> Inr i
      | None \<Rightarrow> bindE (INIT_LIST_HEAD p [p \<mapsto> unset_node])
                  (\<lambda>h. Inr \<lparr>nodes = h, hook_entry_list = p, node_entry = Map.empty\<rparr>))"

text \<open>\<^verbatim>\<open>list_for_each_entry\<close>: the node is the first member of \<^verbatim>\<open>HookEntryNode\<close>, so \<^verbatim>\<open>container_of\<close> is the identity.\<close>

partial_function (option) find_from :: "addr \<Rightarrow> Interceptor \<Rightarrow> addr \<Rightarrow> (asm_fault + addr option) option" where
  "find_from a I p =
     (if p = hook_entry_list I then Some (Inr None)
      else case node_entry I p of
        None \<Rightarrow> Some (Inl Wild_access)
      | Some e \<Rightarrow>
          if function_address e = a then Some (Inr (Some p))
          else (case get_next p (nodes I) of Inl f \<Rightarrow> Some (Inl f) | Inr q \<Rightarrow> find_from a I q))"

definition find_hook_entry_node :: "addr \<Rightarrow> Interceptor \<Rightarrow> (asm_fault + addr option) option" where
  "find_hook_entry_node a I =
     (case get_next (hook_entry_list I) (nodes I) of Inl f \<Rightarrow> Some (Inl f) | Inr p \<Rightarrow> find_from a I p)"

definition FindHookEntry :: "addr \<Rightarrow> Interceptor \<Rightarrow> (asm_fault + HookEntry option) option" where
  "FindHookEntry a I =
     (case find_hook_entry_node a I of
        None \<Rightarrow> None
      | Some r \<Rightarrow> Some (bindE r (\<lambda>n. Inr (case n of None \<Rightarrow> None | Some p \<Rightarrow> node_entry I p))))"

definition AddHookEntry :: "addr \<Rightarrow> HookEntry \<Rightarrow> Interceptor \<Rightarrow> asm_fault + Interceptor" where
  "AddHookEntry node e I =
     bindE (list_add node (hook_entry_list I) ((nodes I)(node \<mapsto> unset_node)))
       (\<lambda>h. Inr (I\<lparr>nodes := h, node_entry := (node_entry I)(node \<mapsto> e)\<rparr>))"

definition RemoveHookEntry :: "addr \<Rightarrow> Interceptor \<Rightarrow> (asm_fault + Interceptor) option" where
  "RemoveHookEntry a I =
     (case find_hook_entry_node a I of
        None \<Rightarrow> None
      | Some r \<Rightarrow> Some (bindE r (\<lambda>n. case n of None \<Rightarrow> Inr I
                                     | Some p \<Rightarrow> bindE (list_del p (nodes I)) (\<lambda>h. Inr (I\<lparr>nodes := h\<rparr>)))))"

partial_function (option) count_from :: "Interceptor \<Rightarrow> addr \<Rightarrow> int \<Rightarrow> (asm_fault + int) option" where
  "count_from I p n =
     (if p = hook_entry_list I then Some (Inr n)
      else (case get_next p (nodes I) of Inl f \<Rightarrow> Some (Inl f) | Inr q \<Rightarrow> count_from I q (n + 1)))"

definition GetHookEntryCount :: "Interceptor \<Rightarrow> (asm_fault + int) option" where
  "GetHookEntryCount I =
     (case get_next (hook_entry_list I) (nodes I) of Inl f \<Rightarrow> Some (Inl f) | Inr p \<Rightarrow> count_from I p 0)"

section \<open>The registry as a list of entries\<close>

definition represents :: "Interceptor \<Rightarrow> HookEntry list \<Rightarrow> bool" where
  "represents I es \<longleftrightarrow>
     (\<exists>xs. linked (nodes I) (hook_entry_list I) xs \<and> map (node_entry I) xs = map Some es)"

fun remove_first :: "('a \<Rightarrow> bool) \<Rightarrow> 'a list \<Rightarrow> 'a list" where
  "remove_first P [] = []"
| "remove_first P (x # xs) = (if P x then xs else x # remove_first P xs)"

lemma remove_first_split: "\<lbrakk>\<forall>x \<in> set xs. \<not> P x; P y\<rbrakk> \<Longrightarrow> remove_first P (xs @ y # ys) = xs @ ys"
  by (induction xs) auto

lemma remove_first_none: "\<forall>x \<in> set xs. \<not> P x \<Longrightarrow> remove_first P xs = xs"
  by (induction xs) auto

text \<open>The contract: find the newest entry of an address, add in front, remove the newest entry of an address, count.\<close>

locale hook_registry =
  fixes rep :: "'s \<Rightarrow> HookEntry list \<Rightarrow> bool"
    and fresh :: "addr \<Rightarrow> 's \<Rightarrow> bool"
    and lookup :: "addr \<Rightarrow> 's \<Rightarrow> (asm_fault + HookEntry option) option"
    and insert_entry :: "addr \<Rightarrow> HookEntry \<Rightarrow> 's \<Rightarrow> asm_fault + 's"
    and delete :: "addr \<Rightarrow> 's \<Rightarrow> (asm_fault + 's) option"
    and count :: "'s \<Rightarrow> (asm_fault + int) option"
  assumes lookup_list: "rep s es \<Longrightarrow> lookup a s = Some (Inr (List.find (\<lambda>e. function_address e = a) es))"
    and insert_list: "\<lbrakk>rep s es; fresh p s\<rbrakk> \<Longrightarrow> \<exists>s'. insert_entry p e s = Inr s' \<and> rep s' (e # es)"
    and delete_list: "rep s es \<Longrightarrow> \<exists>s'. delete a s = Some (Inr s') \<and> rep s' (remove_first (\<lambda>e. function_address e = a) es)"
    and count_list: "rep s es \<Longrightarrow> count s = Some (Inr (int (length es)))"
begin

text \<open>A hook is found as soon as it is entered, and what was registered before is back when it is removed.\<close>

lemma insert_lookup_delete:
  assumes "rep s es" and "fresh p s"
  shows "\<exists>s' s''. insert_entry p e s = Inr s' \<and> lookup (function_address e) s' = Some (Inr (Some e)) \<and>
     count s' = Some (Inr (int (length es) + 1)) \<and>
     delete (function_address e) s' = Some (Inr s'') \<and> rep s'' es \<and>
     (\<forall>b. b \<noteq> function_address e \<longrightarrow> lookup b s' = lookup b s)"
proof -
  obtain s' where s': "insert_entry p e s = Inr s'" "rep s' (e # es)" using insert_list assms by blast
  then obtain s'' where "delete (function_address e) s' = Some (Inr s'')" "rep s'' es"
    using delete_list [OF s'(2), of "function_address e"] by auto
  then show ?thesis
    using s' lookup_list [OF s'(2)] lookup_list [OF assms(1)] count_list [OF s'(2)] by (intro exI [of _ s'] exI [of _ s'']) auto
qed

end

section \<open>The pointer code keeps the contract\<close>

definition fresh_node :: "addr \<Rightarrow> Interceptor \<Rightarrow> bool" where
  "fresh_node p I \<longleftrightarrow> p \<noteq> 0 \<and> nodes I p = None"

lemma chain_next: "chain h (x # xs @ [z]) \<Longrightarrow> get_next x h = Inr (hd (xs @ [z])) \<and> chain h (xs @ [z])"
  by (cases xs) (auto simp: get_next_def nxt_of_def split: option.splits)

lemma find_from_chain:
  assumes "chain (nodes I) (xs @ [hook_entry_list I])" and "hook_entry_list I \<notin> set xs" and "\<forall>x \<in> set xs. node_entry I x \<noteq> None"
  shows "find_from a I (hd (xs @ [hook_entry_list I])) =
     Some (Inr (List.find (\<lambda>p. function_address (the (node_entry I p)) = a) xs))"
  using assms
proof (induction xs)
  case Nil
  then show ?case by (subst find_from.simps) simp
next
  case (Cons x xs)
  then have "get_next x (nodes I) = Inr (hd (xs @ [hook_entry_list I]))" "chain (nodes I) (xs @ [hook_entry_list I])"
    using chain_next [of "nodes I" x xs "hook_entry_list I"] by simp_all
  then show ?case using Cons by (subst find_from.simps) auto
qed

lemma count_from_chain:
  assumes "chain (nodes I) (xs @ [hook_entry_list I])" and "hook_entry_list I \<notin> set xs"
  shows "count_from I (hd (xs @ [hook_entry_list I])) n = Some (Inr (n + int (length xs)))"
  using assms
proof (induction xs arbitrary: n)
  case Nil
  then show ?case by (subst count_from.simps) simp
next
  case (Cons x xs)
  then have "get_next x (nodes I) = Inr (hd (xs @ [hook_entry_list I]))" "chain (nodes I) (xs @ [hook_entry_list I])"
    using chain_next [of "nodes I" x xs "hook_entry_list I"] by simp_all
  then show ?case using Cons by (subst count_from.simps) auto
qed

lemma linked_tail: "linked h head xs \<Longrightarrow> chain h (xs @ [head]) \<and> head \<notin> set xs"
  using chain_next [of h head xs head] by (simp add: linked_def)

lemma map_Some_total: "map f xs = map Some es \<Longrightarrow> x \<in> set xs \<Longrightarrow> f x \<noteq> None"
  by (induction xs arbitrary: es) auto

lemma find_node_linked:
  assumes l: "linked (nodes I) (hook_entry_list I) xs" and e: "map (node_entry I) xs = map Some es"
  shows "find_hook_entry_node a I = Some (Inr (List.find (\<lambda>p. function_address (the (node_entry I p)) = a) xs))"
proof -
  have "\<forall>x \<in> set xs. node_entry I x \<noteq> None" using map_Some_total [OF e] by blast
  then show ?thesis
    using find_from_chain linked_tail [OF l] linked_hd [OF l] by (simp add: find_hook_entry_node_def)
qed

lemma find_map_Some:
  "map f xs = map Some es \<Longrightarrow>
     List.find P es = (case List.find (\<lambda>p. P (the (f p))) xs of None \<Rightarrow> None | Some p \<Rightarrow> f p)"
  by (induction xs arbitrary: es) auto

lemma find_split:
  "List.find P xs = Some p \<Longrightarrow> \<exists>A B. xs = A @ p # B \<and> (\<forall>x \<in> set A. \<not> P x) \<and> P p"
proof (induction xs)
  case (Cons x xs)
  show ?case
  proof (cases "P x")
    case True
    then show ?thesis using Cons.prems by (intro exI [of _ "[]"] exI [of _ xs]) simp
  next
    case False
    then obtain A B where "xs = A @ p # B" "\<forall>x \<in> set A. \<not> P x" "P p" using Cons by auto
    then show ?thesis using False by (intro exI [of _ "x # A"] exI [of _ B]) simp
  qed
qed simp

lemma FindHookEntry_list:
  "represents I es \<Longrightarrow> FindHookEntry a I = Some (Inr (List.find (\<lambda>e. function_address e = a) es))"
  using find_node_linked find_map_Some [of "node_entry I" _ es "\<lambda>e. function_address e = a"]
  by (auto simp: represents_def FindHookEntry_def)

lemma AddHookEntry_list:
  assumes "represents I es" and "fresh_node p I"
  shows "\<exists>I'. AddHookEntry p e I = Inr I' \<and> represents I' (e # es)"
proof -
  obtain xs where xs: "linked (nodes I) (hook_entry_list I) xs" "map (node_entry I) xs = map Some es"
    using assms(1) by (auto simp: represents_def)
  let ?h = "(nodes I)(p \<mapsto> unset_node)"
  have p: "p \<notin> set (hook_entry_list I # xs)" using linked_dom [OF xs(1), of p] assms(2) by (auto simp: fresh_node_def)
  have "chain ?h (hook_entry_list I # xs @ [hook_entry_list I]) = chain (nodes I) (hook_entry_list I # xs @ [hook_entry_list I])"
    by (rule chain_cong) (use p in \<open>auto simp: nxt_of_def prv_of_def dest!: in_set_butlastD\<close>)
  then have "linked ?h (hook_entry_list I) xs" using xs(1) by (simp add: linked_def)
  from list_add_linked [OF this p] obtain h' where "list_add p (hook_entry_list I) ?h = Inr h'" "linked h' (hook_entry_list I) (p # xs)"
    by auto
  moreover have "map ((node_entry I)(p \<mapsto> e)) (p # xs) = map Some (e # es)" using xs(2) p by (simp add: map_fun_upd)
  ultimately show ?thesis unfolding AddHookEntry_def represents_def by auto
qed

lemma RemoveHookEntry_list:
  assumes "represents I es"
  shows "\<exists>I'. RemoveHookEntry a I = Some (Inr I') \<and> represents I' (remove_first (\<lambda>e. function_address e = a) es)"
proof -
  let ?P = "\<lambda>e. function_address e = a" let ?Q = "\<lambda>p. ?P (the (node_entry I p))"
  obtain xs where xs: "linked (nodes I) (hook_entry_list I) xs" "map (node_entry I) xs = map Some es"
    using assms by (auto simp: represents_def)
  have f: "find_hook_entry_node a I = Some (Inr (List.find ?Q xs))" using find_node_linked [OF xs] .
  have es: "es = map (the \<circ> node_entry I) xs" using arg_cong [OF xs(2), of "map the"] by (simp add: comp_def)
  show ?thesis
  proof (cases "List.find ?Q xs")
    case None
    then have "remove_first ?P es = es" by (intro remove_first_none) (auto simp: es find_None_iff)
    then show ?thesis using f None assms by (simp add: RemoveHookEntry_def)
  next
    case (Some p)
    from find_split [OF this] obtain A B where AB: "xs = A @ p # B" "\<forall>x \<in> set A. \<not> ?Q x" "?Q p" by blast
    then obtain h' where h': "list_del p (nodes I) = Inr h'" "linked h' (hook_entry_list I) (A @ B)"
      using list_del_linked xs(1) by blast
    have "remove_first ?P es = map (the \<circ> node_entry I) (A @ B)"
      unfolding es AB(1) using remove_first_split [of "map (the \<circ> node_entry I) A" ?P "the (node_entry I p)"] AB(2,3) by simp
    moreover have "map (node_entry I) (A @ B) = map Some (map (the \<circ> node_entry I) (A @ B))"
      using map_Some_total [OF xs(2)] AB(1) by (auto simp: comp_def)
    ultimately show ?thesis using f Some h' by (auto simp: RemoveHookEntry_def represents_def)
  qed
qed

lemma GetHookEntryCount_list: "represents I es \<Longrightarrow> GetHookEntryCount I = Some (Inr (int (length es)))"
  using count_from_chain linked_tail linked_hd by (fastforce simp: represents_def GetHookEntryCount_def dest: map_eq_imp_length_eq)

interpretation hooks: hook_registry represents fresh_node FindHookEntry AddHookEntry RemoveHookEntry GetHookEntryCount
  by unfold_locales
    (simp_all add: FindHookEntry_list AddHookEntry_list RemoveHookEntry_list GetHookEntryCount_list)

lemma SharedInstance_list: "\<exists>I. SharedInstance p None = Inr I \<and> represents I [] \<and> hook_entry_list I = p \<and> dom (nodes I) = {p}"
  using INIT_LIST_HEAD_linked [of "[p \<mapsto> unset_node]" p] by (auto simp: SharedInstance_def represents_def)

text \<open>
  C17: the pointer-based registry behaves as a list of entries. From any registry that stands for
  \<open>es\<close>, entering a hook ends without a fault; the hook is then found under its address (and every
  other address finds what it found before), the count is one more, and removing the hook
  gives a registry for \<open>es\<close> again.
\<close>

theorem registry_round_trip:
  assumes "represents I es" and "fresh_node p I"
  shows "\<exists>I' I''. AddHookEntry p e I = Inr I' \<and> FindHookEntry (function_address e) I' = Some (Inr (Some e)) \<and>
     GetHookEntryCount I' = Some (Inr (int (length es) + 1)) \<and>
     RemoveHookEntry (function_address e) I' = Some (Inr I'') \<and> represents I'' es \<and>
     (\<forall>b. b \<noteq> function_address e \<longrightarrow> FindHookEntry b I' = FindHookEntry b I)"
  using assms by (rule hooks.insert_lookup_delete)

theorem registry_round_trip_witness:
  "\<forall>e. \<exists>I I' I''. SharedInstance 0x100 None = Inr I \<and> AddHookEntry 0x200 e I = Inr I' \<and>
     FindHookEntry (function_address e) I' = Some (Inr (Some e)) \<and>
     RemoveHookEntry (function_address e) I' = Some (Inr I'') \<and> represents I'' []"
proof
  fix e
  obtain I where I: "SharedInstance 0x100 None = Inr I" "represents I []" "dom (nodes I) = {0x100}"
    using SharedInstance_list by blast
  have "0x200 \<notin> dom (nodes I)" unfolding I(3) by simp
  then have "fresh_node 0x200 I" by (auto simp: fresh_node_def)
  from registry_round_trip [OF I(2) this, of e] show "\<exists>I I' I''. SharedInstance 0x100 None = Inr I \<and> AddHookEntry 0x200 e I = Inr I' \<and>
     FindHookEntry (function_address e) I' = Some (Inr (Some e)) \<and>
     RemoveHookEntry (function_address e) I' = Some (Inr I'') \<and> represents I'' []" using I(1) by blast
qed

end
