(* ===== verification/Arm64Constants.thy ===== *)
theory Arm64Constants
  imports UtilityMacro
begin

text \<open>
  The encodings of \<^verbatim>\<open>core/arch/arm64/constants-arm64.h\<close> and the registers of
  \<^verbatim>\<open>core/arch/arm64/registers-arm64.h\<close>. An enumeration that the source spells out with a macro list is
  a datatype of the names in the list with the fields of each line; the enumerators that the macro
  pastes are functions of the name. The enumerators of the branch classes are those of
  \<^verbatim>\<open>ARM64InstructionRelocation.cc\<close>.
\<close>

section \<open>Operand kinds\<close>

datatype Shift = NO_SHIFT | LSL | LSR | ASR | ROR | MSL

primrec shift_value :: "Shift \<Rightarrow> u32" where
  "shift_value NO_SHIFT = - 1"
| "shift_value LSL = 0"
| "shift_value LSR = 1"
| "shift_value ASR = 2"
| "shift_value ROR = 3"
| "shift_value MSL = 4"

datatype Extend = NO_EXTEND | UXTB | UXTH | UXTW | UXTX | SXTB | SXTH | SXTW | SXTX

datatype AddrMode = Offset | PreIndex | PostIndex

text \<open>\<^verbatim>\<open>enum InstructionFields\<close>: the shifts that the assembler uses.\<close>

definition kRdShift :: nat where "kRdShift = 0"
definition kRnShift :: nat where "kRnShift = 5"
definition kRmShift :: nat where "kRmShift = 16"
definition kRtShift :: nat where "kRtShift = 0"
definition kRt2Shift :: nat where "kRt2Shift = 10"

lemmas field_shift_defs [simp] = kRdShift_def kRnShift_def kRmShift_def kRtShift_def kRt2Shift_def

section \<open>Exceptions and branches\<close>

definition ExceptionFixed :: u32 where "ExceptionFixed = 0xD4000000"
definition BRK_op :: u32 where "BRK_op = ExceptionFixed OR 0x00200000"

definition UnconditionalBranchFixed :: u32 where "UnconditionalBranchFixed = 0x14000000"
definition UnconditionalBranchFixedMask :: u32 where "UnconditionalBranchFixedMask = 0x7C000000"
definition UnconditionalBranchMask :: u32 where "UnconditionalBranchMask = 0xFC000000"
definition B_op :: u32 where "B_op = UnconditionalBranchFixed OR 0x00000000"
definition BL_op :: u32 where "BL_op = UnconditionalBranchFixed OR 0x80000000"

definition UnconditionalBranchToRegisterFixed :: u32 where "UnconditionalBranchToRegisterFixed = 0xD6000000"
definition BR_op :: u32 where "BR_op = UnconditionalBranchToRegisterFixed OR 0x001F0000"
definition BLR_op :: u32 where "BLR_op = UnconditionalBranchToRegisterFixed OR 0x003F0000"
definition RET_op :: u32 where "RET_op = UnconditionalBranchToRegisterFixed OR 0x005F0000"

definition CompareBranchFixed :: u32 where "CompareBranchFixed = 0x34000000"
definition CompareBranchFixedMask :: u32 where "CompareBranchFixedMask = 0x7E000000"

definition ConditionalBranchFixed :: u32 where "ConditionalBranchFixed = 0x54000000"
definition ConditionalBranchFixedMask :: u32 where "ConditionalBranchFixedMask = 0xFE000000"

definition TestBranchFixed :: u32 where "TestBranchFixed = 0x36000000"
definition TestBranchFixedMask :: u32 where "TestBranchFixedMask = 0x7E000000"

section \<open>Loads and stores\<close>

definition LoadRegLiteralFixed :: u32 where "LoadRegLiteralFixed = 0x18000000"
definition LoadRegLiteralFixedMask :: u32 where "LoadRegLiteralFixedMask = 0x3B000000"

definition LoadRegLiteralSub :: "u32 \<Rightarrow> u32 \<Rightarrow> u32" where
  "LoadRegLiteralSub opc V = LoadRegLiteralFixed OR LeftShift opc 2 30 OR LeftShift V 1 26"

definition LDR_w_literal :: u32 where "LDR_w_literal = LoadRegLiteralSub 0b00 0"
definition LDR_x_literal :: u32 where "LDR_x_literal = LoadRegLiteralSub 0b01 0"
definition LDRSW_literal :: u32 where "LDRSW_literal = LoadRegLiteralSub 0b10 0"
definition PRFM_literal :: u32 where "PRFM_literal = LoadRegLiteralSub 0b11 0"
definition LDR_s_literal :: u32 where "LDR_s_literal = LoadRegLiteralSub 0b00 1"
definition LDR_d_literal :: u32 where "LDR_d_literal = LoadRegLiteralSub 0b01 1"
definition LDR_q_literal :: u32 where "LDR_q_literal = LoadRegLiteralSub 0b10 1"

datatype LoadStoreName =
    STRB_w | LDRB_w | LDRSB_x | LDRSB_w | STR_b | LDR_b | STR_q | LDR_q
  | STRH_w | LDRH_w | LDRSH_x | LDRSH_w | STR_h | LDR_h
  | STR_w | LDR_w | LDRSW | STR_s | LDR_s
  | STR_x | LDR_x | PRFM | STR_d | LDR_d

text \<open>\<^verbatim>\<open>LOAD_STORE_OP_LIST\<close>: size, V and opc of each name.\<close>

primrec LOAD_STORE_OP_LIST :: "LoadStoreName \<Rightarrow> u32 \<times> u32 \<times> u32" where
  "LOAD_STORE_OP_LIST STRB_w = (0b00, 0, 0b00)"
| "LOAD_STORE_OP_LIST LDRB_w = (0b00, 0, 0b01)"
| "LOAD_STORE_OP_LIST LDRSB_x = (0b00, 0, 0b10)"
| "LOAD_STORE_OP_LIST LDRSB_w = (0b00, 0, 0b11)"
| "LOAD_STORE_OP_LIST STR_b = (0b00, 1, 0b00)"
| "LOAD_STORE_OP_LIST LDR_b = (0b00, 1, 0b01)"
| "LOAD_STORE_OP_LIST STR_q = (0b00, 1, 0b10)"
| "LOAD_STORE_OP_LIST LDR_q = (0b00, 1, 0b11)"
| "LOAD_STORE_OP_LIST STRH_w = (0b01, 0, 0b00)"
| "LOAD_STORE_OP_LIST LDRH_w = (0b01, 0, 0b01)"
| "LOAD_STORE_OP_LIST LDRSH_x = (0b01, 0, 0b10)"
| "LOAD_STORE_OP_LIST LDRSH_w = (0b01, 0, 0b11)"
| "LOAD_STORE_OP_LIST STR_h = (0b01, 1, 0b00)"
| "LOAD_STORE_OP_LIST LDR_h = (0b01, 1, 0b01)"
| "LOAD_STORE_OP_LIST STR_w = (0b10, 0, 0b00)"
| "LOAD_STORE_OP_LIST LDR_w = (0b10, 0, 0b01)"
| "LOAD_STORE_OP_LIST LDRSW = (0b10, 0, 0b10)"
| "LOAD_STORE_OP_LIST STR_s = (0b10, 1, 0b00)"
| "LOAD_STORE_OP_LIST LDR_s = (0b10, 1, 0b01)"
| "LOAD_STORE_OP_LIST STR_x = (0b11, 0, 0b00)"
| "LOAD_STORE_OP_LIST LDR_x = (0b11, 0, 0b01)"
| "LOAD_STORE_OP_LIST PRFM = (0b11, 0, 0b10)"
| "LOAD_STORE_OP_LIST STR_d = (0b11, 1, 0b00)"
| "LOAD_STORE_OP_LIST LDR_d = (0b11, 1, 0b01)"

definition LoadStoreOpSub :: "u32 \<times> u32 \<times> u32 \<Rightarrow> u32" where
  "LoadStoreOpSub = (\<lambda>(size, V, opc). LeftShift size 2 30 OR LeftShift V 1 26 OR LeftShift opc 2 22)"

definition LoadStoreOp :: "LoadStoreName \<Rightarrow> u32" where
  "LoadStoreOp n = LoadStoreOpSub (LOAD_STORE_OP_LIST n)"

definition LoadStoreRegisterOffsetFixed :: u32 where "LoadStoreRegisterOffsetFixed = 0x38200800"
definition LoadStoreRegisterOffsetFixedMask :: u32 where "LoadStoreRegisterOffsetFixedMask = 0x3B200C00"
definition LoadStoreRegisterOffsetOp :: "LoadStoreName \<Rightarrow> u32" where
  "LoadStoreRegisterOffsetOp n = LoadStoreRegisterOffsetFixed OR LoadStoreOpSub (LOAD_STORE_OP_LIST n)"

definition LoadStoreUnscaledOffsetFixed :: u32 where "LoadStoreUnscaledOffsetFixed = 0x38000000"
definition LoadStoreUnscaledOffsetFixedMask :: u32 where "LoadStoreUnscaledOffsetFixedMask = 0x3B200C00"
definition LoadStoreUnscaledOffsetOp :: "LoadStoreName \<Rightarrow> u32" where
  "LoadStoreUnscaledOffsetOp n = LoadStoreUnscaledOffsetFixed OR LoadStoreOpSub (LOAD_STORE_OP_LIST n)"

definition LoadStoreUnsignedOffsetFixed :: u32 where "LoadStoreUnsignedOffsetFixed = 0x39000000"
definition LoadStoreUnsignedOffsetFixedMask :: u32 where "LoadStoreUnsignedOffsetFixedMask = 0x3B000000"
definition LoadStoreUnsignedOffset :: "LoadStoreName \<Rightarrow> u32" where
  "LoadStoreUnsignedOffset n = LoadStoreUnsignedOffsetFixed OR LoadStoreOpSub (LOAD_STORE_OP_LIST n)"

datatype LoadStorePairName =
    STP_w | LDP_w | STP_s | LDP_s | LDPSW | STP_d | LDP_d | STP_x | LDP_x | STP_q | LDP_q

text \<open>\<^verbatim>\<open>LOAD_STORE_PAIR_OP_LIST\<close>: opc, V and L of each name.\<close>

primrec LOAD_STORE_PAIR_OP_LIST :: "LoadStorePairName \<Rightarrow> u32 \<times> u32 \<times> u32" where
  "LOAD_STORE_PAIR_OP_LIST STP_w = (0b00, 0, 0)"
| "LOAD_STORE_PAIR_OP_LIST LDP_w = (0b00, 0, 1)"
| "LOAD_STORE_PAIR_OP_LIST STP_s = (0b00, 1, 0)"
| "LOAD_STORE_PAIR_OP_LIST LDP_s = (0b00, 1, 1)"
| "LOAD_STORE_PAIR_OP_LIST LDPSW = (0b01, 0, 1)"
| "LOAD_STORE_PAIR_OP_LIST STP_d = (0b01, 1, 0)"
| "LOAD_STORE_PAIR_OP_LIST LDP_d = (0b01, 1, 1)"
| "LOAD_STORE_PAIR_OP_LIST STP_x = (0b10, 0, 0)"
| "LOAD_STORE_PAIR_OP_LIST LDP_x = (0b10, 0, 1)"
| "LOAD_STORE_PAIR_OP_LIST STP_q = (0b10, 1, 0)"
| "LOAD_STORE_PAIR_OP_LIST LDP_q = (0b10, 1, 1)"

definition LoadStorePairOpSub :: "u32 \<times> u32 \<times> u32 \<Rightarrow> u32" where
  "LoadStorePairOpSub = (\<lambda>(opc, V, L). LeftShift opc 2 30 OR LeftShift V 1 26 OR LeftShift L 1 22)"

definition LoadStorePairOp :: "LoadStorePairName \<Rightarrow> u32" where
  "LoadStorePairOp n = LoadStorePairOpSub (LOAD_STORE_PAIR_OP_LIST n)"

definition LoadStorePairOffsetFixed :: u32 where "LoadStorePairOffsetFixed = 0x29000000"
definition LoadStorePairPostIndexFixed :: u32 where "LoadStorePairPostIndexFixed = 0x28800000"
definition LoadStorePairPreIndexFixed :: u32 where "LoadStorePairPreIndexFixed = 0x29800000"
definition LoadStorePairFixedMask :: u32 where "LoadStorePairFixedMask = 0x3B800000"

section \<open>Data processing\<close>

definition SixtyFourBits :: u32 where "SixtyFourBits = 0x80000000"

definition MoveWideImmediateFixed :: u32 where "MoveWideImmediateFixed = 0x12800000"
definition MOVN_op :: u32 where "MOVN_op = 0x00000000"
definition MOVZ_op :: u32 where "MOVZ_op = 0x40000000"
definition MOVK_op :: u32 where "MOVK_op = 0x60000000"

definition AddSubImmediateFixed :: u32 where "AddSubImmediateFixed = 0x11000000"

definition AddSubImmediateOpSub :: "u32 \<Rightarrow> u32 \<Rightarrow> u32 \<Rightarrow> u32" where
  "AddSubImmediateOpSub sf op S =
     AddSubImmediateFixed OR LeftShift sf 1 31 OR LeftShift op 1 30 OR LeftShift S 1 29"

definition ADD_w_imm :: u32 where "ADD_w_imm = AddSubImmediateOpSub 0 0 0"
definition SUB_w_imm :: u32 where "SUB_w_imm = AddSubImmediateOpSub 0 1 0"
definition ADD_x_imm :: u32 where "ADD_x_imm = AddSubImmediateOpSub 1 0 0"
definition SUB_x_imm :: u32 where "SUB_x_imm = AddSubImmediateOpSub 1 1 0"

definition AddSubShiftedFixed :: u32 where "AddSubShiftedFixed = 0x0B000000"

definition AddSubShiftedOpSub :: "u32 \<Rightarrow> u32 \<Rightarrow> u32 \<Rightarrow> u32" where
  "AddSubShiftedOpSub sf op S =
     AddSubShiftedFixed OR LeftShift sf 1 31 OR LeftShift op 1 30 OR LeftShift S 1 29"

definition AddSubExtendedFixed :: u32 where "AddSubExtendedFixed = 0x0B200000"

definition AddSubExtendedOpSub :: "u32 \<Rightarrow> u32 \<Rightarrow> u32 \<Rightarrow> u32" where
  "AddSubExtendedOpSub sf op S =
     AddSubExtendedFixed OR LeftShift sf 1 31 OR LeftShift op 1 30 OR LeftShift S 1 29"

text \<open>\<^verbatim>\<open>enum LogicalOp\<close>; the enumerator \<^verbatim>\<open>ORR\<close> is the one that the assembler uses.\<close>

datatype LogicalOp = L_AND | L_BIC | L_ORR | L_ORN | L_EOR | L_EON | L_ANDS | L_BICS

definition LogicalNOT :: u32 where "LogicalNOT = 0x00200000"

primrec logical_value :: "LogicalOp \<Rightarrow> u32" where
  "logical_value L_AND = 0x00000000"
| "logical_value L_BIC = 0x00000000 OR LogicalNOT"
| "logical_value L_ORR = 0x20000000"
| "logical_value L_ORN = 0x20000000 OR LogicalNOT"
| "logical_value L_EOR = 0x40000000"
| "logical_value L_EON = 0x40000000 OR LogicalNOT"
| "logical_value L_ANDS = 0x60000000"
| "logical_value L_BICS = 0x60000000 OR LogicalNOT"

definition LogicalImmediateFixed :: u32 where "LogicalImmediateFixed = 0x12000000"
definition LogicalShiftedFixed :: u32 where "LogicalShiftedFixed = 0x0A000000"

definition PCRelAddressingFixed :: u32 where "PCRelAddressingFixed = 0x10000000"
definition PCRelAddressingFixedMask :: u32 where "PCRelAddressingFixedMask = 0x1F000000"
definition PCRelAddressingMask :: u32 where "PCRelAddressingMask = 0x9F000000"
definition ADR_op :: u32 where "ADR_op = PCRelAddressingFixed OR 0x00000000"
definition ADRP_op :: u32 where "ADRP_op = PCRelAddressingFixed OR 0x80000000"

section \<open>Registers\<close>

datatype RegisterType =
    kRegister_32 | kRegister_64 | kRegister | kVRegister
  | kSIMD_FP_Register_8 | kSIMD_FP_Register_16 | kSIMD_FP_Register_32
  | kSIMD_FP_Register_64 | kSIMD_FP_Register_128 | kInvalid

primrec register_type_value :: "RegisterType \<Rightarrow> nat" where
  "register_type_value kRegister_32 = 0"
| "register_type_value kRegister_64 = 1"
| "register_type_value kRegister = 2"
| "register_type_value kVRegister = 3"
| "register_type_value kSIMD_FP_Register_8 = 4"
| "register_type_value kSIMD_FP_Register_16 = 5"
| "register_type_value kSIMD_FP_Register_32 = 6"
| "register_type_value kSIMD_FP_Register_64 = 7"
| "register_type_value kSIMD_FP_Register_128 = 8"
| "register_type_value kInvalid = 9"

record CPURegister =
  reg_code :: u32
  reg_size :: nat
  reg_type :: RegisterType

definition X :: "u32 \<Rightarrow> CPURegister" where
  "X c = \<lparr>reg_code = c, reg_size = 64, reg_type = kRegister_64\<rparr>"

definition W :: "u32 \<Rightarrow> CPURegister" where
  "W c = \<lparr>reg_code = c, reg_size = 32, reg_type = kRegister_32\<rparr>"

definition Q :: "u32 \<Rightarrow> CPURegister" where
  "Q c = \<lparr>reg_code = c, reg_size = 128, reg_type = kSIMD_FP_Register_128\<rparr>"

definition InvalidRegister :: CPURegister where
  "InvalidRegister = \<lparr>reg_code = 0, reg_size = 0, reg_type = kInvalid\<rparr>"

definition reg_Is :: "CPURegister \<Rightarrow> CPURegister \<Rightarrow> bool" where
  "reg_Is r reg \<longleftrightarrow> reg_code reg = reg_code r"

definition Is64Bits :: "CPURegister \<Rightarrow> bool" where
  "Is64Bits r \<longleftrightarrow> reg_size r = 64"

definition IsRegister :: "CPURegister \<Rightarrow> bool" where
  "IsRegister r \<longleftrightarrow> register_type_value (reg_type r) < register_type_value kRegister"

definition IsVRegister :: "CPURegister \<Rightarrow> bool" where
  "IsVRegister r \<longleftrightarrow> register_type_value (reg_type r) > register_type_value kVRegister"

definition xzr :: CPURegister where "xzr = X 31"
definition wzr :: CPURegister where "wzr = W 31"
definition SP :: CPURegister where "SP = X 31"

text \<open>\<^verbatim>\<open>TMP_REG_0\<close> is \<^verbatim>\<open>X(ARM64_TMP_REG_NDX_0)\<close>, and \<^verbatim>\<open>dobby.h\<close> defines the index as 17.\<close>

definition TMP_REG_0 :: CPURegister where "TMP_REG_0 = X 17"

lemmas register_defs = X_def W_def Q_def InvalidRegister_def xzr_def wzr_def SP_def TMP_REG_0_def

lemma register_simps [simp]:
  "reg_code (X c) = c" "Is64Bits (X c)" "reg_type (X c) = kRegister_64" "IsRegister (X c)" "\<not> IsVRegister (X c)"
  "reg_code (W c) = c" "\<not> Is64Bits (W c)" "reg_type (W c) = kRegister_32" "IsRegister (W c)" "\<not> IsVRegister (W c)"
  "reg_code (Q c) = c" "reg_type (Q c) = kSIMD_FP_Register_128" "\<not> IsRegister (Q c)" "IsVRegister (Q c)"
  by (simp_all add: register_defs Is64Bits_def IsRegister_def IsVRegister_def)

section \<open>Properties of the encodings\<close>

lemmas literal_defs =
  LoadRegLiteralFixed_def LoadRegLiteralFixedMask_def PCRelAddressingFixed_def PCRelAddressingFixedMask_def
  UnconditionalBranchFixed_def UnconditionalBranchFixedMask_def TestBranchFixed_def TestBranchFixedMask_def
  CompareBranchFixed_def CompareBranchFixedMask_def ConditionalBranchFixed_def ConditionalBranchFixedMask_def

text \<open>The six classes of instructions that the relocator tests for, in the order of its tests.\<close>

definition arm64_classes :: "(u32 \<times> u32) list" where
  "arm64_classes =
     [(LoadRegLiteralFixedMask, LoadRegLiteralFixed), (PCRelAddressingFixedMask, PCRelAddressingFixed),
      (UnconditionalBranchFixedMask, UnconditionalBranchFixed), (TestBranchFixedMask, TestBranchFixed),
      (CompareBranchFixedMask, CompareBranchFixed), (ConditionalBranchFixedMask, ConditionalBranchFixed)]"

definition in_class :: "u32 \<times> u32 \<Rightarrow> u32 \<Rightarrow> bool" where
  "in_class c w \<longleftrightarrow> w AND fst c = snd c"

lemma in_class_conflict:
  assumes "in_class c w" and "in_class d w"
  shows "snd c AND fst d = snd d AND fst c"
proof -
  have "snd c AND fst d = (w AND fst c) AND fst d" using assms(1) by (simp add: in_class_def)
  also have "\<dots> = (w AND fst d) AND fst c" by (simp add: ac_simps)
  also have "\<dots> = snd d AND fst c" using assms(2) by (simp add: in_class_def)
  finally show ?thesis .
qed

lemma arm64_class_unique:
  assumes "i < 6" and "j < 6" and "in_class (arm64_classes ! i) w" and "in_class (arm64_classes ! j) w"
  shows "i = j"
proof -
  have "\<forall>i<6. \<forall>j<6. i \<noteq> j \<longrightarrow>
      snd (arm64_classes ! i) AND fst (arm64_classes ! j) \<noteq> snd (arm64_classes ! j) AND fst (arm64_classes ! i)"
    by code_simp
  then show ?thesis using assms in_class_conflict by blast
qed

lemma field_outside:
  assumes k: "LeftShift (- 1) b c AND k = LeftShift (- 1) b c" and m: "k AND m = (0 :: u32)"
  shows "LeftShift a b c AND m = 0"
proof (rule LeftShift_and_zero)
  have "LeftShift (- 1) b c AND m = (LeftShift (- 1) b c AND k) AND m" by (simp only: k)
  also have "\<dots> = LeftShift (- 1) b c AND (k AND m)" by (rule and.assoc)
  finally show "LeftShift (- 1) b c AND m = 0" by (simp add: m)
qed

lemma load_store_fields_outside:
  assumes "0xC4C00000 AND m = 0"
  shows "LoadStoreOpSub f AND m = 0"
proof -
  obtain x y z where f: "f = (x, y, z)" by (cases f)
  have "LeftShift x 2 30 AND m = 0" "LeftShift y 1 26 AND m = 0" "LeftShift z 2 22 AND m = 0"
    by (rule field_outside [OF _ assms], simp add: LeftShift_def)+
  then show ?thesis by (simp add: f LoadStoreOpSub_def bit.conj_disj_distrib2)
qed

lemma pair_fields_outside:
  assumes "0xC4400000 AND m = 0"
  shows "LoadStorePairOpSub f AND m = 0"
proof -
  obtain x y z where f: "f = (x, y, z)" by (cases f)
  have "LeftShift x 2 30 AND m = 0" "LeftShift y 1 26 AND m = 0" "LeftShift z 1 22 AND m = 0"
    by (rule field_outside [OF _ assms], simp add: LeftShift_def)+
  then show ?thesis by (simp add: f LoadStorePairOpSub_def bit.conj_disj_distrib2)
qed

lemma load_store_classes:
  "LoadStoreUnsignedOffset n AND LoadStoreUnsignedOffsetFixedMask = LoadStoreUnsignedOffsetFixed"
  "LoadStoreRegisterOffsetOp n AND LoadStoreRegisterOffsetFixedMask = LoadStoreRegisterOffsetFixed"
  "LoadStoreUnscaledOffsetOp n AND LoadStoreUnscaledOffsetFixedMask = LoadStoreUnscaledOffsetFixed"
  by (simp_all add: LoadStoreUnsignedOffset_def LoadStoreUnsignedOffsetFixedMask_def LoadStoreUnsignedOffsetFixed_def
      LoadStoreRegisterOffsetOp_def LoadStoreRegisterOffsetFixedMask_def LoadStoreRegisterOffsetFixed_def
      LoadStoreUnscaledOffsetOp_def LoadStoreUnscaledOffsetFixedMask_def LoadStoreUnscaledOffsetFixed_def
      bit.conj_disj_distrib2 load_store_fields_outside)

lemma load_store_pair_classes:
  "(LoadStorePairOffsetFixed OR LoadStorePairOp p) AND LoadStorePairFixedMask = LoadStorePairOffsetFixed"
  "(LoadStorePairPreIndexFixed OR LoadStorePairOp p) AND LoadStorePairFixedMask = LoadStorePairPreIndexFixed"
  "(LoadStorePairPostIndexFixed OR LoadStorePairOp p) AND LoadStorePairFixedMask = LoadStorePairPostIndexFixed"
  by (simp_all add: LoadStorePairOp_def LoadStorePairOffsetFixed_def LoadStorePairPreIndexFixed_def
      LoadStorePairPostIndexFixed_def LoadStorePairFixedMask_def bit.conj_disj_distrib2 pair_fields_outside)

text \<open>
  Every enumerator that the macro lists paste lies in its own encoding class: the fixed bits
  of the class are those that the mask of the class reads, for all 24 loads and stores in their
  three addressing forms and for all 11 pairs in theirs.
\<close>

lemma load_store_enumerators:
  "LoadStoreUnsignedOffset n AND LoadStoreUnsignedOffsetFixedMask = LoadStoreUnsignedOffsetFixed \<and>
   LoadStoreRegisterOffsetOp n AND LoadStoreRegisterOffsetFixedMask = LoadStoreRegisterOffsetFixed \<and>
   LoadStoreUnscaledOffsetOp n AND LoadStoreUnscaledOffsetFixedMask = LoadStoreUnscaledOffsetFixed \<and>
   (LoadStorePairOffsetFixed OR LoadStorePairOp p) AND LoadStorePairFixedMask = LoadStorePairOffsetFixed \<and>
   (LoadStorePairPreIndexFixed OR LoadStorePairOp p) AND LoadStorePairFixedMask = LoadStorePairPreIndexFixed \<and>
   (LoadStorePairPostIndexFixed OR LoadStorePairOp p) AND LoadStorePairFixedMask = LoadStorePairPostIndexFixed"
  by (simp add: load_store_classes load_store_pair_classes)

end
