(* ===== verification/Arm64Assembler.thy ===== *)
theory Arm64Assembler
  imports Arm64Constants CodeBuffer
begin

text \<open>
  The ARM64 assembler: \<^verbatim>\<open>core/modules/assembler/assembler.h\<close> and \<^verbatim>\<open>assembler.cc\<close> (labels),
  \<^verbatim>\<open>assembler-arm64.h\<close> and \<^verbatim>\<open>assembler-arm64.cc\<close>. An \<^verbatim>\<open>int32_t\<close> or \<^verbatim>\<open>int64_t\<close> that is put together bit by bit is
  a word, a buffer position is an \<open>int\<close>. The code buffer is the list of its bytes; that the
  growing buffer behaves as this list is the refinement of \<open>CodeBuffer\<close>. \<^verbatim>\<open>DCHECK\<close> is empty in
  the release build and is left out. A label that \<^verbatim>\<open>AppendRelocLabelEntry\<close> shares with
  the assembler is named by its index in \<open>data_labels\<close>.
\<close>

section \<open>Labels\<close>

record Label =
  label_pos :: int
  near_link_pos :: int

definition new_Label :: Label where
  "new_Label = \<lparr>label_pos = 0, near_link_pos = 0\<rparr>"

definition is_bound :: "'a Label_scheme \<Rightarrow> bool" where
  "is_bound l \<longleftrightarrow> label_pos l < 0"

definition is_unused :: "'a Label_scheme \<Rightarrow> bool" where
  "is_unused l \<longleftrightarrow> label_pos l = 0 \<and> near_link_pos l = 0"

definition is_linked :: "'a Label_scheme \<Rightarrow> bool" where
  "is_linked l \<longleftrightarrow> label_pos l > 0"

definition is_near_linked :: "'a Label_scheme \<Rightarrow> bool" where
  "is_near_linked l \<longleftrightarrow> near_link_pos l > 0"

definition pos :: "'a Label_scheme \<Rightarrow> int" where
  "pos l = (if label_pos l < 0 then - label_pos l - 1 else if label_pos l > 0 then label_pos l - 1 else 0)"

definition bind_to :: "int \<Rightarrow> 'a Label_scheme \<Rightarrow> 'a Label_scheme" where
  "bind_to p l = l\<lparr>label_pos := - p - 1\<rparr>"

definition link_to :: "int \<Rightarrow> 'a Label_scheme \<Rightarrow> 'a Label_scheme" where
  "link_to p l = l\<lparr>label_pos := p + 1\<rparr>"

datatype PseudoLabelType = kLdrLiteral

record PseudoLabelInstruction =
  position :: int
  instr_type :: PseudoLabelType

record PseudoLabel = Label +
  instructions :: "PseudoLabelInstruction list"

record RelocLabelEntry = PseudoLabel +
  label_data :: u64

definition new_PseudoLabel :: PseudoLabel where
  "new_PseudoLabel = \<lparr>label_pos = 0, near_link_pos = 0, instructions = []\<rparr>"

definition new_RelocLabelEntry :: "u64 \<Rightarrow> RelocLabelEntry" where
  "new_RelocLabelEntry d = \<lparr>label_pos = 0, near_link_pos = 0, instructions = [], label_data = d\<rparr>"

definition has_confused_instructions :: "'a PseudoLabel_scheme \<Rightarrow> bool" where
  "has_confused_instructions l \<longleftrightarrow> length (instructions l) > 0"

definition pseudo_link_to :: "int \<Rightarrow> PseudoLabelType \<Rightarrow> 'a PseudoLabel_scheme \<Rightarrow> 'a PseudoLabel_scheme" where
  "pseudo_link_to p t l = l\<lparr>instructions := instructions l @ [\<lparr>position = p, instr_type = t\<rparr>]\<rparr>"

section \<open>The buffer as a list of bytes\<close>

definition buf_LoadInst :: "int \<Rightarrow> u8 list \<Rightarrow> asm_fault + u32" where
  "buf_LoadInst off bs =
     (if off < 0 then Inl Wild_access else bindE (load_at (nat off) 4 bs) (\<lambda>p. Inr (le_word p)))"

definition buf_FixBindLabel :: "int \<Rightarrow> u32 \<Rightarrow> u8 list \<Rightarrow> asm_fault + u8 list" where
  "buf_FixBindLabel off w bs = (if off < 0 then Inl Wild_access else store_at (nat off) (le_bytes 4 w) bs)"

text \<open>The literal loads that were emitted before their label was bound get their offset.\<close>

definition fix_ldr :: "int \<Rightarrow> u32 \<Rightarrow> u32" where
  "fix_ldr off inst32 =
     (inst32 AND 0xFF00001F) OR LeftShift (signed_drop_bit 2 (word_of_int off :: u32)) 19 5"

fun link_confused :: "int \<Rightarrow> PseudoLabelInstruction list \<Rightarrow> u8 list \<Rightarrow> asm_fault + u8 list" where
  "link_confused p [] bs = Inr bs"
| "link_confused p (i # is) bs =
     bindE (buf_LoadInst (position i) bs) (\<lambda>inst32.
     bindE (case instr_type i of kLdrLiteral \<Rightarrow>
              buf_FixBindLabel (position i) (fix_ldr (p - position i) inst32) bs) (\<lambda>bs.
       link_confused p is bs))"

definition link_confused_instructions :: "'a PseudoLabel_scheme \<Rightarrow> u8 list \<Rightarrow> asm_fault + u8 list" where
  "link_confused_instructions l bs = link_confused (pos l) (instructions l) bs"

section \<open>Operands\<close>

record Operand =
  opd_immediate :: u64
  opd_reg :: CPURegister
  opd_shift :: Shift
  opd_extend :: Extend
  opd_shift_extent_imm :: u32

definition Operand_imm :: "u64 \<Rightarrow> Operand" where
  "Operand_imm imm = \<lparr>opd_immediate = imm, opd_reg = InvalidRegister, opd_shift = NO_SHIFT,
     opd_extend = NO_EXTEND, opd_shift_extent_imm = 0\<rparr>"

definition Operand_shift :: "CPURegister \<Rightarrow> Shift \<Rightarrow> u32 \<Rightarrow> Operand" where
  "Operand_shift r s i = \<lparr>opd_immediate = 0, opd_reg = r, opd_shift = s,
     opd_extend = NO_EXTEND, opd_shift_extent_imm = i\<rparr>"

definition Operand_extend :: "CPURegister \<Rightarrow> Extend \<Rightarrow> u32 \<Rightarrow> Operand" where
  "Operand_extend r e i = \<lparr>opd_immediate = 0, opd_reg = r, opd_shift = NO_SHIFT,
     opd_extend = e, opd_shift_extent_imm = i\<rparr>"

definition IsImmediate :: "Operand \<Rightarrow> bool" where
  "IsImmediate o1 \<longleftrightarrow> reg_Is (opd_reg o1) InvalidRegister"

definition IsShiftedRegister :: "Operand \<Rightarrow> bool" where
  "IsShiftedRegister o1 \<longleftrightarrow> opd_shift o1 \<noteq> NO_SHIFT"

definition IsExtendedRegister :: "Operand \<Rightarrow> bool" where
  "IsExtendedRegister o1 \<longleftrightarrow> opd_extend o1 \<noteq> NO_EXTEND"

record MemOperand =
  mem_base_reg :: CPURegister
  mem_regoffset :: CPURegister
  mem_offset :: u64
  mem_shift :: Shift
  mem_extend :: Extend
  mem_shift_extend_imm :: u32
  mem_addrmode :: AddrMode

definition MemOperand_imm :: "CPURegister \<Rightarrow> u64 \<Rightarrow> AddrMode \<Rightarrow> MemOperand" where
  "MemOperand_imm r i m = \<lparr>mem_base_reg = r, mem_regoffset = InvalidRegister, mem_offset = i,
     mem_shift = NO_SHIFT, mem_extend = NO_EXTEND, mem_shift_extend_imm = 0, mem_addrmode = m\<rparr>"

definition MemOperand_extend :: "CPURegister \<Rightarrow> CPURegister \<Rightarrow> Extend \<Rightarrow> u32 \<Rightarrow> MemOperand" where
  "MemOperand_extend r o1 e i = \<lparr>mem_base_reg = r, mem_regoffset = o1, mem_offset = 0,
     mem_shift = NO_SHIFT, mem_extend = e, mem_shift_extend_imm = i, mem_addrmode = Offset\<rparr>"

definition MemOperand_shift :: "CPURegister \<Rightarrow> CPURegister \<Rightarrow> Shift \<Rightarrow> u32 \<Rightarrow> MemOperand" where
  "MemOperand_shift r o1 s i = \<lparr>mem_base_reg = r, mem_regoffset = o1, mem_offset = 0,
     mem_shift = s, mem_extend = NO_EXTEND, mem_shift_extend_imm = i, mem_addrmode = Offset\<rparr>"

definition IsImmediateOffset :: "MemOperand \<Rightarrow> bool" where
  "IsImmediateOffset m \<longleftrightarrow> mem_addrmode m = Offset"

definition IsRegisterOffset :: "MemOperand \<Rightarrow> bool" where
  "IsRegisterOffset m \<longleftrightarrow> mem_addrmode m = Offset"

definition IsPreIndex :: "MemOperand \<Rightarrow> bool" where
  "IsPreIndex m \<longleftrightarrow> mem_addrmode m = PreIndex"

section \<open>Instruction fields\<close>

definition Rd :: "CPURegister \<Rightarrow> u32" where "Rd r = push_bit kRdShift (reg_code r)"
definition Rt :: "CPURegister \<Rightarrow> u32" where "Rt r = push_bit kRtShift (reg_code r)"
definition Rt2 :: "CPURegister \<Rightarrow> u32" where "Rt2 r = push_bit kRt2Shift (reg_code r)"
definition Rn :: "CPURegister \<Rightarrow> u32" where "Rn r = push_bit kRnShift (reg_code r)"
definition Rm :: "CPURegister \<Rightarrow> u32" where "Rm r = push_bit kRmShift (reg_code r)"

lemmas reg_field_defs = Rd_def Rt_def Rt2_def Rn_def Rm_def

definition sf :: "CPURegister \<Rightarrow> u32" where
  "sf r = (if Is64Bits r then LeftShift 1 1 31 else 0)"

definition V_field :: "CPURegister \<Rightarrow> u32" where
  "V_field r = (if IsVRegister r then LeftShift 1 1 26 else 0)"

definition L_field :: "bool \<Rightarrow> u32" where
  "L_field load_or_store = (if load_or_store then LeftShift 1 1 22 else 0)"

definition shift_field :: "Shift \<Rightarrow> u32" where
  "shift_field s = LeftShift (shift_value s) 2 22"

text \<open>\<^verbatim>\<open>N\<close> is computed but not part of the encoding.\<close>

definition EncodeLogicalImmediate :: "CPURegister \<Rightarrow> CPURegister \<Rightarrow> Operand \<Rightarrow> u32" where
  "EncodeLogicalImmediate rd rn operand =
     (let imm = opd_immediate operand;
          immr = ucast (bits imm 0 5); imms = ucast (bits imm 6 11)
      in sf rd OR LeftShift immr 6 16 OR LeftShift imms 6 10 OR Rd rd OR Rn rn)"

definition EncodeLogicalShift :: "CPURegister \<Rightarrow> CPURegister \<Rightarrow> Operand \<Rightarrow> u32" where
  "EncodeLogicalShift rd rn operand =
     sf rd OR shift_field (opd_shift operand) OR Rm (opd_reg operand) OR
     LeftShift (opd_shift_extent_imm operand) 6 10 OR Rn rn OR Rd rd"

definition OpEncode_LoadStorePair :: "u32 \<Rightarrow> CPURegister \<Rightarrow> CPURegister \<Rightarrow> MemOperand \<Rightarrow> u32" where
  "OpEncode_LoadStorePair op rt rt2 addr =
     (let opc = bits op 30 31;
          scale = 2 + (if IsRegister rt then unat (bit_at opc 1) else if IsVRegister rt then unat opc else 0);
          imm7 = ucast (signed_drop_bit scale (mem_offset addr))
      in LeftShift imm7 7 15)"

definition OpEncode_scale :: "u32 \<Rightarrow> nat" where
  "OpEncode_scale op =
     (if op AND LoadStoreUnsignedOffsetFixed = LoadStoreUnsignedOffsetFixed then unat (bits op 30 31) else 0)"

section \<open>Assembler\<close>

record Assembler =
  asm_buffer :: "u8 list"
  realized_address :: addr
  data_labels :: "RelocLabelEntry list option"

definition new_Assembler :: "addr \<Rightarrow> Assembler" where
  "new_Assembler address = \<lparr>asm_buffer = [], realized_address = address, data_labels = None\<rparr>"

definition pc_offset :: "Assembler \<Rightarrow> int" where
  "pc_offset a = int (length (asm_buffer a))"

definition SetRealizedAddress :: "addr \<Rightarrow> Assembler \<Rightarrow> Assembler" where
  "SetRealizedAddress address a = a\<lparr>realized_address := address\<rparr>"

definition Emit :: "u32 \<Rightarrow> Assembler \<Rightarrow> Assembler" where
  "Emit value a = a\<lparr>asm_buffer := asm_buffer a @ le_bytes 4 value\<rparr>"

definition EmitInt64 :: "u64 \<Rightarrow> Assembler \<Rightarrow> Assembler" where
  "EmitInt64 value a = a\<lparr>asm_buffer := asm_buffer a @ le_bytes 8 value\<rparr>"

definition nop :: "Assembler \<Rightarrow> Assembler" where
  "nop = Emit 0xD503201F"

definition brk :: "u32 \<Rightarrow> Assembler \<Rightarrow> Assembler" where
  "brk code = Emit (BRK_op OR LeftShift code 16 5)"

definition ret :: "Assembler \<Rightarrow> Assembler" where
  "ret = Emit 0xD65F03C0"

definition adrp_word :: "CPURegister \<Rightarrow> u64 \<Rightarrow> u32" where
  "adrp_word rd imm =
     ADRP_op OR Rd rd OR ucast (LeftShift (bits (signed_drop_bit 12 imm) 0 1) 2 29) OR
     ucast (LeftShift (bits (signed_drop_bit 12 imm) 2 20) 19 5)"

definition adrp :: "CPURegister \<Rightarrow> u64 \<Rightarrow> Assembler \<Rightarrow> Assembler" where
  "adrp rd imm = Emit (adrp_word rd imm)"

definition AddSubImmediate ::
  "CPURegister \<Rightarrow> CPURegister \<Rightarrow> Operand \<Rightarrow> u32 \<Rightarrow> Assembler \<Rightarrow> asm_fault + Assembler" where
  "AddSubImmediate rd rn operand op a =
     (if IsImmediate operand
      then Inr (Emit (op OR Rd rd OR Rn rn OR ucast (LeftShift (opd_immediate operand) 12 10)) a)
      else Inl Abort_unreachable)"

definition add :: "CPURegister \<Rightarrow> CPURegister \<Rightarrow> u64 \<Rightarrow> Assembler \<Rightarrow> asm_fault + Assembler" where
  "add rd rn imm =
     AddSubImmediate rd rn (Operand_imm imm) (if Is64Bits rd \<and> Is64Bits rn then ADD_x_imm else ADD_w_imm)"

definition sub :: "CPURegister \<Rightarrow> CPURegister \<Rightarrow> u64 \<Rightarrow> Assembler \<Rightarrow> asm_fault + Assembler" where
  "sub rd rn imm =
     AddSubImmediate rd rn (Operand_imm imm) (if Is64Bits rd \<and> Is64Bits rn then SUB_x_imm else SUB_w_imm)"

definition b_word :: "u64 \<Rightarrow> u32" where
  "b_word imm = B_op OR ucast (bits (signed_drop_bit 2 imm) 0 25)"

definition b_imm :: "u64 \<Rightarrow> Assembler \<Rightarrow> Assembler" where
  "b_imm imm = Emit (b_word imm)"

definition br :: "CPURegister \<Rightarrow> Assembler \<Rightarrow> Assembler" where
  "br rn = Emit (BR_op OR Rn rn)"

definition blr :: "CPURegister \<Rightarrow> Assembler \<Rightarrow> Assembler" where
  "blr rn = Emit (BLR_op OR Rn rn)"

definition EmitLoadRegLiteral :: "u32 \<Rightarrow> CPURegister \<Rightarrow> u64 \<Rightarrow> Assembler \<Rightarrow> Assembler" where
  "EmitLoadRegLiteral op rt imm = Emit (op OR ucast (LeftShift imm 26 5) OR Rt rt)"

definition ldr_literal :: "CPURegister \<Rightarrow> u64 \<Rightarrow> Assembler \<Rightarrow> asm_fault + Assembler" where
  "ldr_literal rt imm a =
     (case reg_type rt of
        kRegister_32 \<Rightarrow> Inr (EmitLoadRegLiteral LDR_w_literal rt imm a)
      | kRegister_64 \<Rightarrow> Inr (EmitLoadRegLiteral LDR_x_literal rt imm a)
      | kSIMD_FP_Register_32 \<Rightarrow> Inr (EmitLoadRegLiteral LDR_s_literal rt imm a)
      | kSIMD_FP_Register_64 \<Rightarrow> Inr (EmitLoadRegLiteral LDR_d_literal rt imm a)
      | kSIMD_FP_Register_128 \<Rightarrow> Inr (EmitLoadRegLiteral LDR_q_literal rt imm a)
      | _ \<Rightarrow> Inl Abort_unreachable)"

definition LoadStore :: "u32 \<Rightarrow> CPURegister \<Rightarrow> MemOperand \<Rightarrow> Assembler \<Rightarrow> asm_fault + Assembler" where
  "LoadStore op rt addr a =
     (if IsImmediateOffset addr
      then let imm12 = signed_drop_bit (OpEncode_scale (LoadStoreUnsignedOffsetFixed OR op)) (mem_offset addr)
           in Inr (Emit (LoadStoreUnsignedOffsetFixed OR op OR ucast (LeftShift imm12 12 10) OR
                         Rn (mem_base_reg addr) OR Rt rt) a)
      else Inl Abort_unreachable)"

definition ldr :: "CPURegister \<Rightarrow> MemOperand \<Rightarrow> Assembler \<Rightarrow> asm_fault + Assembler" where
  "ldr rt src = LoadStore (LoadStoreOp LDR_x) rt src"

definition str :: "CPURegister \<Rightarrow> MemOperand \<Rightarrow> Assembler \<Rightarrow> asm_fault + Assembler" where
  "str rt src = LoadStore (LoadStoreOp STR_x) rt src"

definition LoadStorePair ::
  "u32 \<Rightarrow> CPURegister \<Rightarrow> CPURegister \<Rightarrow> MemOperand \<Rightarrow> Assembler \<Rightarrow> Assembler" where
  "LoadStorePair op rt rt2 addr =
     (let combine_fields_op = OpEncode_LoadStorePair op rt rt2 addr OR Rt2 rt2 OR Rn (mem_base_reg addr) OR Rt rt;
          addrmodeop = (if IsImmediateOffset addr then LoadStorePairOffsetFixed
                        else if IsPreIndex addr then LoadStorePairPreIndexFixed
                        else LoadStorePairPostIndexFixed)
      in Emit (op OR addrmodeop OR combine_fields_op))"

definition ldp :: "CPURegister \<Rightarrow> CPURegister \<Rightarrow> MemOperand \<Rightarrow> Assembler \<Rightarrow> asm_fault + Assembler" where
  "ldp rt rt2 src a =
     (if reg_type rt = kSIMD_FP_Register_128 then Inr (LoadStorePair (LoadStorePairOp LDP_q) rt rt2 src a)
      else if reg_type rt = kRegister_64 then Inr (LoadStorePair (LoadStorePairOp LDP_x) rt rt2 src a)
      else Inl Abort_unreachable)"

definition stp :: "CPURegister \<Rightarrow> CPURegister \<Rightarrow> MemOperand \<Rightarrow> Assembler \<Rightarrow> asm_fault + Assembler" where
  "stp rt rt2 dst a =
     (if reg_type rt = kSIMD_FP_Register_128 then Inr (LoadStorePair (LoadStorePairOp STP_q) rt rt2 dst a)
      else if reg_type rt = kRegister_64 then Inr (LoadStorePair (LoadStorePairOp STP_x) rt rt2 dst a)
      else Inl Abort_unreachable)"

definition LogicalImmediate :: "CPURegister \<Rightarrow> CPURegister \<Rightarrow> Operand \<Rightarrow> u32 \<Rightarrow> Assembler \<Rightarrow> Assembler" where
  "LogicalImmediate rd rn operand op = Emit (op OR EncodeLogicalImmediate rd rn operand)"

definition LogicalShift :: "CPURegister \<Rightarrow> CPURegister \<Rightarrow> Operand \<Rightarrow> u32 \<Rightarrow> Assembler \<Rightarrow> Assembler" where
  "LogicalShift rd rn operand op = Emit (op OR LogicalShiftedFixed OR EncodeLogicalShift rd rn operand)"

definition Logical :: "CPURegister \<Rightarrow> CPURegister \<Rightarrow> Operand \<Rightarrow> u32 \<Rightarrow> Assembler \<Rightarrow> Assembler" where
  "Logical rd rn operand op =
     (if IsImmediate operand then LogicalImmediate rd rn operand op else LogicalShift rd rn operand op)"

definition orr :: "CPURegister \<Rightarrow> CPURegister \<Rightarrow> Operand \<Rightarrow> Assembler \<Rightarrow> Assembler" where
  "orr rd rn operand = Logical rd rn operand (logical_value L_ORR)"

definition mov :: "CPURegister \<Rightarrow> CPURegister \<Rightarrow> Assembler \<Rightarrow> asm_fault + Assembler" where
  "mov rd rn a =
     (if reg_Is rd SP \<or> reg_Is rn SP then add rd rn 0 a
      else Inr (orr rd (if Is64Bits rd then xzr else wzr) (Operand_shift rn LSL 0) a))"

definition move_wide_word :: "CPURegister \<Rightarrow> u64 \<Rightarrow> int \<Rightarrow> u32 \<Rightarrow> u32" where
  "move_wide_word rd imm shift op =
     (let shift = (if shift > 0 then shift div 16 else 0)
      in MoveWideImmediateFixed OR op OR sf rd OR LeftShift (word_of_int shift) 2 21 OR
         ucast (LeftShift imm 16 5) OR Rd rd)"

definition MoveWide :: "CPURegister \<Rightarrow> u64 \<Rightarrow> int \<Rightarrow> u32 \<Rightarrow> Assembler \<Rightarrow> Assembler" where
  "MoveWide rd imm shift op = Emit (move_wide_word rd imm shift op)"

definition movk :: "CPURegister \<Rightarrow> u64 \<Rightarrow> int \<Rightarrow> Assembler \<Rightarrow> Assembler" where
  "movk rd imm shift = MoveWide rd imm shift MOVK_op"

definition movn :: "CPURegister \<Rightarrow> u64 \<Rightarrow> int \<Rightarrow> Assembler \<Rightarrow> Assembler" where
  "movn rd imm shift = MoveWide rd imm shift MOVN_op"

definition movz :: "CPURegister \<Rightarrow> u64 \<Rightarrow> int \<Rightarrow> Assembler \<Rightarrow> Assembler" where
  "movz rd imm shift = MoveWide rd imm shift MOVZ_op"

section \<open>Branches to labels\<close>

definition kStartOfLabelLinkChain :: int where "kStartOfLabelLinkChain = 0"

definition LinkAndGetByteOffsetTo :: "Label \<Rightarrow> Assembler \<Rightarrow> int \<times> Label" where
  "LinkAndGetByteOffsetTo l a =
     (if is_bound l then (pos l - pc_offset a, l)
      else (if is_linked l then pos l - pc_offset a else kStartOfLabelLinkChain, link_to (pc_offset a) l))"

definition b_label :: "Label \<Rightarrow> Assembler \<Rightarrow> Label \<times> Assembler" where
  "b_label l a = (let (off, l') = LinkAndGetByteOffsetTo l a in (l', b_imm (word_of_int off) a))"

text \<open>
  The loop of \<^verbatim>\<open>bind\<close>. Each round fixes the branch at \<^verbatim>\<open>linkpos\<close> and follows the distance stored in
  it; the distance is read without its sign, so the position falls in every round.
\<close>

definition bind_next :: "int \<Rightarrow> u32 \<Rightarrow> int" where
  "bind_next linkpos instr =
     (if instr AND UnconditionalBranchMask = UnconditionalBranchFixed
      then linkpos - uint (push_bit 2 (bits instr 0 25)) else 0)"

definition bind_fix :: "int \<Rightarrow> int \<Rightarrow> u32 \<Rightarrow> u8 list \<Rightarrow> asm_fault + u8 list" where
  "bind_fix bound_pc linkpos instr bs =
     (if instr AND UnconditionalBranchMask = UnconditionalBranchFixed
      then let off = word_of_int (bound_pc - linkpos) :: u32;
               imm26 = bits (signed_drop_bit 2 off) 0 25
           in buf_FixBindLabel linkpos ((instr AND 0xfc000000) OR LeftShift imm26 26 0) bs
      else Inr bs)"

function bind_loop :: "int \<Rightarrow> Label \<Rightarrow> u8 list \<Rightarrow> asm_fault + (Label \<times> u8 list)" where
  "bind_loop bound_pc l bs =
     (if is_linked l then
        let linkpos = pos l in
        bindE (buf_LoadInst linkpos bs) (\<lambda>instr.
        bindE (bind_fix bound_pc linkpos instr bs) (\<lambda>bs.
          let prevlinkpos = bind_next linkpos instr
          in bind_loop bound_pc
               (if linkpos - prevlinkpos = kStartOfLabelLinkChain then link_to (- 1) l else link_to prevlinkpos l) bs))
      else Inr (l, bs))"
  by pat_completeness auto
termination
proof (relation "measure (\<lambda>(_, l, _). nat (label_pos l))")
  fix bound_pc :: int and l :: Label and bs linkpos instr bs' prevlinkpos
  assume "is_linked l" "linkpos = pos l" "prevlinkpos = bind_next linkpos instr"
  then show "((bound_pc, if linkpos - prevlinkpos = kStartOfLabelLinkChain then link_to (- 1) l
      else link_to prevlinkpos l, bs'), (bound_pc, l, bs)) \<in> measure (\<lambda>(_, l, _). nat (label_pos l))"
    by (auto simp: is_linked_def pos_def bind_next_def kStartOfLabelLinkChain_def link_to_def)
       (simp add: order.strict_iff_order)
qed simp

declare bind_loop.simps [simp del]

definition bind_label :: "Label \<Rightarrow> Assembler \<Rightarrow> asm_fault + (Label \<times> Assembler)" where
  "bind_label l a =
     (let bound_pc = pc_offset a in
      bindE (bind_loop bound_pc l (asm_buffer a)) (\<lambda>(l, bs).
        Inr (bind_to bound_pc l, a\<lparr>asm_buffer := bs\<rparr>)))"

section \<open>TurboAssembler\<close>

definition Low16Bits :: "u32 \<Rightarrow> u32" where "Low16Bits value = value AND 0xffff"
definition High16Bits :: "u32 \<Rightarrow> u32" where "High16Bits value = signed_drop_bit 16 value"
definition Low32Bits :: "u64 \<Rightarrow> u32" where "Low32Bits value = ucast value"
definition High32Bits :: "u64 \<Rightarrow> u32" where "High32Bits value = ucast (signed_drop_bit 32 value)"

definition Mov :: "CPURegister \<Rightarrow> u64 \<Rightarrow> Assembler \<Rightarrow> Assembler" where
  "Mov rd imm a =
     (let w0 = Low32Bits imm; w1 = High32Bits imm;
          h0 = ucast (Low16Bits w0) :: u16; h1 = ucast (High16Bits w0) :: u16;
          h2 = ucast (Low16Bits w1) :: u16; h3 = ucast (High16Bits w1) :: u16
      in movk rd (ucast h3) 48 (movk rd (ucast h2) 32 (movk rd (ucast h1) 16 (movz rd (ucast h0) 0 a))))"

definition CallFunction :: "addr \<Rightarrow> Assembler \<Rightarrow> Assembler" where
  "CallFunction address a = blr TMP_REG_0 (Mov TMP_REG_0 address a)"

definition Ldr ::
  "CPURegister \<Rightarrow> 'a PseudoLabel_scheme \<Rightarrow> Assembler \<Rightarrow> asm_fault + ('a PseudoLabel_scheme \<times> Assembler)" where
  "Ldr rt l a =
     (if is_bound l
      then bindE (ldr_literal rt (word_of_int (pos l - pc_offset a)) a) (\<lambda>a. Inr (l, a))
      else bindE (ldr_literal rt 0 a) (\<lambda>a'. Inr (pseudo_link_to (pc_offset a) kLdrLiteral l, a')))"

definition AdrpAdd :: "CPURegister \<Rightarrow> addr \<Rightarrow> addr \<Rightarrow> Assembler \<Rightarrow> asm_fault + Assembler" where
  "AdrpAdd rd from to a =
     (let from_PAGE = ALIGN_FLOOR from 0x1000; to_PAGE = ALIGN_FLOOR to 0x1000; to_PAGEOFF = to mod 0x1000
      in add rd rd to_PAGEOFF (adrp rd (to_PAGE - from_PAGE) a))"

definition PseudoBind ::
  "'a PseudoLabel_scheme \<Rightarrow> Assembler \<Rightarrow> asm_fault + ('a PseudoLabel_scheme \<times> Assembler)" where
  "PseudoBind l a =
     (let l = bind_to (pc_offset a) l in
      if has_confused_instructions l
      then bindE (link_confused_instructions l (asm_buffer a)) (\<lambda>bs. Inr (l, a\<lparr>asm_buffer := bs\<rparr>))
      else Inr (l, a))"

definition AppendRelocLabelEntry :: "RelocLabelEntry \<Rightarrow> Assembler \<Rightarrow> nat \<times> Assembler" where
  "AppendRelocLabelEntry l a =
     (let ls = (case data_labels a of None \<Rightarrow> [] | Some ls \<Rightarrow> ls)
      in (length ls, a\<lparr>data_labels := Some (ls @ [l])\<rparr>))"

text \<open>\<^verbatim>\<open>Ldr\<close> on a label that the assembler holds.\<close>

definition Ldr_data :: "CPURegister \<Rightarrow> nat \<Rightarrow> Assembler \<Rightarrow> asm_fault + Assembler" where
  "Ldr_data rt i a =
     (case data_labels a of None \<Rightarrow> Inl Null_pointer
      | Some ls \<Rightarrow>
          (case nth_opt ls i of None \<Rightarrow> Inl Wild_access
           | Some l \<Rightarrow> bindE (Ldr rt l a) (\<lambda>(l', a'). Inr (a'\<lparr>data_labels := Some (ls[i := l'])\<rparr>))))"

fun reloc_bind_loop :: "RelocLabelEntry list \<Rightarrow> Assembler \<Rightarrow> asm_fault + (RelocLabelEntry list \<times> Assembler)" where
  "reloc_bind_loop [] a = Inr ([], a)"
| "reloc_bind_loop (l # ls) a =
     bindE (PseudoBind l a) (\<lambda>(l, a).
     bindE (reloc_bind_loop ls (EmitInt64 (label_data l) a)) (\<lambda>(ls, a). Inr (l # ls, a)))"

definition RelocBind :: "Assembler \<Rightarrow> asm_fault + Assembler" where
  "RelocBind a =
     (case data_labels a of None \<Rightarrow> Inr a
      | Some ls \<Rightarrow> bindE (reloc_bind_loop ls a) (\<lambda>(ls, a). Inr (a\<lparr>data_labels := Some ls\<rparr>)))"

end
