(* ===== verification/Arm64Isa.thy ===== *)
theory Arm64Isa
  imports Arm64Constants
begin

text \<open>
  The part of the ARM64 instruction set that the generated code uses, written from the
  architecture's encoding tables and independent of the assembler: a decoder on bit fields and the
  effect of an instruction on registers, flags, program counter and memory. It is the
  specification that trampolines and relocated code are held against. Instructions outside this part
  decode to \<open>A_other\<close> and have no step.
\<close>

section \<open>Fields\<close>

text \<open>The \<open>n\<close> bits of a word from bit \<open>lo\<close>, and the sign extension of an \<open>n\<close>-bit number.\<close>

definition fld :: "u32 \<Rightarrow> nat \<Rightarrow> nat \<Rightarrow> u32" where
  "fld w lo n = take_bit n (drop_bit lo w)"

definition sext :: "nat \<Rightarrow> u64 \<Rightarrow> u64" where
  "sext n w = signed_take_bit (n - 1) w"

lemma bit_fld [field_bit_simps]: "bit (fld w lo n) k \<longleftrightarrow> k < n \<and> bit w (lo + k)"
  by (auto simp: fld_def bit_simps)

lemma fld_or: "fld (a OR b) lo n = fld a lo n OR fld b lo n"
  by (rule bit_word_eqI) (auto simp: field_bit_simps bit_simps)

lemma fld_and: "fld (a AND b) lo n = fld a lo n AND fld b lo n"
  by (rule bit_word_eqI) (auto simp: field_bit_simps bit_simps)

lemma fld_LeftShift_same: "c + n \<le> 32 \<Longrightarrow> fld (LeftShift x n c) c n = take_bit n x"
  by (rule bit_word_eqI) (auto simp: field_bit_simps bit_simps)

lemma fld_LeftShift_disjoint: "c + n \<le> lo \<or> lo + m \<le> c \<Longrightarrow> fld (LeftShift x n c) lo m = 0"
  by (rule bit_word_eqI) (auto simp: field_bit_simps bit_simps)

section \<open>Instructions\<close>

datatype arm_insn =
    A_B u64 | A_BL u64 | A_BR u32 | A_BLR u32 | A_RET u32
  | A_ADR u32 u64 | A_ADRP u32 u64
  | A_ADDI u32 u32 u64
  | A_MOVZ u32 u64 nat | A_MOVK u32 u64 nat
  | A_LDR_lit u32 u64 | A_LDRW_lit u32 u64 | A_LDR u32 u32 u64
  | A_Bcond u32 u64 | A_CB bool bool u32 u64 | A_TB bool u32 u32 u64
  | A_NOP | A_other u32

definition arm_decode :: "u32 \<Rightarrow> arm_insn" where
  "arm_decode w =
     (if fld w 26 3 = 0b101 \<and> fld w 29 2 = 0
      then (if fld w 31 1 = 1 then A_BL else A_B) (sext 28 (push_bit 2 (ucast (fld w 0 26))))
      else if fld w 24 5 = 0b10000
      then (let imm = sext 21 (push_bit 2 (ucast (fld w 5 19)) OR ucast (fld w 29 2))
            in if fld w 31 1 = 1 then A_ADRP (fld w 0 5) (push_bit 12 imm) else A_ADR (fld w 0 5) imm)
      else if fld w 24 8 = 0b11010110 \<and> fld w 10 14 = 0b00011111000000 \<and> fld w 0 5 = 0 then A_BR (fld w 5 5)
      else if fld w 24 8 = 0b11010110 \<and> fld w 10 14 = 0b00111111000000 \<and> fld w 0 5 = 0 then A_BLR (fld w 5 5)
      else if fld w 24 8 = 0b11010110 \<and> fld w 10 14 = 0b01011111000000 \<and> fld w 0 5 = 0 then A_RET (fld w 5 5)
      else if fld w 24 8 = 0b10010001 \<and> fld w 22 2 = 0
      then A_ADDI (fld w 0 5) (fld w 5 5) (ucast (fld w 10 12))
      else if fld w 24 8 = 0b11010010 \<and> fld w 23 1 = 1
      then A_MOVZ (fld w 0 5) (ucast (fld w 5 16)) (16 * unat (fld w 21 2))
      else if fld w 24 8 = 0b11110010 \<and> fld w 23 1 = 1
      then A_MOVK (fld w 0 5) (ucast (fld w 5 16)) (16 * unat (fld w 21 2))
      else if fld w 24 8 = 0b01011000
      then A_LDR_lit (fld w 0 5) (sext 21 (push_bit 2 (ucast (fld w 5 19))))
      else if fld w 24 8 = 0b00011000
      then A_LDRW_lit (fld w 0 5) (sext 21 (push_bit 2 (ucast (fld w 5 19))))
      else if fld w 24 8 = 0b11111001 \<and> fld w 22 2 = 1
      then A_LDR (fld w 0 5) (fld w 5 5) (push_bit 3 (ucast (fld w 10 12)))
      else if fld w 24 8 = 0b01010100 \<and> fld w 4 1 = 0
      then A_Bcond (fld w 0 4) (sext 21 (push_bit 2 (ucast (fld w 5 19))))
      else if fld w 25 6 = 0b011010
      then A_CB (fld w 24 1 = 1) (fld w 31 1 = 1) (fld w 0 5) (sext 21 (push_bit 2 (ucast (fld w 5 19))))
      else if fld w 25 6 = 0b011011
      then A_TB (fld w 24 1 = 1) (push_bit 5 (fld w 31 1) OR fld w 19 5) (fld w 0 5)
             (sext 16 (push_bit 2 (ucast (fld w 5 14))))
      else if w = 0xD503201F then A_NOP
      else A_other w)"

section \<open>Machine states\<close>

text \<open>Register 31 is the zero register in most operands and the stack pointer in some.\<close>

record arm_state =
  a_reg :: "u32 \<Rightarrow> u64"
  a_sp :: u64
  a_pc :: addr
  a_n :: bool
  a_z :: bool
  a_c :: bool
  a_v :: bool
  a_mem :: "addr \<Rightarrow> u8"

definition get_x :: "u32 \<Rightarrow> arm_state \<Rightarrow> u64" where
  "get_x r s = (if r = 31 then 0 else a_reg s r)"

definition set_x :: "u32 \<Rightarrow> u64 \<Rightarrow> arm_state \<Rightarrow> arm_state" where
  "set_x r v s = (if r = 31 then s else s\<lparr>a_reg := (a_reg s)(r := v)\<rparr>)"

definition get_x_sp :: "u32 \<Rightarrow> arm_state \<Rightarrow> u64" where
  "get_x_sp r s = (if r = 31 then a_sp s else a_reg s r)"

definition set_x_sp :: "u32 \<Rightarrow> u64 \<Rightarrow> arm_state \<Rightarrow> arm_state" where
  "set_x_sp r v s = (if r = 31 then s\<lparr>a_sp := v\<rparr> else s\<lparr>a_reg := (a_reg s)(r := v)\<rparr>)"

definition mem_bytes :: "arm_state \<Rightarrow> addr \<Rightarrow> nat \<Rightarrow> u8 list" where
  "mem_bytes s a n = map (\<lambda>i. a_mem s (a + of_nat i)) [0..<n]"

definition load32 :: "arm_state \<Rightarrow> addr \<Rightarrow> u32" where
  "load32 s a = le_word (mem_bytes s a 4)"

definition load64 :: "arm_state \<Rightarrow> addr \<Rightarrow> u64" where
  "load64 s a = le_word (mem_bytes s a 8)"

definition cond_holds :: "u32 \<Rightarrow> arm_state \<Rightarrow> bool" where
  "cond_holds cond s =
     (let k = drop_bit 1 cond;
          base = (if k = 0 then a_z s else if k = 1 then a_c s else if k = 2 then a_n s else if k = 3 then a_v s
                  else if k = 4 then a_c s \<and> \<not> a_z s else if k = 5 then a_n s = a_v s
                  else if k = 6 then a_n s = a_v s \<and> \<not> a_z s else True)
      in if bit cond 0 \<and> cond \<noteq> 15 then \<not> base else base)"

definition goto :: "addr \<Rightarrow> arm_state \<Rightarrow> arm_state" where
  "goto a s = s\<lparr>a_pc := a\<rparr>"

definition next_pc :: "arm_state \<Rightarrow> arm_state" where
  "next_pc s = goto (a_pc s + 4) s"

definition branch_if :: "bool \<Rightarrow> u64 \<Rightarrow> arm_state \<Rightarrow> arm_state" where
  "branch_if c off s = (if c then goto (a_pc s + off) s else next_pc s)"

fun arm_exec :: "arm_insn \<Rightarrow> arm_state \<Rightarrow> arm_state option" where
  "arm_exec (A_B off) s = Some (goto (a_pc s + off) s)"
| "arm_exec (A_BL off) s = Some (goto (a_pc s + off) (set_x 30 (a_pc s + 4) s))"
| "arm_exec (A_BR n) s = Some (goto (get_x n s) s)"
| "arm_exec (A_BLR n) s = Some (goto (get_x n s) (set_x 30 (a_pc s + 4) s))"
| "arm_exec (A_RET n) s = Some (goto (get_x n s) s)"
| "arm_exec (A_ADR d off) s = Some (next_pc (set_x d (a_pc s + off) s))"
| "arm_exec (A_ADRP d off) s = Some (next_pc (set_x d (push_bit 12 (drop_bit 12 (a_pc s)) + off) s))"
| "arm_exec (A_ADDI d n imm) s = Some (next_pc (set_x_sp d (get_x_sp n s + imm) s))"
| "arm_exec (A_MOVZ d imm sh) s = Some (next_pc (set_x d (push_bit sh imm) s))"
| "arm_exec (A_MOVK d imm sh) s =
     Some (next_pc (set_x d ((get_x d s AND NOT (push_bit sh (mask 16))) OR push_bit sh imm) s))"
| "arm_exec (A_LDR_lit t off) s = Some (next_pc (set_x t (load64 s (a_pc s + off)) s))"
| "arm_exec (A_LDRW_lit t off) s = Some (next_pc (set_x t (ucast (load32 s (a_pc s + off))) s))"
| "arm_exec (A_LDR t n off) s = Some (next_pc (set_x t (load64 s (get_x_sp n s + off)) s))"
| "arm_exec (A_Bcond cond off) s = Some (branch_if (cond_holds cond s) off s)"
| "arm_exec (A_CB nz sixty_four t off) s =
     (let v = (if sixty_four then get_x t s else take_bit 32 (get_x t s))
      in Some (branch_if ((v \<noteq> 0) = nz) off s))"
| "arm_exec (A_TB nz k t off) s = Some (branch_if (bit (get_x t s) (unat k) = nz) off s)"
| "arm_exec A_NOP s = Some (next_pc s)"
| "arm_exec (A_other w) s = None"

definition arm_step :: "arm_state \<Rightarrow> arm_state option" where
  "arm_step s = arm_exec (arm_decode (load32 s (a_pc s))) s"

primrec arm_run :: "nat \<Rightarrow> arm_state \<Rightarrow> arm_state option" where
  "arm_run 0 s = Some s"
| "arm_run (Suc n) s = (case arm_step s of None \<Rightarrow> None | Some s' \<Rightarrow> arm_run n s')"

section \<open>Code in memory\<close>

definition code_at :: "arm_state \<Rightarrow> addr \<Rightarrow> u8 list \<Rightarrow> bool" where
  "code_at s a bs \<longleftrightarrow> (\<forall>i < length bs. a_mem s (a + of_nat i) = bs ! i)"

lemma code_at_append: "code_at s a (xs @ ys) \<longleftrightarrow> code_at s a xs \<and> code_at s (a + of_nat (length xs)) ys"
proof
  assume all: "code_at s a (xs @ ys)"
  have "a_mem s (a + of_nat (length xs) + of_nat i) = ys ! i" if "i < length ys" for i
    using all that unfolding code_at_def
    by (metis add.assoc length_append nat_add_left_cancel_less nth_append_length_plus of_nat_add)
  then show "code_at s a xs \<and> code_at s (a + of_nat (length xs)) ys"
    using all by (auto simp: code_at_def nth_append)
next
  assume parts: "code_at s a xs \<and> code_at s (a + of_nat (length xs)) ys"
  show "code_at s a (xs @ ys)"
    unfolding code_at_def
  proof (intro allI impI)
    fix i assume i: "i < length (xs @ ys)"
    show "a_mem s (a + of_nat i) = (xs @ ys) ! i"
    proof (cases "i < length xs")
      case True
      then show ?thesis using parts by (simp add: code_at_def nth_append)
    next
      case False
      then have e: "a + of_nat (length xs) + of_nat (i - length xs) = a + of_nat i" by (simp add: of_nat_diff)
      have lt: "i - length xs < length ys" using False i by simp
      have "a_mem s (a + of_nat (length xs) + of_nat (i - length xs)) = ys ! (i - length xs)"
        using parts lt unfolding code_at_def by blast
      then show ?thesis using False unfolding e by (simp add: nth_append)
    qed
  qed
qed

lemma mem_bytes_code: "code_at s a bs \<Longrightarrow> length bs = n \<Longrightarrow> mem_bytes s a n = bs"
  by (rule nth_equalityI) (auto simp: mem_bytes_def code_at_def)

lemma load32_code: "code_at s a (le_bytes 4 w) \<Longrightarrow> load32 s a = w"
  by (simp add: load32_def mem_bytes_code le_word_le_bytes)

lemma load64_code: "code_at s a (le_bytes 8 w) \<Longrightarrow> load64 s a = w"
  by (simp add: load64_def mem_bytes_code le_word_le_bytes)

text \<open>Steps keep the memory, so code stays where it is.\<close>

lemma goto_simps [simp]:
  "a_mem (goto a s) = a_mem s" "a_pc (goto a s) = a" "get_x r (goto a s) = get_x r s" "get_x_sp r (goto a s) = get_x_sp r s"
  "a_mem (next_pc s) = a_mem s" "a_pc (next_pc s) = a_pc s + 4" "get_x r (next_pc s) = get_x r s"
  "get_x_sp r (next_pc s) = get_x_sp r s"
  by (simp_all add: goto_def next_pc_def get_x_def get_x_sp_def)

lemma set_x_simps [simp]:
  "a_mem (set_x r v s) = a_mem s" "a_pc (set_x r v s) = a_pc s"
  "get_x q (set_x r v s) = (if q = r \<and> r \<noteq> 31 then v else get_x q s)"
  "a_mem (set_x_sp r v s) = a_mem s" "a_pc (set_x_sp r v s) = a_pc s"
  by (auto simp: set_x_def set_x_sp_def get_x_def)

lemma code_at_steps [simp]:
  "code_at (goto a' s) a bs = code_at s a bs" "code_at (next_pc s) a bs = code_at s a bs"
  "code_at (set_x r v s) a bs = code_at s a bs" "code_at (set_x_sp r v s) a bs = code_at s a bs"
  by (simp_all add: code_at_def)

lemma load_steps [simp]:
  "load64 (goto a' s) a = load64 s a" "load64 (next_pc s) a = load64 s a" "load64 (set_x r v s) a = load64 s a"
  "load32 (goto a' s) a = load32 s a" "load32 (next_pc s) a = load32 s a" "load32 (set_x r v s) a = load32 s a"
  by (simp_all add: load64_def load32_def mem_bytes_def)

lemma arm_step_code:
  "code_at s (a_pc s) (le_bytes 4 w) \<Longrightarrow> arm_step s = arm_exec (arm_decode w) s"
  by (simp add: arm_step_def load32_code)

end
