(* ===== verification/Arm64Encode.thy ===== *)
theory Arm64Encode
  imports Arm64Assembler Arm64Isa
begin

text \<open>
  What the words that the assembler emits mean: each encoder composed with the decoder of \<open>Arm64Isa\<close>
  gives the instruction with the operands that the assembler was called with. The proofs distribute
  the field reads over the fields that were put together (\<open>enc_simps\<close>).
\<close>

named_theorems enc_simps \<open>reading the fields of an assembled word\<close>

section \<open>Fields of assembled words\<close>

lemma fld_numeral [enc_simps]: "fld (numeral k) lo n = take_bit n (drop_bit lo (numeral k))"
  by (simp add: fld_def)

lemma fld_zero [enc_simps]: "fld 0 lo n = 0"
  by (simp add: fld_def)

lemmas [enc_simps] = fld_or fld_LeftShift_same fld_LeftShift_disjoint

text \<open>A part of a field.\<close>

lemma fld_LeftShift_low [enc_simps]:
  "m \<le> n \<Longrightarrow> c + n \<le> 32 \<Longrightarrow> fld (LeftShift x n c) c m = take_bit m x"
  by (rule bit_word_eqI) (auto simp: field_bit_simps bit_simps)

lemma ucast_LeftShift [enc_simps]:
  "(ucast (LeftShift (x :: u64) n c) :: u32) = LeftShift (ucast x) n c"
  by (rule bit_word_eqI) (auto simp: field_bit_simps bit_simps)

lemma ucast_take [enc_simps]: "n \<le> 32 \<Longrightarrow> (ucast (take_bit n (ucast x :: u32)) :: u64) = take_bit n x"
  by (rule bit_word_eqI) (auto simp: bit_simps)

lemma take_bit_register: "c < 32 \<Longrightarrow> take_bit 5 c = (c :: u32)"
proof -
  assume "c < 32"
  then have "unat c < 2 ^ 5" by (simp add: word_less_nat_alt)
  then have "unat (take_bit 5 c) = unat c" unfolding unsigned_take_bit_eq by (rule take_bit_nat_eq_self)
  then show ?thesis by (simp only: word_unat_eq_iff)
qed

lemma register_field: "c < 32 \<Longrightarrow> push_bit k c = LeftShift (c :: u32) 5 k"
  using take_bit_register [of c] unfolding LeftShift_def push_bit_1_minus_1 by (simp add: take_bit_eq_mask)

lemma reg_enc:
  assumes "c < 32"
  shows "Rd (X c) = LeftShift c 5 0" "Rt (X c) = LeftShift c 5 0" "Rt2 (X c) = LeftShift c 5 10"
    "Rn (X c) = LeftShift c 5 5" "Rm (X c) = LeftShift c 5 16" "take_bit 5 c = c"
  unfolding reg_field_defs field_shift_defs register_simps
  using assms by (simp_all only: register_field take_bit_register)

section \<open>Signed immediates\<close>

text \<open>A 64-bit number that fits into \<open>n\<close> bits as a signed number.\<close>

definition fits_signed :: "nat \<Rightarrow> u64 \<Rightarrow> bool" where
  "fits_signed n w \<longleftrightarrow> - (2 ^ (n - 1)) \<le> sint w \<and> sint w < 2 ^ (n - 1)"

lemma fits_signed_bits:
  assumes "fits_signed n w" and "0 < n" and "n \<le> 64"
  shows "signed_take_bit (n - 1) w = w"
proof -
  have "signed_take_bit (n - 1) (sint w) = sint w"
    using assms(1) by (simp add: fits_signed_def signed_take_bit_int_eq_self)
  then have "bit w (min k (n - 1)) = bit w k" if "k < 64" for k
    using that assms(2,3) bit_signed_take_bit_iff [of "n - 1" "sint w" k]
    by (simp add: bit_sint_iff min_def split: if_splits)
  then show ?thesis
    by (intro bit_word_eqI) (simp add: bit_signed_take_bit_iff min.commute)
qed

lemma fits_signed_bit:
  "\<lbrakk>fits_signed n w; 0 < n; n \<le> 64; k < 64\<rbrakk> \<Longrightarrow> bit w k = bit w (min k (n - 1))"
  using fits_signed_bits [of n w] bit_signed_take_bit_iff [of "n - 1" w k] by (simp add: min.commute)

lemma sext_branch:
  assumes fits: "fits_signed (n + 2) off" and al: "take_bit 2 off = 0" and n: "0 < n" "n \<le> 62"
  shows "sext (n + 2) (push_bit 2 (take_bit n (signed_drop_bit 2 off))) = off"
proof (rule bit_word_eqI)
  fix k assume k: "k < LENGTH(64)"
  have low: "\<not> bit off j" if "j < 2" for j
    using al bit_take_bit_iff [of 2 off j] that by simp
  have "bit (push_bit 2 (take_bit n (signed_drop_bit 2 off))) (min k (n + 1)) = bit off (min k (n + 1))"
  proof (cases "k < 2")
    case True
    then show ?thesis using low n by (auto simp: bit_simps min_def)
  next
    case False
    define j where "j = min k (n + 1) - 2"
    have j: "min k (n + 1) = 2 + j" "j < n" "j < 62" using False n by (simp_all add: j_def)
    then show ?thesis by (simp add: bit_simps)
  qed
  then show "bit (sext (n + 2) (push_bit 2 (take_bit n (signed_drop_bit 2 off)))) k = bit off k"
    using fits_signed_bit [OF fits, of k] k n by (simp add: sext_def bit_signed_take_bit_iff min.commute)
qed

lemma sext_page:
  assumes fits: "fits_signed 33 off" and al: "take_bit 12 off = 0"
  shows "push_bit 12 (sext 21 (take_bit 21 (signed_drop_bit 12 off))) = off"
proof (rule bit_word_eqI)
  fix k assume k: "k < LENGTH(64)"
  have low: "\<not> bit off j" if "j < 12" for j
    using al bit_take_bit_iff [of 12 off j] that by simp
  show "bit (push_bit 12 (sext 21 (take_bit 21 (signed_drop_bit 12 off)))) k = bit off k"
  proof (cases "k < 12")
    case True
    then show ?thesis using low by (simp add: bit_simps)
  next
    case False
    define j where "j = min (k - 12) 20"
    have j: "min k 32 = 12 + j" "j < 21" "j < 52" using False by (simp_all add: j_def)
    have "bit (push_bit 12 (sext 21 (take_bit 21 (signed_drop_bit 12 off)))) k =
        bit (take_bit 21 (signed_drop_bit 12 off)) j"
      using False k by (auto simp: sext_def bit_push_bit_iff bit_signed_take_bit_iff j_def min.commute)
    also have "\<dots> = bit off (12 + j)" using j(2,3) by (simp add: bit_simps)
    finally show ?thesis using fits_signed_bit [OF fits, of k] k j(1) by simp
  qed
qed

section \<open>Instructions\<close>

lemma op_values:
  "BR_op = 0xD61F0000" "BLR_op = 0xD63F0000" "LDR_x_literal = 0x58000000" "ADD_x_imm = 0x91000000"
  "B_op = 0x14000000" "ADRP_op = 0x90000000" "sf (X c) = 0x80000000"
  "LoadStoreUnsignedOffsetFixed OR LoadStoreOp LDR_x = 0xF9400000"
  "MoveWideImmediateFixed OR MOVZ_op = 0x52800000" "MoveWideImmediateFixed OR MOVK_op = 0x72800000"
  by (simp_all add: BR_op_def BLR_op_def UnconditionalBranchToRegisterFixed_def LDR_x_literal_def
      LoadRegLiteralSub_def LoadRegLiteralFixed_def ADD_x_imm_def AddSubImmediateOpSub_def AddSubImmediateFixed_def
      B_op_def UnconditionalBranchFixed_def ADRP_op_def PCRelAddressingFixed_def sf_def LeftShift_def
      LoadStoreUnsignedOffsetFixed_def LoadStoreOp_def LoadStoreOpSub_def MoveWideImmediateFixed_def
      MOVZ_op_def MOVK_op_def)

lemma arm_decode_br: "c < 32 \<Longrightarrow> arm_decode (BR_op OR Rn (X c)) = A_BR c"
  by (simp add: arm_decode_def enc_simps reg_enc op_values)

lemma arm_decode_blr: "c < 32 \<Longrightarrow> arm_decode (BLR_op OR Rn (X c)) = A_BLR c"
  by (simp add: arm_decode_def enc_simps reg_enc op_values)

lemma arm_decode_ldr_literal:
  "c < 32 \<Longrightarrow> arm_decode (LDR_x_literal OR LeftShift k 19 5 OR Rt (X c)) =
     A_LDR_lit c (sext 21 (push_bit 2 (ucast (take_bit 19 k))))"
  by (simp add: arm_decode_def enc_simps reg_enc op_values)

lemma arm_decode_add:
  "\<lbrakk>c < 32; d < 32\<rbrakk> \<Longrightarrow>
     arm_decode (ADD_x_imm OR Rd (X c) OR Rn (X d) OR ucast (LeftShift imm 12 10)) = A_ADDI c d (take_bit 12 imm)"
  by (simp add: arm_decode_def enc_simps reg_enc op_values)

lemma arm_decode_ldr:
  "\<lbrakk>c < 32; d < 32\<rbrakk> \<Longrightarrow>
     arm_decode (0xF9400000 OR ucast (LeftShift imm 12 10) OR Rn (X d) OR Rt (X c)) = A_LDR c d (push_bit 3 (take_bit 12 imm))"
  by (simp add: arm_decode_def enc_simps reg_enc op_values)

lemma arm_decode_movz:
  "\<lbrakk>c < 32\<rbrakk> \<Longrightarrow>
     arm_decode (0xd2800000 OR LeftShift h 2 21 OR LeftShift imm 16 5 OR Rd (X c)) = A_MOVZ c (ucast (take_bit 16 imm)) (16 * unat (take_bit 2 h))"
  by (simp add: arm_decode_def enc_simps reg_enc op_values)

lemma arm_decode_movk:
  "\<lbrakk>c < 32\<rbrakk> \<Longrightarrow>
     arm_decode (0xf2800000 OR LeftShift h 2 21 OR LeftShift imm 16 5 OR Rd (X c)) = A_MOVK c (ucast (take_bit 16 imm)) (16 * unat (take_bit 2 h))"
  by (simp add: arm_decode_def enc_simps reg_enc op_values)

lemma b_word_fields: "b_word off = B_op OR LeftShift (ucast (signed_drop_bit 2 off)) 26 0"
  unfolding b_word_def by (intro arg_cong [of _ _ "(OR) B_op"] bit_word_eqI) (auto simp: field_bit_simps bit_simps)

lemma arm_decode_b: "arm_decode (b_word off) = A_B (sext 28 (push_bit 2 (take_bit 26 (signed_drop_bit 2 off))))"
  by (simp add: b_word_fields arm_decode_def enc_simps op_values)

lemma adrp_word_fields:
  "adrp_word rd imm = ADRP_op OR Rd rd OR LeftShift (ucast (signed_drop_bit 12 imm)) 2 29 OR
     LeftShift (ucast (drop_bit 2 (signed_drop_bit 12 imm))) 19 5"
  unfolding adrp_word_def
  by (intro arg_cong2 [of _ _ _ _ "(OR)"] refl bit_word_eqI) (auto simp: field_bit_simps bit_simps)

lemma immhi_immlo:
  "push_bit 2 (take_bit 19 (drop_bit 2 x)) OR take_bit 2 x = take_bit 21 (x :: u64)"
proof (rule bit_word_eqI)
  fix k assume "k < LENGTH(64)"
  show "bit (push_bit 2 (take_bit 19 (drop_bit 2 x)) OR take_bit 2 x) k = bit (take_bit 21 x) k"
  proof (cases "k < 2")
    case False
    then obtain j where "k = 2 + j" using le_Suc_ex [of 2 k] by auto
    then show ?thesis by (auto simp: bit_simps dest: bit_imp_le_length)
  qed (simp add: bit_simps)
qed

lemma arm_decode_adrp:
  "c < 32 \<Longrightarrow> arm_decode (adrp_word (X c) imm) = A_ADRP c (push_bit 12 (sext 21 (take_bit 21 (signed_drop_bit 12 imm))))"
  by (simp add: adrp_word_fields arm_decode_def enc_simps reg_enc op_values Let_def immhi_immlo)

end
