(* ===== verification/Arm64Trampoline.thy ===== *)
theory Arm64Trampoline
  imports Arm64Encode
begin

text \<open>
  Code generation for ARM64 branches: \<^verbatim>\<open>CodeGen::LiteralLdrBranch\<close> (\<^verbatim>\<open>codegen-arm64.cc\<close>) and the
  trampolines of \<^verbatim>\<open>trampoline-arm64.cc\<close>. The properties run the emitted bytes on the machine of
  \<open>Arm64Isa\<close>: a trampoline at its source address leads to its target and changes no register but
  the scratch register.
\<close>

section \<open>Code generation\<close>

definition LiteralLdrBranch :: "u64 \<Rightarrow> Assembler \<Rightarrow> asm_fault + Assembler" where
  "LiteralLdrBranch address a =
     bindE (Ldr TMP_REG_0 new_PseudoLabel a) (\<lambda>(l, a).
     bindE (PseudoBind l (br TMP_REG_0 a)) (\<lambda>(l, a).
       Inr (EmitInt64 address a)))"

text \<open>\<^verbatim>\<open>llabs ((int64_t)d)\<close>.\<close>

definition llabs :: "u64 \<Rightarrow> u64" where
  "llabs d = (if sint d < 0 then - d else d)"

definition adrp_range :: u64 where
  "adrp_range = push_bit (2 + 19 + 12 - 1) 1"

text \<open>The buffer that \<^verbatim>\<open>Copy\<close> returns is the list of bytes.\<close>

definition GenerateNormalTrampolineBuffer :: "addr \<Rightarrow> addr \<Rightarrow> asm_fault + u8 list" where
  "GenerateNormalTrampolineBuffer from to =
     bindE (if llabs (from - to) < adrp_range
            then bindE (AdrpAdd TMP_REG_0 from to (new_Assembler from)) (\<lambda>a. Inr (br TMP_REG_0 a))
            else LiteralLdrBranch to (new_Assembler from)) (\<lambda>a. Inr (asm_buffer a))"

section \<open>What the code generator emits\<close>

lemma Emit_simps [simp]:
  "asm_buffer (Emit w a) = asm_buffer a @ le_bytes 4 w" "data_labels (Emit w a) = data_labels a"
  "asm_buffer (EmitInt64 v a) = asm_buffer a @ le_bytes 8 v" "data_labels (EmitInt64 v a) = data_labels a"
  by (simp_all add: Emit_def EmitInt64_def)

lemma buf_LoadInst_at [simp]:
  "buf_LoadInst (int (length xs)) (xs @ le_bytes 4 w @ ys) = Inr w"
  by (simp add: buf_LoadInst_def le_word_le_bytes)

lemma buf_FixBindLabel_at [simp]:
  "buf_FixBindLabel (int (length xs)) v (xs @ le_bytes 4 w @ ys) = Inr (xs @ le_bytes 4 v @ ys)"
  by (simp add: buf_FixBindLabel_def)

text \<open>The word of \<^verbatim>\<open>ldr xc, literal\<close> for a literal at a byte offset.\<close>

definition ldr_word :: "u32 \<Rightarrow> int \<Rightarrow> u32" where
  "ldr_word c off = LDR_x_literal OR LeftShift (signed_drop_bit 2 (word_of_int off :: u32)) 19 5 OR Rt (X c)"

lemma field_inside:
  assumes "LeftShift (- 1) b c AND m = (LeftShift (- 1) b c :: u32)"
  shows "LeftShift a b c AND m = LeftShift a b c"
proof -
  have e: "LeftShift a b c AND LeftShift (- 1) b c = LeftShift a b c"
    by (rule bit_word_eqI) (auto simp: field_bit_simps bit_simps)
  then have "LeftShift a b c AND m = LeftShift a b c AND (LeftShift (- 1) b c AND m)"
    by (simp add: and.assoc [symmetric])
  then show ?thesis using e assms by simp
qed

lemma fix_ldr_word:
  assumes "c < 32"
  shows "fix_ldr off (LDR_x_literal OR Rt (X c)) = ldr_word c off"
proof -
  have "LeftShift c 5 0 AND 0xFF00001F = LeftShift c 5 0" by (rule field_inside) (simp add: LeftShift_def)
  then show ?thesis
    by (simp add: fix_ldr_def ldr_word_def reg_enc [OF assms] op_values bit.conj_disj_distrib2) (simp add: ac_simps)
qed

lemma ldr_literal_X: "c < 32 \<Longrightarrow> ldr_literal (X c) 0 a = Inr (Emit (LDR_x_literal OR Rt (X c)) a)"
  by (simp add: ldr_literal_def EmitLoadRegLiteral_def LeftShift_def)

lemma literal_offset:
  assumes "0 \<le> off" and "off < 2 ^ 20" and "4 dvd off"
  shows "sext 21 (push_bit 2 (ucast (take_bit 19 (signed_drop_bit 2 (word_of_int off :: u32))))) = (word_of_int off :: u64)"
proof -
  obtain q where off: "off = 4 * q" using assms(3) by (auto elim: dvdE)
  then have q: "0 \<le> q" "q < 2 ^ 18" using assms by simp_all
  have s32: "sint (word_of_int off :: u32) = off"
    using assms by (simp add: sint_sbintrunc' signed_take_bit_int_eq_self)
  have sq: "sint (signed_drop_bit 2 (word_of_int off :: u32)) = q"
    unfolding sint_signed_drop_bit_eq s32 by (simp add: off drop_bit_eq_div)
  have 1: "signed_drop_bit 2 (word_of_int off :: u32) = word_of_int q"
    unfolding sq [symmetric] by simp
  have uq: "uint (ucast (take_bit 19 (word_of_int q :: u32)) :: u64) = q"
    using q by (simp add: unsigned_ucast_eq unsigned_take_bit_eq unsigned_of_int take_bit_int_eq_self)
  have 2: "(ucast (take_bit 19 (word_of_int q :: u32)) :: u64) = word_of_int q"
    by (subst uq [symmetric]) simp
  have 3: "push_bit 2 (word_of_int q :: u64) = word_of_int off" by (simp add: off push_bit_eq_mult)
  have "sint (word_of_int off :: u64) = off"
    using assms by (simp add: sint_sbintrunc' signed_take_bit_int_eq_self)
  then have "fits_signed 21 (word_of_int off)" using assms by (simp add: fits_signed_def)
  then show ?thesis unfolding 1 2 3 sext_def by (rule fits_signed_bits) simp_all
qed

lemma arm_decode_ldr_word:
  "\<lbrakk>c < 32; 0 \<le> off; off < 2 ^ 20; 4 dvd off\<rbrakk> \<Longrightarrow> arm_decode (ldr_word c off) = A_LDR_lit c (word_of_int off)"
  by (simp add: ldr_word_def arm_decode_ldr_literal literal_offset)

lemma LiteralLdrBranch_emits:
  "\<exists>a'. LiteralLdrBranch address a = Inr a' \<and> data_labels a' = data_labels a \<and>
     asm_buffer a' = asm_buffer a @ le_bytes 4 (ldr_word 17 8) @ le_bytes 4 (BR_op OR Rn (X 17)) @ le_bytes 8 address"
proof -
  have "LiteralLdrBranch address a = Inr a'" if "a' = a\<lparr>asm_buffer :=
      asm_buffer a @ le_bytes 4 (ldr_word 17 8) @ le_bytes 4 (BR_op OR Rn (X 17)) @ le_bytes 8 address\<rparr>" for a'
    by (simp add: LiteralLdrBranch_def Ldr_def TMP_REG_0_def is_bound_def new_PseudoLabel_def ldr_literal_X
        pseudo_link_to_def pc_offset_def PseudoBind_def bind_to_def has_confused_instructions_def
        link_confused_instructions_def br_def pos_def fix_ldr_word that EmitInt64_def)
       (simp add: Emit_def)
  then show ?thesis by simp
qed


section \<open>Running a trampoline\<close>

text \<open>Two states that agree on everything but the program counter and the scratch register.\<close>

definition same_but_tmp :: "arm_state \<Rightarrow> arm_state \<Rightarrow> bool" where
  "same_but_tmp s s' \<longleftrightarrow> (\<exists>v p. s' = goto p (set_x 17 v s))"

lemma run_ldr_br:
  assumes code: "code_at s (a_pc s) (le_bytes 4 (ldr_word 17 off) @ le_bytes 4 (BR_op OR Rn (X 17)))"
    and data: "code_at s (a_pc s + word_of_int off) (le_bytes 8 to)"
    and off: "0 \<le> off" "off < 2 ^ 20" "4 dvd off"
  shows "arm_run 2 s = Some (goto to (set_x 17 to s))"
proof -
  have "arm_step s = arm_exec (arm_decode (ldr_word 17 off)) s"
    by (rule arm_step_code) (use code in \<open>simp add: code_at_append\<close>)
  then have 1: "arm_step s = Some (next_pc (set_x 17 to s))"
    using off by (simp add: arm_decode_ldr_word load64_code [OF data])
  have "arm_step (next_pc (set_x 17 to s)) = arm_exec (arm_decode (BR_op OR Rn (X 17))) (next_pc (set_x 17 to s))"
    by (rule arm_step_code) (use code in \<open>simp add: code_at_append\<close>)
  then have 2: "arm_step (next_pc (set_x 17 to s)) = Some (goto to (next_pc (set_x 17 to s)))"
    by (simp add: arm_decode_br)
  show ?thesis by (simp add: numeral_2_eq_2 1 2) (simp add: goto_def next_pc_def)
qed

lemma LiteralLdrBranch_runs:
  assumes "LiteralLdrBranch to (new_Assembler from) = Inr a" and "code_at s from (asm_buffer a)" and "a_pc s = from"
  shows "arm_run 2 s = Some (goto to (set_x 17 to s))"
proof -
  have buf: "asm_buffer a = le_bytes 4 (ldr_word 17 8) @ le_bytes 4 (BR_op OR Rn (X 17)) @ le_bytes 8 to"
    using LiteralLdrBranch_emits [of to "new_Assembler from"] assms(1) by (auto simp: new_Assembler_def)
  show ?thesis
    using assms(2,3) by (intro run_ldr_br [of s 8]) (simp_all add: buf code_at_append add.commute)
qed

definition page_distance :: "addr \<Rightarrow> addr \<Rightarrow> u64" where
  "page_distance from to = ALIGN_FLOOR to 0x1000 - ALIGN_FLOOR from 0x1000"

lemma AdrpAdd_emits:
  "c < 32 \<Longrightarrow> \<exists>a'. AdrpAdd (X c) from to a = Inr a' \<and> data_labels a' = data_labels a \<and> asm_buffer a' = asm_buffer a @
     le_bytes 4 (adrp_word (X c) (page_distance from to)) @
     le_bytes 4 (ADD_x_imm OR Rd (X c) OR Rn (X c) OR ucast (LeftShift (to mod 0x1000) 12 10))"
  by (simp add: AdrpAdd_def adrp_def add_def AddSubImmediate_def IsImmediate_def Operand_imm_def reg_Is_def
      page_distance_def)

lemma ALIGN_page: "ALIGN_FLOOR a 0x1000 = push_bit 12 (drop_bit 12 a)"
  using ALIGN_FLOOR_pow2 [of a 12] by simp

lemma page_split: "push_bit 12 (drop_bit 12 a) + take_bit 12 a = (a :: addr)"
  using ALIGN_FLOOR_add_mod [of a 12] ALIGN_page [of a] by simp

lemma page_distance_aligned: "take_bit 12 (page_distance from to) = 0"
proof -
  have "page_distance from to = push_bit 12 (drop_bit 12 to - drop_bit 12 from)"
    unfolding page_distance_def ALIGN_page push_bit_eq_mult by (simp add: algebra_simps)
  then show ?thesis by (simp add: take_bit_push_bit)
qed

text \<open>Where the three instructions lead: the page distance goes through its 21-bit field.\<close>

definition adrp_target :: "addr \<Rightarrow> addr \<Rightarrow> addr" where
  "adrp_target from to =
     push_bit 12 (drop_bit 12 from) +
     push_bit 12 (sext 21 (take_bit 21 (signed_drop_bit 12 (page_distance from to)))) + take_bit 12 to"

lemma adrp_target_fits:
  assumes "fits_signed 33 (page_distance from to)"
  shows "adrp_target from to = to"
  using page_split [of to] sext_page [OF assms page_distance_aligned]
  by (simp add: adrp_target_def page_distance_def ALIGN_page)

lemma run_adrp_add:
  assumes code: "code_at s from (le_bytes 4 (adrp_word (X 17) (page_distance from to)) @
      le_bytes 4 (ADD_x_imm OR Rd (X 17) OR Rn (X 17) OR ucast (LeftShift (to mod 0x1000) 12 10)) @
      le_bytes 4 (BR_op OR Rn (X 17)))"
    and pc: "a_pc s = from"
  shows "arm_run 3 s = Some (goto (adrp_target from to) (set_x 17 (adrp_target from to) s))"
proof -
  let ?t = "adrp_target from to"
  let ?p = "push_bit 12 (drop_bit 12 from) +
     push_bit 12 (sext 21 (take_bit 21 (signed_drop_bit 12 (page_distance from to))))"
  have "arm_step s = arm_exec (arm_decode (adrp_word (X 17) (page_distance from to))) s"
    by (rule arm_step_code) (use code pc in \<open>simp add: code_at_append\<close>)
  then have 1: "arm_step s = Some (next_pc (set_x 17 ?p s))"
    using pc by (simp add: arm_decode_adrp)
  let ?s1 = "next_pc (set_x 17 ?p s)"
  have "to mod 0x1000 = take_bit 12 to" by (simp add: take_bit_eq_mod)
  then have "take_bit 12 (to mod 0x1000) = take_bit 12 to" by simp
  moreover have "arm_step ?s1 =
      arm_exec (arm_decode (ADD_x_imm OR Rd (X 17) OR Rn (X 17) OR ucast (LeftShift (to mod 0x1000) 12 10))) ?s1"
    by (rule arm_step_code) (use code pc in \<open>simp add: code_at_append\<close>)
  ultimately have 2: "arm_step ?s1 = Some (next_pc (set_x 17 ?t ?s1))"
    by (simp add: arm_decode_add get_x_sp_def set_x_sp_def set_x_def adrp_target_def)
       (simp add: next_pc_def goto_def)
  let ?s2 = "next_pc (set_x 17 ?t ?s1)"
  have "arm_step ?s2 = arm_exec (arm_decode (BR_op OR Rn (X 17))) ?s2"
    by (rule arm_step_code) (use code pc in \<open>simp add: code_at_append\<close>)
  then have 3: "arm_step ?s2 = Some (goto ?t (set_x 17 ?t s))"
    by (simp add: arm_decode_br) (simp add: goto_def next_pc_def set_x_def)
  show ?thesis by (simp add: numeral_3_eq_3 1 2 3)
qed

section \<open>The range of the page form\<close>

lemma sint_small: "- (2 ^ 63) \<le> k \<Longrightarrow> k < 2 ^ 63 \<Longrightarrow> sint (word_of_int k :: u64) = k"
  by (simp add: sint_sbintrunc' signed_take_bit_int_eq_self)

lemma uint_small: "0 \<le> k \<Longrightarrow> k < 2 ^ 64 \<Longrightarrow> uint (word_of_int k :: u64) = k"
  by (simp add: unsigned_of_int take_bit_int_eq_self)

lemma uint_llabs: "uint (llabs d) = \<bar>sint d\<bar>"
proof -
  have s: "- (2 ^ 63) \<le> sint d" "sint d < 2 ^ 63" using sint_range_size [of d] by (simp_all add: word_size)
  have "llabs d = word_of_int \<bar>sint d\<bar>" by (simp add: llabs_def)
  then show ?thesis using s uint_small [of "\<bar>sint d\<bar>"] by simp
qed

lemma llabs_bounds:
  assumes "llabs (from - to) < 2 ^ 32"
  shows "\<exists>k. to - from = word_of_int k \<and> - (2 ^ 32) < k \<and> k < 2 ^ 32"
proof -
  let ?d = "from - to"
  have m: "to - from = word_of_int (- sint ?d)" by simp
  have "\<bar>sint ?d\<bar> < 2 ^ 32"
    using assms unfolding word_less_def uint_llabs by simp
  then show ?thesis using m by (intro exI [of _ "- sint ?d"]) (auto simp: abs_less_iff)
qed

lemma page_distance_range:
  assumes "llabs (from - to) < adrp_range" and "page_distance from to \<noteq> 2 ^ 32"
  shows "fits_signed 33 (page_distance from to)"
proof -
  obtain k where k: "to - from = word_of_int k" "- (2 ^ 32) < k" "k < 2 ^ 32"
    using llabs_bounds [of "from" to] assms(1) by (auto simp: adrp_range_def)
  define n where "n = k - uint (take_bit 12 to) + uint (take_bit 12 from)"
  have low: "0 \<le> uint (take_bit 12 w)" "uint (take_bit 12 w) < 2 ^ 12" for w :: addr
    using take_bit_int_less_exp [of 12 "uint w"] by (simp_all add: unsigned_take_bit_eq)
  have pd: "page_distance from to = word_of_int n"
  proof -
    have "page_distance from to = (to - from) - take_bit 12 to + take_bit 12 from"
      unfolding page_distance_def ALIGN_page using page_split [of to] page_split [of "from"]
      by (simp add: algebra_simps)
    then show ?thesis by (simp add: n_def k(1))
  qed
  have b: "- (2 ^ 32) - 2 ^ 12 < n" "n < 2 ^ 32 + 2 ^ 12"
    using k(2,3) low [of to] low [of "from"] unfolding n_def by linarith+
  have "uint (take_bit 12 (word_of_int n :: u64)) = take_bit 12 n"
    by (simp add: unsigned_take_bit_eq unsigned_of_int)
  then have "take_bit 12 n = 0" using page_distance_aligned [of "from" to] pd by simp
  then obtain m where "n = 2 ^ 12 * m" by (auto simp: take_bit_eq_0_iff elim: dvdE)
  moreover have "n \<noteq> 2 ^ 32" using assms(2) pd by auto
  ultimately have "- (2 ^ 32) \<le> n" "n < 2 ^ 32" using b by simp_all
  moreover have "sint (page_distance from to) = n" unfolding pd using b by (intro sint_small) simp_all
  ultimately show ?thesis by (simp add: fits_signed_def)
qed


section \<open>Properties\<close>

lemma normal_trampoline_cases:
  obtains (near) bytes where "llabs (from - to) < adrp_range"
      "GenerateNormalTrampolineBuffer from to = Inr bytes"
      "bytes = le_bytes 4 (adrp_word (X 17) (page_distance from to)) @
         le_bytes 4 (ADD_x_imm OR Rd (X 17) OR Rn (X 17) OR ucast (LeftShift (to mod 0x1000) 12 10)) @
         le_bytes 4 (BR_op OR Rn (X 17))"
    | (far) a where "\<not> llabs (from - to) < adrp_range" "LiteralLdrBranch to (new_Assembler from) = Inr a"
      "GenerateNormalTrampolineBuffer from to = Inr (asm_buffer a)"
proof (cases "llabs (from - to) < adrp_range")
  case True
  obtain a where "AdrpAdd (X 17) from to (new_Assembler from) = Inr a" "asm_buffer a =
      le_bytes 4 (adrp_word (X 17) (page_distance from to)) @
      le_bytes 4 (ADD_x_imm OR Rd (X 17) OR Rn (X 17) OR ucast (LeftShift (to mod 0x1000) 12 10))"
    using AdrpAdd_emits [of 17 "from" to "new_Assembler from"] by (auto simp: new_Assembler_def)
  then show ?thesis
    using True by (intro near) (simp_all add: GenerateNormalTrampolineBuffer_def TMP_REG_0_def br_def)
next
  case False
  obtain a where "LiteralLdrBranch to (new_Assembler from) = Inr a"
    using LiteralLdrBranch_emits [of to "new_Assembler from"] by blast
  then show ?thesis using False by (intro far) (simp_all add: GenerateNormalTrampolineBuffer_def)
qed

lemma normal_trampoline_jumps:
  assumes "page_distance from to \<noteq> 2 ^ 32"
  shows "\<exists>bytes. GenerateNormalTrampolineBuffer from to = Inr bytes \<and> (length bytes = 12 \<or> length bytes = 16) \<and>
           (\<forall>s. a_pc s = from \<and> code_at s from bytes \<longrightarrow>
              (\<exists>n \<le> 3. arm_run n s = Some (goto to (set_x 17 to s))))"
proof (cases rule: normal_trampoline_cases [of "from" to])
  case (near bytes)
  have "adrp_target from to = to"
    using page_distance_range [OF near(1) assms] by (rule adrp_target_fits)
  then have "\<exists>n \<le> 3. arm_run n s = Some (goto to (set_x 17 to s))" if "a_pc s = from" "code_at s from bytes" for s
    using run_adrp_add [of s "from" to] that near(3) by auto
  then show ?thesis using near(2,3) by auto
next
  case (far a)
  have "length (asm_buffer a) = 16"
    using LiteralLdrBranch_emits [of to "new_Assembler from"] far(2) by (auto simp: new_Assembler_def)
  moreover have "\<exists>n \<le> 3. arm_run n s = Some (goto to (set_x 17 to s))"
    if "a_pc s = from" "code_at s from (asm_buffer a)" for s
    using LiteralLdrBranch_runs [OF far(2) that(2,1)] by (intro exI [of _ 2]) simp
  ultimately show ?thesis using far(3) by blast
qed

text \<open>
  At a page distance of exactly \<open>2 ^ 32\<close> the range test still admits the page form, but the
  distance does not fit the 21 signed bits of \<^verbatim>\<open>adrp\<close>: control goes to the address \<open>2 ^ 33\<close> below the target.
\<close>

lemma normal_trampoline_wraps:
  assumes near: "llabs (from - to) < adrp_range" and pd: "page_distance from to = 2 ^ 32"
    and gen: "GenerateNormalTrampolineBuffer from to = Inr bytes"
    and s: "a_pc s = from" "code_at s from bytes"
  shows "arm_run 3 s = Some (goto (to - 2 ^ 33) (set_x 17 (to - 2 ^ 33) s))"
proof -
  have bytes: "bytes = le_bytes 4 (adrp_word (X 17) (page_distance from to)) @
         le_bytes 4 (ADD_x_imm OR Rd (X 17) OR Rn (X 17) OR ucast (LeftShift (to mod 0x1000) 12 10)) @
         le_bytes 4 (BR_op OR Rn (X 17))"
    using near gen by (cases rule: normal_trampoline_cases [of "from" to]) auto
  have "push_bit 12 (sext 21 (take_bit 21 (signed_drop_bit 12 (page_distance from to)))) = - (2 ^ 32)"
    unfolding pd by code_simp
  moreover have "push_bit 12 (drop_bit 12 from) = push_bit 12 (drop_bit 12 to) - 2 ^ 32"
    using pd unfolding page_distance_def ALIGN_page by (simp add: algebra_simps)
  ultimately have "adrp_target from to = to - 2 ^ 33"
    using page_split [of to] by (simp add: adrp_target_def)
  then show ?thesis using run_adrp_add [of s "from" to] s bytes by simp
qed

text \<open>
  C8: the trampoline that replaces the first instructions of a hooked function works for every
  pair of addresses whose page distance is not exactly \<open>2 ^ 32\<close>: the generator returns, and on any machine state
  that has the bytes at \<open>from\<close>, control reaches \<open>to\<close> after two or three instructions with every
  register, flag and memory cell unchanged except the scratch register \<^verbatim>\<open>x17\<close>. At a page distance of exactly \<open>2 ^ 32\<close> the range test may
  still admit the page form, whose distance does not fit the 21 signed bits of \<^verbatim>\<open>adrp\<close>; then control goes to the address \<open>2 ^ 33\<close> below
  the target, and nowhere else.
\<close>

theorem normal_trampoline_lands:
  "\<exists>bytes. GenerateNormalTrampolineBuffer from to = Inr bytes \<and> (length bytes = 12 \<or> length bytes = 16) \<and>
     (\<forall>s. a_pc s = from \<and> code_at s from bytes \<longrightarrow>
        (let t = (if page_distance from to = 2 ^ 32 \<and> llabs (from - to) < adrp_range then to - 2 ^ 33 else to)
         in \<exists>n \<le> 3. arm_run n s = Some (goto t (set_x 17 t s))))"
proof (cases "page_distance from to = 2 ^ 32")
  case False
  then show ?thesis using normal_trampoline_jumps [of "from" to] by (simp add: Let_def)
next
  case True
  show ?thesis
  proof (cases rule: normal_trampoline_cases [of "from" to])
    case (near bytes)
    have "arm_run 3 s = Some (goto (to - 2 ^ 33) (set_x 17 (to - 2 ^ 33) s))" if "a_pc s = from" "code_at s from bytes" for s
      using near(1) True near(2) that by (rule normal_trampoline_wraps)
    then show ?thesis using near(2,3) True near(1) by (intro exI [of _ bytes]) (auto simp: Let_def)
  next
    case (far a)
    have "length (asm_buffer a) = 16"
      using LiteralLdrBranch_emits [of to "new_Assembler from"] far(2) by (auto simp: new_Assembler_def)
    moreover have "\<exists>n \<le> 3. arm_run n s = Some (goto to (set_x 17 to s))"
      if "a_pc s = from" "code_at s from (asm_buffer a)" for s
      using LiteralLdrBranch_runs [OF far(2) that(2,1)] by (intro exI [of _ 2]) simp
    ultimately show ?thesis using far(1,3) by (simp add: Let_def)
  qed
qed

theorem normal_trampoline_lands_witness:
  "(\<exists>bytes. GenerateNormalTrampolineBuffer 0x1000 0x7f0000001234 = Inr bytes \<and>
      (\<forall>s. a_pc s = 0x1000 \<and> code_at s 0x1000 bytes \<longrightarrow>
         (\<exists>n \<le> 3. arm_run n s = Some (goto 0x7f0000001234 (set_x 17 0x7f0000001234 s))))) \<and>
   (\<exists>bytes. GenerateNormalTrampolineBuffer 0x510000ffc 0x610000000 = Inr bytes \<and>
      (\<forall>s. a_pc s = 0x510000ffc \<and> code_at s 0x510000ffc bytes \<longrightarrow>
         (\<exists>n \<le> 3. arm_run n s = Some (goto 0x410000000 (set_x 17 0x410000000 s)))))"
proof -
  have "page_distance 0x1000 0x7f0000001234 \<noteq> 2 ^ 32" "page_distance 0x510000ffc 0x610000000 = 2 ^ 32"
    by (simp_all add: page_distance_def ALIGN_FLOOR_def)
  moreover have "llabs (0x510000ffc - 0x610000000) < adrp_range" by code_simp
  ultimately show ?thesis
    using normal_trampoline_lands [of "0x1000" "0x7f0000001234"] normal_trampoline_lands [of "0x510000ffc" "0x610000000"]
    by (auto simp: Let_def)
qed

text \<open>A machine whose memory holds nothing but the given bytes.\<close>

definition state_with :: "addr \<Rightarrow> u8 list \<Rightarrow> arm_state" where
  "state_with a bs =
     \<lparr>a_reg = (\<lambda>_. 0), a_sp = 0, a_pc = a, a_n = False, a_z = False, a_c = False, a_v = False,
      a_mem = (\<lambda>x. if unat (x - a) < length bs then bs ! unat (x - a) else 0)\<rparr>"

lemma code_at_state_with: "length bs < 2 ^ 64 \<Longrightarrow> code_at (state_with a bs) a bs"
  by (simp add: code_at_def state_with_def unat_of_nat)

end
