(* ===== verification/Arm64Relocation.thy ===== *)
theory Arm64Relocation
  imports Arm64Trampoline
begin

text \<open>
  The ARM64 relocator (\<^verbatim>\<open>ARM64InstructionRelocation.cc\<close>): the instructions of a function's prologue are
  rewritten so that they can run elsewhere, followed by a branch back and by the addresses that
  the rewritten branches load. The code is that of the release build (\<^verbatim>\<open>debug_nop\<close> is empty).
\<close>

section \<open>Immediates\<close>

definition SignExtend :: "u64 \<Rightarrow> nat \<Rightarrow> nat \<Rightarrow> u64" where
  "SignExtend x M N = signed_drop_bit (N - M) (push_bit (N - M) x)"

definition decode_imm14_offset :: "u32 \<Rightarrow> u64" where
  "decode_imm14_offset instr = SignExtend (push_bit 2 (ucast (bits instr 5 18))) (2 + 14) 64"

definition decode_imm19_offset :: "u32 \<Rightarrow> u64" where
  "decode_imm19_offset instr = SignExtend (push_bit 2 (ucast (bits instr 5 23))) (2 + 19) 64"

definition decode_imm26_offset :: "u32 \<Rightarrow> u64" where
  "decode_imm26_offset instr = SignExtend (push_bit 2 (ucast (bits instr 0 25))) (2 + 26) 64"

text \<open>The bit-field structure: \<^verbatim>\<open>immhi\<close> is bits 5 to 23 and \<^verbatim>\<open>immlo\<close> bits 29 and 30.\<close>

definition decode_immhi_immlo_offset :: "u32 \<Rightarrow> u64" where
  "decode_immhi_immlo_offset instr =
     (let immlo = take_bit 2 (drop_bit 29 instr); immhi = take_bit 19 (drop_bit 5 instr)
      in SignExtend (ucast (immlo + push_bit 2 immhi)) (2 + 19) 64)"

definition decode_immhi_immlo_zero12_offset :: "u32 \<Rightarrow> u64" where
  "decode_immhi_immlo_zero12_offset instr = push_bit 12 (decode_immhi_immlo_offset instr)"

definition decode_rt :: "u32 \<Rightarrow> u32" where "decode_rt instr = bits instr 0 4"
definition decode_rd :: "u32 \<Rightarrow> u32" where "decode_rd instr = bits instr 0 4"

section \<open>One instruction\<close>

text \<open>The inverted conditional branch over the two instructions that follow it.\<close>

definition invert_test_branch :: "u32 \<Rightarrow> u32" where
  "invert_test_branch instr =
     (let op = bit_at instr 24 XOR 1; branch_instr = set_bit_m instr 24 op
      in set_bits branch_instr 5 18 (4 * 3 div 4))"

definition invert_compare_branch :: "u32 \<Rightarrow> u32" where
  "invert_compare_branch instr =
     (let op = bit_at instr 24 XOR 1; branch_instr = set_bit_m instr 24 op
      in set_bits branch_instr 5 23 (4 * 3 div 4))"

definition invert_conditional_branch :: "u32 \<Rightarrow> u32" where
  "invert_conditional_branch instr =
     (let cond = bits instr 0 3 XOR 1; branch_instr = set_bits instr 0 3 cond
      in set_bits branch_instr 5 23 (4 * 3 div 4))"

definition branch_to_label :: "CPURegister \<Rightarrow> nat \<Rightarrow> (Assembler \<Rightarrow> Assembler) \<Rightarrow> Assembler \<Rightarrow> asm_fault + Assembler" where
  "branch_to_label r i jump a = bindE (Ldr_data r i a) (\<lambda>a. Inr (jump a))"

definition relocate_instr :: "u32 \<Rightarrow> u64 \<Rightarrow> Assembler \<Rightarrow> asm_fault + Assembler" where
  "relocate_instr instr curr_orig_pc a =
     (if instr AND LoadRegLiteralFixedMask = LoadRegLiteralFixed then
        (let rt = decode_rt instr; opc = bits instr 30 31;
             memory_address = decode_imm19_offset instr + curr_orig_pc;
             a = Mov TMP_REG_0 memory_address a
         in if opc = 0b00 then ldr (W rt) (MemOperand_imm TMP_REG_0 0 Offset) a
            else if opc = 0b01 then ldr (X rt) (MemOperand_imm TMP_REG_0 0 Offset) a
            else Inl Abort_unimplemented)
      else if instr AND PCRelAddressingFixedMask = PCRelAddressingFixed then
        (let rd = decode_rd instr;
             runtime_address =
               (if instr AND PCRelAddressingMask = ADR_op
                then curr_orig_pc + decode_immhi_immlo_offset instr
                else ALIGN_FLOOR curr_orig_pc (2 ^ 12) + decode_immhi_immlo_zero12_offset instr)
         in Inr (Mov (X rd) runtime_address a))
      else if instr AND UnconditionalBranchFixedMask = UnconditionalBranchFixed then
        (let branch_address = decode_imm26_offset instr + curr_orig_pc;
             (i, a) = AppendRelocLabelEntry (new_RelocLabelEntry branch_address) a
         in branch_to_label TMP_REG_0 i
              (if instr AND UnconditionalBranchMask = BL_op then blr TMP_REG_0 else br TMP_REG_0) a)
      else if instr AND TestBranchFixedMask = TestBranchFixed then
        (let branch_address = decode_imm14_offset instr + curr_orig_pc;
             (i, a) = AppendRelocLabelEntry (new_RelocLabelEntry branch_address) a
         in branch_to_label TMP_REG_0 i (br TMP_REG_0) (Emit (invert_test_branch instr) a))
      else if instr AND CompareBranchFixedMask = CompareBranchFixed then
        (let branch_address = decode_imm19_offset instr + curr_orig_pc;
             (i, a) = AppendRelocLabelEntry (new_RelocLabelEntry branch_address) a
         in branch_to_label TMP_REG_0 i (br TMP_REG_0) (Emit (invert_compare_branch instr) a))
      else if instr AND ConditionalBranchFixedMask = ConditionalBranchFixed then
        (let branch_address = decode_imm19_offset instr + curr_orig_pc;
             (i, a) = AppendRelocLabelEntry (new_RelocLabelEntry branch_address) a
         in branch_to_label TMP_REG_0 i (br TMP_REG_0) (Emit (invert_conditional_branch instr) a))
      else Inr (Emit instr a))"

section \<open>The loop\<close>

text \<open>
  \<open>cursor\<close> is the offset of \<^verbatim>\<open>buffer_cursor\<close> in the buffer. The next instruction is read before the loop
  condition is tested, so the word behind the relocated bytes is read too.
\<close>

function relocate_loop ::
  "u8 list \<Rightarrow> nat \<Rightarrow> nat \<Rightarrow> u32 \<Rightarrow> u64 \<Rightarrow> Assembler \<Rightarrow> asm_fault + (u64 \<times> Assembler)" where
  "relocate_loop buf n cursor instr curr_orig_pc a =
     (if cursor < n then
        bindE (relocate_instr instr curr_orig_pc a) (\<lambda>a.
        bindE (buf_LoadInst (int (cursor + 4)) buf) (\<lambda>instr.
          relocate_loop buf n (cursor + 4) instr (curr_orig_pc + 4) a))
      else Inr (curr_orig_pc, a))"
  by pat_completeness auto
termination
  by (relation "measure (\<lambda>(_, n, cursor, _). n - cursor)") auto

declare relocate_loop.simps [simp del]

text \<open>
  The generated bytes. \<open>buf\<close> holds what is readable at \<^verbatim>\<open>buffer\<close>, \<open>start\<close> and \<open>n\<close> are the range of
  \<^verbatim>\<open>origin\<close>; \<^verbatim>\<open>AssemblyCodeBuilder\<close> copies the bytes into executable memory.
\<close>

definition GenRelocateCode :: "u8 list \<Rightarrow> addr \<Rightarrow> nat \<Rightarrow> asm_fault + Assembler" where
  "GenRelocateCode buf start n =
     bindE (buf_LoadInst 0 buf) (\<lambda>instr.
     bindE (relocate_loop buf n 0 instr start (new_Assembler 0)) (\<lambda>(curr_orig_pc, a).
     bindE (LiteralLdrBranch curr_orig_pc a) (\<lambda>a.
       RelocBind a)))"

end
