(* ===== verification/Arm64Layout.thy ===== *)
theory Arm64Layout
  imports Arm64Relocation
begin

text \<open>
  A reference layout of relocated code. Each instruction becomes a few words and literal loads; the
  layout places them in order, then the branch back, then one address for each literal load. The
  relocator, which emits unfinished loads and patches them when it binds the labels, produces
  exactly these bytes.
\<close>

section \<open>Fragments\<close>

datatype item = Wd u32 | Lit u64

text \<open>The four instructions of \<^verbatim>\<open>Mov\<close>.\<close>

definition mov_words :: "u32 \<Rightarrow> u64 \<Rightarrow> u32 list" where
  "mov_words c imm =
     [move_wide_word (X c) (take_bit 16 imm) 0 MOVZ_op,
      move_wide_word (X c) (take_bit 16 (drop_bit 16 imm)) 16 MOVK_op,
      move_wide_word (X c) (take_bit 16 (drop_bit 32 imm)) 32 MOVK_op,
      move_wide_word (X c) (take_bit 16 (drop_bit 48 imm)) 48 MOVK_op]"

definition br_tmp :: u32 where "br_tmp = BR_op OR Rn (X 17)"
definition blr_tmp :: u32 where "blr_tmp = BLR_op OR Rn (X 17)"

definition ldr_from_tmp :: "u32 \<Rightarrow> u32" where
  "ldr_from_tmp rt = LoadStoreUnsignedOffsetFixed OR LoadStoreOp LDR_x OR Rn (X 17) OR Rt (X rt)"

definition fragment :: "u32 \<Rightarrow> u64 \<Rightarrow> item list option" where
  "fragment instr pc =
     (if instr AND LoadRegLiteralFixedMask = LoadRegLiteralFixed then
        (if bits instr 30 31 = 0 \<or> bits instr 30 31 = 1
         then Some (map Wd (mov_words 17 (decode_imm19_offset instr + pc)) @ [Wd (ldr_from_tmp (decode_rt instr))])
         else None)
      else if instr AND PCRelAddressingFixedMask = PCRelAddressingFixed then
        Some (map Wd (mov_words (decode_rd instr)
          (if instr AND PCRelAddressingMask = ADR_op then pc + decode_immhi_immlo_offset instr
           else ALIGN_FLOOR pc (2 ^ 12) + decode_immhi_immlo_zero12_offset instr)))
      else if instr AND UnconditionalBranchFixedMask = UnconditionalBranchFixed then
        Some [Lit (decode_imm26_offset instr + pc),
              Wd (if instr AND UnconditionalBranchMask = BL_op then blr_tmp else br_tmp)]
      else if instr AND TestBranchFixedMask = TestBranchFixed then
        Some [Wd (invert_test_branch instr), Lit (decode_imm14_offset instr + pc), Wd br_tmp]
      else if instr AND CompareBranchFixedMask = CompareBranchFixed then
        Some [Wd (invert_compare_branch instr), Lit (decode_imm19_offset instr + pc), Wd br_tmp]
      else if instr AND ConditionalBranchFixedMask = ConditionalBranchFixed then
        Some [Wd (invert_conditional_branch instr), Lit (decode_imm19_offset instr + pc), Wd br_tmp]
      else Some [Wd instr])"

section \<open>Rendering\<close>

text \<open>The targets of the literal loads, their byte positions and the bytes for given offsets.\<close>

fun targets :: "item list \<Rightarrow> u64 list" where
  "targets [] = []"
| "targets (Wd w # is) = targets is"
| "targets (Lit t # is) = t # targets is"

fun lit_positions :: "nat \<Rightarrow> item list \<Rightarrow> nat list" where
  "lit_positions p [] = []"
| "lit_positions p (Wd w # is) = lit_positions (p + 4) is"
| "lit_positions p (Lit t # is) = p # lit_positions (p + 4) is"

fun render :: "item list \<Rightarrow> int list \<Rightarrow> u8 list" where
  "render [] os = []"
| "render (Wd w # is) os = le_bytes 4 w @ render is os"
| "render (Lit t # is) [] = le_bytes 4 (ldr_word 17 0) @ render is []"
| "render (Lit t # is) (off # os) = le_bytes 4 (ldr_word 17 off) @ render is os"

lemma targets_append: "targets (xs @ ys) = targets xs @ targets ys"
  by (induction xs rule: targets.induct) auto

lemma targets_words [simp]: "targets (map Wd ws) = []"
  by (induction ws) auto

lemma length_lit_positions: "length (lit_positions p is) = length (targets is)"
  by (induction p "is" rule: lit_positions.induct) auto

lemma lit_positions_append:
  "lit_positions p (xs @ ys) = lit_positions p xs @ lit_positions (p + 4 * length xs) ys"
  by (induction p xs rule: lit_positions.induct) (auto simp: algebra_simps)

lemma lit_positions_words [simp]: "lit_positions p (map Wd ws) = []"
  by (induction ws arbitrary: p) auto

lemma length_render [simp]: "length (render is os) = 4 * length is"
  by (induction "is" os rule: render.induct) auto

lemma render_append_unbound: "render (xs @ ys) [] = render xs [] @ render ys []"
proof (induction xs)
  case (Cons x xs)
  then show ?case by (cases x) auto
qed simp

lemma lit_positions_ge: "p' \<in> set (lit_positions p is) \<Longrightarrow> p \<le> p'"
  by (induction p "is" rule: lit_positions.induct) auto

text \<open>Patching one load: the prefix of bound loads grows by one.\<close>

lemma render_patch:
  assumes "length os < length (targets is)"
  shows "\<exists>A B. length A + p = lit_positions p is ! length os \<and>
           render is os = A @ le_bytes 4 (ldr_word 17 0) @ B \<and>
           render is (os @ [off]) = A @ le_bytes 4 (ldr_word 17 off) @ B"
  using assms
proof (induction "is" arbitrary: os p)
  case Nil
  then show ?case by simp
next
  case (Cons i "is")
  show ?case
  proof (cases i)
    case (Wd w)
    then obtain A B where "length A + (p + 4) = lit_positions (p + 4) is ! length os"
        "render is os = A @ le_bytes 4 (ldr_word 17 0) @ B"
        "render is (os @ [off]) = A @ le_bytes 4 (ldr_word 17 off) @ B"
      using Cons.IH [of os "p + 4"] Cons.prems by auto
    then show ?thesis using Wd by (intro exI [of _ "le_bytes 4 w @ A"] exI [of _ B]) simp
  next
    case (Lit t)
    show ?thesis
    proof (cases os)
      case Nil
      then show ?thesis using Lit by (intro exI [of _ "[]"] exI [of _ "render is []"]) simp
    next
      case (Cons o1 os')
      then obtain A B where "length A + (p + 4) = lit_positions (p + 4) is ! length os'"
          "render is os' = A @ le_bytes 4 (ldr_word 17 0) @ B"
          "render is (os' @ [off]) = A @ le_bytes 4 (ldr_word 17 off) @ B"
        using Cons.IH [of os' "p + 4"] Cons.prems Lit by auto
      then show ?thesis using Lit Cons
        by (intro exI [of _ "le_bytes 4 (ldr_word 17 o1) @ A"] exI [of _ B]) simp
    qed
  qed
qed


section \<open>The assembler after a sequence of items\<close>

definition label_of :: "nat \<Rightarrow> u64 \<Rightarrow> RelocLabelEntry" where
  "label_of p t = \<lparr>label_pos = 0, near_link_pos = 0,
     instructions = [\<lparr>position = int p, instr_type = kLdrLiteral\<rparr>], label_data = t\<rparr>"

definition labels_of :: "item list \<Rightarrow> RelocLabelEntry list" where
  "labels_of is = map2 label_of (lit_positions 0 is) (targets is)"

definition held_labels :: "Assembler \<Rightarrow> RelocLabelEntry list" where
  "held_labels a = (case data_labels a of None \<Rightarrow> [] | Some ls \<Rightarrow> ls)"

definition emitted :: "Assembler \<Rightarrow> item list \<Rightarrow> bool" where
  "emitted a is \<longleftrightarrow> asm_buffer a = render is [] \<and> held_labels a = labels_of is"

lemma held_labels_Emit [simp]: "held_labels (Emit w a) = held_labels a"
  by (simp add: held_labels_def)

lemma labels_of_append:
  "labels_of (xs @ ys) = labels_of xs @ map2 label_of (lit_positions (4 * length xs) ys) (targets ys)"
  by (simp add: labels_of_def lit_positions_append targets_append length_lit_positions zip_append)

lemma emitted_new: "emitted (new_Assembler r) []"
  by (simp add: emitted_def new_Assembler_def held_labels_def labels_of_def)

lemma emitted_word: "emitted a is \<Longrightarrow> emitted (Emit w a) (is @ [Wd w])"
  by (simp add: emitted_def render_append_unbound labels_of_append)

lemma emitted_words: "emitted a is \<Longrightarrow> emitted (fold Emit ws a) (is @ map Wd ws)"
proof (induction ws arbitrary: a "is")
  case (Cons w ws)
  from Cons.IH [OF emitted_word [OF Cons.prems, of w]] show ?case by simp
qed simp

lemma fold_Emit [simp]:
  "asm_buffer (fold Emit ws a) = asm_buffer a @ render (map Wd ws) []"
  "data_labels (fold Emit ws a) = data_labels a"
  by (induction ws arbitrary: a) auto

lemma emitted_branch:
  assumes em: "emitted a is" and app: "AppendRelocLabelEntry (new_RelocLabelEntry t) a = (i, a1)"
  shows "\<exists>a2. Ldr_data TMP_REG_0 i (fold Emit ws a1) = Inr a2 \<and> emitted a2 (is @ map Wd ws @ [Lit t])"
proof -
  let ?ls = "labels_of is"
  have a1: "data_labels a1 = Some (?ls @ [new_RelocLabelEntry t])" "asm_buffer a1 = render is []" "i = length ?ls"
    using app em by (auto simp: AppendRelocLabelEntry_def emitted_def held_labels_def Let_def)
  let ?a = "fold Emit ws a1"
  have buf: "asm_buffer ?a = render (is @ map Wd ws) []" by (simp add: a1 render_append_unbound)
  have "LDR_x_literal OR Rt (X 17) = ldr_word 17 0" by (simp add: ldr_word_def LeftShift_def)
  then have "Ldr TMP_REG_0 (new_RelocLabelEntry t) ?a =
      Inr (label_of (4 * (length is + length ws)) t, Emit (ldr_word 17 0) ?a)"
    using buf by (simp add: Ldr_def TMP_REG_0_def is_bound_def new_RelocLabelEntry_def ldr_literal_X
        pseudo_link_to_def pc_offset_def label_of_def)
  then have ldr: "Ldr_data TMP_REG_0 i ?a =
      Inr ((Emit (ldr_word 17 0) ?a)\<lparr>data_labels := Some (?ls @ [label_of (4 * (length is + length ws)) t])\<rparr>)"
    by (simp add: Ldr_data_def a1 nth_opt_def)
  have "lit_positions (4 * length is) (map Wd ws @ [Lit t]) = [4 * (length is + length ws)]"
    by (simp add: lit_positions_append)
  then have "labels_of (is @ map Wd ws @ [Lit t]) = ?ls @ [label_of (4 * (length is + length ws)) t]"
    by (simp add: labels_of_append targets_append)
  moreover have "render (is @ map Wd ws @ [Lit t]) [] = asm_buffer ?a @ le_bytes 4 (ldr_word 17 0)"
    using buf by (simp add: render_append_unbound)
  ultimately show ?thesis using ldr by (simp add: emitted_def held_labels_def)
qed

section \<open>One instruction\<close>

lemma Low16Bits_take: "Low16Bits v = take_bit 16 v"
  by (simp add: Low16Bits_def take_bit_eq_mask mask_eq_exp_minus_1)

lemma Mov_words: "Mov (X c) imm a = fold Emit (mov_words c imm) a"
proof -
  have h: "ucast (ucast (Low16Bits (Low32Bits imm)) :: u16) = take_bit 16 imm"
    "ucast (ucast (High16Bits (Low32Bits imm)) :: u16) = take_bit 16 (drop_bit 16 imm)"
    "ucast (ucast (Low16Bits (High32Bits imm)) :: u16) = take_bit 16 (drop_bit 32 imm)"
    "ucast (ucast (High16Bits (High32Bits imm)) :: u16) = take_bit 16 (drop_bit 48 imm)"
    by (intro bit_word_eqI;
        auto simp: Low16Bits_take High16Bits_def Low32Bits_def High32Bits_def bit_simps)+
  show ?thesis by (simp add: Mov_def Let_def h mov_words_def movz_def movk_def MoveWide_def)
qed

lemma ldr_from_tmp_word:
  "ldr (X rt) (MemOperand_imm TMP_REG_0 0 Offset) a = Inr (Emit (ldr_from_tmp rt) a)"
  "ldr (W rt) (MemOperand_imm TMP_REG_0 0 Offset) a = Inr (Emit (ldr_from_tmp rt) a)"
  by (simp_all add: ldr_def LoadStore_def IsImmediateOffset_def MemOperand_imm_def TMP_REG_0_def LeftShift_def
      ldr_from_tmp_def Rt_def Let_def)

lemma relocate_instr_fragment:
  assumes em: "emitted a is"
  shows "case fragment instr pc of
           None \<Rightarrow> relocate_instr instr pc a = Inl Abort_unimplemented
         | Some fr \<Rightarrow> \<exists>a'. relocate_instr instr pc a = Inr a' \<and> emitted a' (is @ fr)"
proof -
  have br: "br TMP_REG_0 = Emit br_tmp" "blr TMP_REG_0 = Emit blr_tmp"
    by (auto simp: br_def blr_def br_tmp_def blr_tmp_def TMP_REG_0_def)
  have jump: "\<exists>a'. branch_to_label TMP_REG_0 i (Emit j) (fold Emit ws a1) = Inr a' \<and> emitted a' (is @ map Wd ws @ [Lit t, Wd j])"
    if "AppendRelocLabelEntry (new_RelocLabelEntry t) a = (i, a1)" for t i a1 j ws
    using emitted_branch [OF em that, of ws] emitted_word [of _ "is @ map Wd ws @ [Lit t]" j]
    by (auto simp: branch_to_label_def)
  have jump': "\<exists>a'. (let (i, a1) = AppendRelocLabelEntry (new_RelocLabelEntry t) a
        in branch_to_label TMP_REG_0 i (Emit j) (fold Emit ws a1)) = Inr a' \<and> emitted a' (is @ map Wd ws @ [Lit t, Wd j])"
    for t j ws
    using jump by (cases "AppendRelocLabelEntry (new_RelocLabelEntry t) a") auto
  note jump0 = jump' [where ws = "[]", simplified] and jump1 = jump' [where ws = "[w]" for w, simplified]
  consider (ldr) "instr AND LoadRegLiteralFixedMask = LoadRegLiteralFixed"
    | (adr) "instr AND LoadRegLiteralFixedMask \<noteq> LoadRegLiteralFixed"
        "instr AND PCRelAddressingFixedMask = PCRelAddressingFixed"
    | (other) "instr AND LoadRegLiteralFixedMask \<noteq> LoadRegLiteralFixed"
        "instr AND PCRelAddressingFixedMask \<noteq> PCRelAddressingFixed" by blast
  then show ?thesis
  proof cases
    case ldr
    have "emitted (Emit w (Mov TMP_REG_0 v a)) (is @ map Wd (mov_words 17 v) @ [Wd w])" for v w
      using emitted_word [OF emitted_words [OF em]] by (simp add: Mov_words TMP_REG_0_def)
    then show ?thesis
      using ldr by (simp add: relocate_instr_def fragment_def ldr_from_tmp_word Let_def)
  next
    case adr
    then show ?thesis
      using emitted_words [OF em] by (simp add: relocate_instr_def fragment_def Mov_words Let_def)
  next
    case other
    then show ?thesis
      using emitted_word [OF em, of instr] jump0 jump1
      by (simp add: relocate_instr_def fragment_def br)
  qed
qed


section \<open>All instructions\<close>

fun fragments :: "u32 list \<Rightarrow> u64 \<Rightarrow> item list option" where
  "fragments [] pc = Some []"
| "fragments (w # ws) pc =
     (case fragment w pc of None \<Rightarrow> None
      | Some f \<Rightarrow> (case fragments ws (pc + 4) of None \<Rightarrow> None | Some r \<Rightarrow> Some (f @ r)))"

definition words :: "u32 list \<Rightarrow> u8 list" where
  "words ws = concat (map (le_bytes 4) ws)"

lemma words_simps [simp]: "words [] = []" "words (w # ws) = le_bytes 4 w @ words ws" "length (words ws) = 4 * length ws"
  by (simp_all add: words_def length_concat comp_def sum_list_triv)

lemma words_append: "words (xs @ ys) = words xs @ words ys"
  by (simp add: words_def)

lemma load_word:
  assumes "k < length ws"
  shows "buf_LoadInst (int (4 * k)) (words ws @ rest) = Inr (ws ! k)"
proof -
  have "words ws = words (take k ws @ ws ! k # drop (Suc k) ws)"
    using id_take_nth_drop [OF assms] by (rule arg_cong)
  then have "words ws @ rest = words (take k ws) @ le_bytes 4 (ws ! k) @ words (drop (Suc k) ws) @ rest"
    by (simp add: words_append)
  then show ?thesis
    using buf_LoadInst_at [of "words (take k ws)" "ws ! k"] assms by (simp add: min_def)
qed

lemma relocate_loop_fragments:
  assumes "k + length ws = n" and "drop k all = ws @ extra" and "extra \<noteq> []" and "emitted a is"
    and "fragments ws pc = Some fr" and "instr = all ! k"
  shows "\<exists>a'. relocate_loop (words all @ rest) (4 * n) (4 * k) instr pc a = Inr (pc + 4 * of_nat (length ws), a') \<and>
           emitted a' (is @ fr)"
  using assms
proof (induction ws arbitrary: k a "is" pc fr instr)
  case Nil
  then show ?case by (simp add: relocate_loop.simps)
next
  case (Cons w ws)
  have d: "drop k all = w # ws @ extra" using Cons.prems(2) by simp
  then have "k < length all" by (metis drop_eq_Nil2 list.distinct(1) not_le)
  moreover have tl: "drop (Suc k) all = ws @ extra" using d by (metis drop_Suc list.sel(3) tl_drop)
  then have "Suc k < length all" using Cons.prems(3) by (metis append_is_Nil_conv drop_eq_Nil2 not_le)
  moreover have "all ! k = w" using d \<open>k < length all\<close> by (metis hd_drop_conv_nth list.sel(1))
  ultimately have k: "k < length all" "Suc k < length all" "all ! k = w" "drop (Suc k) all = ws @ extra"
    using tl by simp_all
  obtain f r where f: "fragment w pc = Some f" and r: "fragments ws (pc + 4) = Some r" and fr: "fr = f @ r"
    using Cons.prems(5) by (auto split: option.splits)
  obtain a1 where a1: "relocate_instr w pc a = Inr a1" "emitted a1 (is @ f)"
    using relocate_instr_fragment [OF Cons.prems(4), of w pc] f by auto
  obtain a' where a': "relocate_loop (words all @ rest) (4 * n) (4 * Suc k) (all ! Suc k) (pc + 4) a1 =
      Inr (pc + 4 + 4 * of_nat (length ws), a')" "emitted a' ((is @ f) @ r)"
    using Cons.IH [of "Suc k" a1 "is @ f" "pc + 4" r "all ! Suc k"] Cons.prems k a1 r by auto
  have next_word: "buf_LoadInst (int (4 * k + 4)) (words all @ rest) = Inr (all ! Suc k)"
    using load_word [OF k(2)] by (simp add: algebra_simps)
  have "4 * k < 4 * n" using Cons.prems(1) by simp
  then have "relocate_loop (words all @ rest) (4 * n) (4 * k) w pc a =
      relocate_loop (words all @ rest) (4 * n) (4 * k + 4) (all ! Suc k) (pc + 4) a1"
    by (subst relocate_loop.simps) (simp only: a1(1) next_word if_True bindE_Inr)
  then show ?case
    using a' fr Cons.prems(6) k(3) by (simp add: algebra_simps)
qed

section \<open>Binding the labels\<close>

fun final_offsets :: "nat \<Rightarrow> nat list \<Rightarrow> int list" where
  "final_offsets base [] = []"
| "final_offsets base (p # ps) = (int base - int p) # final_offsets (base + 8) ps"

definition quads :: "u64 list \<Rightarrow> u8 list" where
  "quads ts = concat (map (le_bytes 8) ts)"

lemma PseudoBind_label:
  assumes "asm_buffer a = A @ le_bytes 4 (ldr_word 17 0) @ B" and "length A = p"
  shows "\<exists>l. PseudoBind (label_of p t) a =
     Inr (l, a\<lparr>asm_buffer := A @ le_bytes 4 (ldr_word 17 (int (length (asm_buffer a)) - int p)) @ B\<rparr>) \<and> label_data l = t"
proof -
  have "ldr_word 17 0 = LDR_x_literal OR Rt (X 17)" by (simp add: ldr_word_def LeftShift_def)
  then show ?thesis
    using assms(1) fix_ldr_word [of 17] unfolding assms(2) [symmetric]
    by (simp add: PseudoBind_def label_of_def bind_to_def has_confused_instructions_def
        link_confused_instructions_def pos_def pc_offset_def)
qed

lemma reloc_bind_loop_renders:
  assumes "asm_buffer a = render is os @ rest"
    and "ls = map2 label_of (drop (length os) (lit_positions 0 is)) (drop (length os) (targets is))"
  shows "\<exists>ls' a'. reloc_bind_loop ls a = Inr (ls', a') \<and>
     asm_buffer a' = render is (os @ final_offsets (length (asm_buffer a)) (drop (length os) (lit_positions 0 is))) @
       rest @ quads (drop (length os) (targets is))"
  using assms
proof (induction ls arbitrary: a os rest)
  case Nil
  then have "length (targets is) \<le> length os"
    using length_lit_positions [of 0 "is"] by (auto simp: zip_eq_Nil_iff)
  then show ?case using Nil length_lit_positions [of 0 "is"] by (simp add: quads_def)
next
  case (Cons l ls)
  let ?P = "lit_positions 0 is" and ?T = "targets is" and ?n = "length os"
  have n: "?n < length ?T" "?n < length ?P"
    using Cons.prems(2) length_lit_positions [of 0 "is"] by (cases "?n < length ?T"; simp)+
  then have P: "drop ?n ?P = ?P ! ?n # drop (Suc ?n) ?P" and T: "drop ?n ?T = ?T ! ?n # drop (Suc ?n) ?T"
    by (simp_all add: Cons_nth_drop_Suc)
  have l: "l = label_of (?P ! ?n) (?T ! ?n)" and ls: "ls = map2 label_of (drop (Suc ?n) ?P) (drop (Suc ?n) ?T)"
    using Cons.prems(2) unfolding P T by simp_all
  let ?off = "int (length (asm_buffer a)) - int (?P ! ?n)"
  obtain A B where AB: "length A = ?P ! ?n" "render is os = A @ le_bytes 4 (ldr_word 17 0) @ B"
      "render is (os @ [?off]) = A @ le_bytes 4 (ldr_word 17 ?off) @ B"
    using render_patch [OF n(1), of 0 ?off] by auto
  have "asm_buffer a = A @ le_bytes 4 (ldr_word 17 0) @ B @ rest" using Cons.prems(1) AB(2) by simp
  then obtain l' where b: "PseudoBind l a = Inr (l', a\<lparr>asm_buffer := render is (os @ [?off]) @ rest\<rparr>)" "label_data l' = ?T ! ?n"
    using PseudoBind_label [OF _ AB(1), of a "B @ rest" "?T ! ?n"] AB(3) l by auto
  let ?a = "EmitInt64 (?T ! ?n) (a\<lparr>asm_buffer := render is (os @ [?off]) @ rest\<rparr>)"
  have buf: "asm_buffer ?a = render is (os @ [?off]) @ rest @ le_bytes 8 (?T ! ?n)" by simp
  have len: "length (asm_buffer ?a) = length (asm_buffer a) + 8" using Cons.prems(1) by simp
  have "ls = map2 label_of (drop (length (os @ [?off])) ?P) (drop (length (os @ [?off])) ?T)" using ls by simp
  from Cons.IH [OF buf this] obtain ls' a' where "reloc_bind_loop ls ?a = Inr (ls', a')"
    "asm_buffer a' = render is ((os @ [?off]) @ final_offsets (length (asm_buffer a) + 8) (drop (Suc ?n) ?P)) @
       (rest @ le_bytes 8 (?T ! ?n)) @ quads (drop (Suc ?n) ?T)"
    unfolding len by auto
  then show ?case unfolding P T by (simp add: b quads_def)
qed

section \<open>The relocator produces the layout\<close>

definition layout :: "item list \<Rightarrow> u64 \<Rightarrow> u8 list" where
  "layout is resume =
     render is (final_offsets (4 * length is + 16) (lit_positions 0 is)) @
     (le_bytes 4 (ldr_word 17 8) @ le_bytes 4 br_tmp @ le_bytes 8 resume) @ quads (targets is)"

lemma relocator_layout:
  assumes "fragments ws start = Some is"
  shows "\<exists>a. GenRelocateCode (words (ws @ [w]) @ rest) start (4 * length ws) = Inr a \<and>
           asm_buffer a = layout is (start + 4 * of_nat (length ws))"
proof -
  let ?resume = "start + 4 * of_nat (length ws)"
  have "buf_LoadInst 0 (words (ws @ [w]) @ rest) = Inr ((ws @ [w]) ! 0)"
    using load_word [of 0 "ws @ [w]" rest] by simp
  moreover obtain a1 where a1: "relocate_loop (words (ws @ [w]) @ rest) (4 * length ws) 0 ((ws @ [w]) ! 0) start (new_Assembler 0) =
      Inr (?resume, a1)" "emitted a1 is"
    using relocate_loop_fragments [of 0 ws "length ws" "ws @ [w]" "[w]" "new_Assembler 0" "[]" start "is" _ rest]
      emitted_new assms by auto
  moreover obtain a2 where a2: "LiteralLdrBranch ?resume a1 = Inr a2" "data_labels a2 = data_labels a1"
      "asm_buffer a2 = asm_buffer a1 @ le_bytes 4 (ldr_word 17 8) @ le_bytes 4 br_tmp @ le_bytes 8 ?resume"
    using LiteralLdrBranch_emits [of ?resume a1] by (auto simp: br_tmp_def)
  have buf: "asm_buffer a2 = render is [] @ (le_bytes 4 (ldr_word 17 8) @ le_bytes 4 br_tmp @ le_bytes 8 ?resume)"
    and len: "length (asm_buffer a2) = 4 * length is + 16"
    using a2(3) a1(2) by (simp_all add: emitted_def)
  have "\<exists>a. RelocBind a2 = Inr a \<and> asm_buffer a = layout is ?resume"
  proof (cases "data_labels a2")
    case None
    then have "targets is = []"
      using a1(2) a2(2) by (auto simp: emitted_def held_labels_def labels_of_def length_lit_positions
          zip_eq_Nil_iff length_0_conv [symmetric] simp del: length_0_conv)
    moreover from this have "lit_positions 0 is = []"
      using length_lit_positions [of 0 "is"] by simp
    ultimately show ?thesis using None buf by (simp add: RelocBind_def layout_def quads_def)
  next
    case (Some ls)
    then have "ls = map2 label_of (drop (length ([] :: int list)) (lit_positions 0 is)) (drop (length ([] :: int list)) (targets is))"
      using a1(2) a2(2) by (simp add: emitted_def held_labels_def labels_of_def)
    from reloc_bind_loop_renders [OF buf this] show ?thesis
      using Some by (auto simp: RelocBind_def layout_def len)
  qed
  ultimately show ?thesis by (simp add: GenRelocateCode_def a2(1))
qed

text \<open>
  C9: for every sequence of instructions that the relocator accepts, it produces the reference
  layout: the fragments of the instructions in order, each literal load with the distance to its
  own address, the branch back to the first instruction that was not relocated, and the addresses.
  \<open>w\<close> is the word behind the relocated instructions, which the relocator reads but does not use.
\<close>

theorem relocate_layout:
  assumes "fragments ws start = Some is"
  shows "\<exists>a. GenRelocateCode (words (ws @ [w]) @ rest) start (4 * length ws) = Inr a \<and>
           asm_buffer a = layout is (start + 4 * of_nat (length ws))"
  using assms by (rule relocator_layout)

theorem relocate_layout_witness:
  "\<exists>a. GenRelocateCode (words ([0xD503201F, 0x14000002] @ [0]) @ []) 0x1000 (4 * length [0xD503201F, 0x14000002 :: u32]) = Inr a \<and>
     asm_buffer a = layout [Wd 0xD503201F, Lit 0x100C, Wd br_tmp] (0x1000 + 4 * of_nat (length [0xD503201F, 0x14000002 :: u32]))"
proof (rule relocate_layout)
  have "decode_imm26_offset 0x14000002 = 8"
    by (simp add: decode_imm26_offset_def bits_def submask_def SignExtend_def)
  then show "fragments [0xD503201F, 0x14000002] 0x1000 = Some [Wd 0xD503201F, Lit 0x100C, Wd br_tmp]"
    by (simp add: fragment_def literal_defs BL_op_def UnconditionalBranchMask_def)
qed

end
