(* ===== verification/ProcessMemory.thy ===== *)
theory ProcessMemory
  imports Interceptor Arm64Layout
begin

text \<open>
  The memory of the process that is patched: bytes, the protection of each page, the arena and the
  registry of hooks. \<^verbatim>\<open>CodePatch\<close> writes code, \<^verbatim>\<open>AssemblyCodeBuilder\<close> places an assembled buffer in executable
  memory. The page size that \<^verbatim>\<open>sysconf\<close> reports is an argument; \<^verbatim>\<open>ClearCache\<close> has no effect on the model.
\<close>

section \<open>Memory and protection\<close>

text \<open>\<open>protection\<close> is indexed by the start of a page; \<open>None\<close> is a page that is not mapped.\<close>

record process =
  memory :: "addr \<Rightarrow> u8"
  protection :: "addr \<rightharpoonup> MemoryPermission"
  code_arena :: arena
  near_arena :: arena
  interceptor :: "Interceptor option"

definition page_of :: "int \<Rightarrow> addr \<Rightarrow> addr" where
  "page_of page_size a = ALIGN_FLOOR a (word_of_int page_size)"

definition readable :: "int \<Rightarrow> process \<Rightarrow> addr \<Rightarrow> bool" where
  "readable page_size P a \<longleftrightarrow> protection P (page_of page_size a) \<notin> {None, Some kNoAccess}"

definition writable :: "int \<Rightarrow> process \<Rightarrow> addr \<Rightarrow> bool" where
  "writable page_size P a \<longleftrightarrow> protection P (page_of page_size a) \<in> {Some kReadWrite, Some kReadWriteExecute}"

definition write_bytes :: "addr \<Rightarrow> u8 list \<Rightarrow> (addr \<Rightarrow> u8) \<Rightarrow> addr \<Rightarrow> u8" where
  "write_bytes a bs m = (\<lambda>x. if unat (x - a) < length bs then bs ! unat (x - a) else m x)"

definition bytes_at :: "(addr \<Rightarrow> u8) \<Rightarrow> addr \<Rightarrow> nat \<Rightarrow> u8 list" where
  "bytes_at m a n = map (\<lambda>i. m (a + of_nat i)) [0..<n]"

text \<open>\<^verbatim>\<open>memcpy\<close> to memory; one byte that may not be written stops the process.\<close>

definition memcpy_to :: "int \<Rightarrow> addr \<Rightarrow> u8 list \<Rightarrow> process \<Rightarrow> asm_fault + process" where
  "memcpy_to page_size a bs P =
     (if list_all (\<lambda>i. writable page_size P (a + of_nat i)) [0..<length bs]
      then Inr (P\<lparr>memory := write_bytes a bs (memory P)\<rparr>) else Inl Wild_access)"

text \<open>The bytes from \<open>a\<close> that can be read, at most \<open>n\<close>.\<close>

definition readable_bytes :: "int \<Rightarrow> addr \<Rightarrow> nat \<Rightarrow> process \<Rightarrow> u8 list" where
  "readable_bytes page_size a n P =
     map (\<lambda>i. memory P (a + of_nat i)) (takeWhile (\<lambda>i. readable page_size P (a + of_nat i)) [0..<n])"

text \<open>\<^verbatim>\<open>mprotect\<close> of one page fails, without an effect, when the page is not mapped.\<close>

definition mprotect_page :: "addr \<Rightarrow> MemoryPermission \<Rightarrow> process \<Rightarrow> process" where
  "mprotect_page a perm P =
     (case protection P a of None \<Rightarrow> P | Some _ \<Rightarrow> P\<lparr>protection := (protection P)(a \<mapsto> perm)\<rparr>)"

section \<open>CodePatch\<close>

definition CodePatch :: "int \<Rightarrow> addr \<Rightarrow> u8 list \<Rightarrow> process \<Rightarrow> asm_fault + process" where
  "CodePatch page_size address bs P =
     (let page_align_address = page_of page_size address;
          off = address - page_align_address;
          P = mprotect_page page_align_address kReadWriteExecute P
      in bindE (memcpy_to page_size (page_align_address + off) bs P) (\<lambda>P.
           Inr (mprotect_page page_align_address kReadExecute P)))"

section \<open>AssemblyCodeBuilder\<close>

definition FinalizeFromAddress :: "addr \<Rightarrow> u64 \<Rightarrow> MemoryChunk" where
  "FinalizeFromAddress address n = init_region_range address n"

text \<open>A page that the arena maps comes zeroed and with the permission that was asked for.\<close>

definition map_page :: "int \<Rightarrow> addr \<Rightarrow> MemoryPermission \<Rightarrow> process \<Rightarrow> process" where
  "map_page page_size a perm P =
     P\<lparr>memory := write_bytes a (replicate (nat page_size) 0) (memory P), protection := (protection P)(a \<mapsto> perm)\<rparr>"

definition allocate_code :: "int \<Rightarrow> addr \<Rightarrow> int \<Rightarrow> process \<Rightarrow> MemoryChunk option \<times> process" where
  "allocate_code page_size mapped n P =
     (let maps = (find_page (page_has_room n kReadExecute) (arena_pages (code_arena P)) = None \<and> mapped \<noteq> 0);
          (c, ar) = AllocateCodeChunk page_size mapped n (code_arena P)
      in (c, (if maps then map_page page_size mapped kReadExecute P else P)\<lparr>code_arena := ar\<rparr>))"

definition FinalizeFromTurboAssembler ::
  "int \<Rightarrow> addr \<Rightarrow> Assembler \<Rightarrow> process \<Rightarrow> asm_fault + (MemoryChunk option \<times> Assembler \<times> process)" where
  "FinalizeFromTurboAssembler page_size mapped a P =
     (if realized_address a = 0 then
        (case allocate_code page_size mapped (int (length (asm_buffer a)) + 4) P of
           (None, P) \<Rightarrow> Inr (None, a, P)
         | (Some c, P) \<Rightarrow>
             bindE (CodePatch page_size (chunk_address c) (asm_buffer a) P) (\<lambda>P.
               Inr (Some c, SetRealizedAddress (chunk_address c) a, P)))
      else
        bindE (CodePatch page_size (realized_address a) (asm_buffer a) P) (\<lambda>P.
          Inr (Some (FinalizeFromAddress (realized_address a) (of_nat (length (asm_buffer a)))), a, P)))"

section \<open>Patching inside a page\<close>

lemma write_bytes_at: "i < length bs \<Longrightarrow> length bs \<le> 2 ^ 64 \<Longrightarrow> write_bytes a bs m (a + of_nat i) = bs ! i"
  by (simp add: write_bytes_def unat_of_nat)

lemma bytes_at_length [simp]: "length (bytes_at m a n) = n"
  by (simp add: bytes_at_def)

lemma bytes_at_nth: "i < n \<Longrightarrow> bytes_at m a n ! i = m (a + of_nat i)"
  by (simp add: bytes_at_def)

lemma bytes_at_cong: "(\<And>i. i < n \<Longrightarrow> m (a + of_nat i) = m' (a + of_nat i)) \<Longrightarrow> bytes_at m a n = bytes_at m' a n"
  by (simp add: bytes_at_def)

lemma bytes_at_add: "bytes_at m a (j + k) = bytes_at m a j @ bytes_at m (a + of_nat j) k"
  by (rule nth_equalityI) (auto simp: bytes_at_nth nth_append of_nat_diff)

lemma bytes_at_write: "length bs = n \<Longrightarrow> n \<le> 2 ^ 64 \<Longrightarrow> bytes_at (write_bytes a bs m) a n = bs"
  by (rule nth_equalityI) (auto simp: bytes_at_nth write_bytes_at)

lemma write_bytes_outside: "length bs \<le> unat (x - a) \<Longrightarrow> write_bytes a bs m x = m x"
  by (simp add: write_bytes_def)

text \<open>The range of \<open>n\<close> bytes at \<open>a\<close> lies in the page of \<open>a\<close>.\<close>

definition in_page :: "nat \<Rightarrow> addr \<Rightarrow> nat \<Rightarrow> bool" where
  "in_page k a n \<longleftrightarrow> unat a mod 2 ^ k + n \<le> 2 ^ k"

lemma in_page_no_wrap:
  assumes "in_page k a n" and "k \<le> 64"
  shows "unat a + n \<le> 2 ^ 64"
proof -
  obtain q where q: "(2::nat) ^ 64 = 2 ^ k * q" using assms(2) by (metis le_imp_power_dvd dvdE)
  have "unat a < 2 ^ k * q" using unsigned_less [of a] unfolding q [symmetric] by simp
  then have "unat a div 2 ^ k < q" by (simp add: less_mult_imp_div_less mult.commute)
  then have "(unat a div 2 ^ k + 1) * 2 ^ k \<le> q * 2 ^ k" by (intro mult_le_mono1) simp
  then have "unat a div 2 ^ k * 2 ^ k + 2 ^ k \<le> 2 ^ 64" unfolding q by (simp add: algebra_simps)
  moreover have "unat a + n = unat a div 2 ^ k * 2 ^ k + (unat a mod 2 ^ k + n)"
    by (subst add.assoc [symmetric]) (simp only: div_mult_mod_eq)
  ultimately show ?thesis using assms(1) unfolding in_page_def by linarith
qed

lemma unat_pow2: "k < 31 \<Longrightarrow> unat (2 ^ k :: u64) = 2 ^ k"
proof -
  assume "k < 31"
  then have "(2 :: int) ^ k < 2 ^ 64" by (intro power_strict_increasing) simp_all
  then show ?thesis using unat_word_of_int [of "2 ^ k"] by (simp add: nat_power_eq)
qed

lemma page_of_pow2: "page_of (2 ^ k) a = ALIGN_FLOOR a (2 ^ k)"
  by (simp add: page_of_def)

lemma in_page_page_of:
  assumes "in_page k a n" and "i < n" and "k \<le> 64"
  shows "page_of (2 ^ k) (a + of_nat i) = page_of (2 ^ k) a"
proof -
  have lt: "unat a + i < 2 ^ 64" using in_page_no_wrap [OF assms(1,3)] assms(2) by simp
  then have u: "unat (a + of_nat i) = unat a + i" by (subst unat_add_small) (simp_all add: unat_of_nat)
  have "(unat a + i) mod 2 ^ k = (unat a mod 2 ^ k + i) mod 2 ^ k" by (simp add: mod_add_left_eq)
  also have "\<dots> = unat a mod 2 ^ k + i" using assms(1,2) by (intro mod_less) (simp add: in_page_def)
  finally have "(unat a + i) mod 2 ^ k = unat a mod 2 ^ k + i" .
  then have "unat (page_of (2 ^ k) (a + of_nat i)) = unat (page_of (2 ^ k) a)"
    by (simp add: page_of_pow2 unat_ALIGN_FLOOR u)
  then show ?thesis by (simp only: word_unat_eq_iff)
qed

lemma CodePatch_in_page:
  assumes "in_page k a (length bs)" and "k \<le> 64" and "protection P (page_of (2 ^ k) a) \<noteq> None"
  shows "CodePatch (2 ^ k) a bs P =
     Inr (P\<lparr>memory := write_bytes a bs (memory P), protection := (protection P)(page_of (2 ^ k) a \<mapsto> kReadExecute)\<rparr>)"
proof -
  obtain perm where perm: "protection P (page_of (2 ^ k) a) = Some perm" using assms(3) by blast
  let ?P = "mprotect_page (page_of (2 ^ k) a) kReadWriteExecute P"
  have "writable (2 ^ k) ?P (a + of_nat i)" if "i < length bs" for i
    using in_page_page_of [OF assms(1) that assms(2)] perm by (simp add: writable_def mprotect_page_def)
  then have "memcpy_to (2 ^ k) a bs ?P = Inr (?P\<lparr>memory := write_bytes a bs (memory P)\<rparr>)"
    using perm by (simp add: memcpy_to_def list_all_iff mprotect_page_def)
  then show ?thesis using perm by (simp add: CodePatch_def Let_def mprotect_page_def)
qed

text \<open>
  C35: \<^verbatim>\<open>CodePatch\<close> makes one page writable, the page of the first byte. A patch with a byte in another page that is not
  writable already stops the process, although the call reports success in every other case.
\<close>

theorem CodePatch_crossing:
  assumes "i < length bs" and "page_of page_size (a + of_nat i) \<noteq> page_of page_size a" and "\<not> writable page_size P (a + of_nat i)"
  shows "CodePatch page_size a bs P = Inl Wild_access"
proof -
  let ?P = "mprotect_page (page_of page_size a) kReadWriteExecute P"
  have "\<not> writable page_size ?P (a + of_nat i)" using assms(2,3) by (simp add: writable_def mprotect_page_def split: option.splits)
  then show ?thesis using assms(1) by (auto simp: CodePatch_def Let_def memcpy_to_def list_all_iff)
qed

theorem CodePatch_crossing_witness:
  "CodePatch 0x1000 0x1FF8 (replicate 16 0)
     \<lparr>memory = \<lambda>_. 0, protection = [0x1000 \<mapsto> kReadExecute, 0x2000 \<mapsto> kReadExecute], code_arena = None, near_arena = None, interceptor = None\<rparr> =
     Inl Wild_access"
  by (rule CodePatch_crossing [where i = 8]) (simp_all add: page_of_def ALIGN_FLOOR_def writable_def)

lemma readable_bytes_full:
  assumes "\<And>i. i < n \<Longrightarrow> readable page_size P (a + of_nat i)"
  shows "readable_bytes page_size a n P = map (\<lambda>i. memory P (a + of_nat i)) [0..<n]"
proof -
  have "takeWhile (\<lambda>i. readable page_size P (a + of_nat i)) [0..<n] = [0..<n]"
    by (rule takeWhile_eq_all_conv [THEN iffD2]) (use assms in simp)
  then show ?thesis by (simp only: readable_bytes_def)
qed

end
