(* ===== verification/Arm64Stack.thy ===== *)
theory Arm64Stack
  imports ProcessMemory
begin

text \<open>
  The instructions that the closure trampolines and the closure bridge use on top of \<open>Arm64Isa\<close>: stores, pairs of
  general and of vector registers, and the stack pointer. As there, decoder and effect are written from the architecture's
  tables. A store to an address that is not \<open>wr\<close>, the writable memory, has no step; code is outside of it.
\<close>

section \<open>Instructions\<close>

type_synonym u128 = "128 word"

datatype stack_insn =
    S_SUBI u32 u32 u64
  | S_STR u32 u32 u64
  | S_STP u32 u32 u32 u64 | S_LDP_post u32 u32 u32 u64
  | S_STPQ u32 u32 u32 u64 | S_LDPQ_post u32 u32 u32 u64
  | S_core arm_insn

definition stack_decode :: "u32 \<Rightarrow> stack_insn" where
  "stack_decode w =
     (if fld w 22 10 = 0b1101000100 then S_SUBI (fld w 0 5) (fld w 5 5) (ucast (fld w 10 12))
      else if fld w 22 10 = 0b1111100100 then S_STR (fld w 0 5) (fld w 5 5) (push_bit 3 (ucast (fld w 10 12)))
      else if fld w 22 10 = 0b1010100100
      then S_STP (fld w 0 5) (fld w 10 5) (fld w 5 5) (sext 10 (push_bit 3 (ucast (fld w 15 7))))
      else if fld w 22 10 = 0b1010100011
      then S_LDP_post (fld w 0 5) (fld w 10 5) (fld w 5 5) (sext 10 (push_bit 3 (ucast (fld w 15 7))))
      else if fld w 22 10 = 0b1010110100
      then S_STPQ (fld w 0 5) (fld w 10 5) (fld w 5 5) (sext 11 (push_bit 4 (ucast (fld w 15 7))))
      else if fld w 22 10 = 0b1010110011
      then S_LDPQ_post (fld w 0 5) (fld w 10 5) (fld w 5 5) (sext 11 (push_bit 4 (ucast (fld w 15 7))))
      else S_core (arm_decode w))"

section \<open>Machine states\<close>

record machine =
  core :: arm_state
  vreg :: "u32 \<Rightarrow> u128"

definition store_bytes :: "(addr \<Rightarrow> bool) \<Rightarrow> addr \<Rightarrow> u8 list \<Rightarrow> machine \<Rightarrow> machine option" where
  "store_bytes wr a bs m =
     (if list_all (\<lambda>i. wr (a + of_nat i)) [0..<length bs]
      then Some (m\<lparr>core := next_pc ((core m)\<lparr>a_mem := write_bytes a bs (a_mem (core m))\<rparr>)\<rparr>) else None)"

definition load128 :: "arm_state \<Rightarrow> addr \<Rightarrow> u128" where
  "load128 s a = le_word (mem_bytes s a 16)"

definition with_core :: "(arm_state \<Rightarrow> arm_state) \<Rightarrow> machine \<Rightarrow> machine" where
  "with_core f m = m\<lparr>core := f (core m)\<rparr>"

text \<open>A load with post-index writes the base back after the two registers.\<close>

fun stack_exec :: "(addr \<Rightarrow> bool) \<Rightarrow> stack_insn \<Rightarrow> machine \<Rightarrow> machine option" where
  "stack_exec wr (S_SUBI d n imm) m = Some (with_core (\<lambda>c. next_pc (set_x_sp d (get_x_sp n c - imm) c)) m)"
| "stack_exec wr (S_STR t n off) m = store_bytes wr (get_x_sp n (core m) + off) (le_bytes 8 (get_x t (core m))) m"
| "stack_exec wr (S_STP t t2 n off) m =
     store_bytes wr (get_x_sp n (core m) + off) (le_bytes 8 (get_x t (core m)) @ le_bytes 8 (get_x t2 (core m))) m"
| "stack_exec wr (S_LDP_post t t2 n off) m =
     (let a = get_x_sp n (core m) in
      Some (with_core (\<lambda>c. next_pc (set_x_sp n (a + off) (set_x t2 (load64 c (a + 8)) (set_x t (load64 c a) c)))) m))"
| "stack_exec wr (S_STPQ t t2 n off) m =
     store_bytes wr (get_x_sp n (core m) + off) (le_bytes 16 (vreg m t) @ le_bytes 16 (vreg m t2)) m"
| "stack_exec wr (S_LDPQ_post t t2 n off) m =
     (let a = get_x_sp n (core m) in
      Some (with_core (\<lambda>c. next_pc (set_x_sp n (a + off) c))
        (m\<lparr>vreg := (vreg m)(t := load128 (core m) a, t2 := load128 (core m) (a + 16))\<rparr>)))"
| "stack_exec wr (S_core i) m = map_option (\<lambda>c. m\<lparr>core := c\<rparr>) (arm_exec i (core m))"

definition stack_step :: "(addr \<Rightarrow> bool) \<Rightarrow> machine \<Rightarrow> machine option" where
  "stack_step wr m = stack_exec wr (stack_decode (load32 (core m) (a_pc (core m)))) m"

primrec stack_run :: "(addr \<Rightarrow> bool) \<Rightarrow> nat \<Rightarrow> machine \<Rightarrow> machine option" where
  "stack_run wr 0 m = Some m"
| "stack_run wr (Suc n) m = (case stack_step wr m of None \<Rightarrow> None | Some m' \<Rightarrow> stack_run wr n m')"

lemma stack_run_add:
  "stack_run wr k m = Some m' \<Longrightarrow> stack_run wr (k + n) m = stack_run wr n m'"
  by (induction k arbitrary: m) (auto split: option.splits)

section \<open>Straight-line code\<close>

primrec exec_list :: "(addr \<Rightarrow> bool) \<Rightarrow> stack_insn list \<Rightarrow> machine \<Rightarrow> machine option" where
  "exec_list wr [] m = Some m"
| "exec_list wr (i # is) m = (case stack_exec wr i m of None \<Rightarrow> None | Some m' \<Rightarrow> exec_list wr is m')"

fun straight :: "stack_insn \<Rightarrow> bool" where
  "straight (S_core i) = (case i of A_ADDI _ _ _ \<Rightarrow> True | A_LDR _ _ _ \<Rightarrow> True | A_LDR_lit _ _ \<Rightarrow> True | A_MOVZ _ _ _ \<Rightarrow> True
     | A_MOVK _ _ _ \<Rightarrow> True | _ \<Rightarrow> False)"
| "straight _ = True"

text \<open>Code: words outside of the writable memory.\<close>

definition text_at :: "(addr \<Rightarrow> bool) \<Rightarrow> machine \<Rightarrow> addr \<Rightarrow> u8 list \<Rightarrow> bool" where
  "text_at wr m a bs \<longleftrightarrow> code_at (core m) a bs \<and> (\<forall>i < length bs. \<not> wr (a + of_nat i))"

lemma text_at_append: "text_at wr m a (xs @ ys) \<longleftrightarrow> text_at wr m a xs \<and> text_at wr m (a + of_nat (length xs)) ys"
proof -
  have "(\<forall>i < length (xs @ ys). \<not> wr (a + of_nat i)) \<longleftrightarrow>
      (\<forall>i < length xs. \<not> wr (a + of_nat i)) \<and> (\<forall>i < length ys. \<not> wr (a + of_nat (length xs) + of_nat i))" (is "?l \<longleftrightarrow> ?r")
  proof
    assume all: ?l
    have "\<not> wr (a + of_nat (length xs) + of_nat i)" if "i < length ys" for i
      using all [rule_format, of "length xs + i"] that by (simp add: add.assoc)
    then show ?r using all by simp
  next
    assume both: ?r
    have "\<not> wr (a + of_nat i)" if "i < length (xs @ ys)" "\<not> i < length xs" for i
      using both [THEN conjunct2, rule_format, of "i - length xs"] that by (simp add: of_nat_diff)
    then show ?l using both by blast
  qed
  then show ?thesis by (auto simp: text_at_def code_at_append)
qed

lemma write_bytes_unwritable:
  assumes "list_all (\<lambda>i. wr (a + of_nat i)) [0..<length bs]" and "\<not> wr x"
  shows "write_bytes a bs f x = f x"
proof (rule write_bytes_outside, rule ccontr)
  assume "\<not> length bs \<le> unat (x - a)"
  then have "wr (a + of_nat (unat (x - a)))" using assms(1) unfolding list_all_iff by (metis atLeastLessThan_upt atLeastLessThan_iff le0 not_le)
  then show False using assms(2) by simp
qed

lemma store_bytes_text: "store_bytes wr a bs m = Some m' \<Longrightarrow> text_at wr m c ws \<Longrightarrow> text_at wr m' c ws"
  by (auto simp: store_bytes_def text_at_def code_at_def write_bytes_unwritable split: if_splits)

lemma stack_exec_text:
  assumes "stack_exec wr i m = Some m'" and "text_at wr m c ws"
  shows "text_at wr m' c ws"
  using assms
proof (cases i)
  case (S_core j)
  have "a_mem s' = a_mem s" if "arm_exec j s = Some s'" for s s'
    using that by (cases j) (auto simp: branch_if_def Let_def split: if_splits)
  then show ?thesis using assms S_core by (auto simp: text_at_def code_at_def)
qed (auto simp: with_core_def text_at_def code_at_def Let_def dest: store_bytes_text [unfolded text_at_def code_at_def])

lemma stack_exec_straight:
  assumes "stack_exec wr i m = Some m'" and "straight i"
  shows "a_pc (core m') = a_pc (core m) + 4"
  using assms by (cases i) (auto simp: with_core_def Let_def store_bytes_def split: if_splits arm_insn.splits)

lemma run_straight:
  assumes "exec_list wr (map stack_decode ws) m = Some m'" and "list_all straight (map stack_decode ws)"
    and "text_at wr m (a_pc (core m)) (words ws)"
  shows "stack_run wr (length ws) m = Some m' \<and> a_pc (core m') = a_pc (core m) + 4 * of_nat (length ws)"
  using assms
proof (induction ws arbitrary: m)
  case (Cons w ws)
  obtain m1 where m1: "stack_exec wr (stack_decode w) m = Some m1" "exec_list wr (map stack_decode ws) m1 = Some m'"
    using Cons.prems(1) by (auto split: option.splits)
  have code: "text_at wr m (a_pc (core m)) (le_bytes 4 w)" "text_at wr m (a_pc (core m) + 4) (words ws)"
    using Cons.prems(3) by (simp_all add: words_def text_at_append)
  have pc: "a_pc (core m1) = a_pc (core m) + 4" using stack_exec_straight [OF m1(1)] Cons.prems(2) by simp
  have "stack_step wr m = Some m1" using m1(1) load32_code [of "core m" "a_pc (core m)" w] code(1) by (simp add: stack_step_def text_at_def)
  moreover have "text_at wr m1 (a_pc (core m1)) (words ws)" using stack_exec_text [OF m1(1) code(2)] by (simp add: pc)
  ultimately show ?case using Cons.IH [OF m1(2)] Cons.prems(2) by (simp add: pc algebra_simps)
qed simp

lemma exec_list_append:
  "exec_list wr (xs @ ys) m = (case exec_list wr xs m of None \<Rightarrow> None | Some m' \<Rightarrow> exec_list wr ys m')"
  by (induction xs arbitrary: m) (auto split: option.splits)

end
