(* ===== verification/ClosureBridge.thy ===== *)
theory ClosureBridge
  imports Arm64Stack
begin

text \<open>
  The closure trampolines and the closure bridge on ARM64 (\<^verbatim>\<open>ARM64AssemblyClosureTrampoline.cc\<close>, \<^verbatim>\<open>closure-bridge-arm64.cc\<close>,
  \<^verbatim>\<open>helper-arm64.cc\<close>, \<^verbatim>\<open>common-bridge-handler.cc\<close>) and the handler of the binary instrumentation
  (\<^verbatim>\<open>DynamicBinaryInstrument/intercept_routing_handler.cc\<close>). \<open>full\<close> tells whether \<^verbatim>\<open>FULL_FLOATING_POINT_REGISTER_PACK\<close> is defined. The
  templates in inline assembly are not built.
\<close>

section \<open>The register context\<close>

record RegisterContext =
  dmmpy_0 :: u64
  ctx_sp :: u64
  dmmpy_1 :: u64
  ctx_x :: "u64 list"
  ctx_fp :: u64
  ctx_lr :: u64
  ctx_q :: "u128 list"

record HookEntryInfo =
  hook_id :: int
  instruction_address :: addr

record ClosureTrampolineEntry =
  cte_address :: addr
  cte_size :: u32
  carry_handler :: addr
  carry_data :: addr

section \<open>Handlers\<close>

definition set_routing_bridge_next_hop :: "addr \<Rightarrow> RegisterContext \<Rightarrow> RegisterContext" where
  "set_routing_bridge_next_hop address ctx = ctx\<lparr>ctx_x := (ctx_x ctx)[unat (reg_code TMP_REG_0) := address]\<rparr>"

text \<open>\<open>callbacks\<close> are the functions that callers hand to \<^verbatim>\<open>DobbyInstrument\<close>, by their addresses.\<close>

definition instrument_call_forward_handler ::
  "(addr \<Rightarrow> RegisterContext \<Rightarrow> HookEntryInfo \<Rightarrow> RegisterContext) \<Rightarrow> HookEntry \<Rightarrow> RegisterContext \<Rightarrow> RegisterContext" where
  "instrument_call_forward_handler callbacks entry ctx =
     (let handler = routing_argument (route entry);
          ctx = (if handler \<noteq> 0
                 then callbacks handler ctx \<lparr>hook_id = entry_id entry, instruction_address = function_address entry\<rparr> else ctx)
      in set_routing_bridge_next_hop (relocated_origin_function entry) ctx)"

text \<open>\<open>entries\<close> are the hook entries by their addresses.\<close>

definition instrument_routing_dispatch ::
  "(addr \<Rightarrow> HookEntry) \<Rightarrow> (addr \<Rightarrow> RegisterContext \<Rightarrow> HookEntryInfo \<Rightarrow> RegisterContext) \<Rightarrow> ClosureTrampolineEntry \<Rightarrow>
     RegisterContext \<Rightarrow> RegisterContext" where
  "instrument_routing_dispatch entries callbacks cte ctx =
     (let entry = entries (carry_data cte) in instrument_call_forward_handler callbacks entry ctx)"

text \<open>\<open>routings\<close> are the routing handlers by their addresses.\<close>

definition intercept_routing_common_bridge_handler ::
  "(addr \<Rightarrow> ClosureTrampolineEntry \<Rightarrow> RegisterContext \<Rightarrow> RegisterContext) \<Rightarrow> ClosureTrampolineEntry \<Rightarrow> RegisterContext \<Rightarrow> RegisterContext" where
  "intercept_routing_common_bridge_handler routings cte ctx = routings (carry_handler cte) cte ctx"

section \<open>The code\<close>

fun emit_all :: "(Assembler \<Rightarrow> asm_fault + Assembler) list \<Rightarrow> Assembler \<Rightarrow> asm_fault + Assembler" where
  "emit_all [] a = Inr a"
| "emit_all (f # fs) a = bindE (f a) (emit_all fs)"

definition MEM :: "CPURegister \<Rightarrow> u64 \<Rightarrow> MemOperand" where
  "MEM reg off = MemOperand_imm reg off Offset"

definition MEM_EXT :: "CPURegister \<Rightarrow> u64 \<Rightarrow> AddrMode \<Rightarrow> MemOperand" where
  "MEM_EXT reg off addrmode = MemOperand_imm reg off addrmode"

definition REGISTER_CONTEXT_SIZE :: "bool \<Rightarrow> u64" where
  "REGISTER_CONTEXT_SIZE full = (if full then 784 else 784 - 24 * 16)"

definition save_q_full :: "(Assembler \<Rightarrow> asm_fault + Assembler) list" where
  "save_q_full =
     [sub SP SP (24 * 16),
      stp (Q 30) (Q 31) (MEM SP (22 * 16)), stp (Q 28) (Q 29) (MEM SP (20 * 16)), stp (Q 26) (Q 27) (MEM SP (18 * 16)),
      stp (Q 24) (Q 25) (MEM SP (16 * 16)), stp (Q 22) (Q 23) (MEM SP (14 * 16)), stp (Q 20) (Q 21) (MEM SP (12 * 16)),
      stp (Q 18) (Q 19) (MEM SP (10 * 16)), stp (Q 16) (Q 17) (MEM SP (8 * 16)), stp (Q 14) (Q 15) (MEM SP (6 * 16)),
      stp (Q 12) (Q 13) (MEM SP (4 * 16)), stp (Q 10) (Q 11) (MEM SP (2 * 16)), stp (Q 8) (Q 9) (MEM SP (0 * 16))]"

definition save_q :: "(Assembler \<Rightarrow> asm_fault + Assembler) list" where
  "save_q =
     [sub SP SP (8 * 16),
      stp (Q 6) (Q 7) (MEM SP (6 * 16)), stp (Q 4) (Q 5) (MEM SP (4 * 16)), stp (Q 2) (Q 3) (MEM SP (2 * 16)),
      stp (Q 0) (Q 1) (MEM SP (0 * 16))]"

definition save_x :: "(Assembler \<Rightarrow> asm_fault + Assembler) list" where
  "save_x =
     [sub SP SP (30 * 8),
      stp (X 29) (X 30) (MEM SP (28 * 8)), stp (X 27) (X 28) (MEM SP (26 * 8)), stp (X 25) (X 26) (MEM SP (24 * 8)),
      stp (X 23) (X 24) (MEM SP (22 * 8)), stp (X 21) (X 22) (MEM SP (20 * 8)), stp (X 19) (X 20) (MEM SP (18 * 8)),
      stp (X 17) (X 18) (MEM SP (16 * 8)), stp (X 15) (X 16) (MEM SP (14 * 8)), stp (X 13) (X 14) (MEM SP (12 * 8)),
      stp (X 11) (X 12) (MEM SP (10 * 8)), stp (X 9) (X 10) (MEM SP (8 * 8)), stp (X 7) (X 8) (MEM SP (6 * 8)),
      stp (X 5) (X 6) (MEM SP (4 * 8)), stp (X 3) (X 4) (MEM SP (2 * 8)), stp (X 1) (X 2) (MEM SP (0 * 8))]"

definition save_x0_sp :: "bool \<Rightarrow> (Assembler \<Rightarrow> asm_fault + Assembler) list" where
  "save_x0_sp full =
     [sub SP SP (2 * 8), str (X 0) (MEM SP 8),
      add TMP_REG_0 SP (2 * 8), add TMP_REG_0 TMP_REG_0 (2 * 8 + 30 * 8 + 8 * 16)] @
     (if full then [add TMP_REG_0 TMP_REG_0 (24 * 16)] else []) @
     [sub SP SP (2 * 8), str TMP_REG_0 (MEM SP 8)]"

definition call_handler :: "bool \<Rightarrow> addr \<Rightarrow> (Assembler \<Rightarrow> asm_fault + Assembler) list" where
  "call_handler full handler =
     [mov (X 0) SP, ldr (X 1) (MEM SP (REGISTER_CONTEXT_SIZE full + 0)), \<lambda>a. Inr (CallFunction handler a)]"

definition restore_x :: "(Assembler \<Rightarrow> asm_fault + Assembler) list" where
  "restore_x =
     [add SP SP (2 * 8), ldr (X 0) (MEM SP 8), add SP SP (2 * 8),
      ldp (X 1) (X 2) (MEM_EXT SP 16 PostIndex), ldp (X 3) (X 4) (MEM_EXT SP 16 PostIndex), ldp (X 5) (X 6) (MEM_EXT SP 16 PostIndex),
      ldp (X 7) (X 8) (MEM_EXT SP 16 PostIndex), ldp (X 9) (X 10) (MEM_EXT SP 16 PostIndex), ldp (X 11) (X 12) (MEM_EXT SP 16 PostIndex),
      ldp (X 13) (X 14) (MEM_EXT SP 16 PostIndex), ldp (X 15) (X 16) (MEM_EXT SP 16 PostIndex), ldp (X 17) (X 18) (MEM_EXT SP 16 PostIndex),
      ldp (X 19) (X 20) (MEM_EXT SP 16 PostIndex), ldp (X 21) (X 22) (MEM_EXT SP 16 PostIndex), ldp (X 23) (X 24) (MEM_EXT SP 16 PostIndex),
      ldp (X 25) (X 26) (MEM_EXT SP 16 PostIndex), ldp (X 27) (X 28) (MEM_EXT SP 16 PostIndex), ldp (X 29) (X 30) (MEM_EXT SP 16 PostIndex)]"

definition restore_q :: "(Assembler \<Rightarrow> asm_fault + Assembler) list" where
  "restore_q =
     [ldp (Q 0) (Q 1) (MEM_EXT SP 32 PostIndex), ldp (Q 2) (Q 3) (MEM_EXT SP 32 PostIndex), ldp (Q 4) (Q 5) (MEM_EXT SP 32 PostIndex),
      ldp (Q 6) (Q 7) (MEM_EXT SP 32 PostIndex)]"

definition restore_q_full :: "(Assembler \<Rightarrow> asm_fault + Assembler) list" where
  "restore_q_full =
     [ldp (Q 8) (Q 9) (MEM_EXT SP 32 PostIndex), ldp (Q 10) (Q 11) (MEM_EXT SP 32 PostIndex), ldp (Q 12) (Q 13) (MEM_EXT SP 32 PostIndex),
      ldp (Q 14) (Q 15) (MEM_EXT SP 32 PostIndex), ldp (Q 16) (Q 17) (MEM_EXT SP 32 PostIndex), ldp (Q 18) (Q 19) (MEM_EXT SP 32 PostIndex),
      ldp (Q 20) (Q 21) (MEM_EXT SP 32 PostIndex), ldp (Q 22) (Q 23) (MEM_EXT SP 32 PostIndex), ldp (Q 24) (Q 25) (MEM_EXT SP 32 PostIndex),
      ldp (Q 26) (Q 27) (MEM_EXT SP 32 PostIndex), ldp (Q 28) (Q 29) (MEM_EXT SP 32 PostIndex), ldp (Q 30) (Q 31) (MEM_EXT SP 32 PostIndex)]"

definition closure_bridge_code :: "bool \<Rightarrow> addr \<Rightarrow> asm_fault + Assembler" where
  "closure_bridge_code full handler =
     emit_all ((if full then save_q_full else []) @ save_q @ save_x @ save_x0_sp full @ call_handler full handler @
       restore_x @ restore_q @ (if full then restore_q_full else []) @ [\<lambda>a. Inr (ret a)]) (new_Assembler 0)"

text \<open>\<open>bridge\<close> is the static variable \<^verbatim>\<open>closure_bridge\<close>; the code is built once.\<close>

definition get_closure_bridge :: "bool \<Rightarrow> int \<Rightarrow> addr \<Rightarrow> addr \<Rightarrow> addr \<Rightarrow> process \<Rightarrow> asm_fault + (addr \<times> process)" where
  "get_closure_bridge full page_size mapped handler bridge P =
     (if bridge \<noteq> 0 then Inr (bridge, P)
      else
        bindE (closure_bridge_code full handler) (\<lambda>a.
        bindE (FinalizeFromTurboAssembler page_size mapped a P) (\<lambda>(code, a, P).
          case code of None \<Rightarrow> Inl Null_pointer | Some c \<Rightarrow> Inr (chunk_address c, P))))"

text \<open>The code of a closure trampoline: \<open>cte\<close> is the address of its entry.\<close>

definition closure_trampoline_code :: "addr \<Rightarrow> addr \<Rightarrow> asm_fault + Assembler" where
  "closure_trampoline_code cte bridge =
     bindE (emit_all [sub SP SP (2 * 8), str (X 30) (MEM SP 8)] (new_Assembler 0)) (\<lambda>a.
     bindE (Ldr TMP_REG_0 new_PseudoLabel a) (\<lambda>(entry_label, a).
     bindE (str TMP_REG_0 (MEM SP 0) a) (\<lambda>a.
     bindE (Ldr TMP_REG_0 new_PseudoLabel a) (\<lambda>(forward_bridge_label, a).
     bindE (emit_all [\<lambda>a. Inr (blr TMP_REG_0 a), ldr (X 30) (MEM SP 8), add SP SP (2 * 8), \<lambda>a. Inr (br TMP_REG_0 a)] a) (\<lambda>a.
     bindE (PseudoBind entry_label a) (\<lambda>(entry_label, a).
     bindE (PseudoBind forward_bridge_label (EmitInt64 cte a)) (\<lambda>(forward_bridge_label, a).
       Inr (EmitInt64 bridge a))))))))"

text \<open>
  \<^verbatim>\<open>get_closure_bridge\<close> is called while the trampoline is assembled; \<open>mapped\<close> and \<open>mapped'\<close> are the pages that the
  system maps for the bridge and for the trampoline if the arena needs them.
\<close>

definition CreateClosureTrampoline ::
  "bool \<Rightarrow> int \<Rightarrow> addr \<Rightarrow> addr \<Rightarrow> addr \<Rightarrow> addr \<Rightarrow> addr \<Rightarrow> addr \<Rightarrow> addr \<Rightarrow> process \<Rightarrow>
     asm_fault + (ClosureTrampolineEntry \<times> addr \<times> process)" where
  "CreateClosureTrampoline full page_size mapped mapped' handler bridge cte data carry P =
     bindE (get_closure_bridge full page_size mapped handler bridge P) (\<lambda>(bridge, P).
     bindE (closure_trampoline_code cte bridge) (\<lambda>a.
     bindE (FinalizeFromTurboAssembler page_size mapped' a P) (\<lambda>(code, a, P).
       case code of None \<Rightarrow> Inl Null_pointer
       | Some c \<Rightarrow>
           Inr (\<lparr>cte_address = chunk_address c, cte_size = ucast (chunk_length c), carry_handler = carry, carry_data = data\<rparr>, bridge, P))))"

end
