(* ===== verification/NearArena.thy ===== *)
theory NearArena
  imports ProcessMemory Arm64Trampoline
begin

text \<open>
  Memory near a given address (\<^verbatim>\<open>NearMemoryArena.cc\<close>): a search for a free page in reach of a branch, and an arena of
  the pages found. What the system decides is an argument: the memory layout that it reports and the
  outcome of \<^verbatim>\<open>OSMemory::Allocate\<close> at a given address, anew for every search. The allocation loop jumps
  back without a bound, so it is a partial function (\<open>None\<close> is a loop that does not end).
\<close>

section \<open>Address arithmetic\<close>

record MemoryRegion =
  region_address :: addr
  region_length :: u64
  region_permission :: MemoryPermission

definition addr_max :: "addr \<Rightarrow> addr \<Rightarrow> addr" where
  "addr_max a b = (if a > b then a else b)"

definition addr_sub :: "addr \<Rightarrow> addr \<Rightarrow> addr" where
  "addr_sub a b = (if a > a - b then a - b else 0)"

definition addr_add :: "addr \<Rightarrow> addr \<Rightarrow> addr" where
  "addr_add a b = (if a < a + b then a + b else - 1)"

definition prev_page :: "addr \<Rightarrow> int \<Rightarrow> addr" where
  "prev_page cur pagesize =
     (let aligned_addr = page_of pagesize cur; r = aligned_addr - word_of_int pagesize
      in if r \<le> aligned_addr then r else aligned_addr)"

definition next_page :: "addr \<Rightarrow> int \<Rightarrow> addr" where
  "next_page cur pagesize =
     (let aligned_addr = page_of pagesize cur; r = aligned_addr + word_of_int pagesize
      in if r \<ge> aligned_addr then r else aligned_addr)"

section \<open>The search for a page\<close>

text \<open>What one search sees of the system: the regions in order, and \<^verbatim>\<open>Allocate\<close> for one page at an address.\<close>

record system_view =
  process_memory_layout :: "MemoryRegion list"
  Allocate :: "addr \<Rightarrow> addr"

definition region_end :: "MemoryRegion \<Rightarrow> addr" where
  "region_end r = region_address r + region_length r"

text \<open>The cave in front of a region is only looked at while the assumed page is still the lowest one.\<close>

definition left_blank :: "int \<Rightarrow> system_view \<Rightarrow> addr \<Rightarrow> nat \<Rightarrow> addr \<Rightarrow> addr option" where
  "left_blank ps v min_page i assume_page =
     (let layout = process_memory_layout v;
          prev_region_end = next_page (region_end (layout ! (i - 1))) ps
      in if 1 \<le> i \<and> assume_page = min_page \<and> region_address (layout ! i) > prev_region_end
         then Some (addr_max min_page prev_region_end) else None)"

function blank_page_loop :: "int \<Rightarrow> system_view \<Rightarrow> addr \<Rightarrow> addr \<Rightarrow> nat \<Rightarrow> addr \<Rightarrow> addr \<Rightarrow> asm_fault + addr" where
  "blank_page_loop ps v min_page max_page i assume_page result_page =
     (let layout = process_memory_layout v in
      if i < length layout then
        (let region = layout ! i in
         if region_end region < max_page \<and> min_page \<le> region_address region then
           (let left = left_blank ps v min_page i assume_page;
                assume_page = (case left of None \<Rightarrow> assume_page | Some a \<Rightarrow> a);
                result_page = (case left of None \<Rightarrow> result_page | Some a \<Rightarrow> Allocate v a)
            in if left \<noteq> None \<and> result_page \<noteq> 0 then Inr result_page
               else if of_nat i \<le> (of_nat (length layout) - 2 :: u64) then
                 (if i + 1 < length layout then
                    (if region_end region < region_address (layout ! (i + 1)) then
                       (let a = next_page (region_end region) ps; result_page = Allocate v a
                        in if result_page \<noteq> 0 then Inr result_page
                           else blank_page_loop ps v min_page max_page (i + 1) a result_page)
                     else blank_page_loop ps v min_page max_page (i + 1) assume_page result_page)
                  else Inl Wild_access)
               else blank_page_loop ps v min_page max_page (i + 1) assume_page result_page)
         else blank_page_loop ps v min_page max_page (i + 1) assume_page result_page)
      else Inr result_page)"
  by pat_completeness auto
termination
  by (relation "measure (\<lambda>(ps, v, mn, mx, i, a, r). length (process_memory_layout v) - i)") auto

declare blank_page_loop.simps [simp del]

text \<open>Both border cases try the lowest page, whatever they computed before. An empty layout fails the assertion.\<close>

definition min_page_addr :: "int \<Rightarrow> addr \<Rightarrow> u64 \<Rightarrow> addr" where
  "min_page_addr ps near_pos alloc_range = next_page (addr_sub near_pos alloc_range) ps"

definition max_page_addr :: "int \<Rightarrow> addr \<Rightarrow> u64 \<Rightarrow> addr" where
  "max_page_addr ps near_pos alloc_range = prev_page (addr_add near_pos alloc_range) ps"

definition search_near_blank_page :: "int \<Rightarrow> system_view \<Rightarrow> addr \<Rightarrow> u64 \<Rightarrow> asm_fault + addr" where
  "search_near_blank_page ps v near_pos alloc_range =
     (let min_page = min_page_addr ps near_pos alloc_range;
          max_page = max_page_addr ps near_pos alloc_range;
          layout = process_memory_layout v
      in if layout = [] then Inl Abort_unreachable
         else if min_page < region_address (hd layout) \<and> Allocate v min_page \<noteq> 0 then Inr (Allocate v min_page)
         else if max_page < region_end (last layout) \<and> Allocate v min_page \<noteq> 0 then Inr (Allocate v min_page)
         else blank_page_loop ps v min_page max_page 0 min_page 0)"

section \<open>The search for a cave\<close>

text \<open>\<^verbatim>\<open>memmem\<close>: the first place where the needle stands in a range of memory.\<close>

definition memmem :: "(addr \<Rightarrow> u8) \<Rightarrow> addr \<Rightarrow> nat \<Rightarrow> u8 list \<Rightarrow> addr option" where
  "memmem m start n needle =
     map_option (\<lambda>i. start + of_nat i)
       (List.find (\<lambda>i. map (\<lambda>j. m (start + of_nat (i + j))) [0..<length needle] = needle)
          [0..<(n + 1) - length needle])"

text \<open>The block of zeros has \<^verbatim>\<open>alloc_size\<close> bytes when it is allocated and is compared with three more; the size keeps growing.\<close>

fun blank_chunk_loop :: "(addr \<Rightarrow> u8) \<Rightarrow> addr \<Rightarrow> addr \<Rightarrow> MemoryRegion list \<Rightarrow> int \<Rightarrow> asm_fault + addr" where
  "blank_chunk_loop m min_page max_page [] alloc_size = Inr 0"
| "blank_chunk_loop m min_page max_page (region # regions) alloc_size =
     (if region_permission region \<in> {kReadExecute, kRead} \<and> region_end region \<le> max_page \<and> min_page \<le> region_address region
      then
        (let blank_memory = replicate (nat alloc_size) 0; alloc_size = alloc_size + (4 - 1) in
         bindE (load_at 0 (nat alloc_size) blank_memory) (\<lambda>needle.
         case memmem m (region_address region) (unat (region_length region)) needle of
           Some a \<Rightarrow> Inr (a + (4 - a mod 4))
         | None \<Rightarrow> blank_chunk_loop m min_page max_page regions alloc_size))
      else blank_chunk_loop m min_page max_page regions alloc_size)"

definition search_near_blank_memory_chunk ::
  "int \<Rightarrow> system_view \<Rightarrow> (addr \<Rightarrow> u8) \<Rightarrow> addr \<Rightarrow> u64 \<Rightarrow> int \<Rightarrow> asm_fault + addr" where
  "search_near_blank_memory_chunk ps v m near_pos alloc_range alloc_size =
     blank_chunk_loop m (min_page_addr ps near_pos alloc_range) (max_page_addr ps near_pos alloc_range)
       (process_memory_layout v) alloc_size"

section \<open>The near arena\<close>

definition near_has_room :: "addr \<Rightarrow> u64 \<Rightarrow> int \<Rightarrow> MemoryPermission \<Rightarrow> PageChunk \<Rightarrow> bool" where
  "near_has_room near_pos alloc_range alloc_size perm pg \<longleftrightarrow>
     permission pg = perm \<and> llabs (page_cursor pg - near_pos) < alloc_range \<and>
     page_cursor pg + word_of_int alloc_size < chunk_address (page pg) + chunk_length (page pg)"

definition PushPage :: "int \<Rightarrow> addr \<Rightarrow> MemoryPermission \<Rightarrow> PageChunk list \<Rightarrow> PageChunk list" where
  "PushPage ps page_addr perm pgs = pgs @ [new_page page_addr (word_of_int ps) perm]"

text \<open>Round \<open>i\<close> sees the system as \<open>view i\<close>. A page that is found is mapped, zeroed, and set to the permission asked for.\<close>

partial_function (option) near_search ::
  "(nat \<Rightarrow> system_view) \<Rightarrow> nat \<Rightarrow> int \<Rightarrow> addr \<Rightarrow> u64 \<Rightarrow> int \<Rightarrow> MemoryPermission \<Rightarrow> process \<Rightarrow>
     (asm_fault + (MemoryChunk option \<times> process)) option" where
  "near_search view i ps near_pos alloc_range alloc_size perm P =
     (let pgs = arena_pages (near_arena P) in
      case find_page (near_has_room near_pos alloc_range alloc_size perm) pgs of
        Some j \<Rightarrow> (let (chunk, pg) = cut_chunk alloc_size (pgs ! j)
                   in Some (Inr (Some chunk, P\<lparr>near_arena := Some (pgs[j := pg])\<rparr>)))
      | None \<Rightarrow>
          (case search_near_blank_page ps (view i) near_pos alloc_range of
             Inl f \<Rightarrow> Some (Inl f)
           | Inr a \<Rightarrow>
               if a \<noteq> 0 then
                 near_search view (Suc i) ps near_pos alloc_range alloc_size perm
                   ((map_page ps a perm P)\<lparr>near_arena := Some (PushPage ps a perm pgs)\<rparr>)
               else if perm = kReadWrite then Some (Inr (None, P\<lparr>near_arena := Some pgs\<rparr>))
               else Some (bindE (search_near_blank_memory_chunk ps (view i) (memory P) near_pos alloc_range alloc_size) (\<lambda>b.
                 Inr (if b = 0 then None else Some \<lparr>chunk_address = b, chunk_length = word_of_int alloc_size\<rparr>,
                      P\<lparr>near_arena := Some pgs\<rparr>)))))"

definition near_AllocateChunk ::
  "(nat \<Rightarrow> system_view) \<Rightarrow> int \<Rightarrow> addr \<Rightarrow> u64 \<Rightarrow> int \<Rightarrow> MemoryPermission \<Rightarrow> process \<Rightarrow>
     (asm_fault + (MemoryChunk option \<times> process)) option" where
  "near_AllocateChunk view ps near_pos alloc_range alloc_size perm P = near_search view 0 ps near_pos alloc_range alloc_size perm P"

definition near_AllocateCodeChunk ::
  "(nat \<Rightarrow> system_view) \<Rightarrow> int \<Rightarrow> addr \<Rightarrow> u64 \<Rightarrow> int \<Rightarrow> process \<Rightarrow> (asm_fault + (MemoryChunk option \<times> process)) option" where
  "near_AllocateCodeChunk view ps near_pos alloc_range alloc_size P = near_AllocateChunk view ps near_pos alloc_range alloc_size kReadExecute P"

definition near_AllocateDataChunk ::
  "(nat \<Rightarrow> system_view) \<Rightarrow> int \<Rightarrow> addr \<Rightarrow> u64 \<Rightarrow> int \<Rightarrow> process \<Rightarrow> (asm_fault + (MemoryChunk option \<times> process)) option" where
  "near_AllocateDataChunk view ps near_pos alloc_range alloc_size P = near_AllocateChunk view ps near_pos alloc_range alloc_size kReadWrite P"

section \<open>Pages in reach\<close>

lemma unat_addr_sub: "b \<noteq> 0 \<Longrightarrow> unat (addr_sub a b) = unat a - unat b"
proof -
  assume b: "b \<noteq> 0"
  have lt: "unat a < 2 ^ 64" "unat b < 2 ^ 64" "0 < unat b" using unsigned_less [of a] unsigned_less [of b] b by (simp_all add: unat_gt_0)
  then show ?thesis
    by (cases "unat b \<le> unat a") (auto simp: addr_sub_def word_less_nat_alt unat_sub_if')
qed

lemma unat_addr_add: "b \<noteq> 0 \<Longrightarrow> unat (addr_add a b) = min (unat a + unat b) (2 ^ 64 - 1)"
proof (cases "unat a + unat b < 2 ^ 64")
  case True
  moreover assume "b \<noteq> 0"
  moreover from True have "unat (a + b) = unat a + unat b" by (intro unat_add_small) simp
  ultimately show ?thesis by (simp add: addr_add_def word_less_nat_alt unat_gt_0)
next
  case False
  then have "unat (a + b) = unat a + unat b - 2 ^ 64" by (subst unat_plus_if') simp
  moreover have "unat b < 2 ^ 64" using unsigned_less [of b] by simp
  ultimately have "\<not> a < a + b" by (simp add: word_less_nat_alt)
  then show ?thesis using False by (simp add: addr_add_def unsigned_minus_1_eq_mask mask_eq_exp_minus_1)
qed

lemma unat_page_of: "unat (page_of (2 ^ k) a) = unat a - unat a mod 2 ^ k"
  by (simp add: page_of_pow2 unat_ALIGN_FLOOR)

text \<open>The page behind an address, when there is one, and the page before it.\<close>

lemma unat_next_page:
  assumes "k < 31" and "unat a - unat a mod 2 ^ k + 2 ^ k < 2 ^ 64"
  shows "unat (next_page a (2 ^ k)) = unat a - unat a mod 2 ^ k + 2 ^ k"
proof -
  have u: "unat (2 ^ k :: u64) = 2 ^ k" using assms(1) by (rule unat_pow2)
  have "unat (page_of (2 ^ k) a + 2 ^ k) = unat a - unat a mod 2 ^ k + 2 ^ k"
    using assms(2) by (subst unat_add_small) (simp_all add: u unat_page_of)
  then show ?thesis by (simp add: next_page_def Let_def word_le_nat_alt unat_page_of)
qed

lemma unat_prev_page:
  assumes "k < 31" and "2 ^ k \<le> unat a"
  shows "unat (prev_page a (2 ^ k)) = unat a - unat a mod 2 ^ k - 2 ^ k"
proof -
  have u: "unat (2 ^ k :: u64) = 2 ^ k" using assms(1) by (rule unat_pow2)
  have "2 ^ k \<le> unat a - unat a mod 2 ^ k"
    using assms(2) div_le_mono [of "2 ^ k" "unat a" "2 ^ k"] by (simp add: minus_mod_eq_div_mult)
  then have "unat (page_of (2 ^ k) a - 2 ^ k) = unat a - unat a mod 2 ^ k - 2 ^ k"
    by (subst unat_sub) (simp_all add: word_le_nat_alt u unat_page_of)
  moreover have "unat a - unat a mod 2 ^ k - 2 ^ k \<le> unat a - unat a mod 2 ^ k" by (rule diff_le_self)
  ultimately show ?thesis by (simp only: prev_page_def Let_def word_le_nat_alt unat_page_of of_int_power of_int_numeral if_True)
qed

lemma next_page_aligned:
  assumes "k < 31"
  shows "unat (next_page a (2 ^ k)) mod 2 ^ k = 0"
proof (cases "unat a - unat a mod 2 ^ k + 2 ^ k < 2 ^ 64")
  case True
  then show ?thesis using unat_next_page [OF assms True] by (simp add: minus_mod_eq_mult_div)
next
  case False
  let ?r = "page_of (2 ^ k) a + 2 ^ k :: u64"
  have u: "unat (2 ^ k :: u64) = 2 ^ k" using assms by (rule unat_pow2)
  have "(2 :: nat) ^ k < 2 ^ 64" using assms by (intro power_strict_increasing) simp_all
  moreover have "unat ?r = unat a - unat a mod 2 ^ k + 2 ^ k - 2 ^ 64"
    using False by (subst unat_plus_if') (simp add: u unat_page_of)
  ultimately have "unat ?r < unat (page_of (2 ^ k) a)" using False unfolding unat_page_of by linarith
  then have "next_page a (2 ^ k) = page_of (2 ^ k) a" by (simp add: next_page_def Let_def word_le_nat_alt)
  then show ?thesis by (simp add: unat_page_of minus_mod_eq_mult_div)
qed

text \<open>A page of the machine that a branch of the given range reaches.\<close>

definition in_reach :: "nat \<Rightarrow> addr \<Rightarrow> u64 \<Rightarrow> addr \<Rightarrow> bool" where
  "in_reach k near_pos alloc_range a \<longleftrightarrow>
     unat a mod 2 ^ k = 0 \<and> unat near_pos < unat a + unat alloc_range \<and>
     unat a + 2 ^ k \<le> unat near_pos + unat alloc_range \<and> unat a + 2 ^ k \<le> 2 ^ 64"

definition range_ok :: "nat \<Rightarrow> u64 \<Rightarrow> bool" where
  "range_ok k alloc_range \<longleftrightarrow> k < 31 \<and> 2 ^ (k + 1) \<le> unat alloc_range"

lemma min_page_bounds:
  assumes "range_ok k r"
  shows "unat (min_page_addr (2 ^ k) near_pos r) mod 2 ^ k = 0"
    and "unat near_pos < unat (min_page_addr (2 ^ k) near_pos r) + unat r"
    and "unat (min_page_addr (2 ^ k) near_pos r) \<le> unat near_pos - unat r + 2 ^ k"
    and "0 < unat (min_page_addr (2 ^ k) near_pos r)"
proof -
  let ?a = "unat near_pos - unat r"
  have k: "k < 31" "2 * 2 ^ k \<le> unat r" using assms by (simp_all add: range_ok_def)
  have lt: "unat near_pos < 2 ^ 64" "unat r < 2 ^ 64" using unsigned_less [of near_pos] unsigned_less [of r] by simp_all
  have pos: "(0::nat) < 2 ^ k" by simp
  then have r: "r \<noteq> 0" using k(2) by auto
  have "?a - ?a mod 2 ^ k + 2 ^ k < 2 ^ 64" using lt k(2) pos by linarith
  then have m: "unat (min_page_addr (2 ^ k) near_pos r) = ?a - ?a mod 2 ^ k + 2 ^ k"
    unfolding min_page_addr_def using unat_next_page [OF k(1), of "addr_sub near_pos r"] by (simp add: unat_addr_sub [OF r])
  have "?a mod 2 ^ k < 2 ^ k" "?a mod 2 ^ k \<le> ?a" using pos by simp_all
  then show "unat near_pos < unat (min_page_addr (2 ^ k) near_pos r) + unat r"
    "unat (min_page_addr (2 ^ k) near_pos r) \<le> ?a + 2 ^ k" "0 < unat (min_page_addr (2 ^ k) near_pos r)"
    unfolding m by linarith+
  show "unat (min_page_addr (2 ^ k) near_pos r) mod 2 ^ k = 0" unfolding m by (simp add: minus_mod_eq_mult_div)
qed

lemma max_page_bounds:
  assumes "range_ok k r"
  shows "unat (max_page_addr (2 ^ k) near_pos r) mod 2 ^ k = 0"
    and "unat (max_page_addr (2 ^ k) near_pos r) + 2 ^ k \<le> unat near_pos + unat r"
    and "unat (max_page_addr (2 ^ k) near_pos r) + 2 ^ k < 2 ^ 64"
proof -
  let ?a = "min (unat near_pos + unat r) (2 ^ 64 - 1)"
  have k: "k < 31" "2 * 2 ^ k \<le> unat r" using assms by (simp_all add: range_ok_def)
  have pos: "(0::nat) < 2 ^ k" by simp
  then have r: "r \<noteq> 0" using k(2) by auto
  have "unat r < 2 ^ 64" using unsigned_less [of r] by simp
  then have big: "2 * 2 ^ k \<le> ?a" using k(2) by simp
  then have "2 ^ k \<le> ?a" by linarith
  then have m: "unat (max_page_addr (2 ^ k) near_pos r) = ?a - ?a mod 2 ^ k - 2 ^ k"
    unfolding max_page_addr_def using unat_prev_page [OF k(1), of "addr_add near_pos r"] by (simp only: unat_addr_add [OF r])
  have md: "?a mod 2 ^ k < 2 ^ k" using pos by simp
  have "?a \<le> unat near_pos + unat r" "?a < 2 ^ 64" by simp_all
  then show "unat (max_page_addr (2 ^ k) near_pos r) + 2 ^ k \<le> unat near_pos + unat r"
    "unat (max_page_addr (2 ^ k) near_pos r) + 2 ^ k < 2 ^ 64"
    unfolding m using md big by linarith+
  have "?a - ?a mod 2 ^ k - 2 ^ k = (?a div 2 ^ k - 1) * 2 ^ k" by (simp add: minus_mod_eq_div_mult diff_mult_distrib)
  then show "unat (max_page_addr (2 ^ k) near_pos r) mod 2 ^ k = 0" unfolding m by (metis mod_mult_self2_is_0)
qed

text \<open>
  What is relied on of the system: a mapping at a fixed address is made there or fails, and the regions lie in the address
  space.
\<close>

definition view_ok :: "system_view \<Rightarrow> bool" where
  "view_ok v \<longleftrightarrow> (\<forall>a. Allocate v a \<noteq> 0 \<longrightarrow> Allocate v a = a) \<and>
     list_all (\<lambda>r. unat (region_address r) + unat (region_length r) < 2 ^ 64) (process_memory_layout v)"

lemma unat_region_end:
  "view_ok v \<Longrightarrow> i < length (process_memory_layout v) \<Longrightarrow>
     unat (region_end (process_memory_layout v ! i)) =
       unat (region_address (process_memory_layout v ! i)) + unat (region_length (process_memory_layout v ! i))"
  unfolding region_end_def by (rule unat_add_small) (simp add: view_ok_def list_all_length)

lemma next_page_between:
  assumes k: "k < 31" and m: "unat (M :: addr) mod 2 ^ k = 0" and a: "unat a < unat M"
  shows "unat (next_page a (2 ^ k)) \<le> unat M" and "unat a < unat (next_page a (2 ^ k))" and "unat (next_page a (2 ^ k)) mod 2 ^ k = 0"
proof -
  obtain q where q: "unat M = 2 ^ k * q" using m by (meson mod_eq_0_iff_dvd dvd_def)
  let ?d = "unat a div 2 ^ k"
  have "?d < q" using a unfolding q by (simp add: less_mult_imp_div_less mult.commute)
  then have "2 ^ k * (?d + 1) \<le> 2 ^ k * q" by (intro mult_le_mono2) simp
  then have le: "2 ^ k * ?d + 2 ^ k \<le> unat M" unfolding q by (simp add: distrib_left)
  have fl: "unat a - unat a mod 2 ^ k = 2 ^ k * ?d" by (rule minus_mod_eq_mult_div)
  have "unat M < 2 ^ 64" using unsigned_less [of M] by simp
  then have n: "unat (next_page a (2 ^ k)) = 2 ^ k * ?d + 2 ^ k"
    using unat_next_page [OF k, of a] le unfolding fl by linarith
  have "unat a < 2 ^ k + 2 ^ k * ?d" by (rule dividend_less_times_div) simp
  then show "unat (next_page a (2 ^ k)) \<le> unat M" "unat a < unat (next_page a (2 ^ k))"
    using le unfolding n by linarith+
  show "unat (next_page a (2 ^ k)) mod 2 ^ k = 0" unfolding n by simp
qed

lemma in_reach_between:
  assumes "range_ok k r" and "unat (min_page_addr (2 ^ k) near_pos r) \<le> unat a" and "unat a \<le> unat (max_page_addr (2 ^ k) near_pos r)"
    and "unat a mod 2 ^ k = 0"
  shows "in_reach k near_pos r a"
  using assms min_page_bounds [OF assms(1), of near_pos] max_page_bounds [OF assms(1), of near_pos] by (simp add: in_reach_def)

lemma in_reach_min:
  assumes "range_ok k r"
  shows "in_reach k near_pos r (min_page_addr (2 ^ k) near_pos r)"
proof -
  have lt: "unat near_pos < 2 ^ 64" "unat r < 2 ^ 64" using unsigned_less [of near_pos] unsigned_less [of r] by simp_all
  have "2 * 2 ^ k \<le> unat r" using assms by (simp add: range_ok_def)
  then show ?thesis
    unfolding in_reach_def using min_page_bounds [OF assms, of near_pos] lt by linarith
qed

lemma left_blank_in_reach:
  assumes ok: "range_ok k r" "view_ok v" and i: "i < length (process_memory_layout v)"
    and reg: "region_end (process_memory_layout v ! i) < max_page_addr (2 ^ k) near_pos r"
      "min_page_addr (2 ^ k) near_pos r \<le> region_address (process_memory_layout v ! i)"
    and left: "left_blank (2 ^ k) v (min_page_addr (2 ^ k) near_pos r) i assume_page = Some a"
  shows "in_reach k near_pos r a"
proof -
  let ?m = "min_page_addr (2 ^ k) near_pos r" let ?M = "max_page_addr (2 ^ k) near_pos r"
  let ?e = "next_page (region_end (process_memory_layout v ! (i - 1))) (2 ^ k)"
  let ?s = "region_address (process_memory_layout v ! i)"
  have a: "a = addr_max ?m ?e" "?e < ?s" using left by (auto simp: left_blank_def Let_def split: if_splits)
  have top: "unat ?s < unat ?M" using reg(1) unat_region_end [OF ok(2) i] by (simp add: word_less_nat_alt)
  have k: "k < 31" using ok(1) by (simp add: range_ok_def)
  show ?thesis
  proof (rule in_reach_between [OF ok(1)])
    show "unat ?m \<le> unat a" "unat a \<le> unat ?M"
      using a top reg(2) by (auto simp: addr_max_def word_less_nat_alt word_le_nat_alt)
    show "unat a mod 2 ^ k = 0"
      unfolding a(1) addr_max_def using next_page_aligned [OF k] min_page_bounds(1) [OF ok(1)] by simp
  qed
qed

lemma right_blank_in_reach:
  assumes ok: "range_ok k r" "view_ok v" and i: "i < length (process_memory_layout v)"
    and reg: "region_end (process_memory_layout v ! i) < max_page_addr (2 ^ k) near_pos r"
      "min_page_addr (2 ^ k) near_pos r \<le> region_address (process_memory_layout v ! i)"
  shows "in_reach k near_pos r (next_page (region_end (process_memory_layout v ! i)) (2 ^ k))"
proof -
  let ?M = "max_page_addr (2 ^ k) near_pos r" let ?e = "region_end (process_memory_layout v ! i)"
  have k: "k < 31" using ok(1) by (simp add: range_ok_def)
  have "unat ?e < unat ?M" using reg(1) by (simp add: word_less_nat_alt)
  note n = next_page_between [OF k max_page_bounds(1) [OF ok(1)] this]
  have "unat (min_page_addr (2 ^ k) near_pos r) \<le> unat ?e"
    using reg(2) unat_region_end [OF ok(2) i] by (simp add: word_le_nat_alt)
  then show ?thesis using n by (intro in_reach_between [OF ok(1)]) simp_all
qed

lemma Allocate_in_reach:
  "\<lbrakk>view_ok v; in_reach k p r a; Allocate v a \<noteq> 0\<rbrakk> \<Longrightarrow> in_reach k p r (Allocate v a) \<and> Allocate v (Allocate v a) = Allocate v a"
  by (metis view_ok_def)

lemma blank_page_loop_in_reach:
  assumes ok: "range_ok k r" "view_ok v"
  shows "blank_page_loop (2 ^ k) v (min_page_addr (2 ^ k) near_pos r) (max_page_addr (2 ^ k) near_pos r) i assume_page 0 = Inr a \<Longrightarrow>
    a \<noteq> 0 \<Longrightarrow> in_reach k near_pos r a \<and> Allocate v a = a"
proof (induction "length (process_memory_layout v) - i" arbitrary: i assume_page rule: less_induct)
  case less
  let ?l = "process_memory_layout v"
  let ?m = "min_page_addr (2 ^ k) near_pos r" let ?M = "max_page_addr (2 ^ k) near_pos r"
  note unf = less.prems(1) [unfolded blank_page_loop.simps [of "2 ^ k" v ?m ?M i assume_page 0]]
  have i: "i < length ?l" using unf less.prems(2) by (cases "i < length ?l") (simp_all add: Let_def)
  have rest: "in_reach k near_pos r a \<and> Allocate v a = a" if "blank_page_loop (2 ^ k) v ?m ?M (i + 1) b 0 = Inr a" for b
    using less.hyps [OF _ that less.prems(2)] i by simp
  show ?case
  proof (cases "region_end (?l ! i) < ?M \<and> ?m \<le> region_address (?l ! i)")
    case False
    then show ?thesis using unf i rest by (auto simp: Let_def)
  next
    case True
    note left = left_blank_in_reach [OF ok i conjunct1 [OF True] conjunct2 [OF True]]
    note right = right_blank_in_reach [OF ok i conjunct1 [OF True] conjunct2 [OF True]]
    show ?thesis
      using unf i True rest left Allocate_in_reach [OF ok(2) left] Allocate_in_reach [OF ok(2) right]
      by (auto simp: Let_def split: option.splits if_splits)
  qed
qed

lemma search_in_reach:
  assumes "range_ok k r" and "view_ok v" and "search_near_blank_page (2 ^ k) v near_pos r = Inr a" and "a \<noteq> 0"
  shows "in_reach k near_pos r a \<and> Allocate v a = a"
  using assms blank_page_loop_in_reach [OF assms(1,2)] Allocate_in_reach [OF assms(2) in_reach_min [OF assms(1)]]
  by (auto simp: search_near_blank_page_def Let_def split: if_splits)

section \<open>Allocation near an address\<close>

lemma llabs_in_reach:
  assumes "in_reach k near_pos r a" and "unat r < 2 ^ 63"
  shows "llabs (a - near_pos) < r"
proof -
  let ?d = "int (unat a) - int (unat near_pos)"
  have "(0 :: nat) < 2 ^ k" by simp
  then have "unat near_pos < unat a + unat r" "unat a < unat near_pos + unat r"
    using assms(1) unfolding in_reach_def by linarith+
  then have d: "\<bar>?d\<bar> < int (unat r)" by linarith
  have eq: "a - near_pos = word_of_int ?d" by simp
  have "int (unat r) < int (2 ^ 63)" using assms(2) by (simp only: of_nat_less_iff)
  then have r: "int (unat r) < 2 ^ 63" unfolding of_nat_power of_nat_numeral .
  have "sint (a - near_pos) = signed_take_bit 63 ?d" unfolding eq signed_of_int by simp
  also have "\<dots> = ?d" by (rule signed_take_bit_int_eq_self) (use d r in linarith)+
  finally have "sint (a - near_pos) = ?d" .
  then have "uint (llabs (a - near_pos)) < int (unat r)" using d by (simp add: uint_llabs)
  then show ?thesis by (simp add: word_less_def)
qed

text \<open>After a page was found, the next round takes the chunk from it (or from a page in front of it).\<close>

lemma near_search_second:
  assumes ok: "range_ok k r" "unat r < 2 ^ 63" and a: "in_reach k near_pos r a" "a \<noteq> 0" "unat a + 2 ^ k < 2 ^ 63"
    and n: "0 \<le> n" "n < 2 ^ k"
    and pgs: "arena_pages (near_arena P) = PushPage (2 ^ k) a perm pgs"
  obtains j c pg where "near_search view i (2 ^ k) near_pos r n perm P = Some (Inr (Some c, P\<lparr>near_arena := Some ((PushPage (2 ^ k) a perm pgs)[j := pg])\<rparr>))"
    "j < length (PushPage (2 ^ k) a perm pgs)" "near_has_room near_pos r n perm (PushPage (2 ^ k) a perm pgs ! j)"
    "cut_chunk n (PushPage (2 ^ k) a perm pgs ! j) = (c, pg)"
proof -
  let ?new = "new_page a (word_of_int (2 ^ k)) perm" let ?pgs = "PushPage (2 ^ k) a perm pgs"
  have k: "k < 31" using ok(1) by (simp add: range_ok_def)
  have u: "unat (2 ^ k :: u64) = 2 ^ k" using k by (rule unat_pow2)
  have "(2 :: int) ^ k < 2 ^ 64" using k by (intro power_strict_increasing) simp_all
  then have un: "unat (word_of_int n :: u64) = nat n" using n by (intro unat_word_of_int) simp_all
  have nk: "nat n < 2 ^ k" using n by (simp add: nat_less_iff)
  then have "unat a + nat n < unat a + 2 ^ k" by (rule add_strict_left_mono)
  then have sum: "unat a + nat n < 2 ^ 64" using a(3) by (rule less_trans [OF less_trans]) simp
  have "unat (a + word_of_int n) = unat a + nat n" using sum by (subst unat_add_small) (simp_all add: un)
  moreover have "unat (a + 2 ^ k) = unat a + 2 ^ k" using a(3) by (subst unat_add_small) (simp_all add: u)
  ultimately have "a + word_of_int n < a + 2 ^ k" using nk by (simp add: word_less_nat_alt)
  then have room: "near_has_room near_pos r n perm ?new"
    using llabs_in_reach [OF a(1) ok(2)] by (simp add: near_has_room_def new_page_def)
  then have "find_page (near_has_room near_pos r n perm) ?pgs \<noteq> None" by (auto simp: find_page_None PushPage_def)
  then obtain j where j: "find_page (near_has_room near_pos r n perm) ?pgs = Some j" by blast
  obtain c pg where c: "cut_chunk n (?pgs ! j) = (c, pg)" by fastforce
  show thesis
    by (rule that [of c j pg]) (use find_page_Some [OF j] j c pgs in \<open>simp_all add: near_search.simps\<close>)
qed

text \<open>What a caller gets: nothing, or a chunk in reach whose size is as asked and which lies in a page of the near arena.\<close>

definition near_granted :: "addr \<Rightarrow> u64 \<Rightarrow> int \<Rightarrow> MemoryChunk \<Rightarrow> process \<Rightarrow> bool" where
  "near_granted near_pos alloc_range n c P \<longleftrightarrow>
     llabs (chunk_address c - near_pos) < alloc_range \<and> chunk_length c = word_of_int n \<and>
     list_ex (\<lambda>pg. c \<in> set (page_objects pg)) (arena_pages (near_arena P))"

lemma near_cut_granted:
  assumes "j < length pgs" and "near_has_room near_pos r n perm (pgs ! j)" and "cut_chunk n (pgs ! j) = (c, pg)"
  shows "near_granted near_pos r n c (P\<lparr>near_arena := Some (pgs[j := pg])\<rparr>)"
proof -
  have "c \<in> set (page_objects pg)" using assms(3) by (auto simp: cut_chunk_def Let_def)
  moreover have "pg \<in> set (pgs[j := pg])" using assms(1) by (rule set_update_memI)
  ultimately show ?thesis
    using assms(2,3) by (auto simp: near_granted_def near_has_room_def cut_chunk_def Let_def arena_pages_def list_ex_iff)
qed

text \<open>The cave search compares three bytes behind its block, so it never finds a cave: it gives up or reads out of bounds.\<close>

lemma load_beyond: "0 \<le> n \<Longrightarrow> load_at 0 (nat (n + 3)) (replicate (nat n) (0 :: u8)) = Inl Wild_access"
  by (simp add: load_at_def nat_add_distrib)

lemma blank_chunk_loop_result: "0 \<le> n \<Longrightarrow> blank_chunk_loop m mn mx rs n \<in> {Inr 0, Inl Wild_access}"
  by (induction rs) (auto simp: Let_def load_beyond)

lemma near_search_returns:
  assumes ok: "range_ok k alloc_range" "unat near_pos + unat alloc_range < 2 ^ 63"
    and v: "\<forall>i. view_ok (view i)" and n: "0 \<le> n" "n < 2 ^ k"
  obtains (fault) f where "near_AllocateChunk view (2 ^ k) near_pos alloc_range n perm P = Some (Inl f)"
  | (refused) P' where "near_AllocateChunk view (2 ^ k) near_pos alloc_range n perm P = Some (Inr (None, P'))"
  | (kept) j c pg where "near_AllocateChunk view (2 ^ k) near_pos alloc_range n perm P =
        Some (Inr (Some c, P\<lparr>near_arena := Some ((arena_pages (near_arena P))[j := pg])\<rparr>))"
      "j < length (arena_pages (near_arena P))" "near_has_room near_pos alloc_range n perm (arena_pages (near_arena P) ! j)"
      "cut_chunk n (arena_pages (near_arena P) ! j) = (c, pg)"
  | (mapped) a j c pg where "in_reach k near_pos alloc_range a" "a \<noteq> 0" "Allocate (view 0) a = a"
      "near_AllocateChunk view (2 ^ k) near_pos alloc_range n perm P =
        Some (Inr (Some c, (map_page (2 ^ k) a perm P)\<lparr>near_arena := Some ((PushPage (2 ^ k) a perm (arena_pages (near_arena P)))[j := pg])\<rparr>))"
      "j < length (PushPage (2 ^ k) a perm (arena_pages (near_arena P)))"
      "near_has_room near_pos alloc_range n perm (PushPage (2 ^ k) a perm (arena_pages (near_arena P)) ! j)"
      "cut_chunk n (PushPage (2 ^ k) a perm (arena_pages (near_arena P)) ! j) = (c, pg)"
proof -
  let ?pgs = "arena_pages (near_arena P)" let ?room = "near_has_room near_pos alloc_range n perm"
  have small: "unat alloc_range < 2 ^ 63" using ok(2) by linarith
  note unf = near_AllocateChunk_def near_search.simps [of view 0 "2 ^ k" near_pos alloc_range n perm P]
  show thesis
  proof (cases "find_page ?room ?pgs")
    case (Some j)
    obtain c pg where c: "cut_chunk n (?pgs ! j) = (c, pg)" by fastforce
    show ?thesis by (rule kept [of c j pg]) (use find_page_Some [OF Some] Some c in \<open>simp_all add: unf\<close>)
  next
    case none: None
    show ?thesis
    proof (cases "\<exists>a. search_near_blank_page (2 ^ k) (view 0) near_pos alloc_range = Inr a \<and> a \<noteq> 0")
      case True
      then obtain a where a: "search_near_blank_page (2 ^ k) (view 0) near_pos alloc_range = Inr a" "a \<noteq> 0" by blast
      let ?P = "(map_page (2 ^ k) a perm P)\<lparr>near_arena := Some (PushPage (2 ^ k) a perm ?pgs)\<rparr>"
      have reach: "in_reach k near_pos alloc_range a" "Allocate (view 0) a = a" using search_in_reach [OF ok(1) _ a] v by simp_all
      then have top: "unat a + 2 ^ k < 2 ^ 63" using ok(2) unfolding in_reach_def by linarith
      have pgs: "arena_pages (near_arena ?P) = PushPage (2 ^ k) a perm ?pgs" by (simp add: arena_pages_def)
      show ?thesis
        by (rule near_search_second [OF ok(1) small reach(1) a(2) top n pgs, of view "Suc 0"], rule mapped [OF reach(1) a(2) reach(2)])
          (use none a in \<open>simp_all add: unf\<close>)
    next
      case False
      let ?b = "search_near_blank_memory_chunk (2 ^ k) (view 0) (memory P) near_pos alloc_range n"
      have b: "?b = Inr 0 \<or> ?b = Inl Wild_access"
        using blank_chunk_loop_result [OF n(1)] by (fastforce simp: search_near_blank_memory_chunk_def)
      consider (stop) f where "search_near_blank_page (2 ^ k) (view 0) near_pos alloc_range = Inl f"
        | (none) "search_near_blank_page (2 ^ k) (view 0) near_pos alloc_range = Inr 0"
        using False by (cases "search_near_blank_page (2 ^ k) (view 0) near_pos alloc_range") auto
      then show ?thesis
      proof cases
        case (stop f)
        then show ?thesis using fault [of f] \<open>find_page ?room ?pgs = None\<close> by (simp add: unf)
      next
        case none
        then have "near_AllocateChunk view (2 ^ k) near_pos alloc_range n perm P =
            (if perm = kReadWrite \<or> ?b = Inr 0 then Some (Inr (None, P\<lparr>near_arena := Some ?pgs\<rparr>)) else Some (Inl Wild_access))"
          using b \<open>find_page ?room ?pgs = None\<close> by (auto simp: unf Let_def)
        then show ?thesis using refused fault by (simp split: if_splits)
      qed
    qed
  qed
qed

text \<open>
  C19: a request for memory near an address comes back. Whatever regions the system reports and whichever mappings it
  grants, the loop of \<^verbatim>\<open>NearMemoryArena::AllocateChunk\<close> ends (for a size below one page), and a chunk that it
  returns is closer to the position than the range, has the size asked for and is recorded in a page of the arena.
\<close>

theorem near_allocate_returns:
  assumes "range_ok k alloc_range" and "unat near_pos + unat alloc_range < 2 ^ 63"
    and "\<forall>i. view_ok (view i)" and "0 \<le> n" and "n < 2 ^ k"
  shows "\<exists>res. near_AllocateChunk view (2 ^ k) near_pos alloc_range n perm P = Some res \<and>
    (case res of Inr (Some c, P') \<Rightarrow> near_granted near_pos alloc_range n c P' | _ \<Rightarrow> True)"
  using assms
proof (cases rule: near_search_returns [where perm = perm and P = P])
  case (kept j c pg)
  then show ?thesis using near_cut_granted [OF kept(2,3,4)] by simp
next
  case (mapped a j c pg)
  then show ?thesis using near_cut_granted [OF mapped(5,6,7)] by simp
qed simp_all

theorem near_allocate_returns_witness:
  "\<forall>P. \<exists>res. near_AllocateChunk (\<lambda>_. \<lparr>process_memory_layout = [\<lparr>region_address = 0x10000000, region_length = 0x4000, region_permission = kReadExecute\<rparr>],
      Allocate = \<lambda>a. a\<rparr>) 4096 0x10000100 0x8000000 12 kReadExecute P = Some res \<and>
    (case res of Inr (Some c, P') \<Rightarrow> near_granted 0x10000100 0x8000000 12 c P' | _ \<Rightarrow> True)"
proof
  fix P
  let ?v = "\<lambda>_ :: nat. \<lparr>process_memory_layout = [\<lparr>region_address = 0x10000000, region_length = 0x4000, region_permission = kReadExecute\<rparr>],
      Allocate = \<lambda>a. a\<rparr>"
  have "range_ok 12 0x8000000" "\<forall>i. view_ok (?v i)" by (simp_all add: range_ok_def view_ok_def)
  then show "\<exists>res. near_AllocateChunk ?v 4096 0x10000100 0x8000000 12 kReadExecute P = Some res \<and>
    (case res of Inr (Some c, P') \<Rightarrow> near_granted 0x10000100 0x8000000 12 c P' | _ \<Rightarrow> True)"
    using near_allocate_returns [of 12 "0x8000000" "0x10000100" ?v 12 kReadExecute P] by simp
qed

text \<open>A page is too small for a request of its own size, because the test of the room is strict.\<close>

lemma unat_add_u64: "unat a + unat b < 2 ^ 64 \<Longrightarrow> unat (a + b) = unat a + unat (b :: u64)"
  by (rule unat_add_small) simp

lemma pushed_page_full:
  assumes big: "2 ^ k \<le> n" "n < 2 ^ 31" and a: "unat a + 2 ^ 31 < 2 ^ 64"
  shows "\<not> near_has_room near_pos alloc_range n perm (new_page a (word_of_int (2 ^ k)) perm)"
proof -
  have "(0 :: int) \<le> 2 ^ k" by simp
  then have nn: "0 \<le> n" "nat (2 ^ k) \<le> nat n" using big(1) by (linarith, intro nat_mono)
  have "nat n < nat (2 ^ 31)" using big(2) by (subst nat_less_eq_zless [OF nn(1)])
  then have top: "unat a + nat n < 2 ^ 64" "unat a + nat (2 ^ k) < 2 ^ 64" using a nn(2) unfolding nat_power_eq nat_numeral by simp_all
  have un: "unat (word_of_int n :: u64) = nat n" using nn(1) big by (intro unat_word_of_int) simp_all
  have uk: "unat (word_of_int (2 ^ k) :: u64) = nat (2 ^ k)" using big by (intro unat_word_of_int) simp_all
  have "unat (a + word_of_int n) = unat a + nat n" using unat_add_u64 [of a "word_of_int n"] top(1) unfolding un .
  moreover have "unat (a + word_of_int (2 ^ k)) = unat a + nat (2 ^ k)" using unat_add_u64 [of a "word_of_int (2 ^ k)"] top(2) unfolding uk .
  ultimately have "\<not> a + word_of_int n < a + word_of_int (2 ^ k)" using nn(2) unfolding word_less_nat_alt by linarith
  then show ?thesis by (simp add: near_has_room_def new_page_def)
qed

text \<open>
  A request of at least one page never comes back while the system grants mappings: each round
  maps one more page, finds that the request does not fit it, and starts again.
\<close>

lemma near_request_diverges:
  assumes big: "2 ^ k \<le> n" "n < 2 ^ 31" and room: "near_arena P = None"
    and grant: "\<forall>i. \<exists>a. search_near_blank_page (2 ^ k) (view i) near_pos alloc_range = Inr a \<and> a \<noteq> 0 \<and> unat a + 2 ^ 31 < 2 ^ 64"
  shows "near_AllocateChunk view (2 ^ k) near_pos alloc_range n perm P = None"
proof -
  let ?room = "near_has_room near_pos alloc_range n perm"
  let ?C = "\<lambda>view' ps p r n' perm' P. view' = view \<and> ps = (2 ^ k :: int) \<and> p = near_pos \<and> r = alloc_range \<and> n' = n \<and> perm' = perm \<and>
      find_page ?room (arena_pages (near_arena P)) = None"
  have no_result: "(\<lambda>(((((((view', i), ps), p), r), n'), perm'), P) y. \<not> ?C view' ps p r n' perm' P)
      (((((((view, i), 2 ^ k), near_pos), alloc_range), n), perm), P) y"
    if "near_search view i (2 ^ k) near_pos alloc_range n perm P = Some y" for i P y
    using that
  proof (rule near_search.raw_induct [rotated], goal_cases)
    case (1 near_search view' i ps p r n' perm' P y)
    have "\<not> ?C view' ps p r n' perm' P"
    proof
      assume C: "?C view' ps p r n' perm' P"
      obtain a where a: "search_near_blank_page (2 ^ k) (view i) near_pos alloc_range = Inr a" "a \<noteq> 0" "unat a + 2 ^ 31 < 2 ^ 64"
        using grant by blast
      let ?P = "(map_page (2 ^ k) a perm P)\<lparr>near_arena := Some (PushPage (2 ^ k) a perm (arena_pages (near_arena P)))\<rparr>"
      have "find_page ?room (arena_pages (near_arena ?P)) = None"
        using C pushed_page_full [OF big a(3)] by (auto simp: find_page_None PushPage_def arena_pages_def)
      moreover have "near_search view (Suc i) (2 ^ k) near_pos alloc_range n perm ?P = Some y"
        using 1(2) C a by (simp add: Let_def)
      ultimately show False using 1(1) by fastforce
    qed
    then show ?case by simp
  qed
  show ?thesis
    using no_result [of 0 P] room
    by (cases "near_search view 0 (2 ^ k) near_pos alloc_range n perm P") (simp_all add: near_AllocateChunk_def arena_pages_def)
qed

text \<open>
  The page that the search returns may be in use. When the last region of the process ends above the range, the search maps the
  lowest page of the range at its fixed address, without a look at the regions; where that page belongs to a region, its
  contents are replaced.
\<close>

lemma near_page_in_use:
  assumes "process_memory_layout v = r # rs" and "\<forall>a. Allocate v a = a"
    and "region_address r \<le> min_page_addr ps near_pos alloc_range" and "min_page_addr ps near_pos alloc_range < region_end r"
    and "max_page_addr ps near_pos alloc_range < region_end (last (r # rs))" and "min_page_addr ps near_pos alloc_range \<noteq> 0"
  shows "\<exists>a. search_near_blank_page ps v near_pos alloc_range = Inr a \<and> region_address r \<le> a \<and> a < region_end r"
  using assms by (auto simp: search_near_blank_page_def Let_def)

text \<open>
  C36: two inputs that the near allocator does not handle. A request of at least one page never comes back while the system
  grants mappings: each round maps one more page, finds that the request does not fit it, and starts again. And the page that the
  search returns may be in use: when the last region of the process ends above the range, the lowest page of the range is mapped at its
  fixed address without a look at the regions, and the contents of a region that it belongs to are replaced.
\<close>

theorem near_allocate_departures:
  assumes "2 ^ k \<le> n" "n < 2 ^ 31" "near_arena P = None"
    and "\<forall>i. \<exists>a. search_near_blank_page (2 ^ k) (view i) near_pos alloc_range = Inr a \<and> a \<noteq> 0 \<and> unat a + 2 ^ 31 < 2 ^ 64"
    and "process_memory_layout v = r # rs" "\<forall>a. Allocate v a = a"
    and "region_address r \<le> min_page_addr ps pos' range'" "min_page_addr ps pos' range' < region_end r"
    and "max_page_addr ps pos' range' < region_end (last (r # rs))" "min_page_addr ps pos' range' \<noteq> 0"
  shows "near_AllocateChunk view (2 ^ k) near_pos alloc_range n perm P = None \<and>
    (\<exists>a. search_near_blank_page ps v pos' range' = Inr a \<and> region_address r \<le> a \<and> a < region_end r)"
  using near_request_diverges [OF assms(1-4)] near_page_in_use [OF assms(5-10)] by blast

theorem near_allocate_departures_witness:
  "near_AllocateChunk (\<lambda>_. \<lparr>process_memory_layout = [\<lparr>region_address = 0x10000000, region_length = 0x4000, region_permission = kReadExecute\<rparr>],
      Allocate = \<lambda>a. a\<rparr>) 4096 0x10000100 0x8000000 4096 kReadExecute
    \<lparr>memory = \<lambda>_. 0, protection = Map.empty, code_arena = None, near_arena = None, interceptor = None\<rparr> = None \<and>
   (\<exists>a. search_near_blank_page 4096 \<lparr>process_memory_layout =
       [\<lparr>region_address = 0x8000000, region_length = 0x100000, region_permission = kReadExecute\<rparr>,
        \<lparr>region_address = 0x10000000, region_length = 0x40000000, region_permission = kReadExecute\<rparr>], Allocate = \<lambda>a. a\<rparr>
     0x10000100 0x8000000 = Inr a \<and> 0x8000000 \<le> a \<and> a < 0x8100000)"
proof -
  let ?v = "\<lparr>process_memory_layout = [\<lparr>region_address = 0x10000000, region_length = 0x4000, region_permission = kReadExecute\<rparr>],
      Allocate = \<lambda>a. a\<rparr>"
  let ?u = "\<lparr>process_memory_layout =
       [\<lparr>region_address = 0x8000000, region_length = 0x100000, region_permission = kReadExecute\<rparr>,
        \<lparr>region_address = 0x10000000, region_length = 0x40000000, region_permission = kReadExecute\<rparr>], Allocate = \<lambda>a. a\<rparr>"
  have "search_near_blank_page (2 ^ 12) ?v 0x10000100 0x8000000 = Inr 0x8001000"
    by (simp add: search_near_blank_page_def min_page_addr_def max_page_addr_def next_page_def prev_page_def addr_sub_def addr_add_def
        page_of_def ALIGN_FLOOR_def Let_def)
  then show ?thesis
    using near_allocate_departures [of 12 4096 "\<lparr>memory = \<lambda>_. 0, protection = Map.empty, code_arena = None, near_arena = None, interceptor = None\<rparr>"
        "\<lambda>_. ?v" "0x10000100" "0x8000000" ?u _ _ 4096 "0x10000100" "0x8000000" kReadExecute]
    by (simp add: min_page_addr_def max_page_addr_def next_page_def prev_page_def addr_sub_def addr_add_def page_of_def
        ALIGN_FLOOR_def Let_def region_end_def)
qed

end
