(* ===== verification/Arm64Simulation.thy ===== *)
theory Arm64Simulation
  imports Arm64Layout
begin

text \<open>
  Relocated code does what the original instructions do. For each kind of instruction the fragment
  of \<open>Arm64Layout\<close> is run on the machine of \<open>Arm64Isa\<close> and compared with one step of
  the original instruction at its original address.
\<close>

section \<open>Items in memory\<close>

lemma render_item:
  assumes "i < length is" and "code_at s R (render is os)"
  shows "case is ! i of
           Wd w \<Rightarrow> code_at s (R + of_nat (4 * i)) (le_bytes 4 w)
         | Lit t \<Rightarrow> length (targets (take i is)) < length os \<longrightarrow>
             code_at s (R + of_nat (4 * i)) (le_bytes 4 (ldr_word 17 (os ! length (targets (take i is)))))"
  using assms
proof (induction "is" arbitrary: i R os)
  case (Cons x xs)
  show ?case
  proof (cases i)
    case 0
    then show ?thesis using Cons.prems by (cases x; cases os) (auto simp: code_at_append)
  next
    case (Suc j)
    obtain os' where os': "code_at s (R + 4) (render xs os')"
      "(\<exists>w. x = Wd w) \<and> os' = os \<or> (\<exists>t. x = Lit t) \<and> os' = tl os"
      using Cons.prems(2) by (cases x; cases os) (auto simp: code_at_append)
    from Cons.IH [OF _ os'(1), of j] Cons.prems(1) os'(2) show ?thesis
      by (cases x; cases os) (auto simp: Suc algebra_simps split: item.splits)
  qed
qed simp

lemma lit_item:
  assumes "i < length is" and "is ! i = Lit t"
  shows "length (targets (take i is)) < length (targets is)"
    and "lit_positions p is ! length (targets (take i is)) = p + 4 * i"
    and "targets is ! length (targets (take i is)) = t"
  using assms
proof (induction "is" arbitrary: i p)
  case (Cons x xs)
  { case 1 then show ?case using Cons.IH(1) by (cases i; cases x) auto
  next case 2 then show ?case using Cons.IH(2) by (cases i; cases x) auto
  next case 3 then show ?case using Cons.IH(3) by (cases i; cases x) auto
  }
qed simp_all

lemma length_final_offsets [simp]: "length (final_offsets base ps) = length ps"
  by (induction base ps rule: final_offsets.induct) auto

lemma final_offsets_nth:
  "k < length ps \<Longrightarrow> final_offsets base ps ! k = int base + 8 * int k - int (ps ! k)"
proof (induction base ps arbitrary: k rule: final_offsets.induct)
  case (2 base p ps)
  then show ?case by (cases k) auto
qed simp

lemma length_quads [simp]: "length (quads ts) = 8 * length ts"
  by (simp add: quads_def length_concat comp_def sum_list_triv)

lemma quad_item:
  assumes "code_at s a (quads ts)" and "k < length ts"
  shows "code_at s (a + of_nat (8 * k)) (le_bytes 8 (ts ! k))"
  using assms
proof (induction ts arbitrary: a k)
  case (Cons t ts)
  show ?case
  proof (cases k)
    case 0
    then show ?thesis using Cons.prems by (simp add: quads_def code_at_append)
  next
    case (Suc j)
    then show ?thesis
      using Cons.IH [of "a + 8" j] Cons.prems by (simp add: quads_def code_at_append add.assoc)
  qed
qed simp

lemma layout_word:
  assumes "i < length is" and "is ! i = Wd w" and "code_at s R (layout is resume)"
  shows "code_at s (R + of_nat (4 * i)) (le_bytes 4 w)"
  using render_item [OF assms(1), of s R] assms(2,3) by (auto simp: layout_def code_at_append)

lemma layout_literal:
  assumes i: "i < length is" "is ! i = Lit t" and code: "code_at s R (layout is resume)"
  shows "\<exists>off. 0 \<le> off \<and> off \<le> 12 * int (length is) + 16 \<and> 4 dvd off \<and>
     code_at s (R + of_nat (4 * i)) (le_bytes 4 (ldr_word 17 off)) \<and>
     code_at s (R + of_nat (4 * i) + word_of_int off) (le_bytes 8 t)"
proof -
  let ?k = "length (targets (take i is))" and ?P = "lit_positions 0 is"
  let ?off = "int (4 * length is + 16) + 8 * int ?k - int (4 * i)"
  have k: "?k < length (targets is)" "?P ! ?k = 4 * i" "targets is ! ?k = t"
    using lit_item(1) [OF i] lit_item(2) [OF i, of 0] lit_item(3) [OF i] by simp_all
  have "length (targets is) \<le> length is" by (induction "is" rule: targets.induct) auto
  then have bound: "0 \<le> ?off" "?off \<le> 12 * int (length is) + 16" "4 dvd ?off"
    using i(1) k(1) by auto
  have "final_offsets (4 * length is + 16) ?P ! ?k = ?off"
    using final_offsets_nth [of ?k ?P "4 * length is + 16"] k by (simp add: length_lit_positions)
  then have l: "code_at s (R + of_nat (4 * i)) (le_bytes 4 (ldr_word 17 ?off))"
    using render_item [OF i(1), of s R "final_offsets (4 * length is + 16) ?P"] code i(2) k(1)
    by (simp add: layout_def code_at_append length_lit_positions)
  have "code_at s (R + of_nat (4 * length is + 16)) (quads (targets is))"
    using code by (simp add: layout_def code_at_append algebra_simps)
  from quad_item [OF this k(1)]
  have "code_at s (R + of_nat (4 * length is + 16) + of_nat (8 * ?k)) (le_bytes 8 t)" unfolding k(3) .
  moreover have e: "R + of_nat (4 * length is + 16) + of_nat (8 * ?k) = R + of_nat (4 * i) + word_of_int ?off"
    by simp
  ultimately have "code_at s (R + of_nat (4 * i) + word_of_int ?off) (le_bytes 8 t)" unfolding e by blast
  then show ?thesis using l bound by blast
qed


section \<open>Decoding the original instructions\<close>

text \<open>A class test fixes every field that its mask covers.\<close>

lemma class_field:
  assumes "w AND m = v" and "fld m lo n = mask n"
  shows "fld w lo n = fld v lo n"
proof -
  have "fld v lo n = fld w lo n AND mask n" using assms fld_and [of w m] by simp
  also have "\<dots> = fld w lo n" by (rule bit_word_eqI) (auto simp: field_bit_simps bit_simps)
  finally show ?thesis by simp
qed

lemma fld_split: "fld w lo (m + n) = fld w lo m OR push_bit m (fld w (lo + m) n)"
proof (rule bit_word_eqI)
  fix k :: nat assume "k < LENGTH(32)"
  show "bit (fld w lo (m + n)) k = bit (fld w lo m OR push_bit m (fld w (lo + m) n)) k"
  proof (cases "k < m")
    case False
    then obtain j where "k = m + j" using le_Suc_ex by (metis not_less)
    then show ?thesis using \<open>k < LENGTH(32)\<close> by (auto simp: field_bit_simps bit_simps ac_simps)
  qed (auto simp: field_bit_simps bit_simps)
qed

lemma fld_1_cases: "fld w lo 1 = 0 \<or> fld w lo 1 = 1"
proof -
  have "fld w lo 1 = of_bool (bit w lo)"
    by (rule bit_word_eqI) (auto simp: field_bit_simps bit_simps)
  then show ?thesis by (cases "bit w lo") simp_all
qed

lemma bits_fld: "bits w st fn = fld w st (Suc (fn - st))"
  by (simp add: bits_take_drop fld_def)

lemma SignExtend_sext:
  assumes M: "0 < M" "M \<le> 64"
  shows "SignExtend x M 64 = sext M x"
proof (rule bit_word_eqI)
  fix k assume k: "k < LENGTH(64)"
  consider "k < M - 1" | "k = M - 1" | "M \<le> k" using M(1) by linarith
  then show "bit (SignExtend x M 64) k = bit (sext M x) k"
    by cases (use M k in \<open>auto simp: SignExtend_def sext_def bit_simps min_def\<close>)
qed

lemma decode_offsets:
  "decode_imm14_offset w = sext 16 (push_bit 2 (ucast (fld w 5 14)))"
  "decode_imm19_offset w = sext 21 (push_bit 2 (ucast (fld w 5 19)))"
  "decode_imm26_offset w = sext 28 (push_bit 2 (ucast (fld w 0 26)))"
  by (simp_all add: decode_imm14_offset_def decode_imm19_offset_def decode_imm26_offset_def bits_fld SignExtend_sext)

lemma decode_immhi_immlo:
  "decode_immhi_immlo_offset w = sext 21 (push_bit 2 (ucast (fld w 5 19)) OR ucast (fld w 29 2))"
proof -
  have "take_bit 2 (drop_bit 29 w) + push_bit 2 (take_bit 19 (drop_bit 5 w)) =
      take_bit 2 (drop_bit 29 w) OR push_bit 2 (take_bit 19 (drop_bit 5 w))"
    by (rule disjunctive_add) (auto simp: bit_simps)
  moreover have "(ucast (take_bit 2 (drop_bit 29 w) OR push_bit 2 (take_bit 19 (drop_bit 5 w))) :: u64) =
      push_bit 2 (ucast (fld w 5 19)) OR ucast (fld w 29 2)"
    by (rule bit_word_eqI) (auto simp: bit_simps field_bit_simps)
  ultimately show ?thesis by (simp add: decode_immhi_immlo_offset_def SignExtend_sext)
qed


lemma mask_values: "mask 1 = (1 :: u32)" "mask 2 = (3 :: u32)" "mask 3 = (7 :: u32)" "mask 5 = (31 :: u32)" "mask 6 = (63 :: u32)" "mask 7 = (127 :: u32)"
  by (simp_all add: mask_eq_exp_minus_1)

lemma and_field: "w AND push_bit lo (mask n) = push_bit lo (fld w lo n)"
  by (rule bit_word_eqI) (auto simp: field_bit_simps bit_simps)

lemma arm_decode_class_b:
  assumes "w AND UnconditionalBranchFixedMask = UnconditionalBranchFixed"
  shows "arm_decode w = (if w AND UnconditionalBranchMask = BL_op then A_BL else A_B) (decode_imm26_offset w)"
proof -
  have f: "fld w 26 3 = 5" "fld w 29 2 = 0" "fld w 26 5 = 5"
    using class_field [OF assms, of 26 3] class_field [OF assms, of 29 2] class_field [OF assms, of 26 5]
    by (simp_all add: enc_simps literal_defs mask_values)
  have "w AND UnconditionalBranchMask = push_bit 26 (fld w 26 6)"
    using and_field [of w 26 6] by (simp add: UnconditionalBranchMask_def mask_values)
  then show ?thesis
    using fld_split [of w 26 5 1] fld_1_cases [of w 31] f
    by (auto simp: arm_decode_def decode_offsets BL_op_def UnconditionalBranchFixed_def)
qed

lemma arm_decode_class_adr:
  assumes "w AND PCRelAddressingFixedMask = PCRelAddressingFixed"
  shows "arm_decode w = (if w AND PCRelAddressingMask = ADR_op
     then A_ADR (decode_rd w) (decode_immhi_immlo_offset w)
     else A_ADRP (decode_rd w) (decode_immhi_immlo_zero12_offset w))"
proof -
  have f: "fld w 24 5 = 16" "fld w 26 3 = 4"
    using class_field [OF assms, of 24 5] class_field [OF assms, of 26 3]
    by (simp_all add: enc_simps literal_defs mask_values)
  have pm: "PCRelAddressingMask = push_bit 24 (mask 5) OR push_bit 31 (mask 1)"
    by (simp add: PCRelAddressingMask_def mask_values)
  have "w AND PCRelAddressingMask = push_bit 24 (fld w 24 5) OR push_bit 31 (fld w 31 1)"
    by (simp only: pm bit.conj_disj_distrib and_field)
  then show ?thesis
    using fld_1_cases [of w 31] f
    by (auto simp: arm_decode_def decode_immhi_immlo decode_immhi_immlo_zero12_offset_def decode_rd_def bits_fld
        ADR_op_def PCRelAddressingFixed_def Let_def)
qed

lemma arm_decode_class_tb:
  assumes "w AND TestBranchFixedMask = TestBranchFixed"
  shows "arm_decode w = A_TB (fld w 24 1 = 1) (push_bit 5 (fld w 31 1) OR fld w 19 5) (fld w 0 5) (decode_imm14_offset w)"
proof -
  have f: "fld w 26 3 = 5" "fld w 29 2 = 1" "fld w 25 6 = 27" "fld w 25 4 = 11"
    using class_field [OF assms, of 26 3] class_field [OF assms, of 29 2] class_field [OF assms, of 25 6]
      class_field [OF assms, of 25 4]
    by (simp_all add: enc_simps literal_defs mask_eq_exp_minus_1)
  show ?thesis
    using fld_split [of w 24 1 7] fld_split [of w 25 6 1] fld_split [of w 24 1 4]
      fld_1_cases [of w 24] fld_1_cases [of w 31] f
    by (elim disjE) (simp_all add: arm_decode_def decode_offsets)
qed

lemma arm_decode_class_cb:
  assumes "w AND CompareBranchFixedMask = CompareBranchFixed"
  shows "arm_decode w = A_CB (fld w 24 1 = 1) (fld w 31 1 = 1) (fld w 0 5) (decode_imm19_offset w)"
proof -
  have f: "fld w 26 3 = 5" "fld w 29 2 = 1" "fld w 25 6 = 26" "fld w 25 4 = 10"
    using class_field [OF assms, of 26 3] class_field [OF assms, of 29 2] class_field [OF assms, of 25 6]
      class_field [OF assms, of 25 4]
    by (simp_all add: enc_simps literal_defs mask_eq_exp_minus_1)
  show ?thesis
    using fld_split [of w 24 1 7] fld_split [of w 25 6 1] fld_split [of w 24 1 4]
      fld_1_cases [of w 24] fld_1_cases [of w 31] f
    by (elim disjE) (simp_all add: arm_decode_def decode_offsets)
qed

lemma arm_decode_class_bcond:
  assumes "w AND ConditionalBranchFixedMask = ConditionalBranchFixed" and "fld w 24 1 = 0" and "fld w 4 1 = 0"
  shows "arm_decode w = A_Bcond (fld w 0 4) (decode_imm19_offset w)"
proof -
  have f: "fld w 26 3 = 5" "fld w 29 2 = 2" "fld w 25 7 = 42" "fld w 25 4 = 10"
    using class_field [OF assms(1), of 26 3] class_field [OF assms(1), of 29 2] class_field [OF assms(1), of 25 7]
      class_field [OF assms(1), of 25 4]
    by (simp_all add: enc_simps literal_defs mask_eq_exp_minus_1)
  show ?thesis
    using fld_split [of w 24 1 7] fld_split [of w 24 1 4] assms(2,3) f
    by (simp add: arm_decode_def decode_offsets)
qed

lemma arm_decode_class_ldr:
  assumes "w AND LoadRegLiteralFixedMask = LoadRegLiteralFixed" and "bits w 30 31 = 1" and "fld w 26 1 = 0"
  shows "arm_decode w = A_LDR_lit (decode_rt w) (decode_imm19_offset w)"
proof -
  have f: "fld w 24 2 = 0" "fld w 27 3 = 3" "fld w 27 2 = 3"
    using class_field [OF assms(1), of 24 2] class_field [OF assms(1), of 27 3] class_field [OF assms(1), of 27 2]
    by (simp_all add: enc_simps literal_defs mask_eq_exp_minus_1)
  have v: "fld w 26 3 = 6" using fld_split [of w 26 1 2] assms(3) f(3) by (simp add: numeral_3_eq_3)
  have opc: "fld w 30 2 = 1" using assms(2) bits_fld [of w 30 31] by (simp add: numeral_2_eq_2)
  show ?thesis
    using fld_split [of w 24 2 6] fld_split [of w 26 1 5] fld_split [of w 27 3 2]
      fld_split [of w 24 2 3] assms(3) f v opc
    by (simp add: arm_decode_def decode_offsets decode_rt_def bits_fld)
qed


section \<open>Decoding the inverted branches\<close>

lemma fld_set_bits [enc_simps]:
  assumes "fn < lo \<or> lo + n \<le> st" and "st \<le> fn" and "take_bit (Suc (fn - st)) v = v"
  shows "fld (set_bits w st fn v) lo n = fld w lo n"
proof -
  have "k \<le> fn - st" if "bit v k" for k using that assms(3) by (metis bit_take_bit_iff less_Suc_eq_le)
  then show ?thesis
    using assms(1,2) by (intro bit_word_eqI) (fastforce simp: field_bit_simps bit_simps dest: bit_imp_le_length)
qed

lemma fld_set_bits_same [enc_simps]:
  "\<lbrakk>st \<le> fn; fn < 32; n = Suc (fn - st)\<rbrakk> \<Longrightarrow> fld (set_bits w st fn v) st n = take_bit n v"
  using bits_set_bits [of st fn w v] by (simp add: bits_fld)

lemma fld_set_bit_m [enc_simps]:
  "\<lbrakk>st < lo \<or> lo + n \<le> st; v = 0 \<or> v = 1\<rbrakk> \<Longrightarrow> fld (set_bit_m w st v) lo n = fld w lo n"
  by (rule bit_word_eqI) (auto simp: field_bit_simps bit_simps dest: bit_imp_le_length)

lemma fld_set_bit_m_same [enc_simps]: "\<lbrakk>st < 32; v = 0 \<or> v = 1\<rbrakk> \<Longrightarrow> fld (set_bit_m w st v) st (Suc 0) = v"
  by (rule bit_word_eqI) (auto simp: field_bit_simps bit_simps)

lemma bit_at_fld: "bit_at w k = fld w k 1"
  by (rule bit_word_eqI) (auto simp: field_bit_simps)

lemma class_of_fields:
  "w AND TestBranchFixedMask = TestBranchFixed \<longleftrightarrow> fld w 25 6 = 27"
  "w AND CompareBranchFixedMask = CompareBranchFixed \<longleftrightarrow> fld w 25 6 = 26"
  "w AND ConditionalBranchFixedMask = ConditionalBranchFixed \<longleftrightarrow> fld w 25 7 = 42"
proof -
  have m: "TestBranchFixedMask = push_bit 25 (mask 6)" "CompareBranchFixedMask = push_bit 25 (mask 6)"
    "ConditionalBranchFixedMask = push_bit 25 (mask 7)"
    "TestBranchFixed = push_bit 25 27" "CompareBranchFixed = push_bit 25 26" "ConditionalBranchFixed = push_bit 25 42"
    by (simp_all add: literal_defs mask_values)
  have inj: "push_bit 25 (fld w 25 n) = push_bit 25 v \<longleftrightarrow> fld w 25 n = v" if "n \<le> 7" "take_bit 7 v = v" for n v
  proof
    assume "push_bit 25 (fld w 25 n) = push_bit 25 v"
    then have "drop_bit 25 (push_bit 25 (fld w 25 n)) = drop_bit 25 (push_bit 25 v)" by simp
    moreover have "drop_bit 25 (push_bit 25 x) = take_bit 7 x" for x :: u32
      by (rule bit_word_eqI) (auto simp: bit_simps)
    moreover have "take_bit 7 (fld w 25 n) = fld w 25 n"
      using that(1) by (intro bit_word_eqI) (auto simp: field_bit_simps bit_simps)
    ultimately show "fld w 25 n = v" using that(2) by simp
  qed simp
  show "w AND TestBranchFixedMask = TestBranchFixed \<longleftrightarrow> fld w 25 6 = 27"
    "w AND CompareBranchFixedMask = CompareBranchFixed \<longleftrightarrow> fld w 25 6 = 26"
    "w AND ConditionalBranchFixedMask = ConditionalBranchFixed \<longleftrightarrow> fld w 25 7 = 42"
    unfolding m and_field by (rule inj; simp)+
qed

lemma inverted_op: "bit_at w 24 XOR 1 = (if fld w 24 1 = 1 then 0 else 1)"
  using fld_1_cases [of w 24] by (auto simp: bit_at_fld)

lemma arm_decode_invert_tb:
  assumes "w AND TestBranchFixedMask = TestBranchFixed"
  shows "arm_decode (invert_test_branch w) =
     A_TB (fld w 24 1 \<noteq> 1) (push_bit 5 (fld w 31 1) OR fld w 19 5) (fld w 0 5) 12"
proof -
  let ?v = "invert_test_branch w"
  have f: "fld ?v 25 6 = fld w 25 6" "fld ?v 31 1 = fld w 31 1" "fld ?v 19 5 = fld w 19 5" "fld ?v 0 5 = fld w 0 5"
      "fld ?v 24 1 = (if fld w 24 1 = 1 then 0 else 1)" "fld ?v 5 14 = 3"
    by (simp_all add: invert_test_branch_def Let_def inverted_op enc_simps)
  moreover have "?v AND TestBranchFixedMask = TestBranchFixed" using assms f(1) by (simp add: class_of_fields)
  ultimately show ?thesis
    by (simp add: arm_decode_class_tb decode_offsets sext_def)
qed


lemma arm_decode_invert_cb:
  assumes "w AND CompareBranchFixedMask = CompareBranchFixed"
  shows "arm_decode (invert_compare_branch w) = A_CB (fld w 24 1 \<noteq> 1) (fld w 31 1 = 1) (fld w 0 5) 12"
proof -
  let ?v = "invert_compare_branch w"
  have f: "fld ?v 25 6 = fld w 25 6" "fld ?v 31 1 = fld w 31 1" "fld ?v 0 5 = fld w 0 5"
      "fld ?v 24 1 = (if fld w 24 1 = 1 then 0 else 1)" "fld ?v 5 19 = 3"
    by (simp_all add: invert_compare_branch_def Let_def inverted_op enc_simps)
  moreover have "?v AND CompareBranchFixedMask = CompareBranchFixed" using assms f(1) by (simp add: class_of_fields)
  ultimately show ?thesis by (simp add: arm_decode_class_cb decode_offsets sext_def)
qed

lemma arm_decode_invert_bcond:
  assumes "w AND ConditionalBranchFixedMask = ConditionalBranchFixed" and "fld w 24 1 = 0" and "fld w 4 1 = 0"
  shows "arm_decode (invert_conditional_branch w) = A_Bcond (fld w 0 4 XOR 1) 12"
proof -
  let ?v = "invert_conditional_branch w"
  have t: "take_bit 4 (fld w 0 4 XOR 1) = fld w 0 4 XOR 1"
    by (rule bit_word_eqI) (auto simp: field_bit_simps bit_simps)
  have b: "bits w 0 3 = fld w 0 4" "take_bit 4 (fld w 0 4) = fld w 0 4" by (simp_all add: bits_fld fld_def)
  have f: "fld ?v 25 7 = fld w 25 7" "fld ?v 24 1 = fld w 24 1" "fld ?v 4 1 = fld w 4 1"
      "fld ?v 0 4 = fld w 0 4 XOR 1" "fld ?v 5 19 = 3"
    by (simp_all add: invert_conditional_branch_def Let_def b enc_simps t)
  moreover have "?v AND ConditionalBranchFixedMask = ConditionalBranchFixed" using assms f(1) by (simp add: class_of_fields)
  ultimately show ?thesis using assms by (simp add: arm_decode_class_bcond decode_offsets sext_def)
qed

text \<open>Inverting a condition; the conditions 14 and 15 hold always and have no inverse.\<close>

lemma cond_holds_invert:
  assumes "c < 14"
  shows "cond_holds (c XOR 1) s \<longleftrightarrow> \<not> cond_holds c s"
proof -
  have "unat c < 14" using assms by (simp add: word_less_nat_alt)
  then have "unat c \<in> {0, 1, 2, 3, 4, 5, 6, 7, 8, 9, 10, 11, 12, 13}" by simp presburger
  then have "c \<in> of_nat ` {0, 1, 2, 3, 4, 5, 6, 7, 8, 9, 10, 11, 12, 13}"
    by (rule rev_image_eqI) simp
  then have "c \<in> {0, 1, 2, 3, 4, 5, 6, 7, 8, 9, 10, 11, 12, 13}" by simp
  then show ?thesis by (elim insertE emptyE; simp add: cond_holds_def)
qed

section \<open>Running the pieces\<close>

lemma arm_run_add:
  "arm_run (m + n) s = (case arm_run m s of None \<Rightarrow> None | Some t \<Rightarrow> arm_run n t)"
  by (induction m arbitrary: s) (auto split: option.splits)

lemma arm_run_1: "arm_run (Suc 0) s = arm_step s"
  by (simp split: option.splits)

lemma state_eqI:
  "\<lbrakk>a_reg s = a_reg t; a_sp s = a_sp t; a_pc s = a_pc t; a_n s = a_n t; a_z s = a_z t; a_c s = a_c t; a_v s = a_v t;
    a_mem s = a_mem t\<rbrakk> \<Longrightarrow> s = (t :: arm_state)"
  by (cases s; cases t) simp

lemma arm_decode_move_wide:
  assumes "c < 32"
  shows "arm_decode (move_wide_word (X c) (take_bit 16 imm) 0 MOVZ_op) = A_MOVZ c (take_bit 16 imm) 0"
    and "arm_decode (move_wide_word (X c) (take_bit 16 imm) 16 MOVK_op) = A_MOVK c (take_bit 16 imm) 16"
    and "arm_decode (move_wide_word (X c) (take_bit 16 imm) 32 MOVK_op) = A_MOVK c (take_bit 16 imm) 32"
    and "arm_decode (move_wide_word (X c) (take_bit 16 imm) 48 MOVK_op) = A_MOVK c (take_bit 16 imm) 48"
proof -
  have m: "MoveWideImmediateFixed OR (MOVZ_op OR (0x80000000 OR x)) = 0xd2800000 OR x"
      "MoveWideImmediateFixed OR (MOVK_op OR (0x80000000 OR x)) = 0xf2800000 OR x" for x :: u32
    by (simp_all add: or.assoc [symmetric] op_values)
  have u: "(ucast (take_bit 16 (ucast (take_bit 16 imm) :: u32)) :: u64) = take_bit 16 imm"
    by (simp add: ucast_take)
  show "arm_decode (move_wide_word (X c) (take_bit 16 imm) 0 MOVZ_op) = A_MOVZ c (take_bit 16 imm) 0"
    "arm_decode (move_wide_word (X c) (take_bit 16 imm) 16 MOVK_op) = A_MOVK c (take_bit 16 imm) 16"
    "arm_decode (move_wide_word (X c) (take_bit 16 imm) 32 MOVK_op) = A_MOVK c (take_bit 16 imm) 32"
    "arm_decode (move_wide_word (X c) (take_bit 16 imm) 48 MOVK_op) = A_MOVK c (take_bit 16 imm) 48"
    using assms
    by (simp_all add: move_wide_word_def op_values(7) ucast_LeftShift m arm_decode_movz arm_decode_movk u)
qed

lemma set_x_31 [simp]: "set_x 31 v s = s"
  by (simp add: set_x_def)

text \<open>The half words that \<^verbatim>\<open>movz\<close> and the three \<^verbatim>\<open>movk\<close> write are the number.\<close>

lemma half_words:
  "(((take_bit 16 v AND NOT (push_bit 16 (mask 16))) OR push_bit 16 (take_bit 16 (drop_bit 16 v))) AND
      NOT (push_bit 32 (mask 16)) OR push_bit 32 (take_bit 16 (drop_bit 32 v))) AND
      NOT (push_bit 48 (mask 16)) OR push_bit 48 (take_bit 16 (drop_bit 48 v)) = (v :: u64)"
proof (rule bit_word_eqI)
  fix k assume "k < LENGTH(64)"
  then consider "k < 16" | "16 \<le> k" "k < 32" | "32 \<le> k" "k < 48" | "48 \<le> k" "k < 64" by fastforce
  then show "bit ((((take_bit 16 v AND NOT (push_bit 16 (mask 16))) OR push_bit 16 (take_bit 16 (drop_bit 16 v))) AND
      NOT (push_bit 32 (mask 16)) OR push_bit 32 (take_bit 16 (drop_bit 32 v))) AND
      NOT (push_bit 48 (mask 16)) OR push_bit 48 (take_bit 16 (drop_bit 48 v))) k = bit v k"
    by cases (auto simp: bit_simps)
qed

lemma run_mov_words:
  assumes c: "c < 32" and code: "\<And>i. i < 4 \<Longrightarrow> code_at s (a_pc s + of_nat (4 * i)) (le_bytes 4 (mov_words c v ! i))"
  shows "arm_run 4 s = Some (goto (a_pc s + 16) (set_x c v s))"
proof -
  have code4: "code_at s (a_pc s) (le_bytes 4 (mov_words c v ! 0))" "code_at s (a_pc s + 4) (le_bytes 4 (mov_words c v ! 1))"
      "code_at s (a_pc s + 8) (le_bytes 4 (mov_words c v ! 2))" "code_at s (a_pc s + 12) (le_bytes 4 (mov_words c v ! 3))"
    using code [of 0] code [of 1] code [of 2] code [of 3] by simp_all
  let ?s1 = "next_pc (set_x c (take_bit 16 v) s)"
  have 1: "arm_step s = Some ?s1"
    using code4(1) c by (simp add: arm_step_code mov_words_def arm_decode_move_wide)
  define h1 where "h1 = (take_bit 16 v AND NOT (push_bit 16 (mask 16))) OR push_bit 16 (take_bit 16 (drop_bit 16 v))"
  define h2 where "h2 = (h1 AND NOT (push_bit 32 (mask 16))) OR push_bit 32 (take_bit 16 (drop_bit 32 v))"
  have h3: "(h2 AND NOT (push_bit 48 (mask 16))) OR push_bit 48 (take_bit 16 (drop_bit 48 v)) = v"
    unfolding h2_def h1_def by (rule half_words)
  let ?s2 = "next_pc (set_x c h1 ?s1)" let ?s3 = "next_pc (set_x c h2 ?s2)"
  have 2: "arm_step ?s1 = Some ?s2"
    using code4(2) c by (cases "c = 31") (simp_all add: arm_step_code mov_words_def arm_decode_move_wide h1_def)
  have 3: "arm_step ?s2 = Some ?s3"
    using code4(3) c by (cases "c = 31") (simp_all add: arm_step_code mov_words_def arm_decode_move_wide h2_def add.assoc)
  have 4: "arm_step ?s3 = Some (next_pc (set_x c v ?s3))"
    using code4(4) c
    by (cases "c = 31") (simp_all add: arm_step_code mov_words_def arm_decode_move_wide h3 add.assoc)
  have "next_pc (set_x c v ?s3) = goto (a_pc s + 16) (set_x c v s)"
    by (rule state_eqI) (simp_all add: next_pc_def goto_def set_x_def)
  moreover have "arm_run 4 s = arm_run (Suc (Suc (Suc (Suc 0)))) s" by (rule arg_cong [of _ _ "\<lambda>n. arm_run n s"]) simp
  ultimately show ?thesis by (simp add: 1 2 3 4)
qed

text \<open>A literal load and the branch through it, somewhere in a layout.\<close>

lemma layout_load_branch:
  assumes i: "Suc i < length is" "is ! i = Lit t" "is ! Suc i = Wd w" and code: "code_at s R (layout is resume)"
    and pc: "a_pc s = R + of_nat (4 * i)" and size: "length is < 2 ^ 16"
  shows "arm_step s = Some (next_pc (set_x 17 t s))"
    and "arm_step (next_pc (set_x 17 t s)) = arm_exec (arm_decode w) (next_pc (set_x 17 t s))"
proof -
  obtain off where off: "0 \<le> off" "off \<le> 12 * int (length is) + 16" "4 dvd off"
      "code_at s (R + of_nat (4 * i)) (le_bytes 4 (ldr_word 17 off))"
      "code_at s (R + of_nat (4 * i) + word_of_int off) (le_bytes 8 t)"
    using layout_literal [OF _ i(2) code] i(1) by auto
  have "off < 2 ^ 20" using off(2) size by simp
  then show "arm_step s = Some (next_pc (set_x 17 t s))"
    using off pc by (simp add: arm_step_code arm_decode_ldr_word load64_code)
  have "code_at s (a_pc s + 4) (le_bytes 4 w)"
    using layout_word [OF i(1,3) code] pc by (simp add: algebra_simps)
  then show "arm_step (next_pc (set_x 17 t s)) = arm_exec (arm_decode w) (next_pc (set_x 17 t s))"
    by (intro arm_step_code) simp
qed

section \<open>Agreement of the original and the relocated instruction\<close>

text \<open>
  \<open>t\<close> is the state after the original instruction, \<open>u\<close> the state after its fragment. They differ in the
  scratch register when the fragment needs it, in the return address of a call, which lies in
  the relocated code, and in the place of the following instruction.
\<close>

definition links :: "arm_insn \<Rightarrow> bool" where
  "links i = (case i of A_BL _ \<Rightarrow> True | A_BLR _ \<Rightarrow> True | _ \<Rightarrow> False)"

definition pc_relative :: "arm_insn \<Rightarrow> bool" where
  "pc_relative i = (case i of A_B _ \<Rightarrow> True | A_BL _ \<Rightarrow> True | A_ADR _ _ \<Rightarrow> True | A_ADRP _ _ \<Rightarrow> True
     | A_LDR_lit _ _ \<Rightarrow> True | A_LDRW_lit _ _ \<Rightarrow> True | A_Bcond _ _ \<Rightarrow> True | A_CB _ _ _ _ \<Rightarrow> True | A_TB _ _ _ _ \<Rightarrow> True
     | _ \<Rightarrow> False)"

definition scratch_lost :: "arm_insn \<Rightarrow> bool" where
  "scratch_lost i = (case i of A_LDR_lit t _ \<Rightarrow> t \<noteq> 17 | A_ADR _ _ \<Rightarrow> False | A_ADRP _ _ \<Rightarrow> False | _ \<Rightarrow> pc_relative i)"

definition agrees :: "arm_insn \<Rightarrow> addr \<Rightarrow> addr \<Rightarrow> arm_state \<Rightarrow> arm_state \<Rightarrow> bool" where
  "agrees i orig_next reloc_next t u \<longleftrightarrow>
     a_mem u = a_mem t \<and> a_sp u = a_sp t \<and> a_n u = a_n t \<and> a_z u = a_z t \<and> a_c u = a_c t \<and> a_v u = a_v t \<and>
     (\<forall>r. r \<noteq> 30 \<and> \<not> (r = 17 \<and> scratch_lost i) \<longrightarrow> a_reg u r = a_reg t r) \<and>
     (if links i then a_reg t 30 = orig_next \<and> a_reg u 30 = reloc_next else a_reg u 30 = a_reg t 30) \<and>
     (a_pc u = a_pc t \<or> a_pc t = orig_next \<and> a_pc u = reloc_next)"

lemma copied_agrees:
  assumes "\<not> pc_relative i" and "arm_exec i (goto p s) = Some t"
  shows "\<exists>u. arm_exec i s = Some u \<and> agrees i (p + 4) (a_pc s + 4) t u"
  using assms
  by (cases i) (auto simp: pc_relative_def agrees_def links_def goto_def next_pc_def set_x_def set_x_sp_def get_x_def
      get_x_sp_def load64_def mem_bytes_def scratch_lost_def)

lemma fld_of_fld: "a + m \<le> n \<Longrightarrow> fld w (lo + a) m = take_bit m (drop_bit a (fld w lo n))"
  by (rule bit_word_eqI) (auto simp: field_bit_simps bit_simps ac_simps)

lemma class_of_fields':
  "w AND UnconditionalBranchFixedMask = UnconditionalBranchFixed \<longleftrightarrow> fld w 26 3 = 5 \<and> fld w 29 2 = 0"
  "w AND PCRelAddressingFixedMask = PCRelAddressingFixed \<longleftrightarrow> fld w 24 5 = 16"
proof -
  have five: "fld w 26 5 = 5 \<longleftrightarrow> fld w 26 3 = 5 \<and> fld w 29 2 = 0"
  proof
    assume "fld w 26 5 = 5"
    then show "fld w 26 3 = 5 \<and> fld w 29 2 = 0" using fld_of_fld [of 0 3 5 w 26] fld_of_fld [of 3 2 5 w 26] by simp
  next
    assume "fld w 26 3 = 5 \<and> fld w 29 2 = 0"
    then show "fld w 26 5 = 5" using fld_split [of w 26 3 2] by simp
  qed
  have m: "UnconditionalBranchFixedMask = push_bit 26 (mask 5)" "PCRelAddressingFixedMask = push_bit 24 (mask 5)"
    "UnconditionalBranchFixed = push_bit 26 5" "PCRelAddressingFixed = push_bit 24 16"
    by (simp_all add: literal_defs mask_values)
  have inj: "push_bit lo (fld w lo 5) = push_bit lo v \<longleftrightarrow> fld w lo 5 = v" if "lo \<le> 27" "take_bit 5 v = v" for lo v
  proof
    assume "push_bit lo (fld w lo 5) = push_bit lo v"
    then have "take_bit 5 (drop_bit lo (push_bit lo (fld w lo 5))) = take_bit 5 (drop_bit lo (push_bit lo v))" by simp
    moreover have "take_bit 5 (drop_bit lo (push_bit lo x)) = take_bit 5 x" for x :: u32
      using that(1) by (intro bit_word_eqI) (auto simp: bit_simps)
    ultimately show "fld w lo 5 = v" using that(2) by (simp add: fld_def)
  qed simp
  show "w AND UnconditionalBranchFixedMask = UnconditionalBranchFixed \<longleftrightarrow> fld w 26 3 = 5 \<and> fld w 29 2 = 0"
    unfolding m and_field five [symmetric] by (rule inj; simp)
  show "w AND PCRelAddressingFixedMask = PCRelAddressingFixed \<longleftrightarrow> fld w 24 5 = 16"
    unfolding m and_field by (rule inj; simp)
qed

lemma class_of_literal:
  assumes "fld w 24 8 = 0x58 \<or> fld w 24 8 = 0x18"
  shows "w AND LoadRegLiteralFixedMask = LoadRegLiteralFixed"
proof -
  have "fld w 24 2 = 0" "fld w 27 3 = 3"
    using assms fld_of_fld [of 0 2 8 w 24] fld_of_fld [of 3 3 8 w 24] by auto
  moreover have m: "LoadRegLiteralFixedMask = push_bit 24 (mask 2) OR push_bit 27 (mask 3)"
    by (simp add: literal_defs mask_values)
  have "w AND LoadRegLiteralFixedMask = push_bit 24 (fld w 24 2) OR push_bit 27 (fld w 27 3)"
    by (simp only: m bit.conj_disj_distrib and_field)
  ultimately show ?thesis by (simp add: literal_defs)
qed

lemma pc_relative_class:
  assumes "pc_relative (arm_decode w)"
  shows "\<exists>c \<in> set arm64_classes. in_class c w"
proof -
  have "fld w 24 8 = 0x54 \<Longrightarrow> fld w 25 7 = 42" using fld_of_fld [of 1 7 8 w 24] by simp
  then show ?thesis
    using assms class_of_literal [of w]
    by (auto simp: arm_decode_def pc_relative_def Let_def arm64_classes_def in_class_def class_of_fields class_of_fields'
        split: if_splits)
qed

section \<open>One fragment\<close>

text \<open>The machine is about to run the fragment \<open>f\<close> of some layout.\<close>

definition placed :: "arm_state \<Rightarrow> item list \<Rightarrow> bool" where
  "placed s f \<longleftrightarrow> (\<exists>R resume pre post. code_at s R (layout (pre @ f @ post) resume) \<and>
     a_pc s = R + of_nat (4 * length pre) \<and> length (pre @ f @ post) < 2 ^ 16)"

lemma placed_word:
  assumes "placed s f" and "i < length f" and "f ! i = Wd w" and "a_mem s' = a_mem s" and "a_pc s' = a_pc s + of_nat (4 * i)"
  shows "arm_step s' = arm_exec (arm_decode w) s'"
proof -
  obtain R resume pre post where p: "code_at s R (layout (pre @ f @ post) resume)" "a_pc s = R + of_nat (4 * length pre)"
    using assms(1) by (auto simp: placed_def)
  have "code_at s (R + of_nat (4 * (length pre + i))) (le_bytes 4 w)"
    by (rule layout_word [OF _ _ p(1)]) (use assms(2,3) in \<open>simp_all add: nth_append\<close>)
  then have "code_at s' (a_pc s') (le_bytes 4 w)"
    using assms(4,5) p(2) by (simp add: code_at_def algebra_simps)
  then show ?thesis by (rule arm_step_code)
qed

lemma placed_load:
  assumes "placed s f" and "Suc i < length f" and "f ! i = Lit t" and "f ! Suc i = Wd w"
    and s': "a_mem s' = a_mem s" "a_pc s' = a_pc s + of_nat (4 * i)"
  shows "arm_step s' = Some (next_pc (set_x 17 t s'))"
    and "arm_step (next_pc (set_x 17 t s')) = arm_exec (arm_decode w) (next_pc (set_x 17 t s'))"
proof -
  obtain R resume pre post where p: "code_at s R (layout (pre @ f @ post) resume)" "a_pc s = R + of_nat (4 * length pre)"
      "length (pre @ f @ post) < 2 ^ 16"
    using assms(1) by (auto simp: placed_def)
  have "code_at s' R (layout (pre @ f @ post) resume)" using p(1) s'(1) by (simp add: code_at_def)
  moreover have "a_pc s' = R + of_nat (4 * (length pre + i))" using p(2) s'(2) by (simp add: algebra_simps)
  moreover have "Suc (length pre + i) < length (pre @ f @ post)" "(pre @ f @ post) ! (length pre + i) = Lit t"
      "(pre @ f @ post) ! Suc (length pre + i) = Wd w"
    using assms(2-4) by (simp_all add: nth_append)
  ultimately show "arm_step s' = Some (next_pc (set_x 17 t s'))"
    and "arm_step (next_pc (set_x 17 t s')) = arm_exec (arm_decode w) (next_pc (set_x 17 t s'))"
    using layout_load_branch [of "length pre + i" "pre @ f @ post" t w s' R resume] p(3) by blast+
qed

lemma placed_mov:
  assumes "placed s (map Wd (mov_words c v) @ f)" and "c < 32"
  shows "arm_run 4 s = Some (goto (a_pc s + 16) (set_x c v s))"
proof -
  obtain R resume pre post where p: "code_at s R (layout (pre @ (map Wd (mov_words c v) @ f) @ post) resume)"
      "a_pc s = R + of_nat (4 * length pre)"
    using assms(1) unfolding placed_def by blast
  have len: "length (mov_words c v) = 4" by (simp add: mov_words_def)
  have "code_at s (R + of_nat (4 * (length pre + i))) (le_bytes 4 (mov_words c v ! i))" if "i < 4" for i
    by (rule layout_word [OF _ _ p(1)]) (use that len in \<open>simp_all add: nth_append\<close>)
  then show ?thesis using p(2) by (intro run_mov_words [OF assms(2)]) (simp add: algebra_simps)
qed

lemma fld_5_less: "fld w lo 5 < 32"
proof -
  have "unat (fld w lo 5) < 2 ^ 5" unfolding fld_def unsigned_take_bit_eq by (rule take_bit_nat_less_exp)
  then show ?thesis by (simp add: word_less_nat_alt)
qed

lemma decode_reg_less: "decode_rd w < 32" "decode_rt w < 32"
  by (simp_all add: decode_rd_def decode_rt_def bits_fld fld_5_less)

lemma reloc_adr:
  assumes cl: "w AND PCRelAddressingFixedMask = PCRelAddressingFixed" and f: "fragment w p = Some f" and pl: "placed s f"
    and t: "arm_exec (arm_decode w) (goto p s) = Some t"
  shows "\<exists>n u. arm_run n s = Some u \<and> agrees (arm_decode w) (p + 4) (a_pc s + of_nat (4 * length f)) t u"
proof -
  let ?v = "if w AND PCRelAddressingMask = ADR_op then p + decode_immhi_immlo_offset w
    else ALIGN_FLOOR p (2 ^ 12) + decode_immhi_immlo_zero12_offset w"
  have "w AND LoadRegLiteralFixedMask \<noteq> LoadRegLiteralFixed"
    using arm64_class_unique [of 1 0 w] cl by (auto simp: arm64_classes_def in_class_def)
  then have fr: "f = map Wd (mov_words (decode_rd w) ?v) @ []" using f cl by (simp add: fragment_def)
  have "arm_run 4 s = Some (goto (a_pc s + 16) (set_x (decode_rd w) ?v s))"
    using placed_mov [of s _ _ "[]"] pl fr decode_reg_less by metis
  moreover have "t = next_pc (set_x (decode_rd w) ?v (goto p s))"
    using t cl ALIGN_FLOOR_pow2 [of p 12] by (auto simp: arm_decode_class_adr split: if_splits)
  moreover have "length f = 4" using fr by (simp add: mov_words_def)
  moreover have "arm_decode w = A_ADR (decode_rd w) (decode_immhi_immlo_offset w) \<or>
      arm_decode w = A_ADRP (decode_rd w) (decode_immhi_immlo_zero12_offset w)"
    using cl by (simp add: arm_decode_class_adr)
  ultimately show ?thesis
    by (intro exI [of _ 4]) (auto simp: agrees_def links_def scratch_lost_def goto_def next_pc_def set_x_def)
qed

lemma arm_decode_ldr_from_tmp: "c < 32 \<Longrightarrow> arm_decode (ldr_from_tmp c) = A_LDR c 17 0"
  using arm_decode_ldr [of c 17 0] by (simp add: ldr_from_tmp_def op_values LeftShift_def or.assoc [symmetric])

lemma reloc_ldr:
  assumes cl: "w AND LoadRegLiteralFixedMask = LoadRegLiteralFixed" "bits w 30 31 = 1" "fld w 26 1 = 0"
    and f: "fragment w p = Some f" and pl: "placed s f" and t: "arm_exec (arm_decode w) (goto p s) = Some t"
  shows "\<exists>n u. arm_run n s = Some u \<and> agrees (arm_decode w) (p + 4) (a_pc s + of_nat (4 * length f)) t u"
proof -
  let ?v = "decode_imm19_offset w + p" and ?r = "decode_rt w"
  let ?s1 = "goto (a_pc s + 16) (set_x 17 ?v s)"
  have fr: "f = map Wd (mov_words 17 ?v) @ [Wd (ldr_from_tmp ?r)]" using f cl by (simp add: fragment_def)
  have len: "length f = 5" "f ! 4 = Wd (ldr_from_tmp ?r)" using fr by (simp_all add: mov_words_def)
  have 1: "arm_run 4 s = Some ?s1" using placed_mov [OF pl [unfolded fr]] by simp
  have "arm_step ?s1 = arm_exec (arm_decode (ldr_from_tmp ?r)) ?s1"
    by (rule placed_word [OF pl _ len(2)]) (simp_all add: len)
  then have "arm_step ?s1 = Some (next_pc (set_x ?r (load64 ?s1 ?v) ?s1))"
    by (simp add: arm_decode_ldr_from_tmp decode_reg_less get_x_sp_def set_x_def goto_def)
  then have "arm_run (4 + Suc 0) s = Some (next_pc (set_x ?r (load64 ?s1 ?v) ?s1))"
    unfolding arm_run_add 1 by (simp only: option.case arm_run_1)
  moreover have d: "arm_decode w = A_LDR_lit ?r (decode_imm19_offset w)" using cl by (rule arm_decode_class_ldr)
  moreover have "t = next_pc (set_x ?r (load64 s ?v) (goto p s))" using t d by (simp add: add.commute)
  ultimately show ?thesis
    using len(1) by (intro exI [of _ "4 + Suc 0"])
      (auto simp: agrees_def links_def scratch_lost_def pc_relative_def goto_def next_pc_def set_x_def load64_def mem_bytes_def)
qed

lemma register_numbers [simp]: "(17 :: u32) \<noteq> 30" "(30 :: u32) \<noteq> 17" "(17 :: u32) \<noteq> 31" "(30 :: u32) \<noteq> 31"
  by simp_all

lemma reloc_branch:
  assumes cl: "w AND UnconditionalBranchFixedMask = UnconditionalBranchFixed"
    and f: "fragment w p = Some f" and pl: "placed s f" and t: "arm_exec (arm_decode w) (goto p s) = Some t"
  shows "\<exists>n u. arm_run n s = Some u \<and> agrees (arm_decode w) (p + 4) (a_pc s + of_nat (4 * length f)) t u"
proof -
  let ?v = "decode_imm26_offset w + p" and ?w = "if w AND UnconditionalBranchMask = BL_op then blr_tmp else br_tmp"
  let ?s1 = "next_pc (set_x 17 ?v s)"
  have "w AND LoadRegLiteralFixedMask \<noteq> LoadRegLiteralFixed" "w AND PCRelAddressingFixedMask \<noteq> PCRelAddressingFixed"
    using arm64_class_unique [of 2 0 w] arm64_class_unique [of 2 1 w] cl
    by (auto simp: arm64_classes_def in_class_def numeral_2_eq_2)
  then have fr: "f = [Lit ?v, Wd ?w]" using f cl by (simp add: fragment_def)
  have "arm_step s = Some ?s1" "arm_step ?s1 = arm_exec (arm_decode ?w) ?s1"
    using placed_load [OF pl, of 0 ?v ?w s] by (simp_all add: fr)
  then have "arm_run (Suc 0 + Suc 0) s = arm_exec (arm_decode ?w) ?s1"
    unfolding arm_run_add arm_run_1 by (simp only: option.case)
  moreover have "arm_decode ?w = (if w AND UnconditionalBranchMask = BL_op then A_BLR else A_BR) 17"
    by (simp add: blr_tmp_def br_tmp_def arm_decode_blr arm_decode_br)
  moreover have d: "arm_decode w = (if w AND UnconditionalBranchMask = BL_op then A_BL else A_B) (decode_imm26_offset w)"
    using cl by (rule arm_decode_class_b)
  ultimately obtain u where "arm_run (Suc 0 + Suc 0) s = Some u" and
      "u = goto ?v (if w AND UnconditionalBranchMask = BL_op then set_x 30 (a_pc s + 4 + 4) ?s1 else ?s1)"
    by (cases "w AND UnconditionalBranchMask = BL_op") simp_all
  moreover from this have "agrees (arm_decode w) (p + 4) (a_pc s + of_nat (4 * length f)) t u"
    using t unfolding d by (cases "w AND UnconditionalBranchMask = BL_op")
      (auto simp: fr agrees_def links_def scratch_lost_def pc_relative_def goto_def next_pc_def set_x_def
        add.commute [of p "decode_imm26_offset w"])
  ultimately show ?thesis by blast
qed

lemma reloc_conditional:
  assumes fr: "f = [Wd v, Lit (off + p), Wd br_tmp]" and pl: "placed s f"
    and v: "arm_exec (arm_decode v) s = Some (branch_if (\<not> c) 12 s)"
    and t: "t = branch_if c off (goto p s)" and i: "\<not> links i" "scratch_lost i"
  shows "\<exists>n u. arm_run n s = Some u \<and> agrees i (p + 4) (a_pc s + of_nat (4 * length f)) t u"
proof -
  let ?s1 = "next_pc s" let ?s2 = "next_pc (set_x 17 (off + p) ?s1)"
  have 1: "arm_step s = Some (branch_if (\<not> c) 12 s)" using placed_word [OF pl, of 0 v s] v by (simp add: fr)
  show ?thesis
  proof (cases c)
    case True
    then have s1: "arm_step s = Some ?s1" using 1 by (simp add: branch_if_def)
    have "arm_step ?s1 = Some ?s2" "arm_step ?s2 = Some (goto (off + p) ?s2)"
      using placed_load [OF pl, of 1 "off + p" br_tmp ?s1] by (simp_all add: fr br_tmp_def arm_decode_br)
    then have "arm_run (Suc (Suc (Suc 0))) s = Some (goto (off + p) ?s2)" using s1 by simp
    moreover have "agrees i (p + 4) (a_pc s + of_nat (4 * length f)) t (goto (off + p) ?s2)"
      using True t i by (auto simp: agrees_def branch_if_def goto_def next_pc_def set_x_def add.commute [of p off])
    ultimately show ?thesis by blast
  next
    case False
    then have "arm_run (Suc 0) s = Some (goto (a_pc s + 12) s)" using 1 by (simp add: branch_if_def)
    moreover have "agrees i (p + 4) (a_pc s + of_nat (4 * length f)) t (goto (a_pc s + 12) s)"
      using False t i by (auto simp: agrees_def branch_if_def goto_def next_pc_def fr)
    ultimately show ?thesis by blast
  qed
qed

text \<open>The later classes are reached only when the earlier tests fail, which the disjointness of the classes gives.\<close>

lemma fragment_conditional:
  "w AND TestBranchFixedMask = TestBranchFixed \<Longrightarrow>
     fragment w p = Some [Wd (invert_test_branch w), Lit (decode_imm14_offset w + p), Wd br_tmp]"
  "w AND CompareBranchFixedMask = CompareBranchFixed \<Longrightarrow>
     fragment w p = Some [Wd (invert_compare_branch w), Lit (decode_imm19_offset w + p), Wd br_tmp]"
  "w AND ConditionalBranchFixedMask = ConditionalBranchFixed \<Longrightarrow>
     fragment w p = Some [Wd (invert_conditional_branch w), Lit (decode_imm19_offset w + p), Wd br_tmp]"
proof -
  have u: "\<not> in_class (arm64_classes ! j) w" if "in_class (arm64_classes ! i) w" "j < i" "i < 6" for i j
    using arm64_class_unique [of i j w] that by auto
  show "w AND TestBranchFixedMask = TestBranchFixed \<Longrightarrow>
     fragment w p = Some [Wd (invert_test_branch w), Lit (decode_imm14_offset w + p), Wd br_tmp]"
    using u [of 3 0] u [of 3 1] u [of 3 2]
    by (simp add: arm64_classes_def in_class_def fragment_def numeral_2_eq_2 numeral_3_eq_3)
  show "w AND CompareBranchFixedMask = CompareBranchFixed \<Longrightarrow>
     fragment w p = Some [Wd (invert_compare_branch w), Lit (decode_imm19_offset w + p), Wd br_tmp]"
    using u [of 4 0] u [of 4 1] u [of 4 2] u [of 4 3]
    by (simp add: arm64_classes_def in_class_def fragment_def)
  show "w AND ConditionalBranchFixedMask = ConditionalBranchFixed \<Longrightarrow>
     fragment w p = Some [Wd (invert_conditional_branch w), Lit (decode_imm19_offset w + p), Wd br_tmp]"
    using u [of 5 0] u [of 5 1] u [of 5 2] u [of 5 3] u [of 5 4]
    by (simp add: arm64_classes_def in_class_def fragment_def)
qed

lemma reloc_tb:
  assumes cl: "w AND TestBranchFixedMask = TestBranchFixed"
    and f: "fragment w p = Some f" and pl: "placed s f" and t: "arm_exec (arm_decode w) (goto p s) = Some t"
  shows "\<exists>n u. arm_run n s = Some u \<and> agrees (arm_decode w) (p + 4) (a_pc s + of_nat (4 * length f)) t u"
proof (rule reloc_conditional [where v = "invert_test_branch w" and off = "decode_imm14_offset w", OF _ pl])
  let ?c = "bit (get_x (fld w 0 5) s) (unat (push_bit 5 (fld w 31 1) OR fld w 19 5)) = (fld w 24 1 = 1)"
  show "arm_exec (arm_decode (invert_test_branch w)) s = Some (branch_if (\<not> ?c) 12 s)"
    by (auto simp: arm_decode_invert_tb [OF cl])
  show "t = branch_if ?c (decode_imm14_offset w) (goto p s)" using t by (simp add: arm_decode_class_tb [OF cl])
qed (use f cl in \<open>auto simp: fragment_conditional arm_decode_class_tb links_def scratch_lost_def pc_relative_def\<close>)

lemma reloc_cb:
  assumes cl: "w AND CompareBranchFixedMask = CompareBranchFixed"
    and f: "fragment w p = Some f" and pl: "placed s f" and t: "arm_exec (arm_decode w) (goto p s) = Some t"
  shows "\<exists>n u. arm_run n s = Some u \<and> agrees (arm_decode w) (p + 4) (a_pc s + of_nat (4 * length f)) t u"
proof (rule reloc_conditional [where v = "invert_compare_branch w" and off = "decode_imm19_offset w", OF _ pl])
  let ?x = "get_x (fld w 0 5) s" let ?c = "((if fld w 31 1 = 1 then ?x else take_bit 32 ?x) \<noteq> 0) = (fld w 24 1 = 1)"
  show "arm_exec (arm_decode (invert_compare_branch w)) s = Some (branch_if (\<not> ?c) 12 s)"
    by (auto simp: arm_decode_invert_cb [OF cl])
  show "t = branch_if ?c (decode_imm19_offset w) (goto p s)" using t by (cases "fld w 31 1 = 1") (simp_all add: arm_decode_class_cb [OF cl])
qed (use f cl in \<open>auto simp: fragment_conditional arm_decode_class_cb links_def scratch_lost_def pc_relative_def\<close>)

lemma reloc_bcond:
  assumes cl: "w AND ConditionalBranchFixedMask = ConditionalBranchFixed" "fld w 24 1 = 0" "fld w 4 1 = 0" "fld w 0 4 < 14"
    and f: "fragment w p = Some f" and pl: "placed s f" and t: "arm_exec (arm_decode w) (goto p s) = Some t"
  shows "\<exists>n u. arm_run n s = Some u \<and> agrees (arm_decode w) (p + 4) (a_pc s + of_nat (4 * length f)) t u"
proof (rule reloc_conditional [where v = "invert_conditional_branch w" and off = "decode_imm19_offset w", OF _ pl])
  let ?c = "cond_holds (fld w 0 4) s"
  show "arm_exec (arm_decode (invert_conditional_branch w)) s = Some (branch_if (\<not> ?c) 12 s)"
    using cond_holds_invert [OF cl(4)] by (simp add: arm_decode_invert_bcond [OF cl(1-3)])
  have "cond_holds (fld w 0 4) (goto p s) = ?c" by (simp add: cond_holds_def goto_def)
  then show "t = branch_if ?c (decode_imm19_offset w) (goto p s)"
    using t by (simp add: arm_decode_class_bcond [OF cl(1-3)])
qed (use f cl in \<open>auto simp: fragment_conditional arm_decode_class_bcond links_def scratch_lost_def pc_relative_def\<close>)

section \<open>The relocated prologue\<close>

text \<open>
  The instructions that the relocator translates correctly: literal loads only of 64-bit general
  registers, conditional branches only with a condition that has an inverse.
\<close>

definition supported :: "u32 \<Rightarrow> bool" where
  "supported w \<longleftrightarrow>
     (w AND LoadRegLiteralFixedMask = LoadRegLiteralFixed \<longrightarrow> bits w 30 31 = 1 \<and> fld w 26 1 = 0) \<and>
     (w AND ConditionalBranchFixedMask = ConditionalBranchFixed \<longrightarrow> fld w 24 1 = 0 \<and> fld w 4 1 = 0 \<and> fld w 0 4 < 14)"

lemma fragment_agrees:
  assumes sup: "supported w" and f: "fragment w p = Some f" and pl: "placed s f"
    and t: "arm_exec (arm_decode w) (goto p s) = Some t"
  shows "\<exists>n u. arm_run n s = Some u \<and> agrees (arm_decode w) (p + 4) (a_pc s + of_nat (4 * length f)) t u"
proof (cases "\<exists>c \<in> set arm64_classes. in_class c w")
  case True
  then consider "w AND LoadRegLiteralFixedMask = LoadRegLiteralFixed" | "w AND PCRelAddressingFixedMask = PCRelAddressingFixed"
    | "w AND UnconditionalBranchFixedMask = UnconditionalBranchFixed" | "w AND TestBranchFixedMask = TestBranchFixed"
    | "w AND CompareBranchFixedMask = CompareBranchFixed" | "w AND ConditionalBranchFixedMask = ConditionalBranchFixed"
    by (auto simp: arm64_classes_def in_class_def)
  then show ?thesis
    using sup reloc_ldr [OF _ _ _ f pl t] reloc_adr [OF _ f pl t] reloc_branch [OF _ f pl t] reloc_tb [OF _ f pl t]
      reloc_cb [OF _ f pl t] reloc_bcond [OF _ _ _ _ f pl t]
    unfolding supported_def by metis
next
  case False
  then have fr: "f = [Wd w]" using f by (simp add: fragment_def arm64_classes_def in_class_def)
  have step: "arm_step s = arm_exec (arm_decode w) s" by (rule placed_word [OF pl, of 0]) (simp_all add: fr)
  have "\<not> pc_relative (arm_decode w)" using False pc_relative_class by blast
  then obtain u where "arm_exec (arm_decode w) s = Some u" "agrees (arm_decode w) (p + 4) (a_pc s + 4) t u"
    using copied_agrees t by blast
  then have "arm_run (Suc 0) s = Some u" "agrees (arm_decode w) (p + 4) (a_pc s + of_nat (4 * length f)) t u"
    using step by (simp_all add: fr)
  then show ?thesis by blast
qed

lemma fragments_append:
  "fragments (xs @ ys) pc =
     (case fragments xs pc of None \<Rightarrow> None | Some a \<Rightarrow>
        (case fragments ys (pc + 4 * of_nat (length xs)) of None \<Rightarrow> None | Some b \<Rightarrow> Some (a @ b)))"
  by (induction xs arbitrary: pc) (auto simp: algebra_simps split: option.splits)

lemma layout_simulates:
  assumes parts: "fragments (xs @ w # ys) start = Some is" "fragments xs start = Some pre" "length is < 2 ^ 16"
    and code: "code_at s R (layout is resume)" and pc: "a_pc s = R + of_nat (4 * length pre)"
    and sup: "supported w"
    and orig: "arm_exec (arm_decode w) (goto (start + 4 * of_nat (length xs)) s) = Some t"
  shows "\<exists>f n u. fragment w (start + 4 * of_nat (length xs)) = Some f \<and> arm_run n s = Some u \<and>
           agrees (arm_decode w) (start + 4 * of_nat (length xs) + 4) (a_pc s + of_nat (4 * length f)) t u"
proof -
  obtain f post where f: "fragment w (start + 4 * of_nat (length xs)) = Some f" and "is": "is = pre @ f @ post"
    using parts(1,2) by (auto simp: fragments_append split: option.splits)
  then have "placed s f"
    using code pc parts(3) unfolding placed_def
    by (intro exI [of _ R] exI [of _ resume] exI [of _ pre] exI [of _ post]) simp
  from fragment_agrees [OF sup f this orig] show ?thesis using f by blast
qed

text \<open>Behind the fragments the code loads the address to resume at and branches there.\<close>

lemma layout_resumes:
  assumes "code_at s R (layout is resume)" and "a_pc s = R + of_nat (4 * length is)"
  shows "arm_run 2 s = Some (goto resume (set_x 17 resume s))"
  using assms
  by (intro run_ldr_br [of s 8]) (simp_all add: layout_def br_tmp_def code_at_append add.assoc add.commute [of 8])

lemma length_fragments: "fragments ws pc = Some is \<Longrightarrow> length is \<le> 5 * length ws"
proof (induction ws arbitrary: pc "is")
  case (Cons w ws)
  then obtain f r where "fragment w pc = Some f" "fragments ws (pc + 4) = Some r" "is = f @ r"
    by (auto split: option.splits)
  moreover have "length f \<le> 5" if "fragment w pc = Some f" for f
    using that by (auto simp: fragment_def mov_words_def split: if_splits)
  ultimately show ?case using Cons.IH [of "pc + 4" r] by fastforce
qed simp

text \<open>
  C6: relocated code simulates the original. Take the output of the relocator for the instructions
  \<open>xs @ w # ys\<close> at \<open>start\<close>, placed anywhere in memory, and a machine about to run the part that belongs
  to \<open>w\<close>. Whatever one step of \<open>w\<close> does at its original address, the relocated part does the
  same: it ends in a state with the same memory, flags, stack pointer and registers (but for the scratch
  register where it is used and the return address of a call), and it continues at
  the same address, or at the next relocated instruction where the original falls through.
\<close>

theorem relocated_code_simulates:
  assumes gen: "GenRelocateCode (words ((xs @ w # ys) @ [extra]) @ rest) start (4 * length (xs @ w # ys)) = Inr a"
    and parts: "fragments (xs @ w # ys) start = Some is" "fragments xs start = Some pre" "length is < 2 ^ 16"
    and code: "code_at s R (asm_buffer a)" and pc: "a_pc s = R + of_nat (4 * length pre)"
    and sup: "supported w"
    and orig: "arm_exec (arm_decode w) (goto (start + 4 * of_nat (length xs)) s) = Some t"
  shows "\<exists>f n u. fragment w (start + 4 * of_nat (length xs)) = Some f \<and> arm_run n s = Some u \<and>
           agrees (arm_decode w) (start + 4 * of_nat (length xs) + 4) (a_pc s + of_nat (4 * length f)) t u"
proof -
  have "asm_buffer a = layout is (start + 4 * of_nat (length (xs @ w # ys)))"
    using relocator_layout [OF parts(1), of extra rest] gen by auto
  with code have "code_at s R (layout is (start + 4 * of_nat (length (xs @ w # ys))))" by simp
  from layout_simulates [OF parts this pc sup orig] show ?thesis .
qed

theorem relocated_code_simulates_witness:
  "\<exists>a n u. GenRelocateCode (words [0xD503201F, 0xB4000040, 0]) 0x1000 8 = Inr a \<and>
     arm_run n (goto 0x8004 (state_with 0x8000 (asm_buffer a))) = Some u \<and> a_pc u = 0x100C"
proof -
  have o19: "decode_imm19_offset 0xB4000040 = 8"
    by (simp add: decode_imm19_offset_def bits_def submask_def SignExtend_def)
  have f1: "fragments [0xD503201F] 0x1000 = Some [Wd 0xD503201F]" by (simp add: fragment_def literal_defs)
  have f2: "fragment 0xB4000040 0x1004 = Some [Wd (invert_compare_branch 0xB4000040), Lit 0x100C, Wd br_tmp]"
    using fragment_conditional(2) [of "0xB4000040" "0x1004"] o19 by (simp add: literal_defs)
  have parts: "fragments ([0xD503201F] @ 0xB4000040 # []) 0x1000 =
      Some ([Wd 0xD503201F] @ [Wd (invert_compare_branch 0xB4000040), Lit 0x100C, Wd br_tmp])"
    unfolding fragments_append f1 by (simp add: f2)
  obtain a where a: "GenRelocateCode (words (([0xD503201F] @ 0xB4000040 # []) @ [0]) @ []) 0x1000
        (4 * length ([0xD503201F] @ 0xB4000040 # [] :: u32 list)) = Inr a"
      "asm_buffer a = layout ([Wd 0xD503201F] @ [Wd (invert_compare_branch 0xB4000040), Lit 0x100C, Wd br_tmp])
         (0x1000 + 4 * of_nat (length ([0xD503201F] @ 0xB4000040 # [] :: u32 list)))"
    using relocator_layout [OF parts, of 0 "[]"] by blast
  define s where "s = goto 0x8004 (state_with 0x8000 (asm_buffer a))"
  have code: "code_at s 0x8000 (asm_buffer a)"
    unfolding s_def code_at_steps by (rule code_at_state_with) (simp add: a(2) layout_def)
  have dec: "arm_decode 0xB4000040 = A_CB False True 0 8"
    using arm_decode_class_cb [of "0xB4000040"] o19 by (simp add: literal_defs fld_def)
  have orig: "arm_exec (arm_decode 0xB4000040) (goto (0x1000 + 4 * of_nat (length [0xD503201F :: u32])) s) = Some (goto 0x100C s)"
    by (simp add: dec branch_if_def s_def get_x_def state_with_def goto_def)
  have "supported 0xB4000040" by (simp add: supported_def literal_defs)
  from relocated_code_simulates [OF a(1) parts f1 _ code _ this orig]
  obtain n u where "arm_run n s = Some u" "agrees (arm_decode 0xB4000040) 0x1008 (a_pc s + 12) (goto 0x100C s) u"
    using f2 by (auto simp: s_def)
  then show ?thesis using a(1) by (auto simp: s_def agrees_def)
qed

end
