(* ===== verification/NearTrampoline.thy ===== *)
theory NearTrampoline
  imports NearArena Arm64Simulation
begin

text \<open>
  The trampoline of one branch instruction and the code near the function that forwards it where the target is out of reach
  (\<^verbatim>\<open>trampoline-arm64.cc\<close>, \<^verbatim>\<open>NeaBranchTrampoline.cc\<close>). Results are optional as in \<open>NearArena\<close>.
\<close>

section \<open>Results of partial computations\<close>

definition bindR :: "('e + 'a) option \<Rightarrow> ('a \<Rightarrow> ('e + 'b) option) \<Rightarrow> ('e + 'b) option" where
  "bindR r f = (case r of None \<Rightarrow> None | Some (Inl e) \<Rightarrow> Some (Inl e) | Some (Inr a) \<Rightarrow> f a)"

lemma bindR_simps [simp]:
  "bindR None f = None" "bindR (Some (Inl e)) f = Some (Inl e)" "bindR (Some (Inr a)) f = f a"
  by (simp_all add: bindR_def)

lemma bindR_eq_Inr [simp]: "bindR r f = Some (Inr b) \<longleftrightarrow> (\<exists>a. r = Some (Inr a) \<and> f a = Some (Inr b))"
  by (auto simp: bindR_def split: option.splits sum.splits)

section \<open>Trampolines\<close>

definition ARM64_B_XXX_RANGE :: int where
  "ARM64_B_XXX_RANGE = 2 ^ 25 * 2 ^ 2"

definition finish_forward ::
  "int \<Rightarrow> addr \<Rightarrow> MemoryChunk \<Rightarrow> Assembler \<Rightarrow> process \<Rightarrow> asm_fault + (MemoryChunk option \<times> process)" where
  "finish_forward ps mapped cchunk a P =
     bindE (FinalizeFromTurboAssembler ps mapped (SetRealizedAddress (chunk_address cchunk) a) P) (\<lambda>(result, a, P). Inr (result, P))"

text \<open>\<open>views 0\<close> and \<open>views 1\<close> are what the first and the second allocation see of the system.\<close>

definition GenerateFastForwardTrampoline ::
  "(nat \<Rightarrow> nat \<Rightarrow> system_view) \<Rightarrow> int \<Rightarrow> addr \<Rightarrow> addr \<Rightarrow> addr \<Rightarrow> process \<Rightarrow>
     (asm_fault + (MemoryChunk option \<times> process)) option" where
  "GenerateFastForwardTrampoline views ps mapped source_address target_address P =
     bindR (near_AllocateCodeChunk (views 0) ps source_address (word_of_int ARM64_B_XXX_RANGE) (3 * 4) P) (\<lambda>(cchunk, P).
     case cchunk of
       None \<Rightarrow> Some (Inr (None, P))
     | Some cchunk \<Rightarrow>
         if llabs (chunk_address cchunk - target_address) < adrp_range then
           bindR (Some (AdrpAdd TMP_REG_0 (chunk_address cchunk) target_address (new_Assembler 0))) (\<lambda>a.
             Some (finish_forward ps mapped cchunk (br TMP_REG_0 a) P))
         else
           (let a = br TMP_REG_0 (Mov TMP_REG_0 target_address (new_Assembler 0)) in
            bindR (near_AllocateCodeChunk (views 1) ps source_address (word_of_int ARM64_B_XXX_RANGE) (int (length (asm_buffer a))) P)
              (\<lambda>(cchunk, P).
                case cchunk of None \<Rightarrow> Some (Inr (None, P)) | Some cchunk \<Rightarrow> Some (finish_forward ps mapped cchunk a P))))"

definition GenerateNearTrampolineBuffer ::
  "(nat \<Rightarrow> nat \<Rightarrow> system_view) \<Rightarrow> int \<Rightarrow> addr \<Rightarrow> addr \<Rightarrow> addr \<Rightarrow> process \<Rightarrow>
     (asm_fault + (u8 list option \<times> process)) option" where
  "GenerateNearTrampolineBuffer views ps mapped src dst P =
     (if sint (llabs (dst - src)) < ARM64_B_XXX_RANGE
      then Some (Inr (Some (asm_buffer (b_imm (dst - src) (new_Assembler src))), P))
      else
        bindR (GenerateFastForwardTrampoline views ps mapped src dst P) (\<lambda>(fast_forward_trampoline, P).
          case fast_forward_trampoline of
            None \<Rightarrow> Some (Inr (None, P))
          | Some c \<Rightarrow> Some (Inr (Some (asm_buffer (b_imm (chunk_address c - src) (new_Assembler src))), P))))"

section \<open>One branch\<close>

lemma fits_llabs: "llabs d < 2 ^ 27 \<Longrightarrow> fits_signed 28 d"
  unfolding word_less_def uint_llabs by (simp add: fits_signed_def abs_less_iff)

lemma llabs_signed:
  assumes "sint (llabs d) < 2 ^ 27" and "d \<noteq> 2 ^ 63"
  shows "llabs d < 2 ^ 27"
proof -
  have s: "- (2 ^ 63) \<le> sint d" "sint d < 2 ^ 63" using sint_range_size [of d] by (simp_all add: word_size)
  have "sint d \<noteq> - (2 ^ 63)"
  proof
    assume min: "sint d = - (2 ^ 63)"
    have "d = word_of_int (sint d)" by simp
    then have "d = word_of_int (- (2 ^ 63))" unfolding min .
    then show False using assms(2) by simp
  qed
  then have a: "\<bar>sint d\<bar> < 2 ^ 63" using s by linarith
  have "llabs d = word_of_int \<bar>sint d\<bar>" by (simp add: llabs_def)
  then have "sint (llabs d) = \<bar>sint d\<bar>" using a sint_small [of "\<bar>sint d\<bar>"] by simp
  then show ?thesis using assms(1) unfolding word_less_def uint_llabs by simp
qed

lemma b_imm_bytes: "asm_buffer (b_imm off (new_Assembler src)) = le_bytes 4 (b_word off)"
  by (simp add: b_imm_def new_Assembler_def)

lemma branch_step:
  assumes "llabs off < 2 ^ 27" and "take_bit 2 off = 0"
    and "code_at s src (le_bytes 4 (b_word off))" and "a_pc s = src"
  shows "arm_step s = Some (goto (src + off) s)"
proof -
  have "arm_step s = arm_exec (arm_decode (b_word off)) s" by (rule arm_step_code) (use assms in simp)
  moreover have "sext 28 (push_bit 2 (take_bit 26 (signed_drop_bit 2 off))) = off"
    using sext_branch [of 26 off] fits_llabs [OF assms(1)] assms(2) by simp
  ultimately show ?thesis using assms(4) by (simp add: arm_decode_b)
qed

section \<open>The forwarding code\<close>

text \<open>A patch that goes through has written its bytes and nothing else.\<close>

lemma CodePatch_memory: "CodePatch ps a bs P = Inr P' \<Longrightarrow> memory P' = write_bytes a bs (memory P)"
  by (auto simp: CodePatch_def Let_def memcpy_to_def mprotect_page_def split: if_splits option.splits)

lemma finish_forward_memory:
  assumes "finish_forward ps mapped c a P = Inr (res, P')" and "chunk_address c \<noteq> 0"
  shows "memory P' = write_bytes (chunk_address c) (asm_buffer a) (memory P)"
    and "\<exists>r. res = Some r \<and> chunk_address r = chunk_address c"
  using assms CodePatch_memory
  by (auto simp: finish_forward_def FinalizeFromTurboAssembler_def SetRealizedAddress_def FinalizeFromAddress_def init_region_range_def)

text \<open>
  The near arena hands out chunks that start at an instruction boundary, in pages away from the instruction that is
  patched; no page that the system grants covers that instruction either.
\<close>

definition page_avoids :: "addr \<Rightarrow> MemoryChunk \<Rightarrow> bool" where
  "page_avoids src d \<longleftrightarrow> chunk_end d \<le> unat src \<or> unat src + 4 \<le> unat (chunk_address d)"

definition near_page_ok :: "addr \<Rightarrow> PageChunk \<Rightarrow> bool" where
  "near_page_ok src pg \<longleftrightarrow> page_ok pg \<and> chunk_address (page pg) \<noteq> 0 \<and> take_bit 2 (page_cursor pg) = 0 \<and> page_avoids src (page pg)"

definition near_ok :: "addr \<Rightarrow> process \<Rightarrow> bool" where
  "near_ok src P \<longleftrightarrow> list_all (near_page_ok src) (arena_pages (near_arena P))"

definition grants_avoid :: "nat \<Rightarrow> addr \<Rightarrow> system_view \<Rightarrow> bool" where
  "grants_avoid k src v \<longleftrightarrow> view_ok v \<and>
     (\<forall>a. Allocate v a = a \<and> a \<noteq> 0 \<longrightarrow> page_avoids src \<lparr>chunk_address = a, chunk_length = 2 ^ k\<rparr>)"

lemma take_bit_2_add: "take_bit 2 a = 0 \<Longrightarrow> take_bit 2 b = 0 \<Longrightarrow> take_bit 2 (a + b) = (0 :: u64)"
  unfolding take_bit_eq_0_iff by (rule dvd_add)

lemma near_cut_ok:
  assumes pg: "near_page_ok src pg" and room: "near_has_room near_pos r n perm pg" and n: "0 \<le> n" "n < 2 ^ 31" "take_bit 2 n = 0"
    and cut: "cut_chunk n pg = (c, pg')"
  shows "near_page_ok src pg'" and "take_bit 2 (chunk_address c) = 0" and "chunk_address c \<noteq> 0" and "llabs (chunk_address c - near_pos) < r"
    and "unat (chunk_address c) + nat n < 2 ^ 63" and "unat (chunk_address c) + nat n \<le> unat src \<or> unat src + 4 \<le> unat (chunk_address c)"
proof -
  have ok: "page_ok pg" "chunk_address (page pg) \<noteq> 0" "take_bit 2 (page_cursor pg) = 0" "page_avoids src (page pg)"
    using pg by (simp_all add: near_page_ok_def)
  have "page_has_room n perm pg" using room by (simp add: near_has_room_def page_has_room_def)
  then have "unat (page_cursor pg) + nat n \<le> chunk_end (page pg)" using page_has_room_nat [OF ok(1) _ n(1,2)] by fastforce
  note k = cut_chunk_ok [OF ok(1) n(1,2) this cut]
  have "take_bit 2 (word_of_int n :: u64) = 0" using n(3) by (simp add: take_bit_of_int)
  then have "take_bit 2 (page_cursor pg') = 0" using take_bit_2_add ok(3) cut by (auto simp: cut_chunk_def Let_def)
  then show "near_page_ok src pg'" using k(1,2) ok(2,4) by (simp add: near_page_ok_def)
  show "take_bit 2 (chunk_address c) = 0" "llabs (chunk_address c - near_pos) < r"
    using cut ok(3) room by (auto simp: cut_chunk_def Let_def near_has_room_def)
  show "chunk_address c \<noteq> 0"
  proof
    assume "chunk_address c = 0"
    then show False using k(6) ok(2) by (simp add: inside_def unat_eq_0)
  qed
  have "unat (word_of_int n :: u64) = nat n" using n(1,2) by (intro unat_word_of_int) simp_all
  then have e: "chunk_end c = unat (chunk_address c) + nat n" by (simp add: chunk_end_def k(5))
  have "chunk_end (page pg) < 2 ^ 63" using ok(1) by (simp add: page_ok_def)
  then show "unat (chunk_address c) + nat n < 2 ^ 63" "unat (chunk_address c) + nat n \<le> unat src \<or> unat src + 4 \<le> unat (chunk_address c)"
    using k(6) ok(4) unfolding e [symmetric] inside_def page_avoids_def by linarith+
qed

lemma list_all_update: "list_all ok xs \<Longrightarrow> ok y \<Longrightarrow> list_all ok (xs[i := y])"
  by (auto simp: list_all_iff dest: set_update_subset_insert [THEN subsetD])

text \<open>A chunk for \<open>n\<close> bytes of code near \<open>src\<close>.\<close>

definition near_chunk :: "addr \<Rightarrow> u64 \<Rightarrow> int \<Rightarrow> MemoryChunk \<Rightarrow> bool" where
  "near_chunk src r n c \<longleftrightarrow> take_bit 2 (chunk_address c) = 0 \<and> chunk_address c \<noteq> 0 \<and> llabs (chunk_address c - src) < r \<and>
     unat (chunk_address c) + nat n < 2 ^ 63 \<and>
     (unat (chunk_address c) + nat n \<le> unat src \<or> unat src + 4 \<le> unat (chunk_address c))"

lemma near_alloc_ok:
  assumes ok: "range_ok k r" "unat src + unat r < 2 ^ 63" and v: "\<forall>i. grants_avoid k src (view i)"
    and n: "0 \<le> n" "n < 2 ^ k" "take_bit 2 n = 0" and k: "2 \<le> k"
    and P: "near_ok src P" and res: "near_AllocateChunk view (2 ^ k) src r n perm P = Some (Inr (Some c, P'))"
  shows "near_ok src P'" and "near_chunk src r n c"
proof -
  have k31: "k < 31" using ok(1) by (simp add: range_ok_def)
  have p31: "(2 :: int) ^ k < 2 ^ 31" using k31 by (intro power_strict_increasing) simp_all
  then have n31: "n < 2 ^ 31" using n(2) by linarith
  have vo: "\<forall>i. view_ok (view i)" using v by (simp add: grants_avoid_def)
  obtain pgs j pg where pgs: "list_all (near_page_ok src) pgs" "j < length pgs" "near_has_room src r n perm (pgs ! j)"
      "cut_chunk n (pgs ! j) = (c, pg)" "near_arena P' = Some (pgs[j := pg])"
  proof (cases rule: near_search_returns [OF ok vo n(1,2), of perm P thesis])
    case (4 a j c' pg)
    let ?new = "new_page a (word_of_int (2 ^ k)) perm"
    have top: "unat a + 2 ^ k < 2 ^ 63" using 4(1) ok(2) unfolding in_reach_def by linarith
    have "(2 :: nat) ^ 2 dvd 2 ^ k" using k by (rule le_imp_power_dvd)
    moreover have "2 ^ k dvd unat a" using 4(1) by (simp add: in_reach_def mod_eq_0_iff_dvd)
    ultimately have "2 ^ 2 dvd unat a" by (rule dvd_trans)
    then have "take_bit 2 a = 0" by (simp add: take_bit_eq_mod word_unat_eq_iff unat_mod mod_eq_0_iff_dvd)
    moreover have "page_ok ?new" using new_page_ok [of a "2 ^ k" perm] top p31 by (simp add: nat_power_eq)
    moreover have "page_avoids src (page ?new)" using v [rule_format, of 0] 4(2,3) by (simp add: grants_avoid_def new_page_def)
    ultimately have "near_page_ok src ?new" using 4(2) by (simp add: near_page_ok_def new_page_def)
    then show ?thesis
      using that [of "PushPage (2 ^ k) a perm (arena_pages (near_arena P))" j pg] 4 res P
      by (simp add: near_ok_def PushPage_def)
  qed (use res P that in \<open>auto simp: near_ok_def\<close>)
  have "near_page_ok src (pgs ! j)" using pgs(1,2) by (simp add: list_all_length)
  note c = near_cut_ok [OF this pgs(3) n(1) n31 n(3) pgs(4)]
  show "near_ok src P'" using list_all_update [OF pgs(1) c(1)] pgs(5) by (simp add: near_ok_def arena_pages_def)
  show "near_chunk src r n c" using c by (simp add: near_chunk_def)
qed

text \<open>Both forms of the forwarding code reach the target: the page form, and the form that moves the whole address.\<close>

lemma run_mov_br:
  assumes "code_at s (a_pc s) (concat (map (le_bytes 4) (mov_words 17 to)) @ le_bytes 4 (BR_op OR Rn (X 17)))"
  shows "arm_run 5 s = Some (goto to (set_x 17 to s))"
proof -
  have code: "code_at s (a_pc s + of_nat (4 * i)) (le_bytes 4 (mov_words 17 to ! i))" if "i < 4" for i
  proof -
    have "i = 0 \<or> i = 1 \<or> i = 2 \<or> i = 3" using that by linarith
    then show ?thesis
      using assms by (auto simp: mov_words_def code_at_append add.commute [of 8] add.commute [of 12] add.commute [of 16])
  qed
  have 1: "arm_run 4 s = Some (goto (a_pc s + 16) (set_x 17 to s))" using run_mov_words [OF _ code] by simp
  have "arm_step (goto (a_pc s + 16) (set_x 17 to s)) = arm_exec (arm_decode (BR_op OR Rn (X 17))) (goto (a_pc s + 16) (set_x 17 to s))"
    by (rule arm_step_code) (use assms in \<open>simp add: mov_words_def code_at_append add.commute [of 16]\<close>)
  then have "arm_step (goto (a_pc s + 16) (set_x 17 to s)) = Some (goto to (set_x 17 to s))"
    by (simp add: arm_decode_br) (simp add: goto_def set_x_def)
  then show ?thesis using arm_run_add [of 4 1 s] 1 by simp
qed

text \<open>Code at \<open>c\<close>, in reach of a branch at \<open>src\<close>, that continues at \<open>dst\<close>.\<close>

definition forwards :: "addr \<Rightarrow> addr \<Rightarrow> MemoryChunk \<Rightarrow> process \<Rightarrow> bool" where
  "forwards src dst c P \<longleftrightarrow> 
     (\<exists>bs. near_chunk src (2 ^ 27) (int (length bs)) c \<and> (\<forall>i < length bs. memory P (chunk_address c + of_nat i) = bs ! i) \<and>
       (\<forall>s. a_pc s = chunk_address c \<and> code_at s (chunk_address c) bs \<longrightarrow> (\<exists>n \<le> 5. arm_run n s = Some (goto dst (set_x 17 dst s)))))"

lemma finish_forwards:
  assumes fin: "finish_forward ps mapped c1 a P1 = Inr (Some c, P')" and c1: "near_chunk src (2 ^ 27) (int (length (asm_buffer a))) c1"
    and run: "\<And>s. \<lbrakk>a_pc s = chunk_address c1; code_at s (chunk_address c1) (asm_buffer a)\<rbrakk> \<Longrightarrow> \<exists>n \<le> 5. arm_run n s = Some (goto dst (set_x 17 dst s))"
  shows "forwards src dst c P'"
proof -
  have "chunk_address c1 \<noteq> 0" "length (asm_buffer a) \<le> 2 ^ 64" using c1 by (simp_all add: near_chunk_def)
  note fm = finish_forward_memory [OF fin this(1)]
  have "chunk_address c = chunk_address c1" using fm(2) by simp
  moreover have "memory P' (chunk_address c1 + of_nat i) = asm_buffer a ! i" if "i < length (asm_buffer a)" for i
    using that \<open>length (asm_buffer a) \<le> 2 ^ 64\<close> by (simp add: fm(1) write_bytes_at)
  ultimately show ?thesis unfolding forwards_def using c1 run by (intro exI [of _ "asm_buffer a"]) (simp add: near_chunk_def)
qed

text \<open>Such a chunk does not touch the patched instruction.\<close>

lemma near_chunk_apart:
  assumes "near_chunk src r (int n) c" and "i < n" and "unat src + 4 \<le> 2 ^ 63"
  shows "4 \<le> unat (chunk_address c + of_nat i - src)"
proof -
  have u: "unat (chunk_address c + of_nat i) = unat (chunk_address c) + i"
    using assms(1,2) by (subst unat_add_small) (simp_all add: near_chunk_def unat_of_nat)
  show ?thesis
    using assms unfolding near_chunk_def unat_sub_if' u nat_int by auto
qed

lemma forward_lands:
  assumes ok: "5 \<le> k" "k < 26" "unat src + 2 ^ 27 < 2 ^ 63" and v: "\<forall>j i. grants_avoid k src (views j i)" and P: "near_ok src P"
    and wrap: "\<forall>a. page_distance a dst = 2 ^ 32 \<longrightarrow> 2 ^ 27 \<le> llabs (a - src)"
    and res: "GenerateFastForwardTrampoline views (2 ^ k) mapped src dst P = Some (Inr (Some c, P'))"
  shows "forwards src dst c P'"
proof -
  let ?r = "word_of_int ARM64_B_XXX_RANGE :: u64"
  have "(2 :: nat) ^ (k + 1) \<le> 2 ^ 26" using ok(2) by (intro power_increasing) simp_all
  then have r: "range_ok k ?r" "unat src + unat ?r < 2 ^ 63" "?r = 2 ^ 27"
    using ok(2,3) by (simp_all add: range_ok_def ARM64_B_XXX_RANGE_def)
  have "(2 :: int) ^ 5 \<le> 2 ^ k" using ok(1) by (intro power_increasing) simp_all
  then have n: "(12 :: int) < 2 ^ k" "(20 :: int) < 2 ^ k" "2 \<le> k" using ok(1) by simp_all
  have v01: "\<forall>i. grants_avoid k src (views 0 i)" "\<forall>i. grants_avoid k src (views 1 i)" using v by simp_all
  obtain c1 P1 where 1: "near_AllocateChunk (views 0) (2 ^ k) src ?r 12 kReadExecute P = Some (Inr (Some c1, P1))"
    using res by (auto simp: GenerateFastForwardTrampoline_def near_AllocateCodeChunk_def split: option.splits)
  note c1 = near_alloc_ok [OF r(1,2) v01(1) _ n(1) _ n(3) P 1, simplified]
  show ?thesis
  proof (cases "llabs (chunk_address c1 - dst) < adrp_range")
    case True
    let ?bs = "le_bytes 4 (adrp_word (X 17) (page_distance (chunk_address c1) dst)) @
         le_bytes 4 (ADD_x_imm OR Rd (X 17) OR Rn (X 17) OR ucast (LeftShift (dst mod 0x1000) 12 10)) @
         le_bytes 4 (BR_op OR Rn (X 17))"
    obtain a where a: "AdrpAdd (X 17) (chunk_address c1) dst (new_Assembler 0) = Inr a" "asm_buffer (br (X 17) a) = ?bs"
      using AdrpAdd_emits [of 17 "chunk_address c1" dst "new_Assembler 0"] by (auto simp: new_Assembler_def br_def)
    have fin: "finish_forward (2 ^ k) mapped c1 (br (X 17) a) P1 = Inr (Some c, P')"
      using res 1 True a(1) by (simp add: GenerateFastForwardTrampoline_def near_AllocateCodeChunk_def TMP_REG_0_def)
    have "page_distance (chunk_address c1) dst \<noteq> 2 ^ 32" using wrap c1(2) unfolding near_chunk_def r(3) by (metis not_le)
    then have t: "adrp_target (chunk_address c1) dst = dst" using page_distance_range [OF True] adrp_target_fits by blast
    show ?thesis
      by (rule finish_forwards [OF fin])
        (use c1(2) r(3) run_adrp_add [of _ "chunk_address c1" dst] t a(2) in \<open>auto intro!: exI [of _ 3]\<close>)
  next
    case False
    let ?a = "br (X 17) (Mov (X 17) dst (new_Assembler 0))"
    have buf: "asm_buffer ?a = concat (map (le_bytes 4) (mov_words 17 dst)) @ le_bytes 4 (BR_op OR Rn (X 17))"
      by (simp add: Mov_words br_def new_Assembler_def mov_words_def)
    then have len: "length (asm_buffer ?a) = 20" by (simp add: mov_words_def)
    obtain c2 P2 where 2: "near_AllocateChunk (views 1) (2 ^ k) src ?r 20 kReadExecute P1 = Some (Inr (Some c2, P2))"
        "finish_forward (2 ^ k) mapped c2 ?a P2 = Inr (Some c, P')"
      using res 1 False len by (auto simp: GenerateFastForwardTrampoline_def near_AllocateCodeChunk_def TMP_REG_0_def Let_def split: option.splits)
    note c2 = near_alloc_ok [OF r(1,2) v01(2) _ n(2) _ n(3) c1(1) 2(1), simplified]
    show ?thesis
      by (rule finish_forwards [OF 2(2)])
        (use c2(2) r(3) run_mov_br [of _ dst] buf len in \<open>auto intro!: exI [of _ 5]\<close>)
  qed
qed

text \<open>
  C18: the one-instruction trampoline works. Whatever the system reports and maps, if the generator returns a buffer, it is one
  instruction, and a machine that enters \<open>src\<close> with that instruction there (and the memory that the generator left
  elsewhere) is at \<open>dst\<close> after at most six instructions, with at most \<^verbatim>\<open>x17\<close> changed. The pages
  of the near arena and those that the system grants do not cover the patched instruction, and the
  target is not at the page distance that \<^verbatim>\<open>adrp\<close> cannot encode.
\<close>

theorem near_trampoline_lands:
  assumes ok: "5 \<le> k" "k < 26" "unat src + 2 ^ 27 < 2 ^ 63" and v: "\<forall>j i. grants_avoid k src (views j i)" and P: "near_ok src P"
    and addr: "take_bit 2 src = 0" "take_bit 2 dst = 0" "dst - src \<noteq> 2 ^ 63"
    and wrap: "\<forall>a. page_distance a dst = 2 ^ 32 \<longrightarrow> 2 ^ 27 \<le> llabs (a - src)"
    and res: "GenerateNearTrampolineBuffer views (2 ^ k) mapped src dst P = Some (Inr (Some bs, P'))"
    and s: "a_pc s = src" "code_at s src bs" "\<forall>x. 4 \<le> unat (x - src) \<longrightarrow> a_mem s x = memory P' x"
  shows "length bs = 4 \<and> (\<exists>n \<le> 6. \<exists>t. arm_run n s = Some t \<and> (t = goto dst s \<or> t = goto dst (set_x 17 dst s)))"
proof (cases "sint (llabs (dst - src)) < ARM64_B_XXX_RANGE")
  case True
  then have near: "llabs (dst - src) < 2 ^ 27" using addr(3) by (intro llabs_signed) (simp_all add: ARM64_B_XXX_RANGE_def)
  have bs: "bs = le_bytes 4 (b_word (dst - src))" using res True by (simp add: GenerateNearTrampolineBuffer_def b_imm_bytes)
  have "take_bit 2 (dst - src) = 0" using addr(1,2) unfolding take_bit_eq_0_iff by (simp add: dvd_diff)
  then have "arm_step s = Some (goto (src + (dst - src)) s)" using branch_step [OF near] s(1,2) bs by simp
  then show ?thesis using bs by (intro conjI exI [of _ "Suc 0"]) (simp_all add: arm_run_1)
next
  case False
  then obtain c where c: "GenerateFastForwardTrampoline views (2 ^ k) mapped src dst P = Some (Inr (Some c, P'))"
      "bs = le_bytes 4 (b_word (chunk_address c - src))"
    using res by (auto simp: GenerateNearTrampolineBuffer_def b_imm_bytes split: option.splits)
  have f: "forwards src dst c P'" using forward_lands [OF ok v P wrap c(1)] .
  then obtain cs where nc: "near_chunk src (2 ^ 27) (int (length cs)) c" and
      cs: "\<forall>i < length cs. memory P' (chunk_address c + of_nat i) = cs ! i"
      "\<forall>s. a_pc s = chunk_address c \<and> code_at s (chunk_address c) cs \<longrightarrow> (\<exists>n \<le> 5. arm_run n s = Some (goto dst (set_x 17 dst s)))"
    unfolding forwards_def by blast
  have c27: "llabs (chunk_address c - src) < 2 ^ 27" "take_bit 2 (chunk_address c) = 0" using nc by (simp_all add: near_chunk_def)
  then have "take_bit 2 (chunk_address c - src) = 0" using addr(1) unfolding take_bit_eq_0_iff by (simp add: dvd_diff)
  then have 1: "arm_step s = Some (goto (chunk_address c) s)" using branch_step [OF c27(1), of s src] s(1,2) c(2) by simp
  have "code_at (goto (chunk_address c) s) (chunk_address c) cs" using s(3) near_chunk_apart [OF nc] ok(3) cs(1) by (simp add: code_at_def)
  then obtain n where n: "n \<le> 5" "arm_run n (goto (chunk_address c) s) = Some (goto dst (set_x 17 dst (goto (chunk_address c) s)))"
    using cs(2) [rule_format, of "goto (chunk_address c) s"] by auto
  have "arm_run (Suc n) s = Some (goto dst (set_x 17 dst s))" using 1 n(2) by simp (simp add: goto_def set_x_def)
  then show ?thesis using c(2) n(1) by (intro conjI exI [of _ "Suc n"]) simp_all
qed

lemma sample_page_distance: "page_distance a 0x10001000 = 2 ^ 32 \<Longrightarrow> 2 ^ 27 \<le> llabs (a - 0x10000000)"
proof -
  assume d: "page_distance a 0x10001000 = 2 ^ 32"
  have "ALIGN_FLOOR 0x10001000 0x1000 = 0x10001000" by (simp add: ALIGN_FLOOR_def)
  then have "ALIGN_FLOOR a 0x1000 = 0x10001000 - page_distance a 0x10001000" by (simp add: page_distance_def)
  then have "ALIGN_FLOOR a 0x1000 = 0x10001000 - 2 ^ 32" unfolding d .
  then have a: "a - 0x10000000 = word_of_int (0x1000 - 2 ^ 32 + uint (take_bit 12 a))"
    using page_split [of a] unfolding ALIGN_page by (simp add: algebra_simps)
  have t: "0 \<le> uint (take_bit 12 a)" "uint (take_bit 12 a) < 2 ^ 12"
    using take_bit_int_less_exp [of 12 "uint a"] by (simp_all add: unsigned_take_bit_eq)
  then have "sint (a - 0x10000000) = 0x1000 - 2 ^ 32 + uint (take_bit 12 a)" unfolding a by (intro sint_small) simp_all
  then have "2 ^ 27 \<le> uint (llabs (a - 0x10000000))" using t unfolding uint_llabs by simp
  then show ?thesis by (simp add: word_le_def)
qed

theorem near_trampoline_lands_witness:
  "\<exists>bs P'. GenerateNearTrampolineBuffer (\<lambda>_ _. \<lparr>process_memory_layout = [], Allocate = \<lambda>_. 0\<rparr>) (2 ^ 12) 0x7000 0x10000000 0x10001000
      \<lparr>memory = \<lambda>_. 0, protection = Map.empty, code_arena = None, near_arena = None, interceptor = None\<rparr> = Some (Inr (Some bs, P')) \<and>
    length bs = 4 \<and> (\<exists>n \<le> 6. \<exists>t. arm_run n (state_with 0x10000000 bs) = Some t \<and> a_pc t = 0x10001000)"
proof -
  let ?v = "\<lambda>(_ :: nat) (_ :: nat). \<lparr>process_memory_layout = [], Allocate = \<lambda>_. 0\<rparr>"
  let ?P = "\<lparr>memory = \<lambda>_. 0, protection = Map.empty, code_arena = None, near_arena = None, interceptor = None\<rparr>"
  let ?bs = "le_bytes 4 (b_word 0x1000)"
  have res: "GenerateNearTrampolineBuffer ?v (2 ^ 12) 0x7000 0x10000000 0x10001000 ?P = Some (Inr (Some ?bs, ?P))"
    by (simp add: GenerateNearTrampolineBuffer_def b_imm_bytes llabs_def ARM64_B_XXX_RANGE_def)
  have "code_at (state_with 0x10000000 ?bs) 0x10000000 ?bs" by (rule code_at_state_with) simp
  moreover have "\<forall>j i. grants_avoid 12 0x10000000 (?v j i)" "near_ok 0x10000000 ?P"
    by (simp_all add: grants_avoid_def view_ok_def near_ok_def arena_pages_def)
  moreover have "\<forall>x. 4 \<le> unat (x - 0x10000000) \<longrightarrow> a_mem (state_with 0x10000000 ?bs) x = memory ?P x"
    by (simp add: state_with_def)
  moreover have "\<forall>a. page_distance a 0x10001000 = 2 ^ 32 \<longrightarrow> 2 ^ 27 \<le> llabs (a - 0x10000000)" using sample_page_distance by blast
  ultimately have "length ?bs = 4 \<and> (\<exists>n \<le> 6. \<exists>t. arm_run n (state_with 0x10000000 ?bs) = Some t \<and>
      (t = goto 0x10001000 (state_with 0x10000000 ?bs) \<or> t = goto 0x10001000 (set_x 17 0x10001000 (state_with 0x10000000 ?bs))))"
    by (intro near_trampoline_lands [OF _ _ _ _ _ _ _ _ _ res]) (simp_all add: state_with_def take_bit_eq_mod)
  then show ?thesis using res by (auto simp: goto_def)
qed

end
