(* ===== verification/ClosureCode.thy ===== *)
theory ClosureCode
  imports ClosureBridge NearTrampoline
begin

text \<open>
  The words that the assembler emits for the closure bridge and the closure trampoline, decoded into the instructions of
  \<open>Arm64Stack\<close>.
\<close>

section \<open>The words of the code\<close>

definition word_of :: "(Assembler \<Rightarrow> asm_fault + Assembler) \<Rightarrow> u32" where
  "word_of f = (case f (new_Assembler 0) of Inl _ \<Rightarrow> 0 | Inr a \<Rightarrow> le_word (asm_buffer a))"

definition emits :: "(Assembler \<Rightarrow> asm_fault + Assembler) \<Rightarrow> bool" where
  "emits f \<longleftrightarrow> (\<forall>a. f a = Inr (Emit (word_of f) a))"

lemma emitsI: "(\<And>a. f a = Inr (Emit w a)) \<Longrightarrow> emits f"
  by (simp add: emits_def word_of_def new_Assembler_def Emit_def le_word_le_bytes)

lemma emits_iff: "emits f \<longleftrightarrow> (\<exists>w. \<forall>a. f a = Inr (Emit w a))"
  unfolding emits_def using emitsI [unfolded emits_def] by blast

lemma emits_pairs [simp]:
  "emits (stp (X t) (X t2) mo)" "emits (stp (Q t) (Q t2) mo)" "emits (ldp (X t) (X t2) mo)" "emits (ldp (Q t) (Q t2) mo)"
  by (simp_all add: emits_iff stp_def ldp_def LoadStorePair_def X_def Q_def Let_def) blast+

lemma emits_insns [simp]:
  "emits (add (X d) (X n) imm)" "emits (sub (X d) (X n) imm)" "emits (str (X t) (MEM r off))" "emits (ldr (X t) (MEM r off))"
  "emits (\<lambda>a. Inr (ret a))" "emits (\<lambda>a. Inr (br r a))" "emits (\<lambda>a. Inr (blr r a))"
  by (simp_all add: emits_iff add_def sub_def AddSubImmediate_def IsImmediate_def Operand_imm_def reg_Is_def str_def ldr_def LoadStore_def
      MEM_def MemOperand_imm_def IsImmediateOffset_def ret_def br_def blr_def Let_def) blast+

lemma emit_all_append: "emit_all (fs @ gs) a = bindE (emit_all fs a) (emit_all gs)"
proof (induction fs arbitrary: a)
  case (Cons f fs)
  then have "emit_all (fs @ gs) = (\<lambda>a. bindE (emit_all fs a) (emit_all gs))" by blast
  then show ?case by (simp add: bindE_assoc)
qed simp

lemma emit_all_emits:
  "list_all emits fs \<Longrightarrow> emit_all fs a = Inr (a\<lparr>asm_buffer := asm_buffer a @ words (map word_of fs)\<rparr>)"
  by (induction fs arbitrary: a) (simp_all add: emits_def Emit_def)

lemma save_emits:
  "list_all emits save_q" "list_all emits save_x" "list_all emits (save_x0_sp full)" "list_all emits restore_x" "list_all emits restore_q"
  "list_all emits save_q_full" "list_all emits restore_q_full"
  by (simp_all add: save_q_def save_x_def save_x0_sp_def restore_x_def restore_q_def save_q_full_def restore_q_full_def SP_def TMP_REG_0_def)

text \<open>The words, and what they mean.\<close>

lemmas decode_simps = stack_decode_def arm_decode_def fld_def sext_def

lemma save_q_full_words: "map word_of save_q_full =
    [0xD10603FF, 0xAD0B7FFE, 0xAD0A77FC, 0xAD096FFA, 0xAD0867F8, 0xAD075FF6, 0xAD0657F4, 0xAD054FF2, 0xAD0447F0, 0xAD033FEE,
     0xAD0237EC, 0xAD012FEA, 0xAD0027E8]"
  by code_simp

lemma decode_save_q_full: "map stack_decode (map word_of save_q_full) =
    S_SUBI 31 31 384 # map (\<lambda>k. S_STPQ (of_nat (8 + 2 * k)) (of_nat (8 + 2 * k + 1)) 31 (of_nat (32 * k))) (rev [0..<12])"
  unfolding save_q_full_words by (simp add: decode_simps upt_rec)

lemma save_q_words: "map word_of save_q =
    [0xD10203FF, 0xAD031FE6, 0xAD0217E4, 0xAD010FE2, 0xAD0007E0]"
  by code_simp

lemma decode_save_q: "map stack_decode (map word_of save_q) =
    S_SUBI 31 31 128 # map (\<lambda>k. S_STPQ (of_nat (0 + 2 * k)) (of_nat (0 + 2 * k + 1)) 31 (of_nat (32 * k))) (rev [0..<4])"
  unfolding save_q_words by (simp add: decode_simps upt_rec)

lemma save_x_words: "map word_of save_x =
    [0xD103C3FF, 0xA90E7BFD, 0xA90D73FB, 0xA90C6BF9, 0xA90B63F7, 0xA90A5BF5, 0xA90953F3, 0xA9084BF1, 0xA90743EF, 0xA9063BED,
     0xA90533EB, 0xA9042BE9, 0xA90323E7, 0xA9021BE5, 0xA90113E3, 0xA9000BE1]"
  by code_simp

lemma decode_save_x: "map stack_decode (map word_of save_x) =
    S_SUBI 31 31 240 # map (\<lambda>k. S_STP (of_nat (2 * k + 1)) (of_nat (2 * k + 2)) 31 (of_nat (16 * k))) (rev [0..<15])"
  unfolding save_x_words by (simp add: decode_simps upt_rec)

lemma restore_x_words: "map word_of restore_x =
    [0x910043FF, 0xF94007E0, 0x910043FF, 0xA8C10BE1, 0xA8C113E3, 0xA8C11BE5, 0xA8C123E7, 0xA8C12BE9, 0xA8C133EB, 0xA8C13BED,
     0xA8C143EF, 0xA8C14BF1, 0xA8C153F3, 0xA8C15BF5, 0xA8C163F7, 0xA8C16BF9, 0xA8C173FB, 0xA8C17BFD]"
  by code_simp

lemma decode_restore_x: "map stack_decode (map word_of restore_x) =
    [S_core (A_ADDI 31 31 16), S_core (A_LDR 0 31 8), S_core (A_ADDI 31 31 16)] @
    map (\<lambda>k. S_LDP_post (of_nat (2 * k + 1)) (of_nat (2 * k + 2)) 31 16) [0..<15]"
  unfolding restore_x_words by (simp add: decode_simps upt_rec)

lemma restore_q_words: "map word_of restore_q =
    [0xACC107E0, 0xACC10FE2, 0xACC117E4, 0xACC11FE6]"
  by code_simp

lemma decode_restore_q: "map stack_decode (map word_of restore_q) =
    map (\<lambda>k. S_LDPQ_post (of_nat (0 + 2 * k)) (of_nat (0 + 2 * k + 1)) 31 32) [0..<4]"
  unfolding restore_q_words by (simp add: decode_simps upt_rec)

lemma restore_q_full_words: "map word_of restore_q_full =
    [0xACC127E8, 0xACC12FEA, 0xACC137EC, 0xACC13FEE, 0xACC147F0, 0xACC14FF2, 0xACC157F4, 0xACC15FF6, 0xACC167F8, 0xACC16FFA,
     0xACC177FC, 0xACC17FFE]"
  by code_simp

lemma decode_restore_q_full: "map stack_decode (map word_of restore_q_full) =
    map (\<lambda>k. S_LDPQ_post (of_nat (8 + 2 * k)) (of_nat (8 + 2 * k + 1)) 31 32) [0..<12]"
  unfolding restore_q_full_words by (simp add: decode_simps upt_rec)

lemma save_x0_sp_words:
  "map word_of (save_x0_sp False) = [0xD10043FF, 0xF90007E0, 0x910043F1, 0x91060231, 0xD10043FF, 0xF90007F1]"
  "map word_of (save_x0_sp True) = [0xD10043FF, 0xF90007E0, 0x910043F1, 0x91060231, 0x91060231, 0xD10043FF, 0xF90007F1]"
  by code_simp+

lemma decode_save_x0_sp: "map stack_decode (map word_of (save_x0_sp full)) =
    [S_SUBI 31 31 16, S_STR 0 31 8, S_core (A_ADDI 17 31 16), S_core (A_ADDI 17 17 384)] @
    (if full then [S_core (A_ADDI 17 17 384)] else []) @ [S_SUBI 31 31 16, S_STR 17 31 8]"
  by (cases full) (simp_all add: save_x0_sp_words decode_simps)

section \<open>The code of the bridge\<close>

lemma fld_top: "drop_bit 2 (fld w 22 10) = fld w 24 8"
  by (rule bit_word_eqI) (auto simp: fld_def bit_simps)

lemma stack_decode_other: "fld w 24 8 \<notin> {0xD1, 0xF9, 0xA9, 0xA8, 0xAD, 0xAC} \<Longrightarrow> stack_decode w = S_core (arm_decode w)"
  by (auto simp: stack_decode_def fld_top [symmetric])

lemma stack_decode_move:
  "arm_decode w = A_MOVZ d imm sh \<Longrightarrow> stack_decode w = S_core (A_MOVZ d imm sh)"
  "arm_decode w = A_MOVK d imm sh \<Longrightarrow> stack_decode w = S_core (A_MOVK d imm sh)"
  "arm_decode w = A_LDR_lit d off \<Longrightarrow> stack_decode w = S_core (A_LDR_lit d off)"
  by (subst stack_decode_other; auto simp: arm_decode_def Let_def split: if_splits)+

lemma decode_mov_words:
  "c < 32 \<Longrightarrow> map stack_decode (mov_words c v) =
     [S_core (A_MOVZ c (take_bit 16 v) 0), S_core (A_MOVK c (take_bit 16 (drop_bit 16 v)) 16),
      S_core (A_MOVK c (take_bit 16 (drop_bit 32 v)) 32), S_core (A_MOVK c (take_bit 16 (drop_bit 48 v)) 48)]"
  by (simp add: mov_words_def stack_decode_move arm_decode_move_wide)

definition context_args :: "bool \<Rightarrow> (Assembler \<Rightarrow> asm_fault + Assembler) list" where
  "context_args full = [mov (X 0) SP, ldr (X 1) (MEM SP (REGISTER_CONTEXT_SIZE full + 0))]"

lemma context_args_emits: "list_all emits (context_args full)"
proof -
  have "mov (X 0) SP = add (X 0) SP 0" by (rule ext) (simp add: mov_def reg_Is_def)
  then show ?thesis by (simp add: context_args_def SP_def)
qed

lemma context_args_words:
  "map word_of (context_args False) = [0x910003E0, 0xF940CBE1]" "map word_of (context_args True) = [0x910003E0, 0xF9418BE1]"
  by code_simp+

lemma decode_context_args: "map stack_decode (map word_of (context_args full)) =
    [S_core (A_ADDI 0 31 0), S_core (A_LDR 1 31 (REGISTER_CONTEXT_SIZE full))]"
  by (cases full) (simp_all add: context_args_words decode_simps REGISTER_CONTEXT_SIZE_def)

definition saving :: "bool \<Rightarrow> u32 list" where
  "saving full = map word_of ((if full then save_q_full else []) @ save_q @ save_x @ save_x0_sp full @ context_args full)"

definition restoring :: "bool \<Rightarrow> u32 list" where
  "restoring full = map word_of (restore_x @ restore_q @ (if full then restore_q_full else []))"

lemma CallFunction_words:
  "CallFunction h a = a\<lparr>asm_buffer := asm_buffer a @ words (mov_words 17 h @ [0xD63F0220])\<rparr>"
proof -
  have "BLR_op OR Rn (X 17) = 0xD63F0220" by code_simp
  then show ?thesis by (simp add: CallFunction_def TMP_REG_0_def Mov_words mov_words_def blr_def Emit_def)
qed

lemma closure_bridge_code_words:
  "\<exists>a. closure_bridge_code full h = Inr a \<and> realized_address a = 0 \<and>
     asm_buffer a = words (saving full) @ words (mov_words 17 h @ [0xD63F0220]) @ words (restoring full @ [0xD65F03C0])"
proof -
  define S where "S = (if full then save_q_full else []) @ save_q @ save_x @ save_x0_sp full @ context_args full"
  define R where "R = restore_x @ restore_q @ (if full then restore_q_full else [])"
  have em: "list_all emits S" "list_all emits R" by (simp_all add: S_def R_def save_emits context_args_emits)
  have "closure_bridge_code full h = emit_all (S @ (\<lambda>a. Inr (CallFunction h a)) # R @ [\<lambda>a. Inr (ret a)]) (new_Assembler 0)"
    by (simp add: S_def R_def closure_bridge_code_def call_handler_def context_args_def)
  then show ?thesis
    by (simp add: emit_all_append emit_all_emits em CallFunction_words ret_def Emit_def saving_def restoring_def new_Assembler_def
        words_append S_def [symmetric] R_def [symmetric])
qed

section \<open>The code of a closure trampoline\<close>

definition entry_words :: "u32 list" where
  "entry_words = [0xD10043FF, 0xF90007FE, ldr_word 17 28, 0xF90003F1, ldr_word 17 28]"

definition exit_words :: "u32 list" where
  "exit_words = [0xF94007FE, 0x910043FF]"

lemma decode_ldr_word: "stack_decode (ldr_word 17 28) = S_core (A_LDR_lit 17 28)"
  by (rule stack_decode_move) (simp add: arm_decode_ldr_word)

lemma decode_entry_words: "map stack_decode entry_words =
    [S_SUBI 31 31 16, S_STR 30 31 8, S_core (A_LDR_lit 17 28), S_STR 17 31 0, S_core (A_LDR_lit 17 28)]"
  by (simp add: entry_words_def decode_ldr_word decode_simps [of "0xD10043FF"] decode_simps [of "0xF90007FE"] decode_simps [of "0xF90003F1"])

lemma decode_exit_words: "map stack_decode exit_words = [S_core (A_LDR 30 31 8), S_core (A_ADDI 31 31 16)]"
  by (simp add: exit_words_def decode_simps)

lemma decode_branches: "stack_decode 0xD63F0220 = S_core (A_BLR 17)" "stack_decode 0xD61F0220 = S_core (A_BR 17)"
  "stack_decode 0xD65F03C0 = S_core (A_RET 30)"
  by (simp_all add: decode_simps)

definition linked_at :: "nat \<Rightarrow> PseudoLabel" where
  "linked_at p = \<lparr>label_pos = 0, near_link_pos = 0, instructions = [\<lparr>position = int p, instr_type = kLdrLiteral\<rparr>]\<rparr>"

lemma Ldr_new: "Ldr (X 17) new_PseudoLabel a = Inr (linked_at (length (asm_buffer a)), Emit (ldr_word 17 0) a)"
proof -
  have "LDR_x_literal OR Rt (X 17) = ldr_word 17 0" by (simp add: ldr_word_def LeftShift_def)
  then show ?thesis
    by (simp add: Ldr_def is_bound_def new_PseudoLabel_def ldr_literal_X pseudo_link_to_def pc_offset_def linked_at_def)
qed

lemma PseudoBind_linked:
  assumes "asm_buffer a = A @ le_bytes 4 (ldr_word 17 0) @ B" and "length A = p"
  shows "\<exists>l. PseudoBind (linked_at p) a =
     Inr (l, a\<lparr>asm_buffer := A @ le_bytes 4 (ldr_word 17 (int (length (asm_buffer a)) - int p)) @ B\<rparr>)"
proof -
  have "ldr_word 17 0 = LDR_x_literal OR Rt (X 17)" by (simp add: ldr_word_def LeftShift_def)
  then show ?thesis
    using assms(1) fix_ldr_word [of 17] unfolding assms(2) [symmetric]
    by (simp add: PseudoBind_def linked_at_def bind_to_def has_confused_instructions_def link_confused_instructions_def pos_def pc_offset_def)
qed

lemma trampoline_words:
  "map word_of [sub SP SP (2 * 8), str (X 30) (MEM SP 8)] = [0xD10043FF, 0xF90007FE]"
  "map word_of [str TMP_REG_0 (MEM SP 0)] = [0xF90003F1]"
  "map word_of [\<lambda>a. Inr (blr TMP_REG_0 a), ldr (X 30) (MEM SP 8), add SP SP (2 * 8), \<lambda>a. Inr (br TMP_REG_0 a)] =
     [0xD63F0220, 0xF94007FE, 0x910043FF, 0xD61F0220]"
  by code_simp+

lemma closure_trampoline_code_words:
  "\<exists>a. closure_trampoline_code cte bridge = Inr a \<and> realized_address a = 0 \<and>
     asm_buffer a = words (entry_words @ [0xD63F0220] @ exit_words @ [0xD61F0220]) @ le_bytes 8 cte @ le_bytes 8 bridge"
proof -
  have em: "list_all emits [sub SP SP (2 * 8), str (X 30) (MEM SP 8)]" "list_all emits [str TMP_REG_0 (MEM SP 0)]"
    "list_all emits [\<lambda>a. Inr (blr TMP_REG_0 a), ldr (X 30) (MEM SP 8), add SP SP (2 * 8), \<lambda>a. Inr (br TMP_REG_0 a)]"
    by (simp_all add: SP_def TMP_REG_0_def)
  let ?a = "new_Assembler 0"
  let ?A = "words [0xD10043FF, 0xF90007FE]"
  let ?L = "le_bytes 4 (ldr_word 17 0)"
  let ?M = "words [0xF90003F1]"
  let ?E = "words [0xD63F0220, 0xF94007FE, 0x910043FF, 0xD61F0220]"
  let ?b = "\<lambda>bs. ?a\<lparr>asm_buffer := bs\<rparr>"
  have buf: "asm_buffer ?a = []" by (simp add: new_Assembler_def)
  have 1: "emit_all [sub SP SP (2 * 8), str (X 30) (MEM SP 8)] ?a = Inr (?b ?A)"
    by (simp only: emit_all_emits [OF em(1)] trampoline_words buf append_Nil)
  have 2: "Ldr TMP_REG_0 new_PseudoLabel (?b ?A) = Inr (linked_at 8, ?b (?A @ ?L))"
    by (simp add: TMP_REG_0_def Ldr_new Emit_def)
  have "emit_all [str TMP_REG_0 (MEM SP 0)] (?b (?A @ ?L)) = Inr (?b (?A @ ?L @ ?M))"
    by (simp only: emit_all_emits [OF em(2)] trampoline_words) simp
  then have 3: "str TMP_REG_0 (MEM SP 0) (?b (?A @ ?L)) = Inr (?b (?A @ ?L @ ?M))"
    by (auto split: sum.splits simp: bindE_def)
  have 4: "Ldr TMP_REG_0 new_PseudoLabel (?b (?A @ ?L @ ?M)) = Inr (linked_at 16, ?b (?A @ ?L @ ?M @ ?L))"
    by (simp add: TMP_REG_0_def Ldr_new Emit_def)
  have 5: "emit_all [\<lambda>a. Inr (blr TMP_REG_0 a), ldr (X 30) (MEM SP 8), add SP SP (2 * 8), \<lambda>a. Inr (br TMP_REG_0 a)]
      (?b (?A @ ?L @ ?M @ ?L)) = Inr (?b (?A @ ?L @ ?M @ ?L @ ?E))"
    by (simp only: emit_all_emits [OF em(3)] trampoline_words) simp
  let ?L' = "le_bytes 4 (ldr_word 17 28)"
  obtain l where 6: "PseudoBind (linked_at 8) (?b (?A @ ?L @ ?M @ ?L @ ?E)) = Inr (l, ?b (?A @ ?L' @ ?M @ ?L @ ?E))"
    using PseudoBind_linked [of "?b (?A @ ?L @ ?M @ ?L @ ?E)" ?A "?M @ ?L @ ?E" 8] by auto
  have 7: "EmitInt64 cte (?b (?A @ ?L' @ ?M @ ?L @ ?E)) = ?b ((?A @ ?L' @ ?M) @ ?L @ ?E @ le_bytes 8 cte)"
    by (simp add: EmitInt64_def)
  obtain l' where 8: "PseudoBind (linked_at 16) (?b ((?A @ ?L' @ ?M) @ ?L @ ?E @ le_bytes 8 cte)) =
      Inr (l', ?b ((?A @ ?L' @ ?M) @ ?L' @ ?E @ le_bytes 8 cte))"
    using PseudoBind_linked [of "?b ((?A @ ?L' @ ?M) @ ?L @ ?E @ le_bytes 8 cte)" "?A @ ?L' @ ?M" "?E @ le_bytes 8 cte" 16] by auto
  show ?thesis
    by (simp only: closure_trampoline_code_def 1 2 3 4 5 6 7 8 bindE_Inr prod.case)
       (simp add: EmitInt64_def entry_words_def exit_words_def new_Assembler_def)
qed

end
