(* ===== verification/ClosureRun.thy ===== *)
theory ClosureRun
  imports ClosureCode
begin

text \<open>
  Running the straight-line parts of the closure code: the effect of one instruction on a state written as \<open>st\<close>, of a block of stores
  of pairs and of a block of loads of pairs; reading a frame back that was written in parts; code that stores leave alone.
\<close>

named_theorems run_simps \<open>the effect of an instruction on a state\<close>

section \<open>States\<close>

definition st :: "machine \<Rightarrow> (u32 \<Rightarrow> u64) \<Rightarrow> u64 \<Rightarrow> addr \<Rightarrow> (addr \<Rightarrow> u8) \<Rightarrow> machine" where
  "st m r s p f = m\<lparr>core := (core m)\<lparr>a_reg := r, a_sp := s, a_pc := p, a_mem := f\<rparr>\<rparr>"

lemma st_self: "st m (a_reg (core m)) (a_sp (core m)) (a_pc (core m)) (a_mem (core m)) = m"
  by (simp add: st_def)

lemma st_fields [simp]:
  "a_reg (core (st m r s p f)) = r" "a_sp (core (st m r s p f)) = s" "a_pc (core (st m r s p f)) = p" "a_mem (core (st m r s p f)) = f"
  "vreg (st m r s p f) = vreg m" "st (st m r s p f) r' s' p' f' = st m r' s' p' f'"
  by (simp_all add: st_def)

definition range_ok_wr :: "(addr \<Rightarrow> bool) \<Rightarrow> addr \<Rightarrow> nat \<Rightarrow> bool" where
  "range_ok_wr wr a n \<longleftrightarrow> (\<forall>i < n. wr (a + of_nat i))"

lemma range_ok_wr_part:
  "range_ok_wr wr a n \<Longrightarrow> j + k \<le> n \<Longrightarrow> range_ok_wr wr (a + of_nat j) k"
  unfolding range_ok_wr_def
proof (intro allI impI)
  fix i assume all: "\<forall>i<n. wr (a + of_nat i)" and le: "j + k \<le> n" and i: "i < k"
  have "wr (a + of_nat (j + i))" using all le i by (intro all [rule_format]) simp
  then show "wr (a + of_nat j + of_nat i)" by (simp add: add.assoc)
qed

lemma store_bytes_st [run_simps]:
  "range_ok_wr wr a (length bs) \<Longrightarrow> store_bytes wr a bs (st m r s p f) = Some (st m r s (p + 4) (write_bytes a bs f))"
  by (simp add: store_bytes_def range_ok_wr_def list_all_iff st_def next_pc_def goto_def)

lemma exec_st [run_simps]:
  "stack_exec wr (S_SUBI 31 31 imm) (st m r s p f) = Some (st m r (s - imm) (p + 4) f)"
  "stack_exec wr (S_core (A_ADDI 31 31 imm)) (st m r s p f) = Some (st m r (s + imm) (p + 4) f)"
  "d \<noteq> 31 \<Longrightarrow> stack_exec wr (S_core (A_ADDI d 31 imm)) (st m r s p f) = Some (st m (r(d := s + imm)) s (p + 4) f)"
  "d \<noteq> 31 \<Longrightarrow> n \<noteq> 31 \<Longrightarrow> stack_exec wr (S_core (A_ADDI d n imm)) (st m r s p f) = Some (st m (r(d := r n + imm)) s (p + 4) f)"
  "d \<noteq> 31 \<Longrightarrow> stack_exec wr (S_core (A_LDR d 31 off)) (st m r s p f) =
     Some (st m (r(d := le_word (bytes_at f (s + off) 8))) s (p + 4) f)"
  "d \<noteq> 31 \<Longrightarrow> stack_exec wr (S_core (A_LDR_lit d off)) (st m r s p f) =
     Some (st m (r(d := le_word (bytes_at f (p + off) 8))) s (p + 4) f)"
  by (simp_all add: st_def with_core_def next_pc_def goto_def set_x_sp_def get_x_sp_def set_x_def load64_def mem_bytes_def bytes_at_def)

lemma exec_store_st [run_simps]:
  "t \<noteq> 31 \<Longrightarrow> stack_exec wr (S_STR t 31 off) (st m r s p f) = store_bytes wr (s + off) (le_bytes 8 (r t)) (st m r s p f)"
  "t \<noteq> 31 \<Longrightarrow> t2 \<noteq> 31 \<Longrightarrow> stack_exec wr (S_STP t t2 31 off) (st m r s p f) =
     store_bytes wr (s + off) (le_bytes 8 (r t) @ le_bytes 8 (r t2)) (st m r s p f)"
  "stack_exec wr (S_STPQ t t2 31 off) (st m r s p f) =
     store_bytes wr (s + off) (le_bytes 16 (vreg m t) @ le_bytes 16 (vreg m t2)) (st m r s p f)"
  by (simp_all add: get_x_sp_def get_x_def)

lemma exec_ldp_st [run_simps]:
  "t \<noteq> 31 \<Longrightarrow> t2 \<noteq> 31 \<Longrightarrow> stack_exec wr (S_LDP_post t t2 31 off) (st m r s p f) =
     Some (st m (r(t := le_word (bytes_at f s 8), t2 := le_word (bytes_at f (s + 8) 8))) (s + off) (p + 4) f)"
  by (simp add: st_def with_core_def next_pc_def goto_def set_x_sp_def get_x_sp_def set_x_def load64_def mem_bytes_def bytes_at_def)

lemma exec_ldpq_st [run_simps]:
  "stack_exec wr (S_LDPQ_post t t2 31 off) (st m r s p f) =
     Some (st (m\<lparr>vreg := (vreg m)(t := le_word (bytes_at f s 16), t2 := le_word (bytes_at f (s + 16) 16))\<rparr>) r (s + off) (p + 4) f)"
  by (simp add: st_def with_core_def next_pc_def goto_def set_x_sp_def get_x_sp_def load128_def mem_bytes_def bytes_at_def)

section \<open>A block of stores\<close>

text \<open>\<open>n\<close> blocks of \<open>sz\<close> bytes, the last one first, at offsets from \<open>s\<close>.\<close>

primrec block_mem :: "addr \<Rightarrow> nat \<Rightarrow> (nat \<Rightarrow> u8 list) \<Rightarrow> nat \<Rightarrow> (addr \<Rightarrow> u8) \<Rightarrow> addr \<Rightarrow> u8" where
  "block_mem s sz blk 0 f = f"
| "block_mem s sz blk (Suc n) f = block_mem s sz blk n (write_bytes (s + of_nat (sz * n)) (blk n) f)"

lemma block_mem_outside:
  assumes "\<And>k. length (blk k) = sz" "sz * n \<le> unat (x - s)"
  shows "block_mem s sz blk n f x = f x"
  using assms(2)
proof (induction n arbitrary: f)
  case (Suc n)
  have u: "unat (x - s) < 2 ^ 64" using unsigned_less [of "x - s"] by simp
  have small: "unat (of_nat (sz * n) :: u64) = sz * n" using Suc.prems u by (simp add: unat_of_nat del: of_nat_mult)
  have "unat (x - s - of_nat (sz * n)) = unat (x - s) - sz * n"
    using Suc.prems small by (subst unat_sub) (simp_all add: word_le_nat_alt del: of_nat_mult)
  then have "sz \<le> unat (x - (s + of_nat (sz * n)))" using Suc.prems by (simp add: diff_diff_eq [symmetric] del: of_nat_mult)
  then show ?case using Suc assms(1) by (simp add: write_bytes_outside del: of_nat_mult)
qed simp

lemma block_mem_bytes:
  assumes len: "\<And>k. length (blk k) = sz" and n: "sz * n \<le> 2 ^ 63"
  shows "bytes_at (block_mem s sz blk n f) s (sz * n) = concat (map blk [0..<n])"
  using n
proof (induction n arbitrary: f)
  case (Suc n)
  have small: "unat (of_nat (sz * n) :: u64) = sz * n" using Suc.prems by (simp add: unat_of_nat del: of_nat_mult)
  have "bytes_at (block_mem s sz blk n (write_bytes (s + of_nat (sz * n)) (blk n) f)) (s + of_nat (sz * n)) sz = blk n"
  proof -
    have "block_mem s sz blk n g (s + of_nat (sz * n) + of_nat i) = g (s + of_nat (sz * n) + of_nat i)" if "i < sz" for i g
    proof (rule block_mem_outside [OF len])
      have "s + of_nat (sz * n) + of_nat i - s = (of_nat (sz * n + i) :: u64)" by simp
      moreover have "unat (of_nat (sz * n + i) :: u64) = sz * n + i" using Suc.prems that by (simp add: unat_of_nat del: of_nat_add of_nat_mult)
      ultimately show "sz * n \<le> unat (s + of_nat (sz * n) + of_nat i - s)" by simp
    qed
    then have "bytes_at (block_mem s sz blk n (write_bytes (s + of_nat (sz * n)) (blk n) f)) (s + of_nat (sz * n)) sz =
        bytes_at (write_bytes (s + of_nat (sz * n)) (blk n) f) (s + of_nat (sz * n)) sz" by (intro bytes_at_cong) blast
    also have "\<dots> = blk n" using Suc.prems len by (intro bytes_at_write) simp_all
    finally show ?thesis .
  qed
  then show ?case using Suc by (simp add: bytes_at_add [of _ _ "sz * n" sz, unfolded add.commute [of "sz * n"]] del: of_nat_mult)
qed (simp add: bytes_at_def)

lemma exec_store_block:
  assumes one: "\<And>k p f. k < n \<Longrightarrow> stack_exec wr (ins k) (st m r s p f) = store_bytes wr (s + of_nat (sz * k)) (blk k) (st m r s p f)"
    and len: "\<And>k. length (blk k) = sz" and wr: "range_ok_wr wr s (sz * n)"
  shows "exec_list wr (map ins (rev [0..<n])) (st m r s p f) = Some (st m r s (p + 4 * of_nat n) (block_mem s sz blk n f))"
  using one wr
proof (induction n arbitrary: p f)
  case (Suc n)
  have w: "range_ok_wr wr (s + of_nat (sz * n)) sz" using Suc.prems(2) by (rule range_ok_wr_part) simp
  have "range_ok_wr wr (s + of_nat 0) (sz * n)" using Suc.prems(2) by (rule range_ok_wr_part) simp
  then show ?case using Suc.IH [of "p + 4" "write_bytes (s + of_nat (sz * n)) (blk n) f"] Suc.prems(1) w
    by (simp add: run_simps len algebra_simps del: of_nat_mult)
qed simp

section \<open>A block of loads\<close>

definition slot :: "(addr \<Rightarrow> u8) \<Rightarrow> addr \<Rightarrow> nat \<Rightarrow> u64" where
  "slot f s i = le_word (bytes_at f (s + of_nat (8 * i)) 8)"

definition slotq :: "(addr \<Rightarrow> u8) \<Rightarrow> addr \<Rightarrow> nat \<Rightarrow> u128" where
  "slotq f s i = le_word (bytes_at f (s + of_nat (16 * i)) 16)"

lemma register_number: "k < 32 \<Longrightarrow> unat (of_nat k :: u32) = k" "k < 32 \<Longrightarrow> (of_nat k = (31 :: u32)) = (k = 31)"
  by (simp_all add: unat_of_nat word_unat_eq_iff)

lemma exec_ldp_block:
  assumes "n \<le> 15"
  shows "exec_list wr (map (\<lambda>k. S_LDP_post (of_nat (2 * k + 1)) (of_nat (2 * k + 2)) 31 16) [0..<n]) (st m r s p f) =
    Some (st m (\<lambda>q. if 1 \<le> unat q \<and> unat q \<le> 2 * n then slot f s (unat q - 1) else r q) (s + of_nat (16 * n)) (p + 4 * of_nat n) f)"
  using assms
proof (induction n)
  case 0
  have "(\<lambda>q. if 1 \<le> unat q \<and> unat q \<le> 2 * 0 then slot f s (unat q - 1) else r q) = r" by (rule ext) auto
  then show ?case by simp
next
  case (Suc n)
  let ?r = "\<lambda>n q. if 1 \<le> unat q \<and> unat q \<le> 2 * n then slot f s (unat q - 1) else r q"
  have t: "(of_nat (2 * n + 1) :: u32) \<noteq> 31" "(of_nat (2 * n + 2) :: u32) \<noteq> 31"
      "unat (of_nat (2 * n + 1) :: u32) = 2 * n + 1" "unat (of_nat (2 * n + 2) :: u32) = 2 * n + 2"
    using Suc.prems register_number [of "2 * n + 1"] register_number [of "2 * n + 2"] by (simp_all del: of_nat_add of_nat_mult)
  have "(?r n)(of_nat (2 * n + 1) := slot f s (2 * n), of_nat (2 * n + 2) := slot f s (2 * n + 1)) = ?r (Suc n)"
  proof
    fix q :: u32
    consider "q = of_nat (2 * n + 1)" | "q = of_nat (2 * n + 2)" | "unat q \<noteq> 2 * n + 1" "unat q \<noteq> 2 * n + 2"
      using t(3,4) by (metis word_unat_eq_iff)
    then show "((?r n)(of_nat (2 * n + 1) := slot f s (2 * n), of_nat (2 * n + 2) := slot f s (2 * n + 1))) q = ?r (Suc n) q"
    proof cases
      case 1
      then show ?thesis using t(3,4) by (auto simp del: of_nat_add of_nat_mult)
    next
      case 2
      then show ?thesis using t(3,4) by (auto simp del: of_nat_add of_nat_mult)
    next
      case 3
      then show ?thesis using t(3,4) by (auto simp del: of_nat_add of_nat_mult)
    qed
  qed
  moreover have "le_word (bytes_at f (s + of_nat (16 * n)) 8) = slot f s (2 * n)"
    "le_word (bytes_at f (s + of_nat (16 * n) + 8) 8) = slot f s (2 * n + 1)" by (simp_all add: slot_def algebra_simps)
  ultimately have "stack_exec wr (S_LDP_post (of_nat (2 * n + 1)) (of_nat (2 * n + 2)) 31 16)
      (st m (?r n) (s + of_nat (16 * n)) (p + 4 * of_nat n) f) =
      Some (st m (?r (Suc n)) (s + of_nat (16 * n) + 16) (p + 4 * of_nat n + 4) f)"
    by (simp only: exec_ldp_st [OF t(1,2)])
  moreover have "s + of_nat (16 * n) + 16 = s + of_nat (16 * Suc n)" "p + 4 * of_nat n + 4 = p + 4 * of_nat (Suc n)"
    by (simp_all add: distrib_left)
  ultimately have last: "stack_exec wr (S_LDP_post (of_nat (2 * n + 1)) (of_nat (2 * n + 2)) 31 16)
      (st m (?r n) (s + of_nat (16 * n)) (p + 4 * of_nat n) f) =
      Some (st m (?r (Suc n)) (s + of_nat (16 * Suc n)) (p + 4 * of_nat (Suc n)) f)" by metis
  have "n \<le> 15" using Suc.prems by simp
  then show ?case using Suc.IH
    by (simp only: upt_Suc_append [OF le0] map_append exec_list_append option.case list.map exec_list.simps last simp_thms)
qed

lemma vreg_twice: "vreg (m\<lparr>vreg := v\<rparr>) = v" "m\<lparr>vreg := v, vreg := w\<rparr> = m\<lparr>vreg := w\<rparr>" for m :: machine
  by simp_all

lemma exec_ldpq_block:
  assumes "b + 2 * n \<le> 32"
  shows "exec_list wr (map (\<lambda>k. S_LDPQ_post (of_nat (b + 2 * k)) (of_nat (b + 2 * k + 1)) 31 32) [0..<n]) (st m r s p f) =
    Some (st (m\<lparr>vreg := \<lambda>q. if b \<le> unat q \<and> unat q < b + 2 * n then slotq f s (unat q - b) else vreg m q\<rparr>)
      r (s + of_nat (32 * n)) (p + 4 * of_nat n) f)"
  using assms
proof (induction n)
  case 0
  have "(\<lambda>q. if b \<le> unat q \<and> unat q < b + 2 * 0 then slotq f s (unat q - b) else vreg m q) = vreg m" by (rule ext) auto
  then show ?case by simp
next
  case (Suc n)
  let ?v = "\<lambda>n q. if b \<le> unat q \<and> unat q < b + 2 * n then slotq f s (unat q - b) else vreg m q"
  have t: "unat (of_nat (b + 2 * n) :: u32) = b + 2 * n" "unat (of_nat (b + 2 * n + 1) :: u32) = b + 2 * n + 1"
    using Suc.prems register_number [of "b + 2 * n"] register_number [of "b + 2 * n + 1"] by (simp_all del: of_nat_add of_nat_mult)
  have "(?v n)(of_nat (b + 2 * n) := slotq f s (2 * n), of_nat (b + 2 * n + 1) := slotq f s (2 * n + 1)) = ?v (Suc n)"
  proof
    fix q :: u32
    consider "q = of_nat (b + 2 * n)" | "q = of_nat (b + 2 * n + 1)" | "unat q \<noteq> b + 2 * n" "unat q \<noteq> b + 2 * n + 1"
      using t by (metis word_unat_eq_iff)
    then show "((?v n)(of_nat (b + 2 * n) := slotq f s (2 * n), of_nat (b + 2 * n + 1) := slotq f s (2 * n + 1))) q = ?v (Suc n) q"
      using t by cases (auto simp del: of_nat_add of_nat_mult)
  qed
  moreover have "le_word (bytes_at f (s + of_nat (32 * n)) 16) = slotq f s (2 * n)"
    "le_word (bytes_at f (s + of_nat (32 * n) + 16) 16) = slotq f s (2 * n + 1)" by (simp_all add: slotq_def algebra_simps)
  ultimately have "stack_exec wr (S_LDPQ_post (of_nat (b + 2 * n)) (of_nat (b + 2 * n + 1)) 31 32)
      (st (m\<lparr>vreg := ?v n\<rparr>) r (s + of_nat (32 * n)) (p + 4 * of_nat n) f) =
      Some (st (m\<lparr>vreg := ?v (Suc n)\<rparr>) r (s + of_nat (32 * n) + 32) (p + 4 * of_nat n + 4) f)"
    by (simp only: exec_ldpq_st vreg_twice)
  moreover have "s + of_nat (32 * n) + 32 = s + of_nat (32 * Suc n)" "p + 4 * of_nat n + 4 = p + 4 * of_nat (Suc n)"
    by (simp_all add: distrib_left)
  ultimately have last: "stack_exec wr (S_LDPQ_post (of_nat (b + 2 * n)) (of_nat (b + 2 * n + 1)) 31 32)
      (st (m\<lparr>vreg := ?v n\<rparr>) r (s + of_nat (32 * n)) (p + 4 * of_nat n) f) =
      Some (st (m\<lparr>vreg := ?v (Suc n)\<rparr>) r (s + of_nat (32 * Suc n)) (p + 4 * of_nat (Suc n)) f)" by metis
  have "b + 2 * n \<le> 32" using Suc.prems by simp
  then show ?case using Suc.IH
    by (simp only: upt_Suc_append [OF le0] map_append exec_list_append option.case list.map exec_list.simps last simp_thms)
qed

section \<open>Reading a frame\<close>

text \<open>\<open>f'\<close> is \<open>f\<close> but for \<open>l\<close> bytes at \<open>s\<close>.\<close>

definition same_outside :: "addr \<Rightarrow> nat \<Rightarrow> (addr \<Rightarrow> u8) \<Rightarrow> (addr \<Rightarrow> u8) \<Rightarrow> bool" where
  "same_outside s l f f' \<longleftrightarrow> (\<forall>x. l \<le> unat (x - s) \<longrightarrow> f' x = f x)"

lemma same_outside_write: "length bs = l \<Longrightarrow> same_outside s l f (write_bytes s bs f)"
  by (simp add: same_outside_def write_bytes_outside)

lemma same_outside_block: "(\<And>k. length (blk k) = sz) \<Longrightarrow> l = sz * n \<Longrightarrow> same_outside s l f (block_mem s sz blk n f)"
  by (simp add: same_outside_def block_mem_outside)

lemma bytes_at_apart:
  assumes "same_outside (F + of_nat i) l f f'" and "i + l \<le> j \<or> j + n \<le> i" and "i + l \<le> 2 ^ 32" "j + n \<le> 2 ^ 32"
  shows "bytes_at f' (F + of_nat j) n = bytes_at f (F + of_nat j) n"
proof (rule bytes_at_cong)
  fix k assume k: "k < n"
  have u: "unat (of_nat x :: addr) = x" if "x \<le> 2 ^ 32" for x using that by (simp add: unat_of_nat)
  have "l \<le> unat (of_nat (j + k) - of_nat i :: addr)"
  proof (cases "i \<le> j + k")
    case True
    then have "of_nat (j + k) - of_nat i = (of_nat (j + k - i) :: addr)" by (simp add: of_nat_diff)
    then show ?thesis using True k assms(2,4) u [of "j + k - i"] by (simp del: of_nat_add)
  next
    case False
    then have e: "of_nat (j + k) - of_nat i = - (of_nat (i - (j + k)) :: addr)" by (simp add: of_nat_diff)
    let ?w = "of_nat (i - (j + k)) :: addr"
    have "unat (- ?w + ?w) = (unat (- ?w) + (i - (j + k))) mod 2 ^ 64"
      using assms(3) u [of "i - (j + k)"] unfolding unat_word_ariths by simp
    then have "(unat (- ?w) + (i - (j + k))) mod 2 ^ 64 = 0" by simp
    moreover have "0 < i - (j + k)" using False by simp
    ultimately have "2 ^ 64 \<le> unat (- ?w) + (i - (j + k))" by (metis add_is_0 less_numeral_extra(3) mod_less not_le)
    then show ?thesis unfolding e using assms(3) by simp
  qed
  moreover have "F + of_nat j + of_nat k - (F + of_nat i) = (of_nat (j + k) - of_nat i :: addr)" by simp
  ultimately show "f' (F + of_nat j + of_nat k) = f (F + of_nat j + of_nat k)"
    using assms(1) unfolding same_outside_def by metis
qed

lemma bytes_at_concat:
  assumes "bytes_at f s (w * n) = concat (map g [0..<n])" and "\<And>k. length (g k) = w" and "i < n"
  shows "bytes_at f (s + of_nat (w * i)) w = g i"
  using assms(1,3)
proof (induction n)
  case (Suc n)
  have "bytes_at f s (w * n) @ bytes_at f (s + of_nat (w * n)) w = concat (map g [0..<n]) @ g n"
    using Suc.prems(1) by (simp add: bytes_at_add [symmetric] add.commute [of w] del: of_nat_mult)
  moreover have "length (concat (map g [0..<n])) = w * n" using assms(2) by (induction n) simp_all
  ultimately have "bytes_at f s (w * n) = concat (map g [0..<n])" "bytes_at f (s + of_nat (w * n)) w = g n"
    by (simp_all add: append_eq_append_conv)
  then show ?case using Suc by (cases "i = n") auto
qed simp

lemma concat_pairs: "concat (map (\<lambda>k. g (2 * k) @ g (2 * k + 1)) [0..<n]) = concat (map g [0..<2 * n])"
  by (induction n) simp_all

lemma block_mem_slot:
  assumes "\<And>k. length (g k) = w" and "2 * w * n \<le> 2 ^ 63" and "i < 2 * n"
  shows "bytes_at (block_mem s (2 * w) (\<lambda>k. g (2 * k) @ g (2 * k + 1)) n f) (s + of_nat (w * i)) w = g i"
proof (rule bytes_at_concat [OF _ assms(1,3)])
  have "bytes_at (block_mem s (2 * w) (\<lambda>k. g (2 * k) @ g (2 * k + 1)) n f) s (2 * w * n) = concat (map g [0..<2 * n])"
    using assms(1,2) by (subst block_mem_bytes) (simp_all add: concat_pairs [simplified])
  then show "bytes_at (block_mem s (2 * w) (\<lambda>k. g (2 * k) @ g (2 * k + 1)) n f) s (w * (2 * n)) = concat (map g [0..<2 * n])"
    by (simp add: mult.assoc mult.left_commute)
qed

section \<open>Code\<close>

definition code_mem :: "(addr \<Rightarrow> bool) \<Rightarrow> (addr \<Rightarrow> u8) \<Rightarrow> addr \<Rightarrow> u8 list \<Rightarrow> bool" where
  "code_mem wr f a bs \<longleftrightarrow> (\<forall>i < length bs. f (a + of_nat i) = bs ! i \<and> \<not> wr (a + of_nat i))"

lemma text_at_code_mem: "text_at wr m a bs \<longleftrightarrow> code_mem wr (a_mem (core m)) a bs"
  by (auto simp: text_at_def code_at_def code_mem_def)

lemma code_mem_same: "code_mem wr f a bs \<Longrightarrow> (\<And>x. \<not> wr x \<Longrightarrow> f' x = f x) \<Longrightarrow> code_mem wr f' a bs"
  by (simp add: code_mem_def)

lemma code_mem_write: "range_ok_wr wr s (length ws) \<Longrightarrow> code_mem wr (write_bytes s ws f) a bs = code_mem wr f a bs"
proof -
  assume ok: "range_ok_wr wr s (length ws)"
  have "write_bytes s ws f x = f x" if "\<not> wr x" for x
    using ok that by (intro write_bytes_unwritable [of wr]) (auto simp: list_all_iff range_ok_wr_def)
  then show ?thesis by (auto simp: code_mem_def)
qed

lemma code_mem_bytes: "code_mem wr f a bs \<Longrightarrow> bytes_at f a (length bs) = bs"
  by (rule nth_equalityI) (simp_all add: code_mem_def bytes_at_nth)

lemma code_mem_word: "code_mem wr f a (le_bytes 8 v) \<Longrightarrow> le_word (bytes_at f a 8) = (v :: u64)"
  using code_mem_bytes [of wr f a "le_bytes 8 v"] by (simp add: le_word_le_bytes)

lemma step_word:
  "text_at wr m (a_pc (core m)) (le_bytes 4 w) \<Longrightarrow> stack_step wr m = stack_exec wr (stack_decode w) m"
  by (auto simp: stack_step_def text_at_def load32_code)

lemma exec_branch_st [run_simps]:
  "stack_exec wr (S_core (A_BLR 17)) (st m r s p f) = Some (st m (r(30 := p + 4)) s (r 17) f)"
  "stack_exec wr (S_core (A_BR 17)) (st m r s p f) = Some (st m r s (r 17) f)"
  "stack_exec wr (S_core (A_RET 30)) (st m r s p f) = Some (st m r s (r 30) f)"
  by (simp_all add: st_def goto_def set_x_def get_x_def)

lemma exec_mov_st:
  "exec_list wr (map stack_decode (mov_words 17 v)) (st m r s p f) = Some (st m (r(17 := v)) s (p + 16) f)"
proof -
  have z: "stack_exec wr (S_core (A_MOVZ 17 imm sh)) (st m r s p f) = Some (st m (r(17 := push_bit sh imm)) s (p + 4) f)"
    "stack_exec wr (S_core (A_MOVK 17 imm sh)) (st m r s p f) =
       Some (st m (r(17 := (r 17 AND NOT (push_bit sh (mask 16))) OR push_bit sh imm)) s (p + 4) f)" for r p imm sh
    by (simp_all add: st_def next_pc_def goto_def set_x_def get_x_def)
  show ?thesis by (simp add: decode_mov_words z half_words add.commute [of 16] del: stack_exec.simps)
qed

end
