(* ===== verification/ClosureFrame.thy ===== *)
theory ClosureFrame
  imports ClosureRun
begin

text \<open>
  A call that goes through a closure trampoline: the trampoline and the saving half of the bridge reach the handler with the
  registers in a \<open>RegisterContext\<close> on the stack; once the handler has returned, the restoring half and the end of the trampoline
  load the registers from it and go to the address that the handler left in the scratch register.
\<close>

section \<open>The trampoline\<close>

definition trampoline_bytes :: "addr \<Rightarrow> addr \<Rightarrow> u8 list" where
  "trampoline_bytes cte bridge = words (entry_words @ [0xD63F0220] @ exit_words @ [0xD61F0220]) @ le_bytes 8 cte @ le_bytes 8 bridge"

lemma code_mem_append: "code_mem wr f a (xs @ ys) \<longleftrightarrow> code_mem wr f a xs \<and> code_mem wr f (a + of_nat (length xs)) ys"
  using text_at_append [of wr "st m r s p f" a xs ys for m r s p] by (simp add: text_at_code_mem)

lemma stack_run_text: "stack_run wr n m = Some m' \<Longrightarrow> text_at wr m a bs \<Longrightarrow> text_at wr m' a bs"
proof (induction n arbitrary: m)
  case (Suc n)
  then obtain m1 where m1: "stack_step wr m = Some m1" "stack_run wr n m1 = Some m'" by (auto split: option.splits)
  then show ?case using Suc.IH Suc.prems(2) stack_exec_text by (metis stack_step_def)
qed simp

lemma trampoline_parts:
  assumes "code_mem wr f T (trampoline_bytes cte bridge)"
  shows "code_mem wr f T (words entry_words)" "code_mem wr f (T + 20) (le_bytes 4 (0xD63F0220 :: u32))" "code_mem wr f (T + 24) (words exit_words)"
    "code_mem wr f (T + 32) (le_bytes 4 (0xD61F0220 :: u32))" "code_mem wr f (T + 36) (le_bytes 8 cte)" "code_mem wr f (T + 44) (le_bytes 8 bridge)"
  using assms by (simp_all add: trampoline_bytes_def entry_words_def exit_words_def words_append code_mem_append add.commute)

lemma run_then:
  assumes "stack_run wr k m = Some m1" and "text_at wr m1 (a_pc (core m1)) (le_bytes 4 w)" and "stack_exec wr (stack_decode w) m1 = Some m2"
  shows "stack_run wr (k + 1) m = Some m2"
  using stack_run_add [OF assms(1), of 1] step_word [OF assms(2)] assms(3) by simp

lemma trampoline_enters:
  fixes r :: "u32 \<Rightarrow> u64"
  assumes code: "code_mem wr f T (trampoline_bytes cte bridge)" and wr: "range_ok_wr wr (G - 16) 16"
  defines "f' \<equiv> write_bytes (G - 16) (le_bytes 8 cte) (write_bytes (G - 8) (le_bytes 8 (r 30)) f)"
  shows "stack_run wr 6 (st m r G T f) = Some (st m (r(17 := bridge, 30 := T + 24)) (G - 16) bridge f') \<and>
    (\<forall>a bs. code_mem wr f' a bs = code_mem wr f a bs)"
proof -
  note parts = trampoline_parts [OF code]
  let ?f1 = "write_bytes (G - 8) (le_bytes 8 (r 30)) f"
  have w: "range_ok_wr wr (G - 16) 8" "range_ok_wr wr (G - 8) 8"
    using range_ok_wr_part [OF wr, of 0 8] range_ok_wr_part [OF wr, of 8 8] by simp_all
  have keep: "code_mem wr ?f1 a bs = code_mem wr f a bs" "code_mem wr f' a bs = code_mem wr f a bs" for a bs
    using w by (simp_all add: f'_def code_mem_write)
  have lit: "le_word (bytes_at ?f1 (T + 36) 8) = cte" "le_word (bytes_at f' (T + 44) 8) = bridge"
    using parts(5,6) keep by (blast intro: code_mem_word)+
  have "exec_list wr (map stack_decode entry_words) (st m r G T f) = Some (st m (r(17 := bridge)) (G - 16) (T + 20) f')"
    using w lit by (simp add: decode_entry_words run_simps f'_def add.commute [of T] del: stack_exec.simps)
  moreover have "list_all straight (map stack_decode entry_words)" by (simp add: decode_entry_words)
  ultimately have "stack_run wr (length entry_words) (st m r G T f) = Some (st m (r(17 := bridge)) (G - 16) (T + 20) f')"
    using run_straight [of wr entry_words "st m r G T f"] parts(1) by (simp add: text_at_code_mem)
  moreover have "length entry_words = 5" by (simp add: entry_words_def)
  ultimately have run: "stack_run wr 5 (st m r G T f) = Some (st m (r(17 := bridge)) (G - 16) (T + 20) f')" by simp
  have "stack_run wr (5 + 1) (st m r G T f) = Some (st m (r(17 := bridge, 30 := T + 24)) (G - 16) bridge f')"
    by (rule run_then [OF run, of "0xD63F0220"])
      (use parts(2) keep in \<open>simp_all add: text_at_code_mem decode_branches run_simps add.commute del: stack_exec.simps\<close>)
  then show ?thesis using keep by simp
qed

lemma trampoline_leaves:
  assumes code: "code_mem wr f T (trampoline_bytes cte bridge)"
  shows "stack_run wr 3 (st m r G (T + 24) f) =
    Some (st m (r(30 := le_word (bytes_at f (G + 8) 8))) (G + 16) (r 17) f)"
proof -
  note parts = trampoline_parts [OF code]
  let ?m = "st m (r(30 := le_word (bytes_at f (G + 8) 8))) (G + 16) (T + 32) f"
  have "exec_list wr (map stack_decode exit_words) (st m r G (T + 24) f) = Some ?m"
    by (simp add: decode_exit_words run_simps add.commute del: stack_exec.simps)
  moreover have "list_all straight (map stack_decode exit_words)" by (simp add: decode_exit_words)
  ultimately have "stack_run wr (length exit_words) (st m r G (T + 24) f) = Some ?m"
    using run_straight [of wr exit_words "st m r G (T + 24) f"] parts(3) by (simp add: text_at_code_mem)
  moreover have "length exit_words = 2" by (simp add: exit_words_def)
  ultimately have run: "stack_run wr 2 (st m r G (T + 24) f) = Some ?m" by simp
  have "stack_run wr (2 + 1) (st m r G (T + 24) f) = Some (st m (r(30 := le_word (bytes_at f (G + 8) 8))) (G + 16) (r 17) f)"
    by (rule run_then [OF run, of "0xD61F0220"])
      (use parts(4) in \<open>simp_all add: text_at_code_mem decode_branches run_simps del: stack_exec.simps\<close>)
  then show ?thesis by simp
qed

section \<open>Saving\<close>

definition x_bytes :: "(u32 \<Rightarrow> u64) \<Rightarrow> nat \<Rightarrow> u8 list" where
  "x_bytes r i = le_bytes 8 (r (of_nat (i + 1)))"

definition q_bytes :: "(u32 \<Rightarrow> u128) \<Rightarrow> nat \<Rightarrow> nat \<Rightarrow> u8 list" where
  "q_bytes v b i = le_bytes 16 (v (of_nat (b + i)))"

abbreviation "x_block F r f \<equiv> block_mem F (2 * 8) (\<lambda>k. x_bytes r (2 * k) @ x_bytes r (2 * k + 1)) 15 f"
abbreviation "q_block F v b n f \<equiv> block_mem F (2 * 16) (\<lambda>k. q_bytes v b (2 * k) @ q_bytes v b (2 * k + 1)) n f"

lemma bytes_length [simp]: "length (x_bytes r i) = 8" "length (q_bytes v b i) = 16"
  by (simp_all add: x_bytes_def q_bytes_def)

lemma exec_save_x:
  assumes "range_ok_wr wr F 240"
  shows "exec_list wr (map stack_decode (map word_of save_x)) (st m r (F + 240) p f) = Some (st m r F (p + 64) (x_block F r f))"
proof -
  have reg: "(of_nat (2 * k + 1) :: u32) \<noteq> 31" "(of_nat (2 * k + 2) :: u32) \<noteq> 31" if "k < 15" for k
    using that register_number [of "2 * k + 1"] register_number [of "2 * k + 2"] by (simp_all del: of_nat_add of_nat_mult)
  have "exec_list wr (map (\<lambda>k. S_STP (of_nat (2 * k + 1)) (of_nat (2 * k + 2)) 31 (of_nat (16 * k))) (rev [0..<15])) (st m r F (p + 4) f) =
      Some (st m r F (p + 4 + 4 * of_nat 15) (x_block F r f))"
  proof (rule exec_store_block)
    fix k p f assume "k < (15 :: nat)"
    then show "stack_exec wr (S_STP (of_nat (2 * k + 1)) (of_nat (2 * k + 2)) 31 (of_nat (16 * k))) (st m r F p f) =
        store_bytes wr (F + of_nat (2 * 8 * k)) (x_bytes r (2 * k) @ x_bytes r (2 * k + 1)) (st m r F p f)"
      using exec_store_st(2) [OF reg] by (simp add: x_bytes_def del: of_nat_add of_nat_mult)
  qed (use assms in simp_all)
  then show ?thesis unfolding decode_save_x by (simp add: exec_st add.commute [of p] del: stack_exec.simps block_mem.simps map_map)
qed

lemma exec_save_qs:
  assumes "range_ok_wr wr F (2 * 16 * n)"
  shows "exec_list wr (map (\<lambda>k. S_STPQ (of_nat (b + 2 * k)) (of_nat (b + 2 * k + 1)) 31 (of_nat (32 * k))) (rev [0..<n])) (st m r F p f) =
      Some (st m r F (p + 4 * of_nat n) (q_block F (vreg m) b n f))"
proof (rule exec_store_block)
  fix k p f
  show "stack_exec wr (S_STPQ (of_nat (b + 2 * k)) (of_nat (b + 2 * k + 1)) 31 (of_nat (32 * k))) (st m r F p f) =
      store_bytes wr (F + of_nat (2 * 16 * k)) (q_bytes (vreg m) b (2 * k) @ q_bytes (vreg m) b (2 * k + 1)) (st m r F p f)"
    unfolding exec_store_st(3) by (simp add: q_bytes_def add.assoc del: of_nat_add of_nat_mult)
qed (use assms in simp_all)

lemma exec_save_q:
  "range_ok_wr wr F 128 \<Longrightarrow> exec_list wr (map stack_decode (map word_of save_q)) (st m r (F + 128) p f) =
     Some (st m r F (p + 20) (q_block F (vreg m) 0 4 f))"
  "range_ok_wr wr F 384 \<Longrightarrow> exec_list wr (map stack_decode (map word_of save_q_full)) (st m r (F + 384) p f) =
     Some (st m r F (p + 52) (q_block F (vreg m) 8 12 f))"
  unfolding decode_save_q decode_save_q_full using exec_save_qs [of wr F 4 0 m r "p + 4" f] exec_save_qs [of wr F 12 8 m r "p + 4" f]
  by (simp_all add: exec_st add.commute [of p] del: stack_exec.simps block_mem.simps of_nat_add of_nat_mult)

definition context_size :: "bool \<Rightarrow> nat" where
  "context_size full = (if full then 784 else 400)"

definition vectors :: "bool \<Rightarrow> nat" where
  "vectors full = (if full then 32 else 8)"

text \<open>The memory of a context at \<open>F\<close>: the stack pointer, \<open>x0\<close>, the other registers and the vector registers.\<close>

definition frame_mem :: "bool \<Rightarrow> addr \<Rightarrow> (u32 \<Rightarrow> u64) \<Rightarrow> (u32 \<Rightarrow> u128) \<Rightarrow> (addr \<Rightarrow> u8) \<Rightarrow> addr \<Rightarrow> u8" where
  "frame_mem full F r v f =
     write_bytes (F + 8) (le_bytes 8 (F + of_nat (context_size full) + 16)) (write_bytes (F + 24) (le_bytes 8 (r 0))
       (x_block (F + 32) r (q_block (F + 272) v 0 4 (if full then q_block (F + 400) v 8 12 f else f))))"

lemma save_lengths: "length save_q = 5" "length save_q_full = 13" "length save_x = 16" "length (context_args full) = 2"
  "length (save_x0_sp full) = (if full then 7 else 6)"
  by (simp_all add: save_q_def save_q_full_def save_x_def context_args_def save_x0_sp_def)

lemma exec_save_x0_sp:
  assumes "range_ok_wr wr F 32"
  shows "exec_list wr (map stack_decode (map word_of (save_x0_sp full))) (st m r (F + 32) p f) =
    Some (st m (r(17 := F + of_nat (context_size full) + 16)) F (p + of_nat (4 * length (save_x0_sp full)))
      (write_bytes (F + 8) (le_bytes 8 (F + of_nat (context_size full) + 16)) (write_bytes (F + 24) (le_bytes 8 (r 0)) f)))"
proof -
  have w: "range_ok_wr wr (F + 8) 8" "range_ok_wr wr (F + 24) 8"
    using range_ok_wr_part [OF assms, of 8 8] range_ok_wr_part [OF assms, of 24 8] by simp_all
  show ?thesis using w
    by (cases full) (simp_all add: decode_save_x0_sp run_simps context_size_def save_lengths add.commute [of F] add.commute [of p] del: stack_exec.simps map_map)
qed

lemma exec_saving:
  fixes r :: "u32 \<Rightarrow> u64" and m :: machine and f :: "addr \<Rightarrow> u8"
  assumes wr: "range_ok_wr wr F (context_size full)"
  defines "f' \<equiv> frame_mem full F r (vreg m) f" and "G \<equiv> F + of_nat (context_size full)"
  shows "exec_list wr (map stack_decode (saving full)) (st m r G p f) =
    Some (st m (r(17 := G + 16, 0 := F, 1 := le_word (bytes_at f' G 8))) F (p + 4 * of_nat (length (saving full))) f')"
proof -
  have w: "range_ok_wr wr F 32" "range_ok_wr wr (F + 32) 240" "range_ok_wr wr (F + 272) 128" "full \<Longrightarrow> range_ok_wr wr (F + 400) 384"
    using range_ok_wr_part [OF wr, of 0 32] range_ok_wr_part [OF wr, of 32 240] range_ok_wr_part [OF wr, of 272 128]
      range_ok_wr_part [OF wr, of 400 384] by (simp_all add: context_size_def split: if_splits)
  let ?q = "if full then q_block (F + 400) (vreg m) 8 12 f else f"
  have 1: "exec_list wr (map stack_decode (map word_of (if full then save_q_full else []))) (st m r G p f) =
      Some (st m r (F + 400) (p + of_nat (4 * length (if full then save_q_full else []))) ?q)"
    using exec_save_q(2) [OF w(4), of m r p f]
    by (cases full) (simp_all add: G_def context_size_def save_lengths add.commute [of F] del: map_map block_mem.simps)
  have 2: "exec_list wr (map stack_decode (map word_of save_q)) (st m r (F + 400) p f) =
      Some (st m r (F + 272) (p + of_nat (4 * length save_q)) (q_block (F + 272) (vreg m) 0 4 f))" for p f
    using exec_save_q(1) [OF w(3), of m r p f] by (simp add: save_lengths add.commute [of F] del: map_map block_mem.simps)
  have 3: "exec_list wr (map stack_decode (map word_of save_x)) (st m r (F + 272) p f) =
      Some (st m r (F + 32) (p + of_nat (4 * length save_x)) (x_block (F + 32) r f))" for p f
    using exec_save_x [OF w(2), of m r p f] by (simp add: save_lengths add.commute [of F] del: map_map block_mem.simps)
  have 4: "exec_list wr (map stack_decode (map word_of (context_args full))) (st m r F p f) =
      Some (st m (r(0 := F, 1 := le_word (bytes_at f G 8))) F (p + of_nat (4 * length (context_args full))) f)" for r p f
    by (simp add: decode_context_args run_simps REGISTER_CONTEXT_SIZE_def context_size_def save_lengths G_def add.commute [of p] del: map_map stack_exec.simps)
  note 5 = exec_save_x0_sp [OF w(1), where full = full, folded G_def]
  have f': "f' = write_bytes (F + 8) (le_bytes 8 (G + 16)) (write_bytes (F + 24) (le_bytes 8 (r 0)) (x_block (F + 32) r (q_block (F + 272) (vreg m) 0 4 ?q)))"
    by (simp only: f'_def frame_mem_def G_def)
  have "exec_list wr (map stack_decode (saving full)) (st m r G p f) =
    Some (st m (r(17 := G + 16, 0 := F, 1 := le_word (bytes_at f' G 8))) F (p + of_nat (4 * length (if full then save_q_full else [])) +
      of_nat (4 * length save_q) + of_nat (4 * length save_x) + of_nat (4 * length (save_x0_sp full)) +
      of_nat (4 * length (context_args full))) f')"
    by (simp only: saving_def map_append exec_list_append 1 2 3 4 5 option.case f')
  then show ?thesis by (simp add: saving_def algebra_simps)
qed

section \<open>The context in memory\<close>

definition context_at :: "bool \<Rightarrow> (addr \<Rightarrow> u8) \<Rightarrow> addr \<Rightarrow> RegisterContext" where
  "context_at full f F =
     \<lparr>dmmpy_0 = slot f F 0, ctx_sp = slot f F 1, dmmpy_1 = slot f F 2, ctx_x = map (\<lambda>i. slot f F (3 + i)) [0..<29],
      ctx_fp = slot f F 32, ctx_lr = slot f F 33, ctx_q = map (slotq f (F + 272)) [0..<vectors full]\<rparr>"

lemma frame_apart:
  assumes "j + n \<le> 8 \<or> (16 \<le> j \<and> j + n \<le> 24) \<or> (context_size full \<le> j \<and> j + n \<le> 2 ^ 32)"
  shows "bytes_at (frame_mem full F r v f) (F + of_nat j) n = bytes_at f (F + of_nat j) n"
proof -
  have b: "j + n \<le> 2 ^ 32" using assms by auto
  have w: "bytes_at (write_bytes (F + of_nat 8) (le_bytes 8 x) g) (F + of_nat j) n = bytes_at g (F + of_nat j) n"
      "bytes_at (write_bytes (F + of_nat 24) (le_bytes 8 x) g) (F + of_nat j) n = bytes_at g (F + of_nat j) n" for x :: u64 and g
    using assms b by (intro bytes_at_apart [OF same_outside_write [of _ 8]]; auto simp: context_size_def split: if_splits)+
  have x: "bytes_at (x_block (F + of_nat 32) r g) (F + of_nat j) n = bytes_at g (F + of_nat j) n" for g
    using assms b by (intro bytes_at_apart [OF same_outside_block [of _ _ 240]]; auto simp: context_size_def split: if_splits)
  have q: "bytes_at (q_block (F + of_nat 272) v 0 4 g) (F + of_nat j) n = bytes_at g (F + of_nat j) n" for g
    using assms b by (intro bytes_at_apart [OF same_outside_block [of _ _ 128]]; auto simp: context_size_def split: if_splits)
  have qf: "full \<Longrightarrow> bytes_at (q_block (F + of_nat 400) v 8 12 g) (F + of_nat j) n = bytes_at g (F + of_nat j) n" for g
    using assms b by (intro bytes_at_apart [OF same_outside_block [of _ _ 384]]; auto simp: context_size_def split: if_splits)
  have n: "(8 :: addr) = of_nat 8" "(24 :: addr) = of_nat 24" "(32 :: addr) = of_nat 32" "(272 :: addr) = of_nat 272" "(400 :: addr) = of_nat 400" by simp_all
  show ?thesis unfolding frame_mem_def n w x q using qf by simp
qed

lemma write8_apart:
  assumes "i + 8 \<le> j \<or> j + n \<le> i" and "i \<le> 1000" "j + n \<le> 2000"
  shows "bytes_at (write_bytes (F + of_nat i) (le_bytes 8 (x :: u64)) g) (F + of_nat j) n = bytes_at g (F + of_nat j) n"
  using assms by (intro bytes_at_apart [OF same_outside_write [of _ 8]]) auto

lemma frame_numerals: "(8 :: addr) = of_nat 8" "(24 :: addr) = of_nat 24" "(32 :: addr) = of_nat 32" "(272 :: addr) = of_nat 272"
  "(400 :: addr) = of_nat 400"
  by simp_all

lemma frame_above:
  assumes "32 \<le> j" "j + n \<le> 2000"
  shows "bytes_at (frame_mem full F r v f) (F + of_nat j) n =
    bytes_at (x_block (F + 32) r (q_block (F + 272) v 0 4 (if full then q_block (F + 400) v 8 12 f else f))) (F + of_nat j) n"
proof -
  have "bytes_at (write_bytes (F + of_nat 8) (le_bytes 8 x) g) (F + of_nat j) n = bytes_at g (F + of_nat j) n"
    "bytes_at (write_bytes (F + of_nat 24) (le_bytes 8 x) g) (F + of_nat j) n = bytes_at g (F + of_nat j) n" for x :: u64 and g
    using assms by (intro write8_apart; simp)+
  then show ?thesis unfolding frame_mem_def frame_numerals(1,2) by (simp only:)
qed

lemma frame_x0_sp:
  "slot (frame_mem full F r v f) F 1 = F + of_nat (context_size full) + 16" "slot (frame_mem full F r v f) F 3 = r 0"
proof -
  show "slot (frame_mem full F r v f) F 1 = F + of_nat (context_size full) + 16"
    by (simp add: slot_def frame_mem_def bytes_at_write le_word_le_bytes)
  have "bytes_at (frame_mem full F r v f) (F + of_nat 24) 8 = le_bytes 8 (r 0)"
    unfolding frame_mem_def frame_numerals(1) by (subst write8_apart) (simp_all add: bytes_at_write)
  then show "slot (frame_mem full F r v f) F 3 = r 0" by (simp add: slot_def le_word_le_bytes)
qed

lemma frame_x:
  assumes "i < 30"
  shows "slot (frame_mem full F r v f) F (4 + i) = r (of_nat (i + 1))"
proof -
  let ?b = "q_block (F + 272) v 0 4 (if full then q_block (F + 400) v 8 12 f else f)"
  have "bytes_at (frame_mem full F r v f) (F + of_nat (32 + 8 * i)) 8 = bytes_at (x_block (F + 32) r ?b) (F + of_nat (32 + 8 * i)) 8"
    using assms by (intro frame_above) simp_all
  moreover have "F + of_nat (32 + 8 * i) = F + 32 + of_nat (8 * i)" by simp
  moreover have "bytes_at (x_block (F + 32) r ?b) (F + 32 + of_nat (8 * i)) 8 = x_bytes r i"
    using assms by (intro block_mem_slot) simp_all
  ultimately have "bytes_at (frame_mem full F r v f) (F + of_nat (32 + 8 * i)) 8 = x_bytes r i" by (simp only:)
  moreover have "8 * (4 + i) = 32 + 8 * i" by simp
  ultimately show ?thesis by (simp only: slot_def x_bytes_def) (simp add: le_word_le_bytes)
qed

lemma frame_q:
  assumes "i < vectors full"
  shows "slotq (frame_mem full F r v f) (F + 272) i = v (of_nat i)"
proof -
  let ?qf = "if full then q_block (F + 400) v 8 12 f else f"
  have i: "i < 32" using assms by (simp add: vectors_def split: if_splits)
  have e: "F + 272 + of_nat (16 * i) = F + of_nat (272 + 16 * i)" by simp
  have "bytes_at (x_block (F + of_nat 32) r g) (F + of_nat (272 + 16 * i)) 16 = bytes_at g (F + of_nat (272 + 16 * i)) 16" for g
    using i by (intro bytes_at_apart [OF same_outside_block [of _ _ 240]]) auto
  then have 1: "bytes_at (frame_mem full F r v f) (F + of_nat (272 + 16 * i)) 16 = bytes_at (q_block (F + 272) v 0 4 ?qf) (F + of_nat (272 + 16 * i)) 16"
    using i by (subst frame_above) (simp_all add: frame_numerals(3) del: of_nat_add of_nat_mult of_nat_numeral block_mem.simps)
  have "bytes_at (q_block (F + 272) v 0 4 ?qf) (F + of_nat (272 + 16 * i)) 16 = q_bytes v 0 i"
  proof (cases "i < 8")
    case True
    then have "bytes_at (q_block (F + 272) v 0 4 ?qf) (F + 272 + of_nat (16 * i)) 16 = q_bytes v 0 i" by (intro block_mem_slot) simp_all
    then show ?thesis by (simp only: e)
  next
    case False
    then have full: full and k: "i - 8 < 2 * 12" using assms by (simp_all add: vectors_def split: if_splits)
    have "bytes_at (q_block (F + of_nat 272) v 0 4 ?qf) (F + of_nat (272 + 16 * i)) 16 = bytes_at ?qf (F + of_nat (272 + 16 * i)) 16"
      using i False by (intro bytes_at_apart [OF same_outside_block [of _ _ 128]]) auto
    moreover have "bytes_at (q_block (F + 400) v 8 12 f) (F + 400 + of_nat (16 * (i - 8))) 16 = q_bytes v 8 (i - 8)"
      using k by (intro block_mem_slot) simp_all
    moreover have "F + 400 + of_nat (16 * (i - 8)) = F + of_nat (272 + 16 * i)"
      using False by (simp add: of_nat_diff right_diff_distrib)
    moreover have "q_bytes v 8 (i - 8) = q_bytes v 0 i" using False by (simp add: q_bytes_def)
    moreover have "?qf = q_block (F + 400) v 8 12 f" using full by (simp only: if_True)
    ultimately show ?thesis by (simp only: frame_numerals(4))
  qed
  then show ?thesis unfolding slotq_def e 1 by (simp add: q_bytes_def le_word_le_bytes)
qed

lemma frame_dummies: "slot (frame_mem full F r v f) F 0 = slot f F 0" "slot (frame_mem full F r v f) F 2 = slot f F 2"
  using frame_apart [of 0 8 full F r v f] frame_apart [of 16 8 full F r v f] by (simp_all add: slot_def)

lemma context_frame:
  "context_at full (frame_mem full F r v f) F =
     \<lparr>dmmpy_0 = slot f F 0, ctx_sp = F + of_nat (context_size full) + 16, dmmpy_1 = slot f F 2, ctx_x = map (\<lambda>i. r (of_nat i)) [0..<29],
      ctx_fp = r 29, ctx_lr = r 30, ctx_q = map (\<lambda>i. v (of_nat i)) [0..<vectors full]\<rparr>"
proof -
  have x: "slot (frame_mem full F r v f) F (3 + i) = r (of_nat i)" if "i < 31" for i
    using frame_x [of "i - 1" full F r v f] frame_x0_sp(2) [of full F r v f] that by (cases i) simp_all
  show ?thesis
    using x [of 29] x [of 30] by (simp add: context_at_def frame_dummies frame_x0_sp(1) [unfolded One_nat_def] x frame_q)
qed

section \<open>The bridge\<close>

definition bridge_bytes :: "bool \<Rightarrow> addr \<Rightarrow> u8 list" where
  "bridge_bytes full h = words (saving full) @ words (mov_words 17 h @ [0xD63F0220]) @ words (restoring full @ [0xD65F03C0])"

definition return_offset :: "bool \<Rightarrow> u64" where
  "return_offset full = of_nat (4 * (length (saving full) + 5))"

lemma bridge_parts:
  assumes "code_mem wr f B (bridge_bytes full h)"
  shows "code_mem wr f B (words (saving full @ mov_words 17 h))" "code_mem wr f (B + return_offset full - 4) (le_bytes 4 (0xD63F0220 :: u32))"
    "code_mem wr f (B + return_offset full) (words (restoring full))"
    "code_mem wr f (B + return_offset full + of_nat (4 * length (restoring full))) (le_bytes 4 (0xD65F03C0 :: u32))"
proof -
  have "bridge_bytes full h = words (saving full @ mov_words 17 h) @ le_bytes 4 (0xD63F0220 :: u32) @ words (restoring full) @ le_bytes 4 (0xD65F03C0 :: u32)"
    by (simp add: bridge_bytes_def words_append)
  moreover have "length (words (saving full @ mov_words 17 h)) = 4 * (length (saving full) + 4)" by (simp add: mov_words_def)
  moreover have "B + of_nat (4 * (length (saving full) + 4)) = B + return_offset full - 4"
    "B + return_offset full - 4 + 4 = B + return_offset full" by (simp_all add: return_offset_def)
  ultimately show "code_mem wr f B (words (saving full @ mov_words 17 h))" "code_mem wr f (B + return_offset full - 4) (le_bytes 4 (0xD63F0220 :: u32))"
    "code_mem wr f (B + return_offset full) (words (restoring full))"
    "code_mem wr f (B + return_offset full + of_nat (4 * length (restoring full))) (le_bytes 4 (0xD65F03C0 :: u32))"
    using assms by (simp_all add: code_mem_append add_diff_eq del: of_nat_mult of_nat_add)
qed

lemma straight_code: "list_all straight (map stack_decode (saving full @ mov_words 17 h))" "list_all straight (map stack_decode (restoring full))"
proof -
  have all: "list_all P (map g (rev [0..<n]))" if "\<And>k. P (g k)" for P n and g :: "nat \<Rightarrow> stack_insn" using that by (simp add: list_all_iff)
  have all': "list_all P (map g [0..<n])" if "\<And>k. P (g k)" for P n and g :: "nat \<Rightarrow> stack_insn" using that by (simp add: list_all_iff)
  show "list_all straight (map stack_decode (saving full @ mov_words 17 h))"
    by (simp add: saving_def decode_save_q_full decode_save_q decode_save_x decode_save_x0_sp decode_context_args decode_mov_words all del: map_map)
  show "list_all straight (map stack_decode (restoring full))"
    by (simp add: restoring_def decode_restore_q_full decode_restore_q decode_restore_x all' del: map_map)
qed

lemma bridge_enters:
  fixes r :: "u32 \<Rightarrow> u64" and m :: machine and f :: "addr \<Rightarrow> u8"
  assumes code: "code_mem wr f B (bridge_bytes full h)" and wr: "range_ok_wr wr F (context_size full)"
  defines "f' \<equiv> frame_mem full F r (vreg m) f" and "G \<equiv> F + of_nat (context_size full)"
  shows "\<exists>n. stack_run wr n (st m r G B f) =
    Some (st m (r(0 := F, 1 := le_word (bytes_at f' G 8), 17 := h, 30 := B + return_offset full)) F h f')"
proof -
  let ?r = "r(17 := G + 16, 0 := F, 1 := le_word (bytes_at f' G 8))"
  let ?w = "saving full @ mov_words 17 h"
  have e: "exec_list wr (map stack_decode ?w) (st m r G B f) =
      Some (st m (?r(17 := h)) F (B + 4 * of_nat (length (saving full)) + 16) f')"
    using exec_saving [OF wr, of m r B f] unfolding map_append exec_list_append G_def [symmetric] f'_def [symmetric] by (simp add: exec_mov_st)
  have "stack_run wr (length ?w) (st m r G B f) = Some (st m (?r(17 := h)) F (B + 4 * of_nat (length (saving full)) + 16) f')"
    using run_straight [OF e straight_code(1)] bridge_parts(1) [OF code] by (simp add: text_at_code_mem)
  moreover have pc: "B + 4 * of_nat (length (saving full)) + 16 = B + return_offset full - 4" by (simp add: return_offset_def)
  ultimately have run: "stack_run wr (length ?w) (st m r G B f) = Some (st m (?r(17 := h)) F (B + return_offset full - 4) f')" by metis
  have "text_at wr (st m (?r(17 := h)) F (B + return_offset full - 4) f') (B + return_offset full - 4) (le_bytes 4 (0xD63F0220 :: u32))"
    using stack_run_text [OF run] bridge_parts(2) [OF code] by (simp add: text_at_code_mem)
  then have "stack_run wr (length ?w + 1) (st m r G B f) = Some (st m ((?r(17 := h))(30 := B + return_offset full)) F h f')"
    by (intro run_then [OF run, of "0xD63F0220"]) (simp_all add: decode_branches run_simps del: stack_exec.simps)
  moreover have "(?r(17 := h))(30 := B + return_offset full) = r(0 := F, 1 := le_word (bytes_at f' G 8), 17 := h, 30 := B + return_offset full)"
    by (simp add: fun_upd_twist)
  ultimately show ?thesis by metis
qed

lemma exec_restoring:
  "exec_list wr (map stack_decode (restoring full)) (st m r F p f) =
     Some (st (m\<lparr>vreg := \<lambda>q. if unat q < vectors full then slotq f (F + 272) (unat q) else vreg m q\<rparr>)
       (\<lambda>q. if unat q \<le> 30 then slot f F (3 + unat q) else r q) (F + of_nat (context_size full)) (p + of_nat (4 * length (restoring full))) f)"
proof -
  let ?r = "\<lambda>q. if unat q \<le> 30 then slot f F (3 + unat q) else r q"
  have "(\<lambda>q. if 1 \<le> unat q \<and> unat q \<le> 2 * 15 then slot f (F + 32) (unat q - 1) else (r(0 := slot f F 3)) q) = ?r"
  proof
    fix q :: u32
    have "slot f (F + 32) (unat q - 1) = slot f F (3 + unat q)" if "1 \<le> unat q"
    proof -
      have "slot f (F + 32) j = slot f F (3 + (1 + j))" for j by (simp add: slot_def distrib_left add.assoc)
      from this [of "unat q - 1"] show ?thesis using that by (simp only: le_add_diff_inverse)
    qed
    then show "(if 1 \<le> unat q \<and> unat q \<le> 2 * 15 then slot f (F + 32) (unat q - 1) else (r(0 := slot f F 3)) q) = ?r q"
      by (cases "q = 0") (auto simp: unat_gt_0 Suc_le_eq)
  qed
  then have 1: "exec_list wr (map stack_decode (map word_of restore_x)) (st m r F p f) = Some (st m ?r (F + 272) (p + of_nat (4 * length restore_x)) f)"
    using exec_ldp_block [of 15 wr m "r(0 := slot f F 3)" "F + 32" "p + 12" f]
    unfolding decode_restore_x exec_list_append by (simp add: run_simps slot_def restore_x_def add.commute [of p] add.commute [of F] del: stack_exec.simps)
  let ?v = "\<lambda>n q. if unat q < n then slotq f (F + 272) (unat q) else vreg m q"
  have 2: "exec_list wr (map stack_decode (map word_of restore_q)) (st m r' (F + 272) p f) =
      Some (st (m\<lparr>vreg := ?v 8\<rparr>) r' (F + 400) (p + of_nat (4 * length restore_q)) f)" for r' p
    using exec_ldpq_block [of 0 4 wr m r' "F + 272" p f] unfolding decode_restore_q by (simp add: restore_q_def add.commute [of p] add.commute [of F] cong: if_cong)
  have "(\<lambda>q. if 8 \<le> unat q \<and> unat q < 8 + 2 * 12 then slotq f (F + 400) (unat q - 8) else ?v 8 q) = ?v 32"
  proof
    fix q :: u32
    have "slotq f (F + 400) (unat q - 8) = slotq f (F + 272) (unat q)" if "8 \<le> unat q"
    proof -
      have "slotq f (F + 400) j = slotq f (F + 272) (8 + j)" for j by (simp add: slotq_def distrib_left add.assoc)
      from this [of "unat q - 8"] show ?thesis using that by (simp only: le_add_diff_inverse)
    qed
    then show "(if 8 \<le> unat q \<and> unat q < 8 + 2 * 12 then slotq f (F + 400) (unat q - 8) else ?v 8 q) = ?v 32 q" by auto
  qed
  then have 3: "exec_list wr (map stack_decode (map word_of restore_q_full)) (st (m\<lparr>vreg := ?v 8\<rparr>) r' (F + 400) p f) =
      Some (st (m\<lparr>vreg := ?v 32\<rparr>) r' (F + 784) (p + of_nat (4 * length restore_q_full)) f)" for r' p
    using exec_ldpq_block [of 8 12 wr "m\<lparr>vreg := ?v 8\<rparr>" r' "F + 400" p f, unfolded vreg_twice] unfolding decode_restore_q_full
    by (simp add: restore_q_full_def add.commute [of p] add.commute [of F])
  show ?thesis
    by (cases full) (simp_all only: restoring_def map_append exec_list_append 1 2 3 option.case if_True if_False list.map exec_list.simps append_Nil2,
        simp_all add: vectors_def context_size_def add.assoc)
qed

lemma bridge_leaves:
  assumes code: "code_mem wr f B (bridge_bytes full h)"
  shows "\<exists>n. stack_run wr n (st m r F (B + return_offset full) f) =
     Some (st (m\<lparr>vreg := \<lambda>q. if unat q < vectors full then slotq f (F + 272) (unat q) else vreg m q\<rparr>)
       (\<lambda>q. if unat q \<le> 30 then slot f F (3 + unat q) else r q) (F + of_nat (context_size full)) (slot f F 33) f)"
proof -
  let ?m = "st m r F (B + return_offset full) f"
  obtain m' r' where m': "m' = m\<lparr>vreg := \<lambda>q. if unat q < vectors full then slotq f (F + 272) (unat q) else vreg m q\<rparr>"
      "r' = (\<lambda>q. if unat q \<le> 30 then slot f F (3 + unat q) else r q)" by blast
  let ?G = "F + of_nat (context_size full)"
  let ?p = "B + return_offset full + of_nat (4 * length (restoring full))"
  have e: "exec_list wr (map stack_decode (restoring full)) ?m = Some (st m' r' ?G ?p f)" unfolding m' by (rule exec_restoring)
  have run: "stack_run wr (length (restoring full)) ?m = Some (st m' r' ?G ?p f)"
    using run_straight [OF e straight_code(2)] bridge_parts(3) [OF code] by (simp add: text_at_code_mem)
  have "stack_run wr (length (restoring full) + 1) ?m = Some (st m' r' ?G (r' 30) f)"
    by (rule run_then [OF run, of "0xD65F03C0"])
      (use bridge_parts(4) [OF code] in \<open>simp_all add: text_at_code_mem decode_branches run_simps del: stack_exec.simps\<close>)
  moreover have "r' 30 = slot f F 33" by (simp add: m')
  ultimately have "stack_run wr (length (restoring full) + 1) ?m = Some (st m' r' ?G (slot f F 33) f)" by (simp only:)
  then show ?thesis unfolding m' by (rule exI)
qed

end
