(* ===== verification/ClosureProps.thy ===== *)
theory ClosureProps
  imports ClosureFrame
begin

text \<open>
  A call of an instrumented function: what the handler gets, and what its return leads to.
\<close>

section \<open>Contract of the handler\<close>

definition frame_of :: "bool \<Rightarrow> machine \<Rightarrow> addr" where
  "frame_of full m = a_sp (core m) - 16 - of_nat (context_size full)"

text \<open>The registers as a context.\<close>

definition registers :: "bool \<Rightarrow> machine \<Rightarrow> RegisterContext" where
  "registers full m =
     \<lparr>dmmpy_0 = slot (a_mem (core m)) (frame_of full m) 0, ctx_sp = a_sp (core m), dmmpy_1 = slot (a_mem (core m)) (frame_of full m) 2,
      ctx_x = map (\<lambda>i. a_reg (core m) (of_nat i)) [0..<29], ctx_fp = a_reg (core m) 29, ctx_lr = a_reg (core m) 30,
      ctx_q = map (\<lambda>i. vreg m (of_nat i)) [0..<vectors full]\<rparr>"

text \<open>
  The C function that the bridge calls in \<open>m1\<close> has returned in \<open>m2\<close>: it went to the return address with the stack pointer
  it had, changed the context at its first argument by \<open>g\<close> of its second, and kept its caller's stack and all that cannot be written.
\<close>

definition returned :: "bool \<Rightarrow> (addr \<Rightarrow> bool) \<Rightarrow> (addr \<Rightarrow> RegisterContext \<Rightarrow> RegisterContext) \<Rightarrow> machine \<Rightarrow> machine \<Rightarrow> bool" where
  "returned full wr g m1 m2 \<longleftrightarrow>
     a_pc (core m2) = a_reg (core m1) 30 \<and> a_sp (core m2) = a_sp (core m1) \<and>
     context_at full (a_mem (core m2)) (a_reg (core m1) 0) =
       g (a_reg (core m1) 1) (context_at full (a_mem (core m1)) (a_reg (core m1) 0)) \<and>
     bytes_at (a_mem (core m2)) (a_sp (core m1) + of_nat (context_size full)) 16 =
       bytes_at (a_mem (core m1)) (a_sp (core m1) + of_nat (context_size full)) 16 \<and>
     (\<forall>x. \<not> wr x \<longrightarrow> a_mem (core m2) x = a_mem (core m1) x)"

section \<open>Up to the handler and back\<close>

lemma closure_reaches_handler:
  assumes code: "text_at wr m T (trampoline_bytes cte bridge)" "text_at wr m bridge (bridge_bytes full h)"
    and pc: "a_pc (core m) = T" and wr: "range_ok_wr wr (frame_of full m) (context_size full + 16)"
  obtains n m1 where "stack_run wr n m = Some m1" "a_pc (core m1) = h" "a_reg (core m1) 0 = a_sp (core m1)" "a_reg (core m1) 1 = cte"
    "a_sp (core m1) = frame_of full m" "a_reg (core m1) 30 = bridge + return_offset full"
    "context_at full (a_mem (core m1)) (a_sp (core m1)) =
       (registers full m)\<lparr>ctx_x := (ctx_x (registers full m))[17 := bridge], ctx_lr := T + 24\<rparr>"
    "bytes_at (a_mem (core m1)) (a_sp (core m1) + of_nat (context_size full) + 8) 8 = le_bytes 8 (a_reg (core m) 30)"
proof -
  let ?F = "frame_of full m" let ?S = "a_sp (core m)" let ?G = "?F + of_nat (context_size full)"
  let ?r = "a_reg (core m)" let ?f = "a_mem (core m)"
  define f1 where "f1 = write_bytes (?S - 16) (le_bytes 8 cte) (write_bytes (?S - 8) (le_bytes 8 (?r 30)) ?f)"
  define r1 where "r1 = ?r(17 := bridge, 30 := T + 24)"
  define f2 where "f2 = frame_mem full ?F r1 (vreg m) f1"
  have G: "?G = ?S - 16" "?G + 8 = ?S - 8" by (simp_all add: frame_of_def)
  have w: "range_ok_wr wr (?S - 16) 16" "range_ok_wr wr ?F (context_size full)"
    using range_ok_wr_part [OF wr, of "context_size full" 16] range_ok_wr_part [OF wr, of 0 "context_size full"] by (simp_all add: G)
  have 1: "stack_run wr 6 m = Some (st m r1 ?G bridge f1)" "\<And>a bs. code_mem wr f1 a bs = code_mem wr ?f a bs"
    using trampoline_enters [where wr = wr and f = ?f and T = T and cte = cte and bridge = bridge and G = ?S and r = ?r and m = m] code(1) w(1) st_self [of m] pc
    by (simp_all add: text_at_code_mem G f1_def r1_def)
  have "code_mem wr f1 bridge (bridge_bytes full h)" using 1(2) code(2) by (simp add: text_at_code_mem)
  then obtain n where n: "stack_run wr n (st m r1 ?G bridge f1) =
      Some (st m (r1(0 := ?F, 1 := le_word (bytes_at f2 ?G 8), 17 := h, 30 := bridge + return_offset full)) ?F h f2)"
    using bridge_enters [OF _ w(2), where f = f1 and B = bridge and h = h and m = m and r = r1] unfolding f2_def by blast
  have up: "bytes_at f2 (?F + of_nat (context_size full)) 8 = bytes_at f1 (?F + of_nat (context_size full)) 8"
    "bytes_at f2 (?F + of_nat (context_size full + 8)) 8 = bytes_at f1 (?F + of_nat (context_size full + 8)) 8"
    unfolding f2_def by (rule frame_apart; simp add: context_size_def)+
  have f1: "bytes_at f1 ?G 8 = le_bytes 8 cte" "bytes_at f1 (?G + 8) 8 = le_bytes 8 (?r 30)"
  proof -
    show "bytes_at f1 ?G 8 = le_bytes 8 cte" unfolding f1_def G by (rule bytes_at_write) simp_all
    have "bytes_at f1 (?S - 16 + of_nat 8) 8 = bytes_at (write_bytes (?S - 8) (le_bytes 8 (?r 30)) ?f) (?S - 16 + of_nat 8) 8"
      unfolding f1_def using write8_apart [of 0 8 8 "?S - 16"] by simp
    also have "\<dots> = le_bytes 8 (?r 30)" by (simp add: bytes_at_write)
    finally show "bytes_at f1 (?G + 8) 8 = le_bytes 8 (?r 30)" by (simp add: G)
  qed
  have dummy: "slot f1 ?F 0 = slot ?f ?F 0" "slot f1 ?F 2 = slot ?f ?F 2"
  proof -
    have "bytes_at f1 (?F + of_nat j) 8 = bytes_at ?f (?F + of_nat j) 8" if "j + 8 \<le> context_size full" for j
    proof -
      have at: "?S - 8 = ?F + of_nat (context_size full + 8)" "?S - 16 = ?F + of_nat (context_size full)" by (simp_all add: frame_of_def)
      have "context_size full \<le> 784" by (simp add: context_size_def)
      then have "bytes_at (write_bytes (?F + of_nat (context_size full)) (le_bytes 8 x) g) (?F + of_nat j) 8 = bytes_at g (?F + of_nat j) 8"
        "bytes_at (write_bytes (?F + of_nat (context_size full + 8)) (le_bytes 8 x) g) (?F + of_nat j) 8 = bytes_at g (?F + of_nat j) 8" for x :: u64 and g
        using that by (intro write8_apart; simp)+
      then show ?thesis unfolding f1_def at by (simp only:)
    qed
    from this [of 0] this [of 16] show "slot f1 ?F 0 = slot ?f ?F 0" "slot f1 ?F 2 = slot ?f ?F 2" by (simp_all add: slot_def context_size_def)
  qed
  show thesis
  proof (rule that [of "6 + n"])
    show "stack_run wr (6 + n) m =
        Some (st m (r1(0 := ?F, 1 := le_word (bytes_at f2 ?G 8), 17 := h, 30 := bridge + return_offset full)) ?F h f2)"
      using stack_run_add [OF 1(1)] n by simp
  next
    have "map (\<lambda>i. r1 (of_nat i)) [0..<29] = (map (\<lambda>i. ?r (of_nat i)) [0..<29])[17 := bridge]"
      by (simp add: r1_def upt_rec)
    then show "context_at full (a_mem (core (st m (r1(0 := ?F, 1 := le_word (bytes_at f2 ?G 8), 17 := h, 30 := bridge + return_offset full)) ?F h f2)))
        (a_sp (core (st m (r1(0 := ?F, 1 := le_word (bytes_at f2 ?G 8), 17 := h, 30 := bridge + return_offset full)) ?F h f2))) =
        (registers full m)\<lparr>ctx_x := (ctx_x (registers full m))[17 := bridge], ctx_lr := T + 24\<rparr>"
      by (simp add: f2_def context_frame registers_def dummy G) (simp add: r1_def)
  qed (use up f1 in \<open>simp_all add: le_word_le_bytes add.assoc\<close>)
qed

lemma closure_leaves_handler:
  assumes code: "text_at wr m1 T (trampoline_bytes cte bridge)" "text_at wr m1 bridge (bridge_bytes full h)"
    and m1: "a_reg (core m1) 0 = a_sp (core m1)" "a_reg (core m1) 30 = bridge + return_offset full"
    and ret: "returned full wr g m1 m2" and lr: "ctx_lr (g (a_reg (core m1) 1) c) = T + 24"
    and c: "context_at full (a_mem (core m1)) (a_sp (core m1)) = c"
  defines "c' \<equiv> g (a_reg (core m1) 1) c"
  obtains n m3 where "stack_run wr n m2 = Some m3" "a_pc (core m3) = ctx_x c' ! 17"
    "a_sp (core m3) = a_sp (core m1) + of_nat (context_size full) + 16"
    "ctx_x (registers full m3) = ctx_x c'" "ctx_fp (registers full m3) = ctx_fp c'" "ctx_q (registers full m3) = ctx_q c'"
    "a_reg (core m3) 30 = le_word (bytes_at (a_mem (core m1)) (a_sp (core m1) + of_nat (context_size full) + 8) 8)"
proof -
  let ?F = "a_sp (core m1)" let ?G = "?F + of_nat (context_size full)" let ?f = "a_mem (core m2)"
  have m2: "m2 = st m2 (a_reg (core m2)) ?F (bridge + return_offset full) ?f"
    using ret m1 st_self [of m2] by (simp add: returned_def)
  have cc: "context_at full ?f ?F = c'" using ret c m1(1) by (simp add: returned_def c'_def)
  have code2: "code_mem wr ?f T (trampoline_bytes cte bridge)" "code_mem wr ?f bridge (bridge_bytes full h)"
    using code ret by (auto simp: text_at_code_mem returned_def intro: code_mem_same)
  let ?r = "\<lambda>q. if unat q \<le> 30 then slot ?f ?F (3 + unat q) else a_reg (core m2) q"
  let ?m = "m2\<lparr>vreg := \<lambda>q. if unat q < vectors full then slotq ?f (?F + 272) (unat q) else vreg m2 q\<rparr>"
  have "ctx_lr (context_at full ?f ?F) = T + 24" unfolding cc using lr by (simp add: c'_def)
  then have lr': "slot ?f ?F 33 = T + 24" by (simp add: context_at_def)
  obtain n where "stack_run wr n m2 = Some (st ?m ?r ?G (T + 24) ?f)"
    using bridge_leaves [OF code2(2), of m2 "a_reg (core m2)" ?F] m2 lr' by metis
  then have run: "stack_run wr (n + 3) m2 = Some (st ?m (?r(30 := le_word (bytes_at ?f (?G + 8) 8))) (?G + 16) (?r 17) ?f)"
    using stack_run_add [of wr n m2 _ 3] trampoline_leaves [OF code2(1)] by simp
  have x17: "slot ?f ?F 20 = ctx_x c' ! 17" using cc by (auto simp: context_at_def)
  have num: "unat (of_nat i :: u32) = i" if "i < 32" for i using that by (simp add: unat_of_nat)
  have "bytes_at ?f ?G 16 = bytes_at (a_mem (core m1)) ?G 16" using ret by (simp add: returned_def)
  then have x30: "bytes_at ?f (?G + 8) 8 = bytes_at (a_mem (core m1)) (?G + 8) 8"
    using bytes_at_add [of ?f ?G 8 8] bytes_at_add [of "a_mem (core m1)" ?G 8 8] by simp
  have xs: "map (\<lambda>i. (?r(30 := v)) (of_nat i)) [0..<29] = map (\<lambda>i. slot ?f ?F (3 + i)) [0..<29]" for v
  proof (rule map_cong)
    fix i assume "i \<in> set [0..<29]"
    then have "(of_nat i :: u32) \<noteq> 30" "unat (of_nat i :: u32) = i" using num [of i] by auto
    then show "(?r(30 := v)) (of_nat i) = slot ?f ?F (3 + i)" using \<open>i \<in> _\<close> by simp
  qed simp
  have qs: "map (\<lambda>i. vreg ?m (of_nat i)) [0..<vectors full] = map (slotq ?f (?F + 272)) [0..<vectors full]"
    by (rule map_cong) (auto simp: num vectors_def split: if_splits)
  show thesis
    by (rule that [OF run]) (use cc x17 xs qs x30 in \<open>auto simp: registers_def context_at_def\<close>)
qed

section \<open>An instrumented call\<close>

text \<open>
  A call that arrives at a closure trampoline of the instrumentation reaches the common bridge handler with the registers in a context;
  when the handler has returned, the execution goes on at the relocated instructions with the registers of the context.
\<close>

lemma closure_call:
  assumes code: "text_at wr m T (trampoline_bytes cte bridge)" "text_at wr m bridge (bridge_bytes full common)"
    and pc: "a_pc (core m) = T" and wr: "range_ok_wr wr (frame_of full m) (context_size full + 16)"
    and fwd: "routings (carry_handler (ctes cte)) = instrument_routing_dispatch entries callbacks"
    and lr: "\<And>c i. ctx_lr (callbacks (routing_argument (route (entries (carry_data (ctes cte))))) c i) = ctx_lr c"
  defines "entry \<equiv> entries (carry_data (ctes cte))"
    and "c \<equiv> (registers full m)\<lparr>ctx_x := (ctx_x (registers full m))[17 := bridge], ctx_lr := T + 24\<rparr>"
  shows "\<exists>n m1. stack_run wr n m = Some m1 \<and> a_pc (core m1) = common \<and> a_sp (core m1) = frame_of full m \<and>
    a_reg (core m1) 0 = a_sp (core m1) \<and> a_reg (core m1) 1 = cte \<and> context_at full (a_mem (core m1)) (a_sp (core m1)) = c \<and>
    (\<forall>m2. returned full wr (\<lambda>cte. intercept_routing_common_bridge_handler routings (ctes cte)) m1 m2 \<longrightarrow>
      (\<exists>k m3. stack_run wr k m2 = Some m3 \<and> a_pc (core m3) = relocated_origin_function entry \<and> a_sp (core m3) = a_sp (core m) \<and>
         a_reg (core m3) 30 = a_reg (core m) 30 \<and>
         ctx_x (registers full m3) = ctx_x (instrument_call_forward_handler callbacks entry c) \<and>
         ctx_fp (registers full m3) = ctx_fp (instrument_call_forward_handler callbacks entry c) \<and>
         ctx_q (registers full m3) = ctx_q (instrument_call_forward_handler callbacks entry c)))"
proof -
  let ?g = "\<lambda>cte. intercept_routing_common_bridge_handler routings (ctes cte)"
  obtain n m1 where m1: "stack_run wr n m = Some m1" "a_pc (core m1) = common" "a_reg (core m1) 0 = a_sp (core m1)" "a_reg (core m1) 1 = cte"
      "a_sp (core m1) = frame_of full m" "a_reg (core m1) 30 = bridge + return_offset full"
      "context_at full (a_mem (core m1)) (a_sp (core m1)) = c"
      "bytes_at (a_mem (core m1)) (a_sp (core m1) + of_nat (context_size full) + 8) 8 = le_bytes 8 (a_reg (core m) 30)"
    using closure_reaches_handler [OF code pc wr] unfolding c_def by blast
  have g: "?g cte c = instrument_call_forward_handler callbacks entry c"
    by (simp add: intercept_routing_common_bridge_handler_def fwd instrument_routing_dispatch_def entry_def Let_def)
  have lr': "ctx_lr (?g (a_reg (core m1) 1) c) = T + 24"
  proof -
    have "ctx_lr c = T + 24" by (simp add: c_def)
    then show ?thesis unfolding m1(4) g using lr
      by (simp add: instrument_call_forward_handler_def set_routing_bridge_next_hop_def entry_def Let_def)
  qed
  have "\<exists>k m3. stack_run wr k m2 = Some m3 \<and> a_pc (core m3) = relocated_origin_function entry \<and> a_sp (core m3) = a_sp (core m) \<and>
      a_reg (core m3) 30 = a_reg (core m) 30 \<and> ctx_x (registers full m3) = ctx_x (?g cte c) \<and>
      ctx_fp (registers full m3) = ctx_fp (?g cte c) \<and> ctx_q (registers full m3) = ctx_q (?g cte c)"
    if ret: "returned full wr ?g m1 m2" for m2
  proof -
    obtain k m3 where m3: "stack_run wr k m2 = Some m3" "a_pc (core m3) = ctx_x (?g cte c) ! 17"
        "a_sp (core m3) = a_sp (core m1) + of_nat (context_size full) + 16" "ctx_x (registers full m3) = ctx_x (?g cte c)"
        "ctx_fp (registers full m3) = ctx_fp (?g cte c)" "ctx_q (registers full m3) = ctx_q (?g cte c)"
        "a_reg (core m3) 30 = le_word (bytes_at (a_mem (core m1)) (a_sp (core m1) + of_nat (context_size full) + 8) 8)"
      using closure_leaves_handler [OF stack_run_text [OF m1(1) code(1)] stack_run_text [OF m1(1) code(2)] m1(3,6) ret lr' m1(7)]
      unfolding m1(4) by blast
    have "length (ctx_x (?g cte c)) = 29" unfolding m3(4) [symmetric] by (simp add: registers_def)
    then have "ctx_x (?g cte c) ! 17 = relocated_origin_function entry"
      unfolding g by (simp add: instrument_call_forward_handler_def set_routing_bridge_next_hop_def TMP_REG_0_def X_def Let_def)
    moreover have "a_reg (core m3) 30 = a_reg (core m) 30" using m3(7) unfolding m1(8) by (simp add: le_word_le_bytes)
    moreover have "a_sp (core m3) = a_sp (core m)" by (simp add: m3(3) m1(5) frame_of_def)
    ultimately show ?thesis using m3(1,2,4-6) by (intro exI [of _ k] exI [of _ m3]) simp
  qed
  then show ?thesis unfolding g using m1 by blast
qed

text \<open>A handler that sets the next hop and returns.\<close>

definition sets_next_hop :: "addr \<Rightarrow> machine \<Rightarrow> machine" where
  "sets_next_hop a m = st m (a_reg (core m)) (a_sp (core m)) (a_reg (core m) 30)
     (write_bytes (a_reg (core m) 0 + 160) (le_bytes 8 a) (a_mem (core m)))"

lemma sets_next_hop_returned:
  assumes "range_ok_wr wr (a_sp (core m)) (context_size full + 16)" and "a_reg (core m) 0 = a_sp (core m)"
    and g: "g (a_reg (core m) 1) (context_at full (a_mem (core m)) (a_sp (core m))) =
      set_routing_bridge_next_hop a (context_at full (a_mem (core m)) (a_sp (core m)))"
  shows "returned full wr g m (sets_next_hop a m)"
proof -
  let ?F = "a_sp (core m)" let ?f = "a_mem (core m)" let ?f' = "write_bytes (?F + 160) (le_bytes 8 a) ?f"
  have apart: "bytes_at ?f' (?F + of_nat j) n = bytes_at ?f (?F + of_nat j) n" if "168 \<le> j \<or> j + n \<le> 160" "j + n \<le> 2000" for j n
    using write8_apart [of 160 j n ?F a ?f] that by simp
  have slots: "slot ?f' ?F i = (if i = 20 then a else slot ?f ?F i)" if "i < 34" for i
  proof (cases "i = 20")
    case False
    then have "168 \<le> 8 * i \<or> 8 * i + 8 \<le> 160" by arith
    then show ?thesis using apart [of "8 * i" 8] that False by (simp add: slot_def)
  qed (use that in \<open>simp add: slot_def bytes_at_write le_word_le_bytes\<close>)
  have q: "slotq ?f' (?F + 272) i = slotq ?f (?F + 272) i" if "i < vectors full" for i
  proof -
    have "?F + 272 + of_nat (16 * i) = ?F + of_nat (272 + 16 * i)" by simp
    then show ?thesis using apart [of "272 + 16 * i" 16] that by (simp only: slotq_def) (simp add: vectors_def split: if_splits)
  qed
  have "context_at full ?f' ?F = set_routing_bridge_next_hop a (context_at full ?f ?F)"
    using q by (simp add: context_at_def slots set_routing_bridge_next_hop_def TMP_REG_0_def X_def)
       (simp add: upt_rec slots)
  moreover have "bytes_at ?f' (?F + of_nat (context_size full)) 16 = bytes_at ?f (?F + of_nat (context_size full)) 16"
    by (rule apart) (simp_all add: context_size_def)
  moreover have "?f' x = ?f x" if "\<not> wr x" for x
  proof (rule write_bytes_unwritable [of wr, OF _ that])
    have "range_ok_wr wr (?F + 160) 8" using range_ok_wr_part [OF assms(1), of 160 8] by (simp add: context_size_def)
    then show "list_all (\<lambda>i. wr (?F + 160 + of_nat i)) [0..<length (le_bytes 8 a)]" by (simp add: range_ok_wr_def list_all_iff)
  qed
  ultimately show ?thesis using assms(2) g by (simp add: returned_def sets_next_hop_def)
qed

end
