(* ===== verification/Arm64Labels.thy ===== *)
theory Arm64Labels
  imports Arm64Simulation
begin

text \<open>
  Branches to labels, and the limits of label binding and of relocation. A label that is bound
  after one branch to it is resolved correctly; a second pending branch breaks the chain that
  the label keeps inside the instructions. The last section shows what the relocator does with the
  instructions outside \<open>supported\<close>.
\<close>

section \<open>Binding a label\<close>

lemma render_words: "render (map Wd ws) [] = words ws"
  by (induction ws) auto

lemma bit_of_nat: "n < LENGTH('a) \<Longrightarrow> bit (of_nat k :: 'a :: len word) n \<longleftrightarrow> bit k n"
  using bit_word_of_int_iff [where 'a = 'a, of "int k" n] by (simp add: bit_of_nat_iff_bit)

lemma rewritten_branch:
  "(b_word 0 AND 0xfc000000) OR LeftShift (bits (signed_drop_bit 2 (word_of_int (int d) :: u32)) 0 25) 26 0 =
     b_word (of_nat d)"
proof -
  have "b_word 0 AND 0xfc000000 = B_op" by (simp add: b_word_def op_values bits_def submask_def)
  moreover have "LeftShift (bits (signed_drop_bit 2 (of_nat d :: u32)) 0 25) 26 0 =
      LeftShift (ucast (signed_drop_bit 2 (of_nat d :: u64))) 26 0"
    by (rule bit_word_eqI) (auto simp: field_bit_simps bit_simps bit_of_nat)
  ultimately show ?thesis by (simp add: b_word_fields)
qed

lemma sint_of_nat_small: "n < 2 ^ 63 \<Longrightarrow> sint (of_nat n :: u64) = int n"
  using sint_small [of "int n"] by simp

lemma arm_decode_b_nat: "n < 2 ^ 25 \<Longrightarrow> arm_decode (b_word (of_nat (4 * n))) = A_B (of_nat (4 * n))"
proof -
  assume n: "n < 2 ^ 25"
  then have s: "sint (of_nat (4 * n) :: u64) = int (4 * n)" by (intro sint_of_nat_small) simp
  have "fits_signed (26 + 2) (of_nat (4 * n))" unfolding fits_signed_def s using n by simp
  moreover have "take_bit 2 (push_bit 2 (of_nat n) :: u64) = 0" by (rule bit_word_eqI) (simp add: bit_simps)
  then have "take_bit 2 (of_nat (4 * n) :: u64) = 0" by (simp add: push_bit_eq_mult mult.commute)
  ultimately show ?thesis using sext_branch [of 26 "of_nat (4 * n)"] by (simp add: arm_decode_b)
qed

lemma bind_loop_one:
  assumes "asm_buffer a = A @ le_bytes 4 (b_word 0) @ B" and "label_pos l = int (length A) + 1"
  shows "bind_loop (int (length A) + int d) l (asm_buffer a) =
     Inr (link_to (- 1) l, A @ le_bytes 4 (b_word (of_nat d)) @ B)"
proof -
  have l: "is_linked l" "pos l = int (length A)" using assms(2) by (simp_all add: is_linked_def pos_def)
  have w: "b_word 0 AND UnconditionalBranchMask = UnconditionalBranchFixed" "bits (b_word 0) 0 25 = 0"
    by (simp_all add: b_word_def op_values bits_def submask_def literal_defs UnconditionalBranchMask_def)
  have "bind_fix (int (length A) + int d) (int (length A)) (b_word 0) (asm_buffer a) =
      Inr (A @ le_bytes 4 (b_word (of_nat d)) @ B)"
    using rewritten_branch [of d] by (simp add: bind_fix_def w assms(1))
  moreover have "bind_next (int (length A)) (b_word 0) = int (length A)" by (simp add: bind_next_def w)
  moreover have "bind_loop p (link_to (- 1) l) bs = Inr (link_to (- 1) l, bs)" for p bs
    by (subst bind_loop.simps) (simp add: is_linked_def link_to_def)
  moreover have "buf_LoadInst (int (length A)) (asm_buffer a) = Inr (b_word 0)" by (simp add: assms(1))
  ultimately show ?thesis
    by (subst bind_loop.simps) (simp add: l kStartOfLabelLinkChain_def Let_def)
qed

text \<open>
  C34: a branch to a label that is not bound yet, then any instructions, then the binding of the
  label: the branch in the final code goes to the place where the label was bound, and
  nothing else in the buffer has changed.
\<close>

theorem forward_branch_bound:
  assumes "length ws + 1 < 2 ^ 25"
  shows "case b_label new_Label a of (l, a1) \<Rightarrow>
      case bind_label l (fold Emit ws a1) of
        Inl _ \<Rightarrow> False
      | Inr (l', a2) \<Rightarrow>
          is_bound l' \<and> pos l' = pc_offset a + int (4 * (length ws + 1)) \<and>
          asm_buffer a2 = asm_buffer a @ le_bytes 4 (b_word (of_nat (4 * (length ws + 1)))) @ words ws \<and>
          arm_decode (b_word (of_nat (4 * (length ws + 1)))) = A_B (of_nat (4 * (length ws + 1)))"
proof -
  let ?a1 = "fold Emit ws (Emit (b_word 0) a)" and ?l = "link_to (pc_offset a) new_Label"
  have b: "b_label new_Label a = (?l, Emit (b_word 0) a)"
    by (simp add: b_label_def LinkAndGetByteOffsetTo_def is_bound_def is_linked_def new_Label_def b_imm_def
        kStartOfLabelLinkChain_def)
  have buf: "asm_buffer ?a1 = asm_buffer a @ le_bytes 4 (b_word 0) @ words ws" by (simp add: render_words)
  let ?out = "asm_buffer a @ le_bytes 4 (b_word (of_nat (4 * (length ws + 1)))) @ words ws"
  have pc: "pc_offset ?a1 = int (length (asm_buffer a)) + int (4 * (length ws + 1))" by (simp add: pc_offset_def buf)
  have "bind_loop (pc_offset ?a1) ?l (asm_buffer ?a1) = Inr (link_to (- 1) ?l, ?out)"
    unfolding pc by (rule bind_loop_one [OF buf]) (simp add: link_to_def pc_offset_def)
  then have "bind_label ?l ?a1 = Inr (bind_to (pc_offset ?a1) (link_to (- 1) ?l), ?a1\<lparr>asm_buffer := ?out\<rparr>)"
    by (simp add: bind_label_def)
  moreover have "is_bound (bind_to (pc_offset ?a1) l)" "pos (bind_to (pc_offset ?a1) l) = pc_offset a + int (4 * (length ws + 1))"
    for l :: Label unfolding pc by (simp_all add: bind_to_def is_bound_def pos_def pc_offset_def)
  ultimately show ?thesis
    using arm_decode_b_nat [OF assms] unfolding b prod.case by (simp del: of_nat_mult of_nat_add)
qed

theorem forward_branch_bound_witness:
  "case b_label new_Label (new_Assembler 0) of (l, a1) \<Rightarrow>
     case bind_label l (fold Emit [0xD503201F] a1) of
       Inl _ \<Rightarrow> False | Inr (l', a2) \<Rightarrow> is_bound l' \<and> asm_buffer a2 = words [0x14000002, 0xD503201F]"
proof -
  have "b_word 8 = 0x14000002" by (simp add: b_word_def op_values bits_def submask_def)
  then show ?thesis
    using forward_branch_bound [of "[0xD503201F]" "new_Assembler 0"]
    by (simp add: new_Assembler_def split: sum.splits prod.splits)
qed

text \<open>
  Two branches to the same label before it is bound: the distance that links the second to the
  first is read without its sign, so binding fixes only the second branch, and the first stays a branch
  to itself.
\<close>

lemma second_forward_branch_lost:
  "let (l, a1) = b_label new_Label (new_Assembler 0); (l, a2) = b_label l a1
   in map_sum id (\<lambda>(l, a). (pos l, asm_buffer a)) (bind_label l a2) = Inr (8, words [0x14000000, 0x14000001]) \<and>
      arm_decode 0x14000000 = A_B 0 \<and> arm_decode 0x14000001 = A_B 4"
  by code_simp

section \<open>Unsupported instructions\<close>

text \<open>
  The relocator does not look at the register class of a literal load: \<^verbatim>\<open>ldr w0, #8\<close>, \<^verbatim>\<open>ldr d0, #8\<close> and
  \<^verbatim>\<open>ldr x0, #8\<close> all become a 64-bit load of \<^verbatim>\<open>x0\<close>.
\<close>

lemma literal_load_width_lost:
  "relocate_instr 0x18000040 pc a = relocate_instr 0x58000040 pc a \<and>
   relocate_instr 0x5C000040 pc a = relocate_instr 0x58000040 pc a \<and>
   arm_decode 0x18000040 = A_LDRW_lit 0 8 \<and> arm_decode 0x58000040 = A_LDR_lit 0 8 \<and>
   0x5C000040 = LDR_d_literal OR LeftShift 2 19 5"
proof -
  have c: "(0x18000040 :: u32) AND LoadRegLiteralFixedMask = LoadRegLiteralFixed"
      "(0x58000040 :: u32) AND LoadRegLiteralFixedMask = LoadRegLiteralFixed"
      "(0x5C000040 :: u32) AND LoadRegLiteralFixedMask = LoadRegLiteralFixed"
    by (simp_all add: literal_defs)
  have f: "decode_rt 0x18000040 = 0" "decode_rt 0x58000040 = 0" "decode_rt 0x5C000040 = 0"
      "bits (0x18000040 :: u32) 30 31 = 0" "bits (0x58000040 :: u32) 30 31 = 1" "bits (0x5C000040 :: u32) 30 31 = 1"
    by (simp_all add: decode_rt_def bits_def submask_def)
  have o: "decode_imm19_offset 0x18000040 = 8" "decode_imm19_offset 0x58000040 = 8" "decode_imm19_offset 0x5C000040 = 8"
    by (simp_all add: decode_imm19_offset_def bits_def submask_def SignExtend_def)
  have "relocate_instr 0x18000040 pc a = relocate_instr 0x58000040 pc a"
      "relocate_instr 0x5C000040 pc a = relocate_instr 0x58000040 pc a"
    by (simp_all add: relocate_instr_def c f o ldr_from_tmp_word Let_def)
  moreover have "arm_decode 0x18000040 = A_LDRW_lit 0 8 \<and> arm_decode 0x58000040 = A_LDR_lit 0 8 \<and>
      0x5C000040 = LDR_d_literal OR LeftShift 2 19 5" by code_simp
  ultimately show ?thesis by blast
qed

text \<open>
  \<^verbatim>\<open>b.al\<close> always branches, but so does the condition that the relocator inverts it to: the
  relocated code steps over the branch and falls through.
\<close>

lemma always_branch_falls_through:
  "arm_decode 0x5400004E = A_Bcond 14 8 \<and> arm_decode (invert_conditional_branch 0x5400004E) = A_Bcond 15 12 \<and>
   cond_holds 14 s \<and> cond_holds 15 s"
proof -
  have "arm_decode 0x5400004E = A_Bcond 14 8 \<and> arm_decode (invert_conditional_branch 0x5400004E) = A_Bcond 15 12"
    by code_simp
  then show ?thesis by (simp add: cond_holds_def)
qed


end
