(* ===== verification/InlineHook.thy ===== *)
theory InlineHook
  imports NearTrampoline Arm64Labels
begin

text \<open>
  Installing and removing an inline hook on ARM64: \<^verbatim>\<open>InterceptRouting\<close>, \<^verbatim>\<open>FunctionInlineReplaceRouting\<close>,
  \<^verbatim>\<open>DobbyHook\<close> and \<^verbatim>\<open>DobbyDestroy\<close> on the process of \<open>ProcessMemory\<close>. The near branch plugin is an
  argument: \<open>None\<close> where it is not enabled, otherwise its trampoline generator. Results are
  optional because the registry and the memory layout are searched by loops (\<open>None\<close> is a search that does not end).
\<close>

section \<open>Results\<close>

definition RS_FAILED :: int where "RS_FAILED = - 1"
definition RS_SUCCESS :: int where "RS_SUCCESS = 0"
definition RT_FAILED :: int where "RT_FAILED = - 1"
definition RT_SUCCESS :: int where "RT_SUCCESS = 0"

section \<open>Relocation into executable memory\<close>

text \<open>\<open>n\<close> bytes at \<open>buffer\<close> are relocated; the word behind them is read too. A failed allocation is not tested for.\<close>

definition GenRelocateCodeAndBranch ::
  "int \<Rightarrow> addr \<Rightarrow> addr \<Rightarrow> MemoryChunk \<Rightarrow> process \<Rightarrow> asm_fault + (MemoryChunk \<times> process)" where
  "GenRelocateCodeAndBranch page_size mapped buffer_addr org P =
     (let n = unat (chunk_length org) in
      bindE (GenRelocateCode (readable_bytes page_size buffer_addr (n + 4) P) (chunk_address org) n) (\<lambda>a.
      bindE (FinalizeFromTurboAssembler page_size mapped a P) (\<lambda>(code, a, P).
        case code of None \<Rightarrow> Inl Null_pointer
        | Some c \<Rightarrow> Inr (init_region_range (chunk_address c) (chunk_length c), P))))"

section \<open>Routing\<close>

type_synonym near_plugin = "addr \<Rightarrow> addr \<Rightarrow> process \<Rightarrow> (asm_fault + (u8 list option \<times> process)) option"

definition NearBranchTrampolinePlugin :: "(nat \<Rightarrow> nat \<Rightarrow> system_view) \<Rightarrow> int \<Rightarrow> addr \<Rightarrow> near_plugin" where
  "NearBranchTrampolinePlugin views page_size mapped src dst P = GenerateNearTrampolineBuffer views page_size mapped src dst P"

definition new_chunk :: MemoryChunk where
  "new_chunk = \<lparr>chunk_address = 0, chunk_length = 0\<rparr>"

definition new_InterceptRouting :: "addr \<Rightarrow> InterceptRouting" where
  "new_InterceptRouting argument =
     \<lparr>origin = new_chunk, relocated = new_chunk, trampoline_buffer = None, trampoline_target = 0, routing_argument = argument\<rparr>"

definition new_HookEntry :: "int \<Rightarrow> addr \<Rightarrow> HookEntry" where
  "new_HookEntry i address =
     \<lparr>entry_id = i, entry_type = kFunctionInlineHook, function_address = address, route = new_InterceptRouting 0,
      relocated_origin_function = 0, origin_chunk = new_chunk, chunk_buffer = replicate 64 0\<rparr>"

text \<open>The copy of the original bytes goes to an array of 64 bytes; a longer one writes behind it.\<close>

definition save_prologue :: "u8 list \<Rightarrow> MemoryChunk \<Rightarrow> HookEntry \<Rightarrow> asm_fault + HookEntry" where
  "save_prologue bs org e =
     bindE (store_at 0 bs (chunk_buffer e)) (\<lambda>cb. Inr (e\<lparr>chunk_buffer := cb, origin_chunk := org\<rparr>))"

definition GenerateRelocatedCode ::
  "int \<Rightarrow> addr \<Rightarrow> nat \<Rightarrow> HookEntry \<Rightarrow> InterceptRouting \<Rightarrow> process \<Rightarrow>
     asm_fault + (bool \<times> HookEntry \<times> InterceptRouting \<times> process)" where
  "GenerateRelocatedCode page_size mapped tramp_size e r P =
     (let org = FinalizeFromAddress (function_address e) (of_nat tramp_size);
          r = r\<lparr>origin := org, relocated := FinalizeFromAddress 0 0\<rparr>
      in bindE (GenRelocateCodeAndBranch page_size mapped (function_address e) org P) (\<lambda>(rel, P).
           let r = r\<lparr>relocated := rel\<rparr> in
           if chunk_address rel = 0 then Inr (False, e, r, P)
           else let e = e\<lparr>relocated_origin_function := chunk_address rel\<rparr> in
             bindE (let bs = readable_bytes page_size (chunk_address org) tramp_size P
                    in if length bs = tramp_size then Inr bs else Inl Wild_access) (\<lambda>bs.
             bindE (save_prologue bs org e) (\<lambda>e.
               Inr (True, e, r, P)))))"

definition GenerateTrampolineBuffer ::
  "near_plugin option \<Rightarrow> addr \<Rightarrow> addr \<Rightarrow> InterceptRouting \<Rightarrow> process \<Rightarrow> (asm_fault + (InterceptRouting \<times> process)) option" where
  "GenerateTrampolineBuffer near src dst r P =
     bindR (case near of None \<Rightarrow> Some (Inr (r, P))
            | Some plugin \<Rightarrow> bindR (plugin src dst P) (\<lambda>(b, P).
                Some (Inr (case b of None \<Rightarrow> r | Some bs \<Rightarrow> r\<lparr>trampoline_buffer := Some bs\<rparr>, P)))) (\<lambda>(r, P).
     case trampoline_buffer r of
       Some _ \<Rightarrow> Some (Inr (r, P))
     | None \<Rightarrow> Some (bindE (GenerateNormalTrampolineBuffer src dst) (\<lambda>bs. Inr (r\<lparr>trampoline_buffer := Some bs\<rparr>, P))))"

definition BuildReplaceRouting ::
  "near_plugin option \<Rightarrow> HookEntry \<Rightarrow> InterceptRouting \<Rightarrow> process \<Rightarrow> (asm_fault + (InterceptRouting \<times> process)) option" where
  "BuildReplaceRouting near e r P =
     (let r = r\<lparr>trampoline_target := routing_argument r\<rparr>
      in GenerateTrampolineBuffer near (function_address e) (trampoline_target r) r P)"

text \<open>The result of \<^verbatim>\<open>GenerateRelocatedCode\<close> is not looked at.\<close>

definition DispatchRouting ::
  "near_plugin option \<Rightarrow> int \<Rightarrow> addr \<Rightarrow> HookEntry \<Rightarrow> InterceptRouting \<Rightarrow> process \<Rightarrow>
     (asm_fault + (HookEntry \<times> InterceptRouting \<times> process)) option" where
  "DispatchRouting near page_size mapped e r P =
     bindR (BuildReplaceRouting near e r P) (\<lambda>(r, P).
     case trampoline_buffer r of
       None \<Rightarrow> Some (Inl Null_pointer)
     | Some bs \<Rightarrow>
         Some (bindE (GenerateRelocatedCode page_size mapped (length bs) e r P) (\<lambda>(_, e, r, P). Inr (e, r, P))))"

definition Active :: "int \<Rightarrow> InterceptRouting \<Rightarrow> process \<Rightarrow> asm_fault + process" where
  "Active page_size r P =
     (case trampoline_buffer r of None \<Rightarrow> Inl Null_pointer | Some bs \<Rightarrow> CodePatch page_size (chunk_address (origin r)) bs P)"

definition Commit :: "int \<Rightarrow> InterceptRouting \<Rightarrow> process \<Rightarrow> asm_fault + process" where
  "Commit page_size r P = Active page_size r P"

section \<open>DobbyHook and DobbyDestroy\<close>

text \<open>
  \<open>mapped\<close> is the page that the system maps if the arena needs one, \<open>head\<close> and \<open>node\<close> the addresses that \<^verbatim>\<open>new\<close>
  returns for the interceptor and for the list node. The result carries \<^verbatim>\<open>*origin_call\<close> where it is written.
\<close>

definition already_hooked :: "HookEntry option \<Rightarrow> addr \<Rightarrow> bool" where
  "already_hooked found replace_call = (case found of None \<Rightarrow> False | Some e \<Rightarrow> trampoline_target (route e) = replace_call)"

definition DobbyHook ::
  "near_plugin option \<Rightarrow> int \<Rightarrow> addr \<Rightarrow> addr \<Rightarrow> addr \<Rightarrow> addr \<Rightarrow> addr \<Rightarrow> process \<Rightarrow>
     (asm_fault + (int \<times> addr option \<times> process)) option" where
  "DobbyHook near page_size mapped head node address replace_call P =
     (if address = 0 then Some (Inr (RS_FAILED, None, P))
      else
        bindR (Some (SharedInstance head (interceptor P))) (\<lambda>I.
        bindR (FindHookEntry address I) (\<lambda>found.
        if already_hooked found replace_call then Some (Inr (RS_FAILED, None, P\<lparr>interceptor := Some I\<rparr>))
        else
          bindR (GetHookEntryCount I) (\<lambda>count.
          bindR (DispatchRouting near page_size mapped (new_HookEntry count address) (new_InterceptRouting replace_call) P) (\<lambda>(e, r, P).
          bindR (Some (AddHookEntry node (e\<lparr>route := r\<rparr>) I)) (\<lambda>I.
          bindR (Some (Commit page_size r (P\<lparr>interceptor := Some I\<rparr>))) (\<lambda>P.
            Some (Inr (RS_SUCCESS, Some (relocated_origin_function e), P)))))))))"

definition DobbyDestroy :: "int \<Rightarrow> addr \<Rightarrow> addr \<Rightarrow> process \<Rightarrow> (asm_fault + (int \<times> process)) option" where
  "DobbyDestroy page_size head address P =
     bindR (Some (SharedInstance head (interceptor P))) (\<lambda>I.
     bindR (FindHookEntry address I) (\<lambda>found.
     case found of
       None \<Rightarrow> Some (Inr (RT_FAILED, P\<lparr>interceptor := Some I\<rparr>))
     | Some e \<Rightarrow>
         bindR (Some (load_at 0 (unat (ucast (chunk_length (origin_chunk e)) :: u32)) (chunk_buffer e))) (\<lambda>bs.
         bindR (Some (CodePatch page_size address bs (P\<lparr>interceptor := Some I\<rparr>))) (\<lambda>P.
         bindR (RemoveHookEntry address I) (\<lambda>I.
           Some (Inr (RT_SUCCESS, P\<lparr>interceptor := Some I\<rparr>)))))))"

end
