(* ===== verification/CodePlacing.thy ===== *)
theory CodePlacing
  imports InlineHook
begin

text \<open>
  Placing assembled code in the arena: the buffer stands at a new chunk, memory outside of the arena stays, and so does the code that was
  placed before.
\<close>

section \<open>Placing code in the arena\<close>

text \<open>Every page of the arena is one page of the machine and is mapped.\<close>

definition machine_page :: "nat \<Rightarrow> (addr \<rightharpoonup> MemoryPermission) \<Rightarrow> MemoryChunk \<Rightarrow> bool" where
  "machine_page k prot d \<longleftrightarrow> chunk_address d \<noteq> 0 \<and> unat (chunk_address d) mod 2 ^ k = 0 \<and> chunk_length d = 2 ^ k \<and>
     prot (chunk_address d) \<noteq> None"

definition arena_mapped :: "nat \<Rightarrow> process \<Rightarrow> bool" where
  "arena_mapped k P \<longleftrightarrow> pages_ok (arena_pages (code_arena P)) \<and>
     list_all (machine_page k (protection P)) (map page (arena_pages (code_arena P)))"

definition covers :: "MemoryChunk \<Rightarrow> addr \<Rightarrow> bool" where
  "covers d x \<longleftrightarrow> unat (chunk_address d) \<le> unat x \<and> unat x < chunk_end d"

definition arena_covers :: "process \<Rightarrow> addr \<Rightarrow> bool" where
  "arena_covers P x \<longleftrightarrow> list_ex (\<lambda>d. covers d x) (map page (arena_pages (code_arena P)))"

text \<open>What the system promises for a page that it maps: aligned, new, in the lower half of the address space.\<close>

definition mapping_ok :: "nat \<Rightarrow> addr \<Rightarrow> process \<Rightarrow> bool" where
  "mapping_ok k mapped P \<longleftrightarrow> mapped \<noteq> 0 \<and> unat mapped mod 2 ^ k = 0 \<and> mapped_ok (2 ^ k) mapped (arena_pages (code_arena P))"

text \<open>
  Addresses that no allocation touches, and what allocating may do to a process: only the arena and the page that
  is mapped change, and what could be read still can.
\<close>

definition clear :: "nat \<Rightarrow> addr \<Rightarrow> process \<Rightarrow> addr \<Rightarrow> bool" where
  "clear k mapped P x \<longleftrightarrow> \<not> arena_covers P x \<and> \<not> covers \<lparr>chunk_address = mapped, chunk_length = 2 ^ k\<rparr> x"

definition outside_kept :: "nat \<Rightarrow> addr \<Rightarrow> process \<Rightarrow> process \<Rightarrow> bool" where
  "outside_kept k mapped P P' \<longleftrightarrow> interceptor P' = interceptor P \<and>
     (\<forall>x. clear k mapped P x \<longrightarrow> memory P' x = memory P x \<and> \<not> arena_covers P' x) \<and>
     (\<forall>x. protection P x \<notin> {None, Some kNoAccess} \<longrightarrow> protection P' x \<notin> {None, Some kNoAccess})"

text \<open>The addresses at a small distance behind \<open>a\<close>.\<close>

lemma offset_range:
  assumes "unat (x - a) < n" and "unat a + n \<le> 2 ^ 64"
  shows "unat a \<le> unat (x :: addr) \<and> unat x < unat a + n"
proof -
  have "unat (x - a + a) = unat (x - a) + unat a" using assms by (intro unat_add_small) simp
  then show ?thesis using assms(1) by simp
qed

lemma inside_arena_page:
  assumes pg: "chunk_address d = b" "chunk_length d = 2 ^ k" "unat b mod 2 ^ k = 0" and k: "k < 31"
    and c: "inside c d" and n: "0 < n" "n \<le> unat (chunk_length c)"
  shows "in_page k (chunk_address c) n" and "page_of (2 ^ k) (chunk_address c) = b"
proof -
  have u: "unat (2 ^ k :: u64) = 2 ^ k" using k by (rule unat_pow2)
  have r: "unat b \<le> unat (chunk_address c)" "chunk_end c \<le> unat b + 2 ^ k"
    using c by (simp_all add: inside_def pg chunk_end_def u)
  define d where "d = unat (chunk_address c) - unat b"
  have d: "unat (chunk_address c) = unat b + d" "d + n \<le> 2 ^ k" using r n by (auto simp: d_def chunk_end_def)
  have "(unat b + d) mod 2 ^ k = (unat b mod 2 ^ k + d) mod 2 ^ k" by (simp add: mod_add_left_eq)
  also have "\<dots> = d" using d(2) n(1) pg(3) by simp
  finally have m: "unat (chunk_address c) mod 2 ^ k = d" unfolding d(1) .
  then show "in_page k (chunk_address c) n" using d(2) by (simp add: in_page_def)
  show "page_of (2 ^ k) (chunk_address c) = b" using m d(1) by (simp add: page_of_pow2 word_unat_eq_iff unat_ALIGN_FLOOR)
qed

text \<open>After an allocation the pages are the old ones with their addresses, or one more at the mapped address.\<close>

lemma AllocateChunk_pages:
  "AllocateChunk page_size mapped n perm ar = (c, ar') \<Longrightarrow>
     map page (arena_pages ar') = map page (arena_pages ar) @
       (if find_page (page_has_room n perm) (arena_pages ar) = None \<and> mapped \<noteq> 0
        then [\<lparr>chunk_address = mapped, chunk_length = word_of_int page_size\<rparr>] else [])"
  using find_page_Some [of "page_has_room n perm" "arena_pages ar"]
  by (auto simp: AllocateChunk_def Let_def cut_chunk_def new_page_def arena_pages_def map_update list_update_same_conv
      split: option.splits if_splits)

lemma map_page_outside:
  assumes "\<not> covers \<lparr>chunk_address = a, chunk_length = 2 ^ k\<rparr> x" and "k < 31" and "unat a + 2 ^ k \<le> 2 ^ 64"
  shows "memory (map_page (2 ^ k) a perm P) x = memory P x"
proof -
  have "2 ^ k \<le> unat (x - a)"
    using offset_range [OF _ assms(3), of x] assms(1,2) by (fastforce simp: covers_def chunk_end_def unat_pow2)
  then show ?thesis by (simp add: map_page_def write_bytes_outside nat_power_eq)
qed

text \<open>One allocation of code memory: the pages stay mapped, and nothing outside the arena changes.\<close>

lemma allocate_code_ok:
  assumes am: "arena_mapped k P" and mp: "mapping_ok k mapped P" and n: "0 < n" "n \<le> 2 ^ k" and k: "k < 31"
  obtains c P' where "allocate_code (2 ^ k) mapped n P = (Some c, P')" "arena_mapped k P'" "chunk_length c = word_of_int n"
    "\<exists>d \<in> set (map page (arena_pages (code_arena P'))). inside c d" "outside_kept k mapped P P'"
proof -
  let ?ar = "code_arena P"
  have inv: "pages_ok (arena_pages ?ar)" using am by (simp add: arena_mapped_def)
  have "(2 :: int) ^ k < 2 ^ 31" using k by (intro power_strict_increasing) simp_all
  then have ok: "arena_request_ok (2 ^ k) (mapped, n, kReadExecute) ?ar"
    using n mp by (simp add: arena_request_ok_def mapping_ok_def)
  obtain res ar' where res: "AllocateChunk (2 ^ k) mapped n kReadExecute ?ar = (res, ar')" by fastforce
  obtain c where c: "res = Some c"
    using res mp by (auto simp: AllocateChunk_def Let_def mapping_ok_def split: option.splits prod.splits)
  have g: "granted n kReadExecute c (arena_pages ?ar) (arena_pages ar')"
    using arena_alloc_granted [OF inv ok] res c by simp
  let ?maps = "find_page (page_has_room n kReadExecute) (arena_pages ?ar) = None \<and> mapped \<noteq> 0"
  let ?new = "\<lparr>chunk_address = mapped, chunk_length = 2 ^ k\<rparr>"
  define P' where "P' = (if ?maps then map_page (2 ^ k) mapped kReadExecute P else P)\<lparr>code_arena := ar'\<rparr>"
  have pages: "map page (arena_pages ar') = map page (arena_pages ?ar) @ (if ?maps then [?new] else [])"
    using AllocateChunk_pages [OF res] by simp
  have end_ok: "unat mapped + 2 ^ k \<le> 2 ^ 64" using mp by (auto simp: mapping_ok_def mapped_ok_def nat_power_eq)
  show thesis
  proof (rule that)
    show "allocate_code (2 ^ k) mapped n P = (Some c, P')"
      using res c by (simp add: allocate_code_def AllocateCodeChunk_def P'_def Let_def)
    have "list_all (machine_page k (protection P')) (map page (arena_pages ar'))"
      unfolding pages using am mp
      by (auto simp: arena_mapped_def mapping_ok_def machine_page_def P'_def map_page_def list_all_iff)
    then show "arena_mapped k P'" using g by (simp add: arena_mapped_def granted_def P'_def)
    show "\<exists>d \<in> set (map page (arena_pages (code_arena P'))). inside c d" "chunk_length c = word_of_int n"
      using g by (auto simp: granted_def P'_def)
    have "memory P' x = memory P x \<and> \<not> arena_covers P' x" if "clear k mapped P x" for x
      using that map_page_outside [OF _ k end_ok, of x kReadExecute P] pages by (auto simp: clear_def arena_covers_def P'_def)
    then show "outside_kept k mapped P P'" by (simp add: outside_kept_def P'_def map_page_def)
  qed
qed

text \<open>\<open>bs\<close> stands in memory at \<open>a\<close>.\<close>

definition holds :: "(addr \<Rightarrow> u8) \<Rightarrow> addr \<Rightarrow> u8 list \<Rightarrow> bool" where
  "holds m a bs \<longleftrightarrow> list_all (\<lambda>i. m (a + of_nat i) = bs ! i) [0..<length bs]"

lemma holds_nth: "holds m a bs \<longleftrightarrow> (\<forall>i < length bs. m (a + of_nat i) = bs ! i)"
  by (auto simp: holds_def list_all_iff)

lemma holds_write: "length bs \<le> 2 ^ 64 \<Longrightarrow> holds (write_bytes a bs m) a bs"
  by (simp add: holds_nth write_bytes_at)

lemma holds_cong: "\<lbrakk>holds m a bs; \<And>i. i < length bs \<Longrightarrow> m' (a + of_nat i) = m (a + of_nat i)\<rbrakk> \<Longrightarrow> holds m' a bs"
  by (simp add: holds_nth)

lemma inside_covers:
  assumes "inside c d" and "unat (x - chunk_address c) < n" and "n \<le> unat (chunk_length c)" and "chunk_end c \<le> 2 ^ 64"
  shows "covers d x"
  using offset_range [OF assms(2)] assms(1,3,4) by (auto simp: inside_def covers_def chunk_end_def)

text \<open>An assembled buffer is placed in the arena: it stands at a new chunk, everything outside the arena stays.\<close>

lemma finalize_ok:
  assumes am: "arena_mapped k P" and mp: "mapping_ok k mapped P" and k: "k < 31"
    and a: "realized_address a = 0" "asm_buffer a \<noteq> []" "length (asm_buffer a) + 4 \<le> 2 ^ k"
  obtains c a' P' where "FinalizeFromTurboAssembler (2 ^ k) mapped a P = Inr (Some c, a', P')" "chunk_address c \<noteq> 0"
    "holds (memory P') (chunk_address c) (asm_buffer a)" "arena_mapped k P'" "outside_kept k mapped P P'"
    "\<forall>i < length (asm_buffer a). arena_covers P' (chunk_address c + of_nat i)"
proof -
  let ?bs = "asm_buffer a" let ?n = "int (length ?bs) + 4"
  have n: "?n \<le> 2 ^ k" using a(3) by (metis of_nat_add of_nat_le_iff of_nat_numeral of_nat_power)
  have pos: "0 < ?n" by simp
  obtain c P1 where al: "allocate_code (2 ^ k) mapped ?n P = (Some c, P1)" and P1: "arena_mapped k P1"
      "chunk_length c = word_of_int ?n" and ex: "\<exists>d \<in> set (map page (arena_pages (code_arena P1))). inside c d"
    and P1': "outside_kept k mapped P P1"
    using allocate_code_ok [OF am mp pos n k] by blast
  obtain d where d: "d \<in> set (map page (arena_pages (code_arena P1)))" "inside c d" using ex by blast
  then have md: "chunk_address d \<noteq> 0" "unat (chunk_address d) mod 2 ^ k = 0" "chunk_length d = 2 ^ k" "protection P1 (chunk_address d) \<noteq> None"
    using P1(1) by (auto simp: arena_mapped_def machine_page_def list_all_iff)
  have d_end: "chunk_end d < 2 ^ 63" using P1(1) d(1) by (auto simp: arena_mapped_def pages_ok_def page_ok_def list_all_iff)
  have "(2 :: int) ^ k < 2 ^ 64" using k by (intro power_strict_increasing) simp_all
  then have lt: "?n < 2 ^ 64" using n by linarith
  then have len: "unat (chunk_length c) = length ?bs + 4" unfolding P1(2)
    by (subst unat_word_of_int) (simp_all add: nat_add_distrib)
  have pg: "in_page k (chunk_address c) (length ?bs)" "page_of (2 ^ k) (chunk_address c) = chunk_address d"
    using inside_arena_page [OF refl md(3,2) k d(2), of "length ?bs"] a(2) len by simp_all
  define P' where "P' = P1\<lparr>memory := write_bytes (chunk_address c) ?bs (memory P1),
      protection := (protection P1)(chunk_address d \<mapsto> kReadExecute)\<rparr>"
  have patch: "CodePatch (2 ^ k) (chunk_address c) ?bs P1 = Inr P'"
    using CodePatch_in_page [OF pg(1)] k md(4) unfolding pg(2) P'_def by simp
  have cov: "arena_covers P' x" if "unat (x - chunk_address c) < length ?bs" for x
  proof -
    have "covers d x"
      by (rule inside_covers [OF d(2) that]) (use len d(2) d_end in \<open>simp_all add: inside_def\<close>)
    then show ?thesis using d(1) by (auto simp: arena_covers_def P'_def list_ex_iff)
  qed
  have big: "length ?bs < 2 ^ 64" using lt by simp
  show thesis
  proof (rule that)
    show "FinalizeFromTurboAssembler (2 ^ k) mapped a P = Inr (Some c, SetRealizedAddress (chunk_address c) a, P')"
      using a(1) al patch by (simp add: FinalizeFromTurboAssembler_def)
    show "chunk_address c \<noteq> 0" using d(2) md(1) by (auto simp: inside_def unat_eq_0)
    show "holds (memory P') (chunk_address c) ?bs" using big by (simp add: P'_def holds_write)
    show "arena_mapped k P'" using P1(1) by (auto simp: arena_mapped_def P'_def machine_page_def list_all_iff)
    have "memory P' x = memory P x \<and> \<not> arena_covers P' x" if "clear k mapped P x" for x
    proof -
      have x: "memory P1 x = memory P x" "\<not> arena_covers P' x"
        using P1' that by (simp_all add: outside_kept_def arena_covers_def P'_def)
      then have "length ?bs \<le> unat (x - chunk_address c)" using cov [of x] not_less by blast
      then show ?thesis using x by (simp add: P'_def write_bytes_outside)
    qed
    then show "outside_kept k mapped P P'" using P1' by (simp add: outside_kept_def P'_def)
    show "\<forall>i < length ?bs. arena_covers P' (chunk_address c + of_nat i)"
      using big by (auto intro!: cov simp: unat_of_nat)
  qed
qed

lemma le_bytes_take: "8 * n \<le> m \<Longrightarrow> le_bytes n (take_bit m w) = le_bytes n (w :: 'a::len word)"
proof (induction n arbitrary: m w)
  case (Suc n)
  have "(ucast (take_bit m w) :: u8) = ucast w" using Suc.prems by (intro bit_word_eqI) (auto simp: bit_simps)
  moreover have "drop_bit 8 (take_bit m w) = take_bit (m - 8) (drop_bit 8 w)"
    using Suc.prems by (intro bit_word_eqI) (auto simp: bit_simps)
  ultimately show ?case using Suc by simp
qed simp

lemma le_bytes_le_word: "8 * length bs \<le> LENGTH('a) \<Longrightarrow> le_bytes (length bs) (le_word bs :: 'a::len word) = bs"
proof (induction bs)
  case (Cons b bs)
  let ?w = "le_word bs :: 'a word"
  have "(ucast (ucast b OR push_bit 8 ?w) :: u8) = b"
    using Cons.prems by (intro bit_word_eqI) (auto simp: bit_simps)
  moreover have "drop_bit 8 (ucast b OR push_bit 8 ?w) = take_bit (LENGTH('a) - 8) ?w"
    by (rule bit_word_eqI) (auto simp: bit_simps dest: bit_imp_le_length)
  ultimately show ?case using Cons by (simp add: le_bytes_take)
qed simp

lemma map_upt_words:
  assumes "holds m a (words ws)"
  shows "\<exists>w. map (\<lambda>i. m (a + of_nat i)) [0..<4 * length ws + 4] = words (ws @ [w])"
proof -
  define f where "f i = m (a + of_nat i)" for i
  define l where "l = map f [4 * length ws..<4 * length ws + 4]"
  have "map f [0..<4 * length ws] = words ws" using assms by (intro nth_equalityI) (auto simp: holds_nth f_def)
  moreover have "l = le_bytes 4 (le_word l :: u32)" using le_bytes_le_word [of l, where 'a = 32] by (simp add: l_def)
  moreover have "[0..<4 * length ws + 4] = [0..<4 * length ws] @ [4 * length ws..<4 * length ws + 4]"
    by (rule upt_add_eq_append) simp
  ultimately have "map f [0..<4 * length ws + 4] = words (ws @ [le_word l])"
    by (simp only: map_append l_def [symmetric] words_append words_simps append_Nil2)
  then show ?thesis unfolding f_def by blast
qed

section \<open>Chunks of the arena stay\<close>

abbreviation "live P \<equiv> pages_live (arena_pages (code_arena P))"

definition chunks_kept :: "process \<Rightarrow> process \<Rightarrow> bool" where
  "chunks_kept P P' \<longleftrightarrow> (\<forall>d \<in># live P. d \<in># live P' \<and> (\<forall>x. covers d x \<longrightarrow> memory P' x = memory P x))"

lemma live_inside:
  assumes "pages_ok pgs" and "d \<in># pages_live pgs"
  shows "\<exists>pg \<in> set pgs. inside d (page pg)"
proof -
  obtain pg where pg: "pg \<in> set pgs" "d \<in> set (page_objects pg)" using assms(2) by (auto simp: pages_live_def)
  have "page_ok pg" using assms(1) pg(1) by (simp add: pages_ok_def list_all_iff)
  then have l: "laid_out (unat (chunk_address (page pg))) (page_objects pg) (unat (page_cursor pg))"
      "unat (page_cursor pg) \<le> chunk_end (page pg)" by (simp_all add: page_ok_def)
  then have "inside d (page pg)" using laid_out_inside [OF l(1) pg(2)] by (simp add: inside_def)
  then show ?thesis using pg(1) by blast
qed

lemma covers_apart: "apart c d \<Longrightarrow> covers d x \<Longrightarrow> \<not> covers c x"
  by (auto simp: apart_def covers_def)

lemma live_covers:
  assumes "arena_mapped k P" and "d \<in># live P" and "covers d x"
  shows "arena_covers P x"
proof -
  obtain pg where "pg \<in> set (arena_pages (code_arena P))" "inside d (page pg)"
    using live_inside assms(1,2) by (auto simp: arena_mapped_def)
  moreover then have "covers (page pg) x" using assms(3) by (simp add: inside_def covers_def)
  ultimately show ?thesis by (auto simp: arena_covers_def list_ex_iff)
qed

lemma finalize_keeps:
  assumes am: "arena_mapped k P" and mp: "mapping_ok k mapped P" and k: "k < 31"
    and a: "realized_address a = 0" "asm_buffer a \<noteq> []" "length (asm_buffer a) + 4 \<le> 2 ^ k"
    and fin: "FinalizeFromTurboAssembler (2 ^ k) mapped a P = Inr (Some c, a', P')"
  shows "c \<in># live P'" and "chunks_kept P P'" and "unat (chunk_length c) = length (asm_buffer a) + 4"
    and "set (map page (arena_pages (code_arena P'))) \<subseteq>
      insert \<lparr>chunk_address = mapped, chunk_length = 2 ^ k\<rparr> (set (map page (arena_pages (code_arena P))))"
proof -
  let ?ar = "code_arena P" let ?bs = "asm_buffer a" let ?n = "int (length ?bs) + 4"
  let ?new = "\<lparr>chunk_address = mapped, chunk_length = 2 ^ k\<rparr>"
  have n: "?n \<le> 2 ^ k" using a(3) by (metis of_nat_add of_nat_le_iff of_nat_numeral of_nat_power)
  have "(2 :: int) ^ k < 2 ^ 31" using k by (intro power_strict_increasing) simp_all
  then have ok: "arena_request_ok (2 ^ k) (mapped, ?n, kReadExecute) ?ar" and lt: "?n < 2 ^ 64"
    using n mp by (simp_all add: arena_request_ok_def mapping_ok_def)
  have inv: "pages_ok (arena_pages ?ar)" using am by (simp add: arena_mapped_def)
  obtain P1 where al: "allocate_code (2 ^ k) mapped ?n P = (Some c, P1)" and patch: "CodePatch (2 ^ k) (chunk_address c) ?bs P1 = Inr P'"
    using fin a(1) by (auto simp: FinalizeFromTurboAssembler_def split: prod.splits option.splits)
  let ?maps = "find_page (page_has_room ?n kReadExecute) (arena_pages ?ar) = None \<and> mapped \<noteq> 0"
  obtain ar' where ar': "AllocateChunk (2 ^ k) mapped ?n kReadExecute ?ar = (Some c, ar')"
      "P1 = (if ?maps then map_page (2 ^ k) mapped kReadExecute P else P)\<lparr>code_arena := ar'\<rparr>"
    using al by (auto simp: allocate_code_def AllocateCodeChunk_def Let_def split: prod.splits)
  have g: "granted ?n kReadExecute c (arena_pages ?ar) (arena_pages ar')" by (rule arena_alloc_granted [OF inv ok ar'(1)])
  have P': "code_arena P' = ar'" "memory P' = write_bytes (chunk_address c) ?bs (memory P1)"
    using patch ar'(2) by (auto simp: CodePatch_def Let_def memcpy_to_def mprotect_page_def map_page_def split: if_splits option.splits)
  show "c \<in># live P'" using g P'(1) by (simp add: granted_def)
  show len: "unat (chunk_length c) = length ?bs + 4"
  proof -
    have cl: "chunk_length c = word_of_int ?n" using g unfolding granted_def by blast
    show ?thesis using lt unfolding cl by (subst unat_word_of_int) (simp_all add: nat_add_distrib)
  qed
  show "set (map page (arena_pages (code_arena P'))) \<subseteq> insert ?new (set (map page (arena_pages ?ar)))"
    using AllocateChunk_pages [OF ar'(1)] P'(1) by auto
  have end_ok: "unat mapped + 2 ^ k \<le> 2 ^ 64" using mp by (auto simp: mapping_ok_def mapped_ok_def nat_power_eq)
  have "d \<in># live P' \<and> memory P' x = memory P x" if d: "d \<in># live P" "covers d x" for d x
  proof -
    have "\<not> covers c x" using g d covers_apart by (auto simp: granted_def)
    moreover have "chunk_end c < 2 ^ 64"
      using g by (auto simp: granted_def pages_ok_def list_all_iff page_ok_def inside_def)
    ultimately have "length ?bs \<le> unat (x - chunk_address c)"
      using offset_range [of x "chunk_address c" "length ?bs"] len by (force simp: covers_def chunk_end_def)
    then have 1: "memory P' x = memory P1 x" using P'(2) by (simp add: write_bytes_outside)
    obtain pg where pg: "pg \<in> set (arena_pages ?ar)" "inside d (page pg)" using live_inside [OF inv d(1)] by blast
    then have "apart (page pg) ?new" using mp by (auto simp: mapping_ok_def mapped_ok_def list_all_iff)
    then have "\<not> covers ?new x" using pg(2) d(2) by (auto simp: apart_def covers_def inside_def)
    then have "memory P1 x = memory P x" using map_page_outside [OF _ k end_ok] ar'(2) by simp
    then show ?thesis using 1 g d(1) P'(1) by (simp add: granted_def)
  qed
  then show "chunks_kept P P'" using g P'(1) by (auto simp: chunks_kept_def granted_def)
qed

end
