(* ===== verification/HookCorrectness.thy ===== *)
theory HookCorrectness
  imports CodePlacing
begin

text \<open>
  Correctness of hooking on ARM64, end to end: after \<^verbatim>\<open>DobbyHook\<close> the hooked function continues in the
  replacement, the pointer handed out runs the original instructions, and \<^verbatim>\<open>DobbyDestroy\<close> restores the
  function.
\<close>

section \<open>Relocating a prologue\<close>

text \<open>Emitting code leaves the address of the assembler alone.\<close>

lemma Emit_address [simp]:
  "realized_address (Emit w a) = realized_address a" "realized_address (EmitInt64 v a) = realized_address a"
  "realized_address (fold Emit ws a) = realized_address a"
  by (simp_all add: Emit_def EmitInt64_def) (induction ws arbitrary: a; simp add: Emit_def)

lemma ldr_literal_address: "ldr_literal r i a = Inr a' \<Longrightarrow> realized_address a' = realized_address a"
  by (auto simp: ldr_literal_def EmitLoadRegLiteral_def split: RegisterType.splits)

lemma Ldr_address: "Ldr r l a = Inr (l', a') \<Longrightarrow> realized_address a' = realized_address a"
  by (auto simp: Ldr_def dest!: ldr_literal_address split: if_splits)

lemma PseudoBind_address: "PseudoBind l a = Inr (l', a') \<Longrightarrow> realized_address a' = realized_address a"
  by (auto simp: PseudoBind_def Let_def split: if_splits)

lemma relocate_instr_address: "relocate_instr w pc a = Inr a' \<Longrightarrow> realized_address a' = realized_address a"
  by (auto simp: relocate_instr_def Let_def branch_to_label_def Ldr_data_def AppendRelocLabelEntry_def br_def blr_def
      Mov_def movz_def movk_def MoveWide_def ldr_def LoadStore_def
      dest!: Ldr_address split: if_splits option.splits)

lemma relocate_loop_address:
  "relocate_loop buf n cur w pc a = Inr (pc', a') \<Longrightarrow> realized_address a' = realized_address a"
proof (induction buf n cur w pc a rule: relocate_loop.induct)
  case (1 buf n cur w pc a)
  show ?case
    using "1.prems" [unfolded relocate_loop.simps [of buf n cur w pc a]] "1.IH"
    by (auto simp: relocate_instr_address split: if_splits)
qed

lemma reloc_bind_loop_address: "reloc_bind_loop ls a = Inr (ls', a') \<Longrightarrow> realized_address a' = realized_address a"
  by (induction ls arbitrary: a ls') (fastforce dest: PseudoBind_address)+

lemma GenRelocateCode_address: "GenRelocateCode buf start n = Inr a \<Longrightarrow> realized_address a = 0"
  by (auto simp: GenRelocateCode_def LiteralLdrBranch_def RelocBind_def new_Assembler_def br_def split: option.splits
      dest!: relocate_loop_address Ldr_address PseudoBind_address reloc_bind_loop_address)

lemma relocation_ok:
  assumes am: "arena_mapped k P" "mapping_ok k mapped P" "k < 31"
    and code: "holds (memory P) address (words ws)" "\<forall>i < 4 * length ws + 4. readable (2 ^ k) P (address + of_nat i)"
    and frs: "fragments ws address = Some is" "length ws < 2 ^ 30"
    and size: "length (layout is (address + 4 * of_nat (length ws))) + 4 \<le> 2 ^ k"
  obtains rel P' where
    "GenRelocateCodeAndBranch (2 ^ k) mapped address (FinalizeFromAddress address (of_nat (4 * length ws))) P = Inr (rel, P')"
    "chunk_address rel \<noteq> 0" "holds (memory P') (chunk_address rel) (layout is (address + 4 * of_nat (length ws)))"
    "arena_mapped k P'" "outside_kept k mapped P P'"
    "\<forall>i < length (layout is (address + 4 * of_nat (length ws))). arena_covers P' (chunk_address rel + of_nat i)"
    "chunks_kept P P'"
proof -
  let ?l = "layout is (address + 4 * of_nat (length ws))"
  obtain w where "readable_bytes (2 ^ k) address (4 * length ws + 4) P = words (ws @ [w])"
    using readable_bytes_full [of "4 * length ws + 4" "2 ^ k" P address] code(2) map_upt_words [OF code(1)] by auto
  moreover obtain a where a: "GenRelocateCode (words (ws @ [w]) @ []) address (4 * length ws) = Inr a" "asm_buffer a = ?l"
    using relocator_layout [OF frs(1)] by blast
  moreover have "unat (of_nat (4 * length ws) :: u64) = 4 * length ws" using frs(2) unfolding unat_of_nat by (intro mod_less) simp
  ultimately have gen: "GenRelocateCodeAndBranch (2 ^ k) mapped address (FinalizeFromAddress address (of_nat (4 * length ws))) P =
      bindE (FinalizeFromTurboAssembler (2 ^ k) mapped a P) (\<lambda>(code, a, P). case code of None \<Rightarrow> Inl Null_pointer
        | Some c \<Rightarrow> Inr (init_region_range (chunk_address c) (chunk_length c), P))"
    by (simp add: GenRelocateCodeAndBranch_def FinalizeFromAddress_def init_region_range_def)
  have ra: "realized_address a = 0" using GenRelocateCode_address [OF a(1)] .
  have ne: "asm_buffer a \<noteq> []" "length (asm_buffer a) + 4 \<le> 2 ^ k" using size
    by (simp_all only: a(2) length_greater_0_conv [symmetric]) (simp add: layout_def)
  obtain c a' P' where fin: "FinalizeFromTurboAssembler (2 ^ k) mapped a P = Inr (Some c, a', P')" "chunk_address c \<noteq> 0"
    "holds (memory P') (chunk_address c) (asm_buffer a)" "arena_mapped k P'" "outside_kept k mapped P P'"
    "\<forall>i < length (asm_buffer a). arena_covers P' (chunk_address c + of_nat i)"
    using finalize_ok [OF am ra ne] by blast
  show thesis
    by (rule that [of "init_region_range (chunk_address c) (chunk_length c)" P'])
      (use fin a(2) gen finalize_keeps(2) [OF am ra ne fin(1)] in \<open>simp_all add: init_region_range_def\<close>)
qed

section \<open>Installing a hook\<close>

text \<open>
  What the theorems ask of a function: its first instructions \<open>ws\<close>, as many as the trampoline is long, stand at \<open>address\<close>, in one
  page and away from the arena; they can be read with the word behind them, and the relocator knows them; their
  translation fits in a page of the arena.
\<close>

definition patchable :: "nat \<Rightarrow> addr \<Rightarrow> addr \<Rightarrow> u8 list \<Rightarrow> u32 list \<Rightarrow> process \<Rightarrow> bool" where
  "patchable k mapped address tramp ws P \<longleftrightarrow>
     k < 31 \<and> arena_mapped k P \<and> mapping_ok k mapped P \<and> address \<noteq> 0 \<and> length tramp = 4 * length ws \<and> length ws \<le> 16 \<and>
     holds (memory P) address (words ws) \<and> in_page k address (4 * length ws) \<and>
     list_all (\<lambda>i. readable (2 ^ k) P (address + of_nat i)) [0..<4 * length ws + 4] \<and>
     list_all (\<lambda>i. clear k mapped P (address + of_nat i)) [0..<4 * length ws] \<and>
     (case fragments ws address of None \<Rightarrow> False
      | Some is \<Rightarrow> length (layout is (address + 4 * of_nat (length ws))) + 4 \<le> 2 ^ k)"

text \<open>The trampoline generator returns \<open>tramp\<close> and leaves the process in the state \<open>P0\<close>.\<close>

definition generates :: "near_plugin option \<Rightarrow> addr \<Rightarrow> addr \<Rightarrow> process \<Rightarrow> u8 list \<Rightarrow> process \<Rightarrow> bool" where
  "generates near address replace_call P tramp P0 \<longleftrightarrow>
     GenerateTrampolineBuffer near address replace_call ((new_InterceptRouting replace_call)\<lparr>trampoline_target := replace_call\<rparr>) P =
       Some (Inr ((new_InterceptRouting replace_call)\<lparr>trampoline_target := replace_call, trampoline_buffer := Some tramp\<rparr>, P0))"

text \<open>Without the plugin the trampoline is the normal one, of three or four instructions.\<close>

definition hookable :: "nat \<Rightarrow> addr \<Rightarrow> addr \<Rightarrow> addr \<Rightarrow> u32 list \<Rightarrow> process \<Rightarrow> bool" where
  "hookable k mapped address replace_call ws P \<longleftrightarrow>
     (case GenerateNormalTrampolineBuffer address replace_call of Inl _ \<Rightarrow> False | Inr bs \<Rightarrow> patchable k mapped address bs ws P) \<and>
     page_distance address replace_call \<noteq> 2 ^ 32"

lemma hookable_generates:
  assumes "hookable k mapped address replace_call ws P"
  obtains tramp where "generates None address replace_call P tramp P" "patchable k mapped address tramp ws P"
    "GenerateNormalTrampolineBuffer address replace_call = Inr tramp"
  using assms by (auto simp: hookable_def generates_def GenerateTrampolineBuffer_def new_InterceptRouting_def split: sum.splits)

lemma holds_readable_bytes:
  assumes "holds (memory P) a bs" and "\<forall>i < length bs. readable page_size P (a + of_nat i)"
  shows "readable_bytes page_size a (length bs) P = bs"
  using assms readable_bytes_full [of "length bs" page_size P a] by (auto simp: holds_nth intro: nth_equalityI)

lemma readable_kept: "outside_kept k mapped P P' \<Longrightarrow> readable page_size P x \<Longrightarrow> readable page_size P' x"
  by (simp add: outside_kept_def readable_def)

text \<open>The prologue is relocated and saved.\<close>

lemma GenerateRelocatedCode_effect:
  assumes h: "patchable k mapped address tramp ws P0" and "is": "fragments ws address = Some is"
    and e: "function_address e = address" "chunk_buffer e = replicate 64 0"
  obtains rel cb P1 where
    "GenerateRelocatedCode (2 ^ k) mapped (4 * length ws) e r P0 =
       Inr (True, e\<lparr>relocated_origin_function := chunk_address rel, chunk_buffer := cb,
           origin_chunk := init_region_range address (of_nat (4 * length ws))\<rparr>,
         r\<lparr>origin := init_region_range address (of_nat (4 * length ws)), relocated := rel\<rparr>, P1)"
    "load_at 0 (4 * length ws) cb = Inr (words ws)"
    "holds (memory P1) (chunk_address rel) (layout is (address + 4 * of_nat (length ws)))"
    "outside_kept k mapped P0 P1" "chunks_kept P0 P1" "arena_mapped k P1"
    "\<forall>j < length (layout is (address + 4 * of_nat (length ws))). arena_covers P1 (chunk_address rel + of_nat j)"
proof -
  let ?org = "init_region_range address (of_nat (4 * length ws))"
  have len: "length ws \<le> 16" and am: "arena_mapped k P0" "mapping_ok k mapped P0" "k < 31" using h by (simp_all add: patchable_def)
  have short: "length ws < 2 ^ 30" using len by simp
  have code: "holds (memory P0) address (words ws)" "\<forall>i < 4 * length ws + 4. readable (2 ^ k) P0 (address + of_nat i)"
    and clr: "\<forall>i < 4 * length ws. clear k mapped P0 (address + of_nat i)"
    and size: "length (layout is (address + 4 * of_nat (length ws))) + 4 \<le> 2 ^ k"
    using h "is" by (auto simp: patchable_def list_all_iff)
  obtain rel P1 where rel: "GenRelocateCodeAndBranch (2 ^ k) mapped address ?org P0 = Inr (rel, P1)" "chunk_address rel \<noteq> 0"
    "holds (memory P1) (chunk_address rel) (layout is (address + 4 * of_nat (length ws)))" "outside_kept k mapped P0 P1" "chunks_kept P0 P1" "arena_mapped k P1"
    "\<forall>j < length (layout is (address + 4 * of_nat (length ws))). arena_covers P1 (chunk_address rel + of_nat j)"
    using relocation_ok [OF am code "is" short size] unfolding FinalizeFromAddress_def by blast
  have "holds (memory P1) address (words ws)"
    using code(1) clr rel(4) by (intro holds_cong [OF code(1)]) (simp add: outside_kept_def)
  then have saved: "readable_bytes (2 ^ k) address (4 * length ws) P1 = words ws"
    using holds_readable_bytes [of P1 address "words ws" "2 ^ k"] readable_kept [OF rel(4)] code(2) by simp
  have st: "store_at 0 (words ws) (replicate 64 0) = Inr (words ws @ replicate (64 - 4 * length ws) 0)"
    using len by (simp add: store_at_def)
  have org: "chunk_address ?org = address" by (simp add: init_region_range_def)
  have "GenerateRelocatedCode (2 ^ k) mapped (4 * length ws) e r P0 =
      Inr (True, e\<lparr>relocated_origin_function := chunk_address rel, chunk_buffer := words ws @ replicate (64 - 4 * length ws) 0,
        origin_chunk := ?org\<rparr>, r\<lparr>origin := ?org, relocated := rel\<rparr>, P1)"
    using rel(1,2) saved st e by (simp add: GenerateRelocatedCode_def FinalizeFromAddress_def Let_def save_prologue_def org del: of_nat_mult)
  then show thesis by (rule that) (use rel in \<open>simp_all add: load_at_def\<close>)
qed

text \<open>The entry is registered and the trampoline is written over the function.\<close>

lemma install_effect:
  assumes h: "patchable k mapped address tramp ws P0" and kept: "outside_kept k mapped P0 P1"
    and r: "trampoline_buffer r = Some tramp" "chunk_address (origin r) = address"
    and reg: "represents I es" "fresh_node node I"
  obtains I' P' where "AddHookEntry node e I = Inr I'" "represents I' (e # es)" "Commit (2 ^ k) r (P1\<lparr>interceptor := Some I'\<rparr>) = Inr P'"
    "interceptor P' = Some I'" "holds (memory P') address tramp" "protection P' (page_of (2 ^ k) address) = Some kReadExecute"
    "\<forall>x. arena_covers P1 x \<longrightarrow> memory P' x = memory P1 x" "\<forall>x. 4 * length ws \<le> unat (x - address) \<longrightarrow> memory P' x = memory P1 x"
    "code_arena P' = code_arena P1" "arena_mapped k P1 \<longrightarrow> arena_mapped k P'"
proof -
  have clr: "\<forall>i < 4 * length ws. clear k mapped P0 (address + of_nat i)"
    and pg: "in_page k address (4 * length ws)" "k \<le> 64"
    and rd: "\<forall>i < 4 * length ws + 4. readable (2 ^ k) P0 (address + of_nat i)" and tl: "length tramp = 4 * length ws"
    using h by (auto simp: patchable_def list_all_iff)
  obtain I' where I': "AddHookEntry node e I = Inr I'" "represents I' (e # es)" using AddHookEntry_list [OF reg] by blast
  have "readable (2 ^ k) P0 address" using rd [rule_format, of 0] by simp
  then have prot: "protection P1 (page_of (2 ^ k) address) \<noteq> None" using readable_kept [OF kept, of "2 ^ k" address] by (simp add: readable_def)
  define P' where "P' = P1\<lparr>interceptor := Some I', memory := write_bytes address tramp (memory P1),
      protection := (protection P1)(page_of (2 ^ k) address \<mapsto> kReadExecute)\<rparr>"
  have act: "Commit (2 ^ k) r (P1\<lparr>interceptor := Some I'\<rparr>) = Inr P'"
    using CodePatch_in_page [of k address tramp "P1\<lparr>interceptor := Some I'\<rparr>"] pg prot tl r by (simp add: Commit_def Active_def P'_def)
  have len: "length tramp \<le> 2 ^ 64" using in_page_no_wrap [OF pg] tl by simp
  have far: "length tramp \<le> unat (x - address)" if "arena_covers P1 x" for x
  proof (rule ccontr)
    assume c: "\<not> length tramp \<le> unat (x - address)"
    have "clear k mapped P0 (address + of_nat (unat (x - address)))" using clr [rule_format, of "unat (x - address)"] c tl by simp
    then show False using that kept by (simp add: outside_kept_def)
  qed
  show thesis
    by (rule that [OF I' act])
      (use len far tl in \<open>simp_all add: P'_def holds_write write_bytes_outside arena_mapped_def machine_page_def list_all_iff\<close>)
qed

text \<open>\<^verbatim>\<open>DobbyHook\<close> on such a function: the trampoline stands at the function and the translation at the address returned.\<close>

lemma DobbyHook_effect:
  assumes g: "generates near address replace_call P tramp P0" and h: "patchable k mapped address tramp ws P0"
    and "is": "fragments ws address = Some is"
    and reg: "SharedInstance head (interceptor P) = Inr I" "represents I es" "fresh_node node I"
      "\<not> already_hooked (List.find (\<lambda>e. function_address e = address) es) replace_call"
  obtains e P' I' where
    "DobbyHook near (2 ^ k) mapped head node address replace_call P = Some (Inr (RS_SUCCESS, Some (relocated_origin_function e), P'))"
    "holds (memory P') address tramp"
    "holds (memory P') (relocated_origin_function e) (layout is (address + 4 * of_nat (length ws)))"
    "interceptor P' = Some I'" "represents I' (e # es)" "function_address e = address"
    "origin_chunk e = init_region_range address (of_nat (4 * length ws))"
    "load_at 0 (4 * length ws) (chunk_buffer e) = Inr (words ws)"
    "protection P' (page_of (2 ^ k) address) = Some kReadExecute"
    "\<forall>x. clear k mapped P0 x \<and> 4 * length ws \<le> unat (x - address) \<longrightarrow> memory P' x = memory P0 x"
proof -
  have ad: "address \<noteq> 0" and tl: "length tramp = 4 * length ws" using h by (simp_all add: patchable_def)
  let ?e0 = "new_HookEntry (int (length es)) address"
  let ?r0 = "\<lparr>origin = new_chunk, relocated = new_chunk, trampoline_buffer = Some tramp, trampoline_target = replace_call, routing_argument = replace_call\<rparr>"
  let ?org = "init_region_range address (of_nat (4 * length ws))"
  have e0: "function_address ?e0 = address" "chunk_buffer ?e0 = replicate 64 0" by (simp_all add: new_HookEntry_def)
  obtain rel cb P1 where gen: "GenerateRelocatedCode (2 ^ k) mapped (4 * length ws) ?e0 ?r0 P0 =
      Inr (True, ?e0\<lparr>relocated_origin_function := chunk_address rel, chunk_buffer := cb, origin_chunk := ?org\<rparr>, ?r0\<lparr>origin := ?org, relocated := rel\<rparr>, P1)"
    and cb: "load_at 0 (4 * length ws) cb = Inr (words ws)"
    and lay: "holds (memory P1) (chunk_address rel) (layout is (address + 4 * of_nat (length ws)))"
    and kept: "outside_kept k mapped P0 P1"
    and cov: "\<forall>j < length (layout is (address + 4 * of_nat (length ws))). arena_covers P1 (chunk_address rel + of_nat j)"
    by (rule GenerateRelocatedCode_effect [OF h "is" e0])
  let ?r = "?r0\<lparr>origin := ?org, relocated := rel\<rparr>"
  define e where "e = ?e0\<lparr>relocated_origin_function := chunk_address rel, chunk_buffer := cb, origin_chunk := ?org, route := ?r\<rparr>"
  have r: "trampoline_buffer ?r = Some tramp" "chunk_address (origin ?r) = address" by (simp_all add: init_region_range_def)
  obtain I' P' where I': "AddHookEntry node e I = Inr I'" "represents I' (e # es)" and act: "Commit (2 ^ k) ?r (P1\<lparr>interceptor := Some I'\<rparr>) = Inr P'"
    and P': "interceptor P' = Some I'" "holds (memory P') address tramp" "protection P' (page_of (2 ^ k) address) = Some kReadExecute"
      "\<forall>x. arena_covers P1 x \<longrightarrow> memory P' x = memory P1 x" "\<forall>x. 4 * length ws \<le> unat (x - address) \<longrightarrow> memory P' x = memory P1 x"
    by (rule install_effect [OF h kept r reg(2,3)])
  have "DispatchRouting near (2 ^ k) mapped ?e0 (new_InterceptRouting replace_call) P =
      Some (Inr (?e0\<lparr>relocated_origin_function := chunk_address rel, chunk_buffer := cb, origin_chunk := ?org\<rparr>, ?r, P1))"
    using gen g tl e0(1) by (simp add: DispatchRouting_def BuildReplaceRouting_def generates_def new_InterceptRouting_def)
  then have hook: "DobbyHook near (2 ^ k) mapped head node address replace_call P = Some (Inr (RS_SUCCESS, Some (relocated_origin_function e), P'))"
    using ad reg(1,4) I'(1) act
    by (simp add: DobbyHook_def FindHookEntry_list [OF reg(2)] GetHookEntryCount_list [OF reg(2)] e_def)
  show thesis
  proof (rule that [OF hook])
    show "holds (memory P') (relocated_origin_function e) (layout is (address + 4 * of_nat (length ws)))"
      by (rule holds_cong) (use lay cov P'(4) in \<open>auto simp: e_def\<close>)
    show "\<forall>x. clear k mapped P0 x \<and> 4 * length ws \<le> unat (x - address) \<longrightarrow> memory P' x = memory P0 x"
      using kept P'(5) by (simp add: outside_kept_def)
  qed (use I'(2) P' cb e0 in \<open>simp_all add: e_def\<close>)
qed

section \<open>A sample function\<close>

text \<open>Three instructions (\<^verbatim>\<open>nop; cbz x0, 0x100c; nop\<close>) at \<^verbatim>\<open>0x1000\<close>, hooked to \<^verbatim>\<open>0x2000\<close>; the next page to be mapped is at \<^verbatim>\<open>0x7000\<close>.\<close>

definition sample_code :: "u32 list" where
  "sample_code = [0xD503201F, 0xB4000040, 0xD503201F]"

definition sample_process :: process where
  "sample_process = \<lparr>memory = write_bytes 0x1000 (words sample_code) (\<lambda>_. 0), protection = [0x1000 \<mapsto> kReadExecute],
     code_arena = None, near_arena = None, interceptor = None\<rparr>"

lemma sample_fragments:
  "fragments sample_code 0x1000 =
     Some [Wd 0xD503201F, Wd (invert_compare_branch 0xB4000040), Lit 0x100C, Wd br_tmp, Wd 0xD503201F]"
proof -
  have o19: "decode_imm19_offset 0xB4000040 = 8"
    by (simp add: decode_imm19_offset_def bits_def submask_def SignExtend_def)
  have "fragment 0xD503201F p = Some [Wd 0xD503201F]" for p by (simp add: fragment_def literal_defs)
  moreover have "fragment 0xB4000040 0x1004 = Some [Wd (invert_compare_branch 0xB4000040), Lit 0x100C, Wd br_tmp]"
    using fragment_conditional(2) [of "0xB4000040" "0x1004"] o19 by (simp add: literal_defs)
  ultimately show ?thesis by (simp add: sample_code_def)
qed

lemma sample_trampoline: "\<exists>bs. GenerateNormalTrampolineBuffer 0x1000 0x2000 = Inr bs \<and> length bs = 12"
proof (cases rule: normal_trampoline_cases [of "0x1000" "0x2000"])
  case (far a)
  moreover have "llabs (0x1000 - 0x2000) < adrp_range" by code_simp
  ultimately show ?thesis by simp
qed simp

lemma sample_readable: "i < 16 \<Longrightarrow> readable (2 ^ 12) sample_process (0x1000 + of_nat i)"
  using in_page_page_of [of 12 "0x1000" 16 i]
  by (simp add: readable_def sample_process_def in_page_def page_of_def ALIGN_FLOOR_def)

lemma sample_clear:
  assumes "0x2000 \<le> unat mapped" and "i < 12"
  shows "clear 12 mapped sample_process (0x1000 + of_nat i)"
proof -
  have "unat (0x1000 + of_nat i :: u64) = 0x1000 + i" using assms(2) by (subst unat_add_small) (simp_all add: unat_of_nat)
  then show ?thesis using assms by (simp add: clear_def covers_def arena_covers_def arena_pages_def sample_process_def)
qed

lemma sample_state:
  "holds (memory sample_process) 0x1000 (words sample_code)" "mapping_ok 12 0x7000 sample_process" "arena_mapped 12 sample_process"
  by (simp_all add: sample_process_def holds_write sample_code_def mapping_ok_def mapped_ok_def arena_pages_def arena_mapped_def pages_ok_def)

lemma sample_hookable: "hookable 12 0x7000 0x1000 0x2000 sample_code sample_process"
proof -
  have "page_distance 0x1000 0x2000 \<noteq> 2 ^ 32" by (simp add: page_distance_def ALIGN_FLOOR_def)
  moreover have "length sample_code = 3" by (simp add: sample_code_def)
  ultimately show ?thesis
    using sample_trampoline sample_fragments sample_readable sample_clear [of "0x7000"] sample_state
    by (auto simp: hookable_def patchable_def list_all_iff in_page_def layout_def)
qed

lemma sample_patchable:
  "patchable 12 0x7000 0x1000 (le_bytes 4 (b_word (0x2000 - 0x1000))) [0xD503201F] sample_process"
proof -
  have "holds (memory sample_process) 0x1000 (words [0xD503201F])"
    using sample_state(1) by (simp add: holds_nth sample_code_def nth_append)
  moreover have "fragments [0xD503201F] 0x1000 = Some [Wd 0xD503201F]" by (simp add: fragment_def literal_defs)
  ultimately show ?thesis
    using sample_readable sample_clear [of "0x7000"] sample_state(2,3) by (simp add: patchable_def list_all_iff in_page_def layout_def)
qed

lemma sample_registry:
  obtains I where "SharedInstance 0x100 (interceptor sample_process) = Inr I" "represents I []" "fresh_node 0x200 I"
    "\<not> already_hooked (List.find (\<lambda>e. function_address e = 0x1000) []) 0x2000"
proof -
  obtain I where I: "SharedInstance 0x100 None = Inr I" "represents I []" "dom (nodes I) = {0x100}"
    using SharedInstance_list by blast
  have "0x200 \<notin> dom (nodes I)" unfolding I(3) by simp
  then show thesis
    using that I(1,2) by (auto simp: sample_process_def fresh_node_def already_hooked_def)
qed

section \<open>The hooked function\<close>

text \<open>
  C1: a hooked function continues in its replacement. On a function that meets \<open>hookable\<close> and is not hooked with the
  same replacement yet, \<^verbatim>\<open>DobbyHook\<close> returns success, and every machine that enters the function
  in the resulting memory is at the replacement after at most three instructions, with nothing
  changed but \<^verbatim>\<open>x17\<close>; the registry has the new entry in front of the old ones.
\<close>

theorem hooked_function_redirected:
  assumes h: "hookable k mapped address replace_call ws P"
    and reg: "SharedInstance head (interceptor P) = Inr I" "represents I es" "fresh_node node I"
      "\<not> already_hooked (List.find (\<lambda>e. function_address e = address) es) replace_call"
  shows "\<exists>org P' I' e. DobbyHook None (2 ^ k) mapped head node address replace_call P = Some (Inr (RS_SUCCESS, Some org, P')) \<and>
     interceptor P' = Some I' \<and> represents I' (e # es) \<and> function_address e = address \<and>
     (\<forall>s. a_pc s = address \<and> a_mem s = memory P' \<longrightarrow>
        (\<exists>n \<le> 3. arm_run n s = Some (goto replace_call (set_x 17 replace_call s))))"
proof -
  obtain tramp where g: "generates None address replace_call P tramp P" "patchable k mapped address tramp ws P"
      "GenerateNormalTrampolineBuffer address replace_call = Inr tramp" using h by (rule hookable_generates)
  obtain "is" where "is": "fragments ws address = Some is" using g(2) by (auto simp: patchable_def split: option.splits)
  have "page_distance address replace_call \<noteq> 2 ^ 32" using h by (simp add: hookable_def)
  note jump = normal_trampoline_jumps [OF this]
  show ?thesis
  proof (rule DobbyHook_effect [OF g(1,2) "is" reg], goal_cases)
    case (1 e P' I')
    have "code_at s address tramp" if "a_mem s = memory P'" for s using 1(2) that by (simp add: code_at_def holds_nth)
    then show ?thesis using 1 jump g(3) by auto
  qed
qed

theorem hooked_function_redirected_witness:
  "\<exists>org P'. DobbyHook None (2 ^ 12) 0x7000 0x100 0x200 0x1000 0x2000 sample_process = Some (Inr (RS_SUCCESS, Some org, P')) \<and>
     (\<exists>n \<le> 3. \<exists>u. arm_run n (goto 0x1000 (state_with 0 []\<lparr>a_mem := memory P'\<rparr>)) = Some u \<and> a_pc u = 0x2000)"
proof -
  obtain I where I: "SharedInstance 0x100 (interceptor sample_process) = Inr I" "represents I []" "fresh_node 0x200 I"
    "\<not> already_hooked (List.find (\<lambda>e. function_address e = 0x1000) []) 0x2000" by (rule sample_registry)
  obtain org P' where hook: "DobbyHook None (2 ^ 12) 0x7000 0x100 0x200 0x1000 0x2000 sample_process = Some (Inr (RS_SUCCESS, Some org, P'))"
    and run: "\<forall>s. a_pc s = 0x1000 \<and> a_mem s = memory P' \<longrightarrow> (\<exists>n \<le> 3. arm_run n s = Some (goto 0x2000 (set_x 17 0x2000 s)))"
    using hooked_function_redirected [OF sample_hookable I] by blast
  let ?s = "goto 0x1000 (state_with 0 []\<lparr>a_mem := memory P'\<rparr>)"
  obtain n where "n \<le> 3" "arm_run n ?s = Some (goto 0x2000 (set_x 17 0x2000 ?s))"
    using run [rule_format, of ?s] by (auto simp: goto_def)
  then show ?thesis using hook by (auto simp: goto_def)
qed

text \<open>
  C5: with the near branch plugin and a replacement within 128 MB, one instruction of the function is replaced and control
  goes to the replacement in one step with no register changed.
\<close>

theorem near_hook_redirected:
  assumes near: "llabs (replace_call - address) < 2 ^ 27" "take_bit 2 address = 0" "take_bit 2 replace_call = 0"
    and h: "patchable k mapped address (le_bytes 4 (b_word (replace_call - address))) [w] P"
    and reg: "SharedInstance head (interceptor P) = Inr I" "represents I es" "fresh_node node I"
      "\<not> already_hooked (List.find (\<lambda>e. function_address e = address) es) replace_call"
  shows "\<exists>org P' I' e. DobbyHook (Some (NearBranchTrampolinePlugin views (2 ^ k) near_mapped)) (2 ^ k) mapped head node address replace_call P =
       Some (Inr (RS_SUCCESS, Some org, P')) \<and>
     interceptor P' = Some I' \<and> represents I' (e # es) \<and> function_address e = address \<and>
     (\<forall>s. a_pc s = address \<and> a_mem s = memory P' \<longrightarrow> arm_run 1 s = Some (goto replace_call s))"
proof -
  let ?plugin = "NearBranchTrampolinePlugin views (2 ^ k) near_mapped" let ?tramp = "le_bytes 4 (b_word (replace_call - address))"
  have u: "uint (llabs (replace_call - address)) < 2 ^ 27" using near(1) by (simp add: word_less_def)
  have "- (2 ^ 63) \<le> uint (llabs (replace_call - address))" by (rule order_trans [of _ 0]) simp_all
  then have "sint (llabs (replace_call - address)) = uint (llabs (replace_call - address))"
    using sint_small [of "uint (llabs (replace_call - address))"] u by simp
  with u have "sint (llabs (replace_call - address)) < ARM64_B_XXX_RANGE" by (simp add: ARM64_B_XXX_RANGE_def)
  then have g: "generates (Some ?plugin) address replace_call P ?tramp P"
    by (simp add: generates_def GenerateTrampolineBuffer_def NearBranchTrampolinePlugin_def GenerateNearTrampolineBuffer_def b_imm_bytes)
  obtain "is" where "is": "fragments [w] address = Some is" using h by (auto simp: patchable_def split: option.splits)
  have al: "take_bit 2 (replace_call - address) = 0" using near(2,3) unfolding take_bit_eq_0_iff by (simp add: dvd_diff)
  show ?thesis
  proof (rule DobbyHook_effect [OF g h "is" reg], goal_cases)
    case (1 e P' I')
    have "arm_run 1 s = Some (goto replace_call s)" if "a_pc s = address" "a_mem s = memory P'" for s
      using branch_step [OF near(1) al, of s address] 1(2) that by (simp add: code_at_def holds_nth)
    then show ?thesis using 1(1,4,5,6) by blast
  qed
qed

theorem near_hook_redirected_witness:
  "\<exists>org P'. DobbyHook (Some (NearBranchTrampolinePlugin (\<lambda>_ _. \<lparr>process_memory_layout = [], Allocate = \<lambda>_. 0\<rparr>) (2 ^ 12) 0)) (2 ^ 12)
       0x7000 0x100 0x200 0x1000 0x2000 sample_process = Some (Inr (RS_SUCCESS, Some org, P')) \<and>
     (\<exists>u. arm_run 1 (goto 0x1000 (state_with 0 []\<lparr>a_mem := memory P'\<rparr>)) = Some u \<and> a_pc u = 0x2000)"
proof -
  let ?plugin = "NearBranchTrampolinePlugin (\<lambda>_ _. \<lparr>process_memory_layout = [], Allocate = \<lambda>_. 0\<rparr>) (2 ^ 12) 0"
  obtain I where I: "SharedInstance 0x100 (interceptor sample_process) = Inr I" "represents I []" "fresh_node 0x200 I"
    "\<not> already_hooked (List.find (\<lambda>e. function_address e = 0x1000) []) 0x2000" by (rule sample_registry)
  have "patchable 12 0x7000 0x1000 (le_bytes 4 (b_word (0x2000 - 0x1000))) [0xD503201F] sample_process" by (rule sample_patchable)
  moreover have "llabs (0x2000 - 0x1000) < 2 ^ 27" by code_simp
  ultimately obtain org P' where hook: "DobbyHook (Some ?plugin) (2 ^ 12) 0x7000 0x100 0x200 0x1000 0x2000 sample_process = Some (Inr (RS_SUCCESS, Some org, P'))"
    and run: "\<forall>s. a_pc s = 0x1000 \<and> a_mem s = memory P' \<longrightarrow> arm_run 1 s = Some (goto 0x2000 s)"
    using near_hook_redirected [OF _ _ _ _ I, of 12 "0x7000" "0xD503201F" "\<lambda>_ _. \<lparr>process_memory_layout = [], Allocate = \<lambda>_. 0\<rparr>" 0]
    by (auto simp: take_bit_eq_mod)
  show ?thesis using hook run [rule_format, of "goto 0x1000 (state_with 0 []\<lparr>a_mem := memory P'\<rparr>)"] by (auto simp: goto_def)
qed

text \<open>
  C2: the pointer that \<^verbatim>\<open>DobbyHook\<close> hands out runs the original function. A machine in the resulting memory at the part that
  was generated for the prologue instruction \<open>w\<close> does what \<open>w\<close> does at its original address
  (the relation \<open>agrees\<close>), and behind the last part it jumps to the first instruction behind the
  patched prologue.
\<close>

theorem origin_call_simulates:
  assumes g: "generates near address replace_call P tramp P0" and h: "patchable k mapped address tramp ws P0"
    and reg: "SharedInstance head (interceptor P) = Inr I" "represents I es" "fresh_node node I"
      "\<not> already_hooked (List.find (\<lambda>e. function_address e = address) es) replace_call"
  shows "\<exists>org P' is. DobbyHook near (2 ^ k) mapped head node address replace_call P = Some (Inr (RS_SUCCESS, Some org, P')) \<and>
     fragments ws address = Some is \<and>
     (\<forall>xs w ys pre s t. ws = xs @ w # ys \<and> fragments xs address = Some pre \<and> supported w \<and>
        a_mem s = memory P' \<and> a_pc s = org + of_nat (4 * length pre) \<and>
        arm_exec (arm_decode w) (goto (address + 4 * of_nat (length xs)) s) = Some t \<longrightarrow>
        (\<exists>f n u. fragment w (address + 4 * of_nat (length xs)) = Some f \<and> arm_run n s = Some u \<and>
           agrees (arm_decode w) (address + 4 * of_nat (length xs) + 4) (a_pc s + of_nat (4 * length f)) t u)) \<and>
     (\<forall>s. a_mem s = memory P' \<and> a_pc s = org + of_nat (4 * length is) \<longrightarrow>
        arm_run 2 s = Some (goto (address + 4 * of_nat (length ws)) (set_x 17 (address + 4 * of_nat (length ws)) s)))"
proof -
  obtain "is" where "is": "fragments ws address = Some is" using h by (auto simp: patchable_def split: option.splits)
  have "length ws \<le> 16" using h by (simp add: patchable_def)
  then have short: "length is < 2 ^ 16" using length_fragments [OF "is"] by simp
  show ?thesis
  proof (rule DobbyHook_effect [OF g h "is" reg], goal_cases)
    case (1 e P' I')
    have code: "code_at s (relocated_origin_function e) (layout is (address + 4 * of_nat (length ws)))" if "a_mem s = memory P'" for s
      using 1(3) that by (simp add: code_at_def holds_nth)
    have "\<exists>f n u. fragment w (address + 4 * of_nat (length xs)) = Some f \<and> arm_run n s = Some u \<and>
         agrees (arm_decode w) (address + 4 * of_nat (length xs) + 4) (a_pc s + of_nat (4 * length f)) t u"
      if "ws = xs @ w # ys" "fragments xs address = Some pre" "supported w" "a_mem s = memory P'"
        "a_pc s = relocated_origin_function e + of_nat (4 * length pre)"
        "arm_exec (arm_decode w) (goto (address + 4 * of_nat (length xs)) s) = Some t" for xs w ys pre s t
      using layout_simulates [OF "is" [unfolded that(1)] that(2) short code [OF that(4)] that(5,3,6)] .
    moreover have "arm_run 2 s = Some (goto (address + 4 * of_nat (length ws)) (set_x 17 (address + 4 * of_nat (length ws)) s))"
      if "a_mem s = memory P'" "a_pc s = relocated_origin_function e + of_nat (4 * length is)" for s
      using layout_resumes [OF code [OF that(1)] that(2)] .
    ultimately show ?thesis
      using 1(1) "is" by (intro exI [of _ "relocated_origin_function e"] exI [of _ P'] exI [of _ "is"]) blast
  qed
qed

theorem origin_call_simulates_witness:
  "\<exists>org P' n u. DobbyHook None (2 ^ 12) 0x7000 0x100 0x200 0x1000 0x2000 sample_process = Some (Inr (RS_SUCCESS, Some org, P')) \<and>
     arm_run n (goto (org + 4) (state_with 0 []\<lparr>a_mem := memory P'\<rparr>)) = Some u \<and> a_pc u = 0x100C"
proof -
  obtain tramp where g: "generates None 0x1000 0x2000 sample_process tramp sample_process"
      "patchable 12 0x7000 0x1000 tramp sample_code sample_process" using sample_hookable by (rule hookable_generates)
  obtain I where I: "SharedInstance 0x100 (interceptor sample_process) = Inr I" "represents I []" "fresh_node 0x200 I"
    "\<not> already_hooked (List.find (\<lambda>e. function_address e = 0x1000) []) 0x2000" by (rule sample_registry)
  obtain org P' where hook: "DobbyHook None (2 ^ 12) 0x7000 0x100 0x200 0x1000 0x2000 sample_process = Some (Inr (RS_SUCCESS, Some org, P'))"
    and sim: "\<forall>xs w ys pre s t. sample_code = xs @ w # ys \<and> fragments xs 0x1000 = Some pre \<and> supported w \<and>
        a_mem s = memory P' \<and> a_pc s = org + of_nat (4 * length pre) \<and>
        arm_exec (arm_decode w) (goto (0x1000 + 4 * of_nat (length xs)) s) = Some t \<longrightarrow>
        (\<exists>f n u. fragment w (0x1000 + 4 * of_nat (length xs)) = Some f \<and> arm_run n s = Some u \<and>
           agrees (arm_decode w) (0x1000 + 4 * of_nat (length xs) + 4) (a_pc s + of_nat (4 * length f)) t u)"
    using origin_call_simulates [OF g(1,2) I] by blast
  define s where "s = goto (org + 4) (state_with 0 []\<lparr>a_mem := memory P'\<rparr>)"
  have o19: "decode_imm19_offset 0xB4000040 = 8"
    by (simp add: decode_imm19_offset_def bits_def submask_def SignExtend_def)
  have dec: "arm_decode 0xB4000040 = A_CB False True 0 8"
    using arm_decode_class_cb [of "0xB4000040"] o19 by (simp add: literal_defs fld_def)
  have "arm_exec (arm_decode 0xB4000040) (goto (0x1000 + 4 * of_nat (length [0xD503201F :: u32])) s) = Some (goto 0x100C s)"
    by (simp add: dec branch_if_def s_def get_x_def state_with_def goto_def)
  moreover have "fragments [0xD503201F] 0x1000 = Some [Wd 0xD503201F]" by (simp add: fragment_def literal_defs)
  moreover have "supported 0xB4000040" by (simp add: supported_def literal_defs)
  ultimately obtain n u and f :: "item list" where "arm_run n s = Some u" "agrees (arm_decode 0xB4000040) 0x1008 (a_pc s + of_nat (4 * length f)) (goto 0x100C s) u"
    using sim [rule_format, of "[0xD503201F]" "0xB4000040" "[0xD503201F]" "[Wd 0xD503201F]" s "goto 0x100C s"]
    by (auto simp: sample_code_def s_def goto_def)
  then show ?thesis using hook by (auto simp: s_def agrees_def dec)
qed

text \<open>
  C3: hooking and destroying is a round trip. After \<^verbatim>\<open>DobbyHook\<close>, \<^verbatim>\<open>DobbyDestroy\<close> on the same address returns success, every byte of
  memory outside the pages of the arena is as before the hook (the prologue included), and the
  registry stands for the same entries as before.
\<close>

theorem hook_destroy_round_trip:
  assumes g: "generates near address replace_call P tramp P0" and h: "patchable k mapped address tramp ws P0"
    and reg: "SharedInstance head (interceptor P) = Inr I" "represents I es" "fresh_node node I"
      "\<not> already_hooked (List.find (\<lambda>e. function_address e = address) es) replace_call"
  shows "\<exists>org P' P'' I''. DobbyHook near (2 ^ k) mapped head node address replace_call P = Some (Inr (RS_SUCCESS, Some org, P')) \<and>
     DobbyDestroy (2 ^ k) head address P' = Some (Inr (RT_SUCCESS, P'')) \<and>
     (\<forall>x. clear k mapped P0 x \<longrightarrow> memory P'' x = memory P0 x) \<and> interceptor P'' = Some I'' \<and> represents I'' es"
proof -
  obtain "is" where "is": "fragments ws address = Some is" using h by (auto simp: patchable_def split: option.splits)
  have len: "length ws \<le> 16" and pg: "in_page k address (4 * length ws)" "k \<le> 64" and code: "holds (memory P0) address (words ws)"
    using h by (simp_all add: patchable_def)
  show ?thesis
  proof (rule DobbyHook_effect [OF g h "is" reg], goal_cases)
    case (1 e P' I')
    obtain I'' where I'': "RemoveHookEntry address I' = Some (Inr I'')" "represents I'' es"
      using RemoveHookEntry_list [OF 1(5), of address] 1(6) by auto
    define P'' where "P'' = P'\<lparr>memory := write_bytes address (words ws) (memory P'),
        protection := (protection P')(page_of (2 ^ k) address \<mapsto> kReadExecute), interceptor := Some I''\<rparr>"
    have "unat (ucast (chunk_length (origin_chunk e)) :: u32) = 4 * length ws"
    proof -
      have "unat (of_nat (4 * length ws) :: u64) = 4 * length ws" using len by (simp only: unat_of_nat) simp
      then show ?thesis using 1(7) len by (simp add: init_region_range_def unsigned_ucast_eq take_bit_nat_eq_self del: of_nat_mult)
    qed
    moreover have "CodePatch (2 ^ k) address (words ws) (P'\<lparr>interceptor := Some I'\<rparr>) = Inr (P'\<lparr>interceptor := Some I',
        memory := write_bytes address (words ws) (memory P'), protection := (protection P')(page_of (2 ^ k) address \<mapsto> kReadExecute)\<rparr>)"
      using CodePatch_in_page [of k address "words ws" "P'\<lparr>interceptor := Some I'\<rparr>"] pg 1(9) by simp
    ultimately have "DobbyDestroy (2 ^ k) head address P' = Some (Inr (RT_SUCCESS, P''))"
      using 1(4,6,8) I''(1) by (simp add: DobbyDestroy_def SharedInstance_def FindHookEntry_list [OF 1(5)] P''_def)
    moreover have "memory P'' x = memory P0 x" if "clear k mapped P0 x" for x
      using 1(10) that code [unfolded holds_nth, rule_format, of "unat (x - address)"]
      by (cases "unat (x - address) < 4 * length ws") (simp_all add: P''_def write_bytes_def)
    moreover have "interceptor P'' = Some I''" by (simp add: P''_def)
    ultimately show ?thesis using 1(1) I''(2) by blast
  qed
qed

theorem hook_destroy_round_trip_witness:
  "\<exists>org P' P''. DobbyHook None (2 ^ 12) 0x7000 0x100 0x200 0x1000 0x2000 sample_process = Some (Inr (RS_SUCCESS, Some org, P')) \<and>
     DobbyDestroy (2 ^ 12) 0x100 0x1000 P' = Some (Inr (RT_SUCCESS, P'')) \<and>
     map (memory P'') [0x1000, 0x1003, 0x1004, 0x1007] = [0x1F, 0xD5, 0x40, 0xB4]"
proof -
  obtain tramp where g: "generates None 0x1000 0x2000 sample_process tramp sample_process"
      "patchable 12 0x7000 0x1000 tramp sample_code sample_process" using sample_hookable by (rule hookable_generates)
  obtain I where I: "SharedInstance 0x100 (interceptor sample_process) = Inr I" "represents I []" "fresh_node 0x200 I"
    "\<not> already_hooked (List.find (\<lambda>e. function_address e = 0x1000) []) 0x2000" by (rule sample_registry)
  obtain org P' P'' where hook: "DobbyHook None (2 ^ 12) 0x7000 0x100 0x200 0x1000 0x2000 sample_process = Some (Inr (RS_SUCCESS, Some org, P'))"
    and d: "DobbyDestroy (2 ^ 12) 0x100 0x1000 P' = Some (Inr (RT_SUCCESS, P''))"
    and m: "\<forall>x. clear 12 0x7000 sample_process x \<longrightarrow> memory P'' x = memory sample_process x"
    using hook_destroy_round_trip [OF g(1,2) I] by blast
  have "clear 12 0x7000 sample_process x" if "x \<in> {0x1000, 0x1003, 0x1004, 0x1007}" for x
    using that by (auto simp: clear_def covers_def arena_covers_def arena_pages_def sample_process_def)
  then have "map (memory P'') [0x1000, 0x1003, 0x1004, 0x1007] = map (memory sample_process) [0x1000, 0x1003, 0x1004, 0x1007]"
    using m by simp
  also have "\<dots> = [0x1F, 0xD5, 0x40, 0xB4]" by (simp add: sample_process_def write_bytes_def sample_code_def words_def le_bytes_def)
  finally have "map (memory P'') [0x1000, 0x1003, 0x1004, 0x1007] = [0x1F, 0xD5, 0x40, 0xB4]" .
  with hook d show ?thesis by (intro exI conjI)
qed

end
