(* ===== verification/Instrument.thy ===== *)
theory Instrument
  imports InlineHook ClosureBridge
begin

text \<open>
  Installing an instrumentation on ARM64: \<^verbatim>\<open>DynamicBinaryInstrumentRouting\<close> (\<^verbatim>\<open>dynamic-binary-instrument.cc\<close>) and \<^verbatim>\<open>DobbyInstrument\<close>
  (\<^verbatim>\<open>DynamicBinaryInstrumentExport.cc\<close>). \<open>common\<close> and \<open>dispatch\<close> are the addresses of \<^verbatim>\<open>intercept_routing_common_bridge_handler\<close>
  and of \<^verbatim>\<open>instrument_routing_dispatch\<close>, \<open>cte\<close> and \<open>entry\<close> those of the closure trampoline entry and of the hook entry that
  \<^verbatim>\<open>new\<close> returns, \<open>bridge\<close> is the static variable of \<open>get_closure_bridge\<close>. \<open>mapped\<close> numbers the pages that the
  system maps if the arena needs them: for the bridge, the closure trampoline and the relocated code.
\<close>

section \<open>Routing\<close>

definition BuildDynamicBinaryInstrumentRouting ::
  "near_plugin option \<Rightarrow> bool \<Rightarrow> int \<Rightarrow> (nat \<Rightarrow> addr) \<Rightarrow> addr \<Rightarrow> addr \<Rightarrow> addr \<Rightarrow> addr \<Rightarrow> addr \<Rightarrow> HookEntry \<Rightarrow> InterceptRouting \<Rightarrow> process \<Rightarrow>
     (asm_fault + (ClosureTrampolineEntry \<times> addr \<times> InterceptRouting \<times> process)) option" where
  "BuildDynamicBinaryInstrumentRouting near full page_size mapped common dispatch bridge cte entry e r P =
     bindR (Some (CreateClosureTrampoline full page_size (mapped 0) (mapped 1) common bridge cte entry dispatch P)) (\<lambda>(c, bridge, P).
     let r = r\<lparr>trampoline_target := cte_address c\<rparr> in
     bindR (GenerateTrampolineBuffer near (function_address e) (trampoline_target r) r P) (\<lambda>(r, P).
       Some (Inr (c, bridge, r, P))))"

definition InstrumentDispatchRouting ::
  "near_plugin option \<Rightarrow> bool \<Rightarrow> int \<Rightarrow> (nat \<Rightarrow> addr) \<Rightarrow> addr \<Rightarrow> addr \<Rightarrow> addr \<Rightarrow> addr \<Rightarrow> addr \<Rightarrow> HookEntry \<Rightarrow> InterceptRouting \<Rightarrow> process \<Rightarrow>
     (asm_fault + (ClosureTrampolineEntry \<times> addr \<times> HookEntry \<times> InterceptRouting \<times> process)) option" where
  "InstrumentDispatchRouting near full page_size mapped common dispatch bridge cte entry e r P =
     bindR (BuildDynamicBinaryInstrumentRouting near full page_size mapped common dispatch bridge cte entry e r P) (\<lambda>(c, bridge, r, P).
     case trampoline_buffer r of
       None \<Rightarrow> Some (Inl Null_pointer)
     | Some bs \<Rightarrow>
         Some (bindE (GenerateRelocatedCode page_size (mapped 2) (length bs) e r P) (\<lambda>(_, e, r, P). Inr (c, bridge, e, r, P))))"

section \<open>DobbyInstrument\<close>

text \<open>The route of an entry that is found is taken for an instrumentation, whatever its class.\<close>

definition already_instrumented :: "HookEntry option \<Rightarrow> addr \<Rightarrow> bool" where
  "already_instrumented found handler = (case found of None \<Rightarrow> False | Some e \<Rightarrow> routing_argument (route e) = handler)"

text \<open>The result carries the closure trampoline entry where one is made, and the bridge.\<close>

definition DobbyInstrument ::
  "near_plugin option \<Rightarrow> bool \<Rightarrow> int \<Rightarrow> (nat \<Rightarrow> addr) \<Rightarrow> addr \<Rightarrow> addr \<Rightarrow> addr \<Rightarrow> addr \<Rightarrow> addr \<Rightarrow> addr \<Rightarrow> addr \<Rightarrow> addr \<Rightarrow> addr \<Rightarrow> process \<Rightarrow>
     (asm_fault + (int \<times> ClosureTrampolineEntry option \<times> addr \<times> process)) option" where
  "DobbyInstrument near full page_size mapped common dispatch head node bridge cte entry address handler P =
     (if address = 0 then Some (Inr (RS_FAILED, None, bridge, P))
      else
        bindR (Some (SharedInstance head (interceptor P))) (\<lambda>I.
        bindR (FindHookEntry address I) (\<lambda>found.
        if already_instrumented found handler then Some (Inr (RS_FAILED, None, bridge, P\<lparr>interceptor := Some I\<rparr>))
        else
          bindR (GetHookEntryCount I) (\<lambda>count.
          bindR (InstrumentDispatchRouting near full page_size mapped common dispatch bridge cte entry
              ((new_HookEntry count address)\<lparr>entry_type := kDynamicBinaryInstrument\<rparr>) (new_InterceptRouting handler) P) (\<lambda>(c, bridge, e, r, P).
          bindR (Some (AddHookEntry node (e\<lparr>route := r\<rparr>) I)) (\<lambda>I.
          bindR (Some (Commit page_size r (P\<lparr>interceptor := Some I\<rparr>))) (\<lambda>P.
            Some (Inr (RS_SUCCESS, Some c, bridge, P)))))))))"

end
