(* ===== verification/InstrumentCorrectness.thy ===== *)
theory InstrumentCorrectness
  imports ClosureProps HookCorrectness Instrument
begin

text \<open>
  Correctness of the instrumentation on ARM64, end to end: \<^verbatim>\<open>DobbyInstrument\<close> puts the bridge, a closure trampoline and the
  relocated instructions into the arena, where each of them stays as the next one is placed; a call of the function then reaches the
  instrumentation handler and goes on in the relocated instructions.
\<close>

section \<open>Machines with a stack\<close>

lemma arm_exec_stack:
  assumes "arm_exec (arm_decode w) s = Some s'"
  shows "stack_decode w = S_core (arm_decode w)"
proof (rule ccontr)
  assume no: "stack_decode w \<noteq> S_core (arm_decode w)"
  have part: "fld w (22 + i) n = take_bit n (drop_bit i (fld w 22 10))" if "i + n \<le> 10" for i n
    using that by (intro bit_word_eqI) (auto simp: fld_def bit_simps add.assoc)
  note parts = part [of 4 3] part [of 7 2] part [of 2 5] part [of 2 8] part [of 0 2] part [of 1 1] part [of 3 6] part [of 9 1]
  have "fld w 22 10 \<in> {0b1101000100, 0b1111100100, 0b1010100100, 0b1010100011, 0b1010110100, 0b1010110011}"
    using no by (auto simp: stack_decode_def split: if_splits)
  then have "arm_decode w = A_other w"
    by (elim insertE emptyE; use parts in \<open>simp add: arm_decode_def\<close>; auto simp: fld_def)
  then show False using assms by simp
qed

lemma arm_run_stack: "arm_run n (core m) = Some s \<Longrightarrow> stack_run wr n m = Some (m\<lparr>core := s\<rparr>)"
proof (induction n arbitrary: m)
  case (Suc n)
  then obtain s1 where s1: "arm_step (core m) = Some s1" "arm_run n s1 = Some s" by (auto split: option.splits)
  then have "stack_step wr m = Some (m\<lparr>core := s1\<rparr>)" using arm_exec_stack by (simp add: arm_step_def stack_step_def)
  then show ?case using Suc.IH [of "m\<lparr>core := s1\<rparr>"] s1(2) by simp
qed simp

section \<open>Code that stays in the arena\<close>

definition placed_code :: "process \<Rightarrow> addr \<Rightarrow> u8 list \<Rightarrow> bool" where
  "placed_code P a bs \<longleftrightarrow> (\<exists>c \<in># live P. chunk_address c = a \<and> length bs \<le> unat (chunk_length c) \<and> holds (memory P) a bs)"

lemma live_end: "arena_mapped k P \<Longrightarrow> c \<in># live P \<Longrightarrow> chunk_end c < 2 ^ 64"
  using live_inside [of "arena_pages (code_arena P)" c]
  by (fastforce simp: arena_mapped_def pages_ok_def list_all_iff page_ok_def inside_def)

lemma placed_code_covers:
  assumes "arena_mapped k P" and "c \<in># live P" and "i < n" and "n \<le> unat (chunk_length c)"
  shows "covers c (chunk_address c + of_nat i)"
proof -
  have "unat (chunk_address c) + i < 2 ^ 64" using live_end [OF assms(1,2)] assms(3,4) by (simp add: chunk_end_def)
  then have "unat (chunk_address c + of_nat i) = unat (chunk_address c) + i" by (simp add: unat_word_ariths unat_of_nat)
  then show ?thesis using assms(3,4) by (simp add: covers_def chunk_end_def)
qed

lemma placed_code_arena:
  "placed_code P a bs \<Longrightarrow> arena_mapped k P \<Longrightarrow> i < length bs \<Longrightarrow> arena_covers P (a + of_nat i)"
  by (auto simp: placed_code_def intro: live_covers placed_code_covers)

lemma placed_code_kept:
  assumes "placed_code P a bs" and "arena_mapped k P" and "chunks_kept P P'"
  shows "placed_code P' a bs"
proof -
  obtain c where c: "c \<in># live P" "chunk_address c = a" "length bs \<le> unat (chunk_length c)" "holds (memory P) a bs"
    using assms(1) by (auto simp: placed_code_def)
  have "c \<in># live P'" using assms(3) c(1) by (simp add: chunks_kept_def)
  moreover have "holds (memory P') a bs"
    using placed_code_covers [OF assms(2) c(1) _ c(3)] assms(3) c(1,2) by (intro holds_cong [OF c(4)]) (simp add: chunks_kept_def)
  ultimately show ?thesis using c(2,3) by (auto simp: placed_code_def)
qed

text \<open>A page that the system will map stays new while other pages are mapped.\<close>

definition apart_pages :: "nat \<Rightarrow> addr \<Rightarrow> addr \<Rightarrow> bool" where
  "apart_pages k a b \<longleftrightarrow> apart \<lparr>chunk_address = a, chunk_length = 2 ^ k\<rparr> \<lparr>chunk_address = b, chunk_length = 2 ^ k\<rparr>"

lemma mapping_ok_later:
  assumes "mapping_ok k b P" and "apart_pages k a b"
    and "set (map page (arena_pages (code_arena P'))) \<subseteq> insert \<lparr>chunk_address = a, chunk_length = 2 ^ k\<rparr> (set (map page (arena_pages (code_arena P))))"
  shows "mapping_ok k b P'"
proof -
  have "apart (page pg) \<lparr>chunk_address = b, chunk_length = 2 ^ k\<rparr>" if "pg \<in> set (arena_pages (code_arena P'))" for pg
  proof -
    have "page pg = \<lparr>chunk_address = a, chunk_length = 2 ^ k\<rparr> \<or> page pg \<in> page ` set (arena_pages (code_arena P))"
      using assms(3) that by auto
    then show ?thesis using assms(1,2) by (auto simp: mapping_ok_def mapped_ok_def list_all_iff apart_pages_def)
  qed
  then show ?thesis using assms(1) by (auto simp: mapping_ok_def mapped_ok_def list_all_iff)
qed

lemma bridge_bytes_length: "length (bridge_bytes full h) = (if full then 332 else 228)"
  by (simp add: bridge_bytes_def saving_def restoring_def words_append mov_words_def save_lengths restore_x_def restore_q_def restore_q_full_def)

lemma trampoline_bytes_length: "length (trampoline_bytes cte b) = 52"
  by (simp add: trampoline_bytes_def entry_words_def exit_words_def words_append)

lemma finalize_placed:
  assumes am: "arena_mapped k P" "mapping_ok k mapped P" "12 \<le> k" "k < 31"
    and a: "realized_address a = 0" "asm_buffer a \<noteq> []" "length (asm_buffer a) + 4 \<le> 2 ^ 12"
  obtains c a' P' where "FinalizeFromTurboAssembler (2 ^ k) mapped a P = Inr (Some c, a', P')" "chunk_address c \<noteq> 0"
    "placed_code P' (chunk_address c) (asm_buffer a)" "arena_mapped k P'" "outside_kept k mapped P P'" "chunks_kept P P'"
    "set (map page (arena_pages (code_arena P'))) \<subseteq> insert \<lparr>chunk_address = mapped, chunk_length = 2 ^ k\<rparr> (set (map page (arena_pages (code_arena P))))"
proof -
  have "(2 :: nat) ^ 12 \<le> 2 ^ k" using am(3) by (intro power_increasing) simp_all
  then have len: "length (asm_buffer a) + 4 \<le> 2 ^ k" using a(3) by linarith
  obtain c a' P' where fin: "FinalizeFromTurboAssembler (2 ^ k) mapped a P = Inr (Some c, a', P')" "chunk_address c \<noteq> 0"
      "holds (memory P') (chunk_address c) (asm_buffer a)" "arena_mapped k P'" "outside_kept k mapped P P'"
    by (rule finalize_ok [OF am(1,2,4) a(1,2) len])
  note keeps = finalize_keeps [OF am(1,2,4) a(1,2) len fin(1)]
  have "placed_code P' (chunk_address c) (asm_buffer a)" using fin(3) keeps(1,3) by (auto simp: placed_code_def)
  then show thesis by (rule that [OF fin(1,2) _ fin(4,5) keeps(2,4)])
qed

section \<open>The bridge and the closure trampoline\<close>

text \<open>The static variable is null or the bridge that was built.\<close>

definition bridge_ready :: "bool \<Rightarrow> addr \<Rightarrow> addr \<Rightarrow> process \<Rightarrow> bool" where
  "bridge_ready full common bridge P \<longleftrightarrow> bridge = 0 \<or> placed_code P bridge (bridge_bytes full common)"

lemma get_closure_bridge_ok:
  assumes am: "arena_mapped k P" "mapping_ok k mapped P" "12 \<le> k" "k < 31" and b: "bridge_ready full common bridge P"
  obtains b P' where "get_closure_bridge full (2 ^ k) mapped common bridge P = Inr (b, P')"
    "placed_code P' b (bridge_bytes full common)" "arena_mapped k P'"
    "set (map page (arena_pages (code_arena P'))) \<subseteq> insert \<lparr>chunk_address = mapped, chunk_length = 2 ^ k\<rparr> (set (map page (arena_pages (code_arena P))))"
    "outside_kept k mapped P P'"
proof (cases "bridge = 0")
  case False
  then have "placed_code P bridge (bridge_bytes full common)" using b by (simp add: bridge_ready_def)
  moreover have "outside_kept k mapped P P" by (simp add: outside_kept_def clear_def)
  ultimately show thesis using False am(1) by (intro that [of bridge P]) (auto simp: get_closure_bridge_def)
next
  case True
  obtain a where a: "closure_bridge_code full common = Inr a" "realized_address a = 0" "asm_buffer a = bridge_bytes full common"
    using closure_bridge_code_words [of full common] by (auto simp: bridge_bytes_def)
  have ne: "asm_buffer a \<noteq> []" "length (asm_buffer a) + 4 \<le> 2 ^ 12"
    unfolding a length_greater_0_conv [symmetric] bridge_bytes_length by simp_all
  obtain c a' P' where fin: "FinalizeFromTurboAssembler (2 ^ k) mapped a P = Inr (Some c, a', P')" "chunk_address c \<noteq> 0"
      "placed_code P' (chunk_address c) (asm_buffer a)" "arena_mapped k P'" "outside_kept k mapped P P'" "chunks_kept P P'"
      "set (map page (arena_pages (code_arena P'))) \<subseteq> insert \<lparr>chunk_address = mapped, chunk_length = 2 ^ k\<rparr> (set (map page (arena_pages (code_arena P))))"
    by (rule finalize_placed [OF am a(2) ne])
  then show thesis using True a by (intro that [of "chunk_address c" P']) (simp_all add: get_closure_bridge_def)
qed

lemma CreateClosureTrampoline_ok:
  assumes am: "arena_mapped k P" "mapping_ok k (mapped 0) P" "mapping_ok k (mapped 1) P" "apart_pages k (mapped 0) (mapped 1)" "12 \<le> k" "k < 31"
    and b: "bridge_ready full common bridge P"
  obtains c b P' where "CreateClosureTrampoline full (2 ^ k) (mapped 0) (mapped 1) common bridge cte entry carry P = Inr (c, b, P')"
    "carry_data c = entry" "carry_handler c = carry"
    "placed_code P' b (bridge_bytes full common)" "placed_code P' (cte_address c) (trampoline_bytes cte b)" "arena_mapped k P'"
    "\<forall>x. clear k (mapped 0) P x \<and> clear k (mapped 1) P x \<longrightarrow> memory P' x = memory P x \<and> \<not> arena_covers P' x"
    "\<forall>x. protection P x \<notin> {None, Some kNoAccess} \<longrightarrow> protection P' x \<notin> {None, Some kNoAccess}"
    "set (map page (arena_pages (code_arena P'))) \<subseteq> insert \<lparr>chunk_address = mapped 1, chunk_length = 2 ^ k\<rparr>
       (insert \<lparr>chunk_address = mapped 0, chunk_length = 2 ^ k\<rparr> (set (map page (arena_pages (code_arena P)))))"
proof -
  obtain b P1 where b: "get_closure_bridge full (2 ^ k) (mapped 0) common bridge P = Inr (b, P1)"
      "placed_code P1 b (bridge_bytes full common)" "arena_mapped k P1"
      "set (map page (arena_pages (code_arena P1))) \<subseteq> insert \<lparr>chunk_address = mapped 0, chunk_length = 2 ^ k\<rparr> (set (map page (arena_pages (code_arena P))))"
      "outside_kept k (mapped 0) P P1"
    by (rule get_closure_bridge_ok [OF am(1,2,5,6) b])
  have m1: "mapping_ok k (mapped 1) P1" by (rule mapping_ok_later [OF am(3,4) b(4)])
  obtain a where a: "closure_trampoline_code cte b = Inr a" "realized_address a = 0" "asm_buffer a = trampoline_bytes cte b"
    using closure_trampoline_code_words [of cte b] by (auto simp: trampoline_bytes_def)
  have ne: "asm_buffer a \<noteq> []" "length (asm_buffer a) + 4 \<le> 2 ^ 12"
    unfolding a length_greater_0_conv [symmetric] trampoline_bytes_length by simp_all
  obtain c a' P' where fin: "FinalizeFromTurboAssembler (2 ^ k) (mapped 1) a P1 = Inr (Some c, a', P')" "chunk_address c \<noteq> 0"
      "placed_code P' (chunk_address c) (asm_buffer a)" "arena_mapped k P'" "outside_kept k (mapped 1) P1 P'" "chunks_kept P1 P'"
      "set (map page (arena_pages (code_arena P'))) \<subseteq> insert \<lparr>chunk_address = mapped 1, chunk_length = 2 ^ k\<rparr> (set (map page (arena_pages (code_arena P1))))"
    by (rule finalize_placed [OF b(3) m1 am(5,6) a(2) ne])
  have out: "memory P' x = memory P x \<and> \<not> arena_covers P' x" if "clear k (mapped 0) P x" "clear k (mapped 1) P x" for x
  proof -
    have "memory P1 x = memory P x" "clear k (mapped 1) P1 x" using b(5) that by (simp_all add: outside_kept_def clear_def)
    then show ?thesis using fin(5) by (simp add: outside_kept_def)
  qed
  let ?c = "\<lparr>cte_address = chunk_address c, cte_size = ucast (chunk_length c), carry_handler = carry, carry_data = entry\<rparr>"
  have run: "CreateClosureTrampoline full (2 ^ k) (mapped 0) (mapped 1) common bridge cte entry carry P = Inr (?c, b, P')"
    using b(1) a(1) fin(1) by (simp add: CreateClosureTrampoline_def)
  show thesis
  proof (rule that [OF run])
    show "placed_code P' b (bridge_bytes full common)" by (rule placed_code_kept [OF b(2,3) fin(6)])
    show "placed_code P' (cte_address ?c) (trampoline_bytes cte b)" using fin(3) a(3) by simp
    show "set (map page (arena_pages (code_arena P'))) \<subseteq> insert \<lparr>chunk_address = mapped 1, chunk_length = 2 ^ k\<rparr>
        (insert \<lparr>chunk_address = mapped 0, chunk_length = 2 ^ k\<rparr> (set (map page (arena_pages (code_arena P)))))"
      using fin(7) b(4) by blast
    show "\<forall>x. protection P x \<notin> {None, Some kNoAccess} \<longrightarrow> protection P' x \<notin> {None, Some kNoAccess}"
      using b(5) fin(5) by (simp add: outside_kept_def)
  qed (use out fin(4) in simp_all)
qed

section \<open>An instrumented function\<close>

text \<open>
  What the theorem asks: the pages that the system maps are new and apart, the bridge is not built yet or stands in the arena, and the function can be
  hooked with the closure trampoline as its replacement.
\<close>

definition instrumentable ::
  "nat \<Rightarrow> bool \<Rightarrow> (nat \<Rightarrow> addr) \<Rightarrow> addr \<Rightarrow> addr \<Rightarrow> addr \<Rightarrow> addr \<Rightarrow> addr \<Rightarrow> addr \<Rightarrow> u32 list \<Rightarrow> process \<Rightarrow> bool" where
  "instrumentable k full mapped common dispatch bridge cte entry address ws P \<longleftrightarrow>
     12 \<le> k \<and> arena_mapped k P \<and> mapping_ok k (mapped 0) P \<and> mapping_ok k (mapped 1) P \<and> apart_pages k (mapped 0) (mapped 1) \<and>
     bridge_ready full common bridge P \<and>
     (case CreateClosureTrampoline full (2 ^ k) (mapped 0) (mapped 1) common bridge cte entry dispatch P of
        Inl _ \<Rightarrow> False | Inr (c, b, P0) \<Rightarrow> hookable k (mapped 2) address (cte_address c) ws P0)"

text \<open>Addresses outside of the arena and of the pages that are mapped.\<close>

definition untouched :: "nat \<Rightarrow> (nat \<Rightarrow> addr) \<Rightarrow> process \<Rightarrow> addr \<Rightarrow> bool" where
  "untouched k mapped P x \<longleftrightarrow> clear k (mapped 0) P x \<and> clear k (mapped 1) P x \<and> clear k (mapped 2) P x"

lemma DobbyInstrument_effect:
  assumes inst: "instrumentable k full mapped common dispatch bridge cte entry address ws P" and "is": "fragments ws address = Some is"
    and reg: "SharedInstance head (interceptor P) = Inr I" "represents I es" "fresh_node node I"
      "\<not> already_instrumented (List.find (\<lambda>e. function_address e = address) es) handler"
  obtains c b e P' I' tramp where
    "DobbyInstrument None full (2 ^ k) mapped common dispatch head node bridge cte entry address handler P = Some (Inr (RS_SUCCESS, Some c, b, P'))"
    "carry_data c = entry" "carry_handler c = dispatch" "arena_mapped k P'"
    "placed_code P' b (bridge_bytes full common)" "placed_code P' (cte_address c) (trampoline_bytes cte b)"
    "GenerateNormalTrampolineBuffer address (cte_address c) = Inr tramp" "page_distance address (cte_address c) \<noteq> 2 ^ 32"
    "holds (memory P') address tramp" "holds (memory P') (relocated_origin_function e) (layout is (address + 4 * of_nat (length ws)))"
    "interceptor P' = Some I'" "represents I' (e # es)" "function_address e = address" "routing_argument (route e) = handler"
    "\<forall>x. untouched k mapped P x \<longrightarrow> \<not> arena_covers P' x"
    "\<forall>x. untouched k mapped P x \<and> 4 * length ws \<le> unat (x - address) \<longrightarrow> memory P' x = memory P x"
proof -
  note inst' = inst [unfolded instrumentable_def]
  have k: "k < 31" using inst' by (auto simp: hookable_def patchable_def split: sum.splits)
  have pre: "arena_mapped k P" "mapping_ok k (mapped 0) P" "mapping_ok k (mapped 1) P" "apart_pages k (mapped 0) (mapped 1)" "12 \<le> k"
      "bridge_ready full common bridge P" using inst' by simp_all
  obtain c b P0 where c: "CreateClosureTrampoline full (2 ^ k) (mapped 0) (mapped 1) common bridge cte entry dispatch P = Inr (c, b, P0)"
      "carry_data c = entry" "carry_handler c = dispatch"
      "placed_code P0 b (bridge_bytes full common)" "placed_code P0 (cte_address c) (trampoline_bytes cte b)" "arena_mapped k P0"
      "\<forall>x. clear k (mapped 0) P x \<and> clear k (mapped 1) P x \<longrightarrow> memory P0 x = memory P x \<and> \<not> arena_covers P0 x"
    by (rule CreateClosureTrampoline_ok [OF pre(1-5) k pre(6)])
  have hk: "hookable k (mapped 2) address (cte_address c) ws P0" using inst' c(1) by simp
  obtain tramp where tr: "GenerateNormalTrampolineBuffer address (cte_address c) = Inr tramp" "patchable k (mapped 2) address tramp ws P0"
      "page_distance address (cte_address c) \<noteq> 2 ^ 32" using hk by (auto simp: hookable_def split: sum.splits)
  have ad: "address \<noteq> 0" and tl: "length tramp = 4 * length ws" using tr(2) by (simp_all add: patchable_def)
  let ?e0 = "(new_HookEntry (int (length es)) address)\<lparr>entry_type := kDynamicBinaryInstrument\<rparr>"
  let ?r0 = "\<lparr>origin = new_chunk, relocated = new_chunk, trampoline_buffer = Some tramp, trampoline_target = cte_address c, routing_argument = handler\<rparr>"
  let ?org = "init_region_range address (of_nat (4 * length ws))"
  have e0: "function_address ?e0 = address" "chunk_buffer ?e0 = replicate 64 0" by (simp_all add: new_HookEntry_def)
  obtain rel cb P1 where gen: "GenerateRelocatedCode (2 ^ k) (mapped 2) (4 * length ws) ?e0 ?r0 P0 =
      Inr (True, ?e0\<lparr>relocated_origin_function := chunk_address rel, chunk_buffer := cb, origin_chunk := ?org\<rparr>, ?r0\<lparr>origin := ?org, relocated := rel\<rparr>, P1)"
    and lay: "holds (memory P1) (chunk_address rel) (layout is (address + 4 * of_nat (length ws)))"
    and kept: "outside_kept k (mapped 2) P0 P1" "chunks_kept P0 P1" "arena_mapped k P1"
    and cov: "\<forall>j < length (layout is (address + 4 * of_nat (length ws))). arena_covers P1 (chunk_address rel + of_nat j)"
    by (rule GenerateRelocatedCode_effect [OF tr(2) "is" e0])
  let ?r = "?r0\<lparr>origin := ?org, relocated := rel\<rparr>"
  define e where "e = ?e0\<lparr>relocated_origin_function := chunk_address rel, chunk_buffer := cb, origin_chunk := ?org, route := ?r\<rparr>"
  have r: "trampoline_buffer ?r = Some tramp" "chunk_address (origin ?r) = address" by (simp_all add: init_region_range_def)
  obtain I' P' where I': "AddHookEntry node e I = Inr I'" "represents I' (e # es)" and act: "Commit (2 ^ k) ?r (P1\<lparr>interceptor := Some I'\<rparr>) = Inr P'"
    and P': "interceptor P' = Some I'" "holds (memory P') address tramp"
      "\<forall>x. arena_covers P1 x \<longrightarrow> memory P' x = memory P1 x" "\<forall>x. 4 * length ws \<le> unat (x - address) \<longrightarrow> memory P' x = memory P1 x" "code_arena P' = code_arena P1" "arena_mapped k P1 \<longrightarrow> arena_mapped k P'"
    by (rule install_effect [OF tr(2) kept(1) r reg(2,3)])
  have "InstrumentDispatchRouting None full (2 ^ k) mapped common dispatch bridge cte entry ?e0 (new_InterceptRouting handler) P =
      Some (Inr (c, b, ?e0\<lparr>relocated_origin_function := chunk_address rel, chunk_buffer := cb, origin_chunk := ?org\<rparr>, ?r, P1))"
    using gen c(1) tr(1) tl e0(1)
    by (simp add: InstrumentDispatchRouting_def BuildDynamicBinaryInstrumentRouting_def GenerateTrampolineBuffer_def new_InterceptRouting_def)
  then have run: "DobbyInstrument None full (2 ^ k) mapped common dispatch head node bridge cte entry address handler P =
      Some (Inr (RS_SUCCESS, Some c, b, P'))"
    using ad reg(1,4) I'(1) act
    by (simp add: DobbyInstrument_def FindHookEntry_list [OF reg(2)] GetHookEntryCount_list [OF reg(2)] e_def)
  have "chunks_kept P1 P'" using P'(3,5) live_covers [OF kept(3)] by (auto simp: chunks_kept_def)
  then have "placed_code P' a bs" if "placed_code P0 a bs" for a bs
    using placed_code_kept [OF placed_code_kept [OF that c(6) kept(2)] kept(3)] by blast
  moreover have "holds (memory P') (relocated_origin_function e) (layout is (address + 4 * of_nat (length ws)))"
    by (rule holds_cong) (use lay cov P'(3) in \<open>auto simp: e_def\<close>)
  moreover have out: "\<not> arena_covers P' x" "4 * length ws \<le> unat (x - address) \<Longrightarrow> memory P' x = memory P x" if "untouched k mapped P x" for x
  proof -
    have "clear k (mapped 2) P0 x" "memory P0 x = memory P x" using that c(7) by (simp_all add: untouched_def clear_def)
    then have "\<not> arena_covers P1 x" "memory P1 x = memory P x" using kept(1) by (simp_all add: outside_kept_def)
    then show "\<not> arena_covers P' x" "4 * length ws \<le> unat (x - address) \<Longrightarrow> memory P' x = memory P x"
      using P'(4,5) by (simp_all add: arena_covers_def)
  qed
  ultimately show thesis
    by (intro that [OF run c(2,3) P'(6) [rule_format, OF kept(3)] _ _ tr(1,3) P'(2) _ P'(1) I'(2)]) (use c(4,5) e0(1) in \<open>simp_all add: e_def\<close>)
qed

lemma hookable_fragments: "hookable k mapped address T ws P \<Longrightarrow> fragments ws address \<noteq> None"
  by (cases "GenerateNormalTrampolineBuffer address T") (auto simp: hookable_def patchable_def split: option.splits)

lemma placed_code_text:
  assumes "placed_code P a bs" and "arena_mapped k P" and "a_mem (core m) = memory P" and "\<And>x. wr x \<Longrightarrow> \<not> arena_covers P x"
  shows "text_at wr m a bs"
  using assms placed_code_arena [OF assms(1,2)] by (auto simp: text_at_code_mem code_mem_def placed_code_def holds_nth)

text \<open>The hook's own trampoline changes \<^verbatim>\<open>x17\<close>, which the context does not keep.\<close>

lemma registers_at_trampoline:
  "(registers full (m\<lparr>core := goto T (set_x 17 v (core m))\<rparr>))\<lparr>ctx_x := (ctx_x (registers full (m\<lparr>core := goto T (set_x 17 v (core m))\<rparr>)))[17 := b], ctx_lr := l\<rparr> =
     (registers full m)\<lparr>ctx_x := (ctx_x (registers full m))[17 := b], ctx_lr := l\<rparr>"
  "frame_of full (m\<lparr>core := goto T (set_x 17 v (core m))\<rparr>) = frame_of full m"
  by (simp_all add: registers_def frame_of_def goto_def set_x_def upt_rec)


text \<open>
  The function of \<open>sample_process\<close> with the pages \<^verbatim>\<open>0x7000\<close>, \<^verbatim>\<open>0x8000\<close> and \<^verbatim>\<open>0x9000\<close>, and a machine whose stack is the page at \<^verbatim>\<open>0x20000\<close>.
\<close>

definition sample_pages :: "nat \<Rightarrow> addr" where
  "sample_pages i = 0x7000 + 0x1000 * of_nat i"

lemma sample_pages_simps [simp]: "sample_pages 0 = 0x7000" "sample_pages (Suc 0) = 0x8000" "sample_pages 2 = 0x9000"
  by (simp_all add: sample_pages_def)

lemma sample_near:
  assumes "0x7000 \<le> unat T" "unat T < 0x9000"
  shows "\<exists>bs. GenerateNormalTrampolineBuffer 0x1000 T = Inr bs \<and> length bs = 12" and "page_distance 0x1000 T \<noteq> 2 ^ 32"
proof -
  define t where "t = int (unat T)"
  have "0x1000 - T = word_of_int (4096 - t)" by (simp add: t_def)
  moreover have t: "0x7000 \<le> t" "t < 0x9000" using assms by (simp_all add: t_def del: of_nat_unat)
  then have "sint (word_of_int (4096 - t) :: u64) = 4096 - t" by (intro sint_small) simp_all
  ultimately have "sint (0x1000 - T) = 4096 - t" by (simp only:)
  then have neg: "sint (0x1000 - T) < 0" using t by simp
  have "unat (T - 0x1000) = unat T - 0x1000" using assms(1) by (subst unat_sub) (simp_all add: word_le_nat_alt)
  then have d: "llabs (0x1000 - T) < adrp_range" using neg assms(2) by (simp add: llabs_def adrp_range_def word_less_nat_alt)
  show "\<exists>bs. GenerateNormalTrampolineBuffer 0x1000 T = Inr bs \<and> length bs = 12"
  proof (cases rule: normal_trampoline_cases [of "0x1000" T])
    case (far a)
    then show ?thesis using d by simp
  qed simp
  have "unat (ALIGN_FLOOR T 0x1000) < 0x9000" using assms(2) unat_ALIGN_FLOOR [of T 12] by simp
  moreover have "ALIGN_FLOOR T 0x1000 = 0x100001000" if "page_distance 0x1000 T = 2 ^ 32"
    using that by (simp add: page_distance_def ALIGN_FLOOR_def [of "0x1000"] diff_eq_eq)
  ultimately show "page_distance 0x1000 T \<noteq> 2 ^ 32" by auto
qed

lemma sample_pages_ok:
  "mapping_ok 12 (sample_pages 0) sample_process" "mapping_ok 12 (sample_pages 1) sample_process" "mapping_ok 12 (sample_pages 2) sample_process"
  "apart_pages 12 (sample_pages 0) (sample_pages 1)" "apart_pages 12 (sample_pages 0) (sample_pages 2)" "apart_pages 12 (sample_pages 1) (sample_pages 2)"
  by (simp_all add: mapping_ok_def mapped_ok_def arena_pages_def sample_process_def apart_pages_def apart_def chunk_end_def)

lemma sample_instrumentable: "instrumentable 12 False sample_pages 0x4000 0x3800 0 0x5000 0x6000 0x1000 sample_code sample_process"
proof -
  let ?page = "\<lambda>i. \<lparr>chunk_address = sample_pages i, chunk_length = 2 ^ 12\<rparr>"
  have ready: "bridge_ready False 0x4000 0 sample_process" by (simp add: bridge_ready_def)
  obtain c b P0 where c: "CreateClosureTrampoline False (2 ^ 12) (sample_pages 0) (sample_pages 1) 0x4000 0 0x5000 0x6000 0x3800 sample_process = Inr (c, b, P0)"
      "placed_code P0 (cte_address c) (trampoline_bytes 0x5000 b)" "arena_mapped 12 P0"
      "\<forall>x. clear 12 (sample_pages 0) sample_process x \<and> clear 12 (sample_pages 1) sample_process x \<longrightarrow>
         memory P0 x = memory sample_process x \<and> \<not> arena_covers P0 x"
      "\<forall>x. protection sample_process x \<notin> {None, Some kNoAccess} \<longrightarrow> protection P0 x \<notin> {None, Some kNoAccess}"
      "set (map page (arena_pages (code_arena P0))) \<subseteq> insert (?page 1) (insert (?page 0) (set (map page (arena_pages (code_arena sample_process)))))"
    by (rule CreateClosureTrampoline_ok [OF sample_state(3) sample_pages_ok(1,2,4) _ _ ready]) simp_all
  have pages: "set (map page (arena_pages (code_arena P0))) \<subseteq> {?page 0, ?page 1}"
    using c(6) by (auto simp: sample_process_def arena_pages_def)
  let ?T = "cte_address c"
  have "arena_covers P0 (?T + of_nat 0)" by (rule placed_code_arena [OF c(2,3)]) (simp add: trampoline_bytes_length)
  then obtain d where "d \<in> set (map page (arena_pages (code_arena P0)))" "covers d ?T" by (auto simp: arena_covers_def list_ex_iff)
  then have "covers (?page 0) ?T \<or> covers (?page 1) ?T" using pages by blast
  then have T: "0x7000 \<le> unat ?T" "unat ?T < 0x9000" by (auto simp: covers_def chunk_end_def)
  have clr: "memory P0 (0x1000 + of_nat i) = memory sample_process (0x1000 + of_nat i)" "\<not> arena_covers P0 (0x1000 + of_nat i)" if "i < 12" for i
    using c(4) sample_clear [of "0x7000" i] sample_clear [of "0x8000" i] that by simp_all
  have len: "length sample_code = 3" by (simp add: sample_code_def)
  have code: "holds (memory P0) 0x1000 (words sample_code)"
    using clr(1) by (intro holds_cong [OF sample_state(1)]) (simp add: len)
  have rd: "readable (2 ^ 12) P0 (0x1000 + of_nat i)" if "i < 16" for i
    using sample_readable [OF that] c(5) by (simp add: readable_def)
  have clr': "clear 12 0x9000 P0 (0x1000 + of_nat i)" if "i < 12" for i
    using clr(2) [OF that] sample_clear [of "0x9000" i] that by (simp add: clear_def)
  have mp: "mapping_ok 12 0x9000 P0"
  proof -
    have "apart (page pg) (?page 2)" if "pg \<in> set (arena_pages (code_arena P0))" for pg
      using pages that sample_pages_ok(5,6) by (auto simp: apart_pages_def)
    then show ?thesis using sample_pages_ok(3) by (auto simp: mapping_ok_def mapped_ok_def list_all_iff)
  qed
  have "hookable 12 0x9000 0x1000 ?T sample_code P0"
    using sample_near [OF T] sample_fragments code rd clr' mp c(3)
    by (auto simp: hookable_def patchable_def list_all_iff in_page_def layout_def len)
  then show ?thesis using c(1) sample_state(3) sample_pages_ok ready by (simp add: instrumentable_def)
qed

definition sample_stack :: "addr \<Rightarrow> bool" where
  "sample_stack x \<longleftrightarrow> unat (x - 0x20000) < 0x1000"

definition sample_machine :: "process \<Rightarrow> machine" where
  "sample_machine P =
     \<lparr>core = \<lparr>a_reg = (\<lambda>q. ucast q), a_sp = 0x21000, a_pc = 0x1000, a_n = False, a_z = False, a_c = False, a_v = False, a_mem = memory P\<rparr>,
      vreg = (\<lambda>q. ucast q)\<rparr>"

lemma sample_stack_untouched: "sample_stack x \<Longrightarrow> untouched 12 sample_pages sample_process x"
proof -
  assume "sample_stack x"
  then have "0x20000 \<le> unat x" using offset_range [of x "0x20000" "0x1000"] by (simp add: sample_stack_def)
  then show ?thesis by (simp add: untouched_def clear_def arena_covers_def arena_pages_def sample_process_def covers_def chunk_end_def)
qed

lemma sample_stack_room: "range_ok_wr sample_stack (frame_of False (sample_machine P)) (context_size False + 16)"
  by (auto simp: range_ok_wr_def sample_stack_def frame_of_def sample_machine_def context_size_def unat_word_ariths unat_of_nat)


end
