(* ===== verification/X64Assembler.thy ===== *)
theory X64Assembler
  imports Arm64Assembler
begin

text \<open>
  The x64 assembler: \<^verbatim>\<open>registers-x64.h\<close>, \<^verbatim>\<open>constants-x64.h\<close>, \<^verbatim>\<open>assembler-x64.h\<close>, \<^verbatim>\<open>assembler-x64.cc\<close>, \<^verbatim>\<open>code-buffer-x64.cc\<close> and
  \<^verbatim>\<open>codegen-x64.cc\<close>. As for ARM64, the code buffer is the list of its bytes. The bytes of an operand are the list of
  those that were set (\<^verbatim>\<open>length_\<close> is its length); \<^verbatim>\<open>ASSERT\<close> is empty. Names that the ARM64 assembler has too carry the prefix
  \<open>x64\<close>.
\<close>

section \<open>Registers and constants\<close>

record x64_Register =
  rcode :: u8
  rsize :: nat

definition x64_Create :: "u8 \<Rightarrow> nat \<Rightarrow> x64_Register" where
  "x64_Create code n = \<lparr>rcode = code, rsize = n\<rparr>"

definition x64_from_code :: "u8 \<Rightarrow> x64_Register" where
  "x64_from_code code = \<lparr>rcode = code, rsize = 0\<rparr>"

definition low_bits :: "x64_Register \<Rightarrow> u8" where "low_bits r = rcode r AND 7"
definition high_bit :: "x64_Register \<Rightarrow> u8" where "high_bit r = drop_bit 3 (rcode r)"

definition rax :: x64_Register where "rax = x64_Create 0 64"
definition rcx :: x64_Register where "rcx = x64_Create 1 64"
definition rdx :: x64_Register where "rdx = x64_Create 2 64"
definition rbx :: x64_Register where "rbx = x64_Create 3 64"
definition rsp :: x64_Register where "rsp = x64_Create 4 64"
definition rbp :: x64_Register where "rbp = x64_Create 5 64"
definition rsi :: x64_Register where "rsi = x64_Create 6 64"
definition rdi :: x64_Register where "rdi = x64_Create 7 64"
definition r8 :: x64_Register where "r8 = x64_Create 8 64"
definition r9 :: x64_Register where "r9 = x64_Create 9 64"
definition r10 :: x64_Register where "r10 = x64_Create 10 64"
definition r11 :: x64_Register where "r11 = x64_Create 11 64"
definition r12 :: x64_Register where "r12 = x64_Create 12 64"
definition r13 :: x64_Register where "r13 = x64_Create 13 64"
definition r14 :: x64_Register where "r14 = x64_Create 14 64"
definition r15 :: x64_Register where "r15 = x64_Create 15 64"

definition VOLATILE_REGISTER :: x64_Register where "VOLATILE_REGISTER = r11"

definition TIMES_1 :: u8 where "TIMES_1 = 0"
definition TIMES_2 :: u8 where "TIMES_2 = 1"
definition TIMES_4 :: u8 where "TIMES_4 = 2"
definition TIMES_8 :: u8 where "TIMES_8 = 3"

definition RexBit_NONE :: u8 where "RexBit_NONE = 0"
definition RexBit_B :: u8 where "RexBit_B = push_bit 0 1"
definition RexBit_X :: u8 where "RexBit_X = push_bit 1 1"
definition RexBit_R :: u8 where "RexBit_R = push_bit 2 1"
definition RexBit_W :: u8 where "RexBit_W = push_bit 3 1"
definition REX_PREFIX :: u8 where "REX_PREFIX = push_bit 6 1"

lemmas x64_register_defs = rax_def rcx_def rdx_def rbx_def rsp_def rbp_def rsi_def rdi_def r8_def r9_def r10_def r11_def
  r12_def r13_def r14_def r15_def x64_Create_def
lemmas rex_bit_defs = RexBit_NONE_def RexBit_B_def RexBit_X_def RexBit_R_def RexBit_W_def REX_PREFIX_def

section \<open>Immediates\<close>

record x64_Immediate =
  imm_value :: u64
  imm_size :: nat

text \<open>A value of 16 bits gets the size 8.\<close>

definition Immediate :: "u64 \<Rightarrow> x64_Immediate" where
  "Immediate imm =
     \<lparr>imm_value = imm,
      imm_size = (if scast (ucast imm :: u8) = imm then 8
                  else if scast (ucast imm :: u16) = imm then 8
                  else if scast (ucast imm :: u32) = imm then 32
                  else 64)\<rparr>"

definition Immediate_sized :: "u64 \<Rightarrow> nat \<Rightarrow> x64_Immediate" where
  "Immediate_sized imm n = \<lparr>imm_value = imm, imm_size = n\<rparr>"

section \<open>Operands and addresses\<close>

record x64_Operand =
  opnd_rex :: u8
  encoding :: "u8 list"

definition new_x64_Operand :: x64_Operand where
  "new_x64_Operand = \<lparr>opnd_rex = RexBit_NONE, encoding = []\<rparr>"

definition rex_b :: "x64_Operand \<Rightarrow> u8" where "rex_b opnd = opnd_rex opnd AND RexBit_B"
definition rex_x :: "x64_Operand \<Rightarrow> u8" where "rex_x opnd = opnd_rex opnd AND RexBit_X"

definition x64_modrm :: "x64_Operand \<Rightarrow> u8" where "x64_modrm opnd = encoding opnd ! 0"
definition x64_mod :: "x64_Operand \<Rightarrow> u8" where "x64_mod opnd = drop_bit 6 (encoding opnd ! 0) AND 3"

definition x64_rm :: "x64_Operand \<Rightarrow> x64_Register" where
  "x64_rm opnd = x64_from_code (push_bit 3 (rex_b opnd) + (encoding opnd ! 0 AND 7))"

definition x64_scale :: "x64_Operand \<Rightarrow> u8" where "x64_scale opnd = drop_bit 6 (encoding opnd ! 1) AND 3"

definition x64_index :: "x64_Operand \<Rightarrow> x64_Register" where
  "x64_index opnd = x64_from_code (push_bit 2 (rex_x opnd) + (drop_bit 3 (encoding opnd ! 1) AND 7))"

definition x64_base :: "x64_Operand \<Rightarrow> x64_Register" where
  "x64_base opnd = x64_from_code (push_bit 3 (rex_b opnd) + (encoding opnd ! 1 AND 7))"

definition x64_disp8 :: "x64_Operand \<Rightarrow> u8" where "x64_disp8 opnd = last (encoding opnd)"

text \<open>The cast is of the byte at the position of the displacement, not of the four bytes.\<close>

definition x64_disp32 :: "x64_Operand \<Rightarrow> u32" where
  "x64_disp32 opnd = ucast (encoding opnd ! (length (encoding opnd) - 4))"

definition SetModRM :: "u8 \<Rightarrow> x64_Register \<Rightarrow> x64_Operand \<Rightarrow> x64_Operand" where
  "SetModRM md rm opnd =
     \<lparr>opnd_rex = (if 7 < rcode rm \<and> \<not> (rcode rm = rcode r12 \<and> md \<noteq> 3) then opnd_rex opnd OR RexBit_B else opnd_rex opnd),
      encoding = [push_bit 6 md OR (rcode rm AND 7)]\<rparr>"

definition SetSIB :: "u8 \<Rightarrow> x64_Register \<Rightarrow> x64_Register \<Rightarrow> x64_Operand \<Rightarrow> x64_Operand" where
  "SetSIB scale index base opnd =
     (let rex = (if 7 < rcode base then opnd_rex opnd OR RexBit_B else opnd_rex opnd);
          rex = (if 7 < rcode index then rex OR RexBit_X else rex)
      in \<lparr>opnd_rex = rex,
          encoding = take 1 (encoding opnd) @ [push_bit 6 scale OR push_bit 3 (rcode index AND 7) OR (rcode base AND 7)]\<rparr>)"

definition SetDisp8 :: "u32 \<Rightarrow> x64_Operand \<Rightarrow> x64_Operand" where
  "SetDisp8 disp opnd = opnd\<lparr>encoding := encoding opnd @ [ucast disp]\<rparr>"

definition SetDisp32 :: "u32 \<Rightarrow> x64_Operand \<Rightarrow> x64_Operand" where
  "SetDisp32 disp opnd = opnd\<lparr>encoding := encoding opnd @ le_bytes 4 disp\<rparr>"

definition IsInt8 :: "u32 \<Rightarrow> bool" where
  "IsInt8 imm \<longleftrightarrow> - 128 \<le> sint imm \<and> sint imm \<le> 127"

definition sib_for_rsp :: "x64_Register \<Rightarrow> x64_Operand \<Rightarrow> x64_Operand" where
  "sib_for_rsp base opnd = (if rcode base AND 7 = rcode rsp then SetSIB TIMES_1 rsp base opnd else opnd)"

definition Address :: "x64_Register \<Rightarrow> u32 \<Rightarrow> x64_Operand" where
  "Address base disp =
     (if disp = 0 \<and> rcode base AND 7 \<noteq> rcode rbp then sib_for_rsp base (SetModRM 0 base new_x64_Operand)
      else if IsInt8 disp then SetDisp8 disp (sib_for_rsp base (SetModRM 1 base new_x64_Operand))
      else SetDisp32 disp (sib_for_rsp base (SetModRM 2 base new_x64_Operand)))"

definition Address_index :: "x64_Register \<Rightarrow> u8 \<Rightarrow> u32 \<Rightarrow> x64_Operand" where
  "Address_index index scale disp = SetDisp32 disp (SetSIB scale index rbp (SetModRM 0 rsp new_x64_Operand))"

definition Address_base_index :: "x64_Register \<Rightarrow> x64_Register \<Rightarrow> u8 \<Rightarrow> u32 \<Rightarrow> x64_Operand" where
  "Address_base_index base index scale disp =
     (if disp = 0 \<and> rcode base AND 7 \<noteq> rcode rbp then SetSIB scale index base (SetModRM 0 rsp new_x64_Operand)
      else if IsInt8 disp then SetDisp8 disp (SetSIB scale index base (SetModRM 1 rsp new_x64_Operand))
      else SetDisp32 disp (SetSIB scale index base (SetModRM 2 rsp new_x64_Operand)))"

section \<open>The assembler\<close>

datatype x64_PseudoLabelType = kDisp32_off_9

record x64_PseudoLabelInstruction =
  x64_position :: int
  x64_instr_type :: x64_PseudoLabelType

record x64_RelocLabelEntry = Label +
  x64_instructions :: "x64_PseudoLabelInstruction list"
  x64_label_data :: u64

definition new_x64_RelocLabelEntry :: "u64 \<Rightarrow> x64_RelocLabelEntry" where
  "new_x64_RelocLabelEntry d = \<lparr>label_pos = 0, near_link_pos = 0, x64_instructions = [], x64_label_data = d\<rparr>"

definition x64_link_to :: "int \<Rightarrow> x64_PseudoLabelType \<Rightarrow> x64_RelocLabelEntry \<Rightarrow> x64_RelocLabelEntry" where
  "x64_link_to p t l = l\<lparr>x64_instructions := x64_instructions l @ [\<lparr>x64_position = p, x64_instr_type = t\<rparr>]\<rparr>"

record x64_Assembler =
  x64_buffer :: "u8 list"
  x64_realized :: addr
  x64_labels :: "x64_RelocLabelEntry list"

definition new_x64_Assembler :: "addr \<Rightarrow> x64_Assembler" where
  "new_x64_Assembler address = \<lparr>x64_buffer = [], x64_realized = address, x64_labels = []\<rparr>"

definition ip_offset :: "x64_Assembler \<Rightarrow> int" where "ip_offset a = int (length (x64_buffer a))"

definition x64_EmitBuffer :: "u8 list \<Rightarrow> x64_Assembler \<Rightarrow> x64_Assembler" where
  "x64_EmitBuffer bs a = a\<lparr>x64_buffer := x64_buffer a @ bs\<rparr>"

definition Emit1 :: "u8 \<Rightarrow> x64_Assembler \<Rightarrow> x64_Assembler" where "Emit1 v = x64_EmitBuffer [v]"
definition x64_Emit32 :: "u32 \<Rightarrow> x64_Assembler \<Rightarrow> x64_Assembler" where "x64_Emit32 v = x64_EmitBuffer (le_bytes 4 v)"
definition x64_Emit64 :: "u64 \<Rightarrow> x64_Assembler \<Rightarrow> x64_Assembler" where "x64_Emit64 v = x64_EmitBuffer (le_bytes 8 v)"

definition x64_FixBindLabel :: "int \<Rightarrow> u32 \<Rightarrow> x64_Assembler \<Rightarrow> asm_fault + x64_Assembler" where
  "x64_FixBindLabel off disp a =
     (if off < 0 then Inl Wild_access
      else bindE (store_at (nat off) (le_bytes 4 disp) (x64_buffer a)) (\<lambda>bs. Inr (a\<lparr>x64_buffer := bs\<rparr>)))"

definition EmitOptionalRex :: "bool \<Rightarrow> bool \<Rightarrow> bool \<Rightarrow> bool \<Rightarrow> bool \<Rightarrow> u8" where
  "EmitOptionalRex force w r x b =
     (if force then 0x40 else 0) OR (if w then 0x48 else 0) OR (if r then 0x44 else 0) OR (if x then 0x42 else 0)
     OR (if b then 0x41 else 0)"

definition Emit_rex :: "u8 \<Rightarrow> x64_Assembler \<Rightarrow> x64_Assembler" where
  "Emit_rex rex a = (if rex \<noteq> 0 then Emit1 rex a else a)"

definition Emit_64REX :: "u8 \<Rightarrow> x64_Assembler \<Rightarrow> x64_Assembler" where
  "Emit_64REX extra = Emit_rex (EmitOptionalRex False True False False False OR extra)"

definition EmitREX_ExtraRegister :: "x64_Register \<Rightarrow> x64_Assembler \<Rightarrow> x64_Assembler" where
  "EmitREX_ExtraRegister reg = Emit_rex (EmitOptionalRex False (rsize reg = 64) (7 < rcode reg) False (7 < rcode reg))"

definition EmitREX_Register :: "x64_Register \<Rightarrow> x64_Assembler \<Rightarrow> x64_Assembler" where
  "EmitREX_Register reg = Emit_rex (EmitOptionalRex False (rsize reg = 64) (7 < rcode reg) False False)"

definition EmitREX_Register_Operand :: "x64_Register \<Rightarrow> x64_Operand \<Rightarrow> x64_Assembler \<Rightarrow> asm_fault + x64_Assembler" where
  "EmitREX_Register_Operand reg operand a =
     (if rsize reg \<noteq> 64 then Inl Abort_unimplemented
      else Inr (Emit_rex (opnd_rex operand OR EmitOptionalRex True (rsize reg = 64) (7 < rcode reg) False False) a))"

definition EmitREX_Operand :: "x64_Operand \<Rightarrow> x64_Assembler \<Rightarrow> x64_Assembler" where
  "EmitREX_Operand operand = Emit_rex (opnd_rex operand OR REX_PREFIX)"

definition EmitImmediate :: "x64_Immediate \<Rightarrow> nat \<Rightarrow> x64_Assembler \<Rightarrow> asm_fault + x64_Assembler" where
  "EmitImmediate imm n a =
     (if n = 8 then Inr (Emit1 (ucast (imm_value imm)) a)
      else if n = 32 then Inr (x64_Emit32 (ucast (imm_value imm)) a)
      else if n = 64 then Inr (x64_Emit64 (imm_value imm) a)
      else Inl Abort_unreachable)"

text \<open>The fields are shifted into place without being cut to their width.\<close>

definition EmitModRM :: "u8 \<Rightarrow> u8 \<Rightarrow> u8 \<Rightarrow> x64_Assembler \<Rightarrow> x64_Assembler" where
  "EmitModRM md reg_opcode rm = Emit1 (push_bit 6 md OR push_bit 3 reg_opcode OR rm)"

definition ModRM_Mod :: "u8 \<Rightarrow> u8" where "ModRM_Mod byte = drop_bit 6 (byte AND 0b11000000)"
definition ModRM_RM :: "u8 \<Rightarrow> u8" where "ModRM_RM byte = byte AND 0b00000111"

definition EmitModRM_ExtraOpcode_Register :: "u8 \<Rightarrow> x64_Register \<Rightarrow> x64_Assembler \<Rightarrow> x64_Assembler" where
  "EmitModRM_ExtraOpcode_Register extra_opcode reg = EmitModRM 3 extra_opcode (rcode reg)"

definition EmitModRM_Register_Register :: "x64_Register \<Rightarrow> x64_Register \<Rightarrow> x64_Assembler \<Rightarrow> x64_Assembler" where
  "EmitModRM_Register_Register reg1 reg2 = EmitModRM 3 (rcode reg1) (rcode reg2)"

definition EmitModRM_Update_Register :: "u8 \<Rightarrow> x64_Register \<Rightarrow> x64_Assembler \<Rightarrow> x64_Assembler" where
  "EmitModRM_Update_Register modRM reg = EmitModRM (ModRM_Mod modRM) (low_bits reg) (ModRM_RM modRM)"

definition EmitModRM_Update_ExtraOpcode :: "u8 \<Rightarrow> u8 \<Rightarrow> x64_Assembler \<Rightarrow> x64_Assembler" where
  "EmitModRM_Update_ExtraOpcode modRM extra_opcode = EmitModRM (ModRM_Mod modRM) extra_opcode (ModRM_RM modRM)"

definition EmitOpcode :: "u8 \<Rightarrow> x64_Assembler \<Rightarrow> x64_Assembler" where "EmitOpcode opcode = Emit1 opcode"

definition EmitOpcode_Register :: "u8 \<Rightarrow> x64_Register \<Rightarrow> x64_Assembler \<Rightarrow> x64_Assembler" where
  "EmitOpcode_Register opcode reg = EmitOpcode (opcode OR low_bits reg)"

definition Emit_OpEn_Register_MemOperand :: "x64_Register \<Rightarrow> x64_Operand \<Rightarrow> x64_Assembler \<Rightarrow> x64_Assembler" where
  "Emit_OpEn_Register_MemOperand dst operand a =
     x64_EmitBuffer (drop 1 (encoding operand)) (EmitModRM_Update_Register (x64_modrm operand) dst a)"

definition Emit_OpEn_Register_RegOperand :: "x64_Register \<Rightarrow> x64_Register \<Rightarrow> x64_Assembler \<Rightarrow> x64_Assembler" where
  "Emit_OpEn_Register_RegOperand dst src = EmitModRM_Register_Register dst src"

definition Emit_OpEn_MemOperand :: "u8 \<Rightarrow> x64_Operand \<Rightarrow> x64_Assembler \<Rightarrow> x64_Assembler" where
  "Emit_OpEn_MemOperand extra_opcode operand a =
     x64_EmitBuffer (drop 1 (encoding operand)) (EmitModRM_Update_ExtraOpcode (x64_modrm operand) extra_opcode a)"

definition Emit_OpEn_MemOperand_Immediate ::
  "u8 \<Rightarrow> x64_Operand \<Rightarrow> x64_Immediate \<Rightarrow> x64_Assembler \<Rightarrow> asm_fault + x64_Assembler" where
  "Emit_OpEn_MemOperand_Immediate extra_opcode operand imm a =
     EmitImmediate imm (imm_size imm)
       (x64_EmitBuffer (drop 1 (encoding operand)) (EmitModRM_Update_ExtraOpcode (x64_modrm operand) extra_opcode a))"

definition Emit_OpEn_RegOperand_Immediate ::
  "u8 \<Rightarrow> x64_Register \<Rightarrow> x64_Immediate \<Rightarrow> x64_Assembler \<Rightarrow> asm_fault + x64_Assembler" where
  "Emit_OpEn_RegOperand_Immediate extra_opcode reg imm a =
     EmitImmediate imm (imm_size imm) (EmitModRM_ExtraOpcode_Register extra_opcode reg a)"

definition Emit_OpEn_RegOperand :: "u8 \<Rightarrow> x64_Register \<Rightarrow> x64_Assembler \<Rightarrow> x64_Assembler" where
  "Emit_OpEn_RegOperand extra_opcode reg = EmitModRM_ExtraOpcode_Register extra_opcode reg"

definition Emit_OpEn_OpcodeRegister_Immediate ::
  "u8 \<Rightarrow> x64_Register \<Rightarrow> x64_Immediate \<Rightarrow> x64_Assembler \<Rightarrow> asm_fault + x64_Assembler" where
  "Emit_OpEn_OpcodeRegister_Immediate opcode dst imm a = EmitImmediate imm (imm_size imm) (EmitOpcode_Register opcode dst a)"

section \<open>Instructions\<close>

definition x64_pushfq :: "x64_Assembler \<Rightarrow> x64_Assembler" where "x64_pushfq = Emit1 0x9C"

definition x64_jmp :: "x64_Immediate \<Rightarrow> x64_Assembler \<Rightarrow> x64_Assembler" where
  "x64_jmp imm a = x64_Emit32 (ucast (imm_value imm)) (Emit1 0xE9 a)"

definition x64_sub :: "x64_Register \<Rightarrow> x64_Immediate \<Rightarrow> x64_Assembler \<Rightarrow> asm_fault + x64_Assembler" where
  "x64_sub dst imm a = Emit_OpEn_RegOperand_Immediate 5 dst imm (EmitOpcode 0x81 (EmitREX_Register dst a))"

definition x64_add :: "x64_Register \<Rightarrow> x64_Immediate \<Rightarrow> x64_Assembler \<Rightarrow> asm_fault + x64_Assembler" where
  "x64_add dst imm a = Emit_OpEn_RegOperand_Immediate 0 dst imm (EmitOpcode 0x81 (EmitREX_Register dst a))"

definition x64_mov_imm :: "x64_Register \<Rightarrow> x64_Immediate \<Rightarrow> x64_Assembler \<Rightarrow> asm_fault + x64_Assembler" where
  "x64_mov_imm dst imm a = Emit_OpEn_OpcodeRegister_Immediate 0xb8 dst imm (EmitREX_Register dst a)"

definition x64_mov_mem_imm :: "x64_Operand \<Rightarrow> x64_Immediate \<Rightarrow> x64_Assembler \<Rightarrow> asm_fault + x64_Assembler" where
  "x64_mov_mem_imm dst imm a = Emit_OpEn_MemOperand_Immediate 0 dst imm (EmitOpcode 0xc7 (EmitREX_Operand dst a))"

definition x64_mov_load :: "x64_Register \<Rightarrow> x64_Operand \<Rightarrow> x64_Assembler \<Rightarrow> x64_Assembler" where
  "x64_mov_load dst src a = Emit_OpEn_Register_MemOperand dst src (EmitOpcode 0x8B (EmitREX_Register dst a))"

definition x64_mov_store :: "x64_Operand \<Rightarrow> x64_Register \<Rightarrow> x64_Assembler \<Rightarrow> asm_fault + x64_Assembler" where
  "x64_mov_store dst src a =
     bindE (EmitREX_Register_Operand src dst a) (\<lambda>a. Inr (Emit_OpEn_Register_MemOperand src dst (EmitOpcode 0x89 a)))"

definition x64_mov :: "x64_Register \<Rightarrow> x64_Register \<Rightarrow> x64_Assembler \<Rightarrow> x64_Assembler" where
  "x64_mov dst src a = Emit_OpEn_Register_RegOperand dst src (Emit1 0x8B (EmitREX_Register dst a))"

definition x64_call_mem :: "x64_Operand \<Rightarrow> x64_Assembler \<Rightarrow> x64_Assembler" where
  "x64_call_mem operand a = Emit_OpEn_MemOperand 2 operand (EmitOpcode 0xFF (EmitREX_Operand operand a))"

definition x64_call_imm :: "x64_Immediate \<Rightarrow> x64_Assembler \<Rightarrow> asm_fault + x64_Assembler" where
  "x64_call_imm imm a = EmitImmediate imm (imm_size imm) (EmitOpcode 0xe8 a)"

definition x64_call_reg :: "x64_Register \<Rightarrow> x64_Assembler \<Rightarrow> x64_Assembler" where
  "x64_call_reg reg a = Emit_OpEn_RegOperand 2 reg (EmitOpcode 0xFF (EmitREX_Register reg a))"

definition x64_pop :: "x64_Register \<Rightarrow> x64_Assembler \<Rightarrow> x64_Assembler" where
  "x64_pop reg a = EmitOpcode_Register 0x58 reg (EmitREX_ExtraRegister reg a)"

definition x64_push :: "x64_Register \<Rightarrow> x64_Assembler \<Rightarrow> x64_Assembler" where
  "x64_push reg a = EmitOpcode_Register 0x50 reg (EmitREX_ExtraRegister reg a)"

definition x64_ret :: "x64_Assembler \<Rightarrow> x64_Assembler" where "x64_ret = EmitOpcode 0xc3"
definition x64_nop :: "x64_Assembler \<Rightarrow> x64_Assembler" where "x64_nop = EmitOpcode 0x90"

section \<open>The turbo assembler\<close>

definition CurrentIP :: "x64_Assembler \<Rightarrow> addr" where
  "CurrentIP a = word_of_int (ip_offset a) + x64_realized a"

definition MovRipToRegister :: "x64_Register \<Rightarrow> x64_Assembler \<Rightarrow> asm_fault + x64_Assembler" where
  "MovRipToRegister dst a = bindE (x64_call_imm (Immediate_sized 0 32) a) (\<lambda>a. Inr (x64_pop dst a))"

definition x64_AppendRelocLabelEntry :: "x64_RelocLabelEntry \<Rightarrow> x64_Assembler \<Rightarrow> x64_Assembler" where
  "x64_AppendRelocLabelEntry l a = a\<lparr>x64_labels := x64_labels a @ [l]\<rparr>"

definition x64_CallFunction :: "addr \<Rightarrow> x64_Assembler \<Rightarrow> asm_fault + x64_Assembler" where
  "x64_CallFunction f a =
     bindE (MovRipToRegister VOLATILE_REGISTER (x64_nop a)) (\<lambda>a.
       let a = x64_call_mem (Address VOLATILE_REGISTER 0x7fffffff) a;
           l = x64_link_to (ip_offset a) kDisp32_off_9 (new_x64_RelocLabelEntry f)
       in Inr (x64_nop (x64_AppendRelocLabelEntry l a)))"

fun x64_link_confused :: "int \<Rightarrow> x64_PseudoLabelInstruction list \<Rightarrow> x64_Assembler \<Rightarrow> asm_fault + x64_Assembler" where
  "x64_link_confused p [] a = Inr a"
| "x64_link_confused p (i # is) a =
     bindE (case x64_instr_type i of kDisp32_off_9 \<Rightarrow>
              x64_FixBindLabel (x64_position i - 4) (word_of_int (p - x64_position i + 9)) a) (x64_link_confused p is)"

definition x64_PseudoBind :: "x64_RelocLabelEntry \<Rightarrow> x64_Assembler \<Rightarrow> asm_fault + (x64_RelocLabelEntry \<times> x64_Assembler)" where
  "x64_PseudoBind l a =
     (let l = bind_to (ip_offset a) l in
      bindE (x64_link_confused (pos l) (x64_instructions l) a) (\<lambda>a. Inr (l, a)))"

fun x64_reloc_bind_loop :: "x64_RelocLabelEntry list \<Rightarrow> x64_Assembler \<Rightarrow> asm_fault + (x64_RelocLabelEntry list \<times> x64_Assembler)" where
  "x64_reloc_bind_loop [] a = Inr ([], a)"
| "x64_reloc_bind_loop (l # ls) a =
     bindE (x64_PseudoBind l a) (\<lambda>(l, a).
     bindE (x64_reloc_bind_loop ls (x64_Emit64 (x64_label_data l) a)) (\<lambda>(ls, a). Inr (l # ls, a)))"

definition x64_RelocBind :: "x64_Assembler \<Rightarrow> asm_fault + x64_Assembler" where
  "x64_RelocBind a = bindE (x64_reloc_bind_loop (x64_labels a) a) (\<lambda>(ls, a). Inr (a\<lparr>x64_labels := ls\<rparr>))"

section \<open>Code generation\<close>

definition JmpNearIndirect :: "addr \<Rightarrow> x64_Assembler \<Rightarrow> x64_Assembler" where
  "JmpNearIndirect address a =
     (let currIP = CurrentIP a + 6; offset = ucast (address - currIP) :: u32
      in x64_Emit32 offset (Emit1 0x25 (Emit1 0xFF a)))"

end
