(* ===== verification/X86Displacement.thy ===== *)
theory X86Displacement
  imports X86Props
begin

text \<open>
  The displacement of an operand relative to the instruction pointer: what the decoder reports is the little-endian word
  at the offset it reports. The relocation on x64 rests on it.
\<close>

definition disp_read :: "u8 list \<Rightarrow> x86_insn_decode_t \<Rightarrow> bool" where
  "disp_read bs insn \<longleftrightarrow>
     (ip_relative insn \<longrightarrow>
        mem_disp (opr_mem (d_operand1 insn)) = le_word (take 4 (drop (unat (d_displacement_offset insn)) bs)))"

lemma decode_displacement_flags:
  "decode_displacement rd insn n = Inr (rd', insn') \<Longrightarrow> d_flags insn' = d_flags insn"
  by (auto simp: decode_displacement_def upd_mem_def split: if_splits)

lemma decode_displacement_32:
  assumes "rd_at rd i" "i + 4 \<le> 20" "decode_displacement rd insn 32 = Inr (rd', insn')"
  shows "disp_read (rd_buffer rd) insn'"
proof -
  have "ucast (of_nat i :: u32) = (of_nat i :: u8)" using assms(2) by (simp add: unsigned_of_nat take_bit_nat_eq_self)
  moreover have "ucast (ucast w :: u64) = w" for w :: u32 by (rule bit_word_eqI) (auto simp: bit_simps)
  ultimately show ?thesis using assms
    by (auto simp: decode_displacement_def x86_insn_decode_number_def reader_at disp_read_def upd_mem_def)
qed

lemma modrm_sib_disp_read:
  assumes at: "rd_at rd i" and room: "i + 6 \<le> 20" and nip: "\<not> ip_relative insn"
    and res: "x86_insn_decode_modrm_sib rd insn \<lparr>mode = 64\<rparr> = Inr (rd', insn')"
  shows "disp_read (rd_buffer rd) insn'"
proof (cases "ip_relative insn'")
  case True
  have i: "i < 20" "i + 1 < 20" using room by simp_all
  have at1: "rd_at (rd_advance 1 rd) (i + 1)" using at by (rule rd_at_advance)
  define m where "m = rd_buffer rd ! i"
  define rm where "rm = push_bit 3 (REX_B (d_rex insn)) OR modrm_rm m"
  define insn1 where "insn1 = or_flags X86_INSN_DECODE_FLAG_IS_ADDRESS (insn\<lparr>d_modrm := m,
     d_operand0 := (d_operand0 insn)\<lparr>opr_reg := push_bit 3 (REX_R (d_rex insn)) OR modrm_reg m\<rparr>\<rparr>)"
  have nip1: "\<not> ip_relative insn1" using nip by (simp add: insn1_def)
  note base = decode_base_disp_result [OF nip1, of "modrm_mode m" rm]
  let ?st = "decode_base_disp (modrm_mode m) rm insn1"
  have "modrm_mode m \<noteq> 3"
    using res True nip by (auto simp: x86_insn_decode_modrm_sib_def reader_at [OF at] i m_def Let_def)
  moreover obtain ea where ea: "effective_address \<lparr>mode = 64\<rparr> insn1 = Inr ea" "ea = 32 \<or> ea = 64"
    by (auto simp: effective_address_def)
  ultimately have unfold: "x86_insn_decode_modrm_sib rd insn \<lparr>mode = 64\<rparr> =
      bindE (if rm AND 7 = 4 then decode_sib (rd_advance 1 rd) (modrm_mode m) ea ?st else Inr (rd_advance 1 rd, ?st))
        (\<lambda>(rd, st). decode_displacement rd (fst st) (snd st))"
    using i by (auto simp: x86_insn_decode_modrm_sib_def reader_at [OF at] m_def rm_def insn1_def Let_def)
  show ?thesis
  proof (cases "rm AND 7 = 4")
    case sib: True
    obtain st' where st': "decode_sib (rd_advance 1 rd) (modrm_mode m) ea ?st = Inr (rd_advance 1 (rd_advance 1 rd), st')"
        "\<not> ip_relative (fst st')"
      using decode_sib_at [OF at1 i(2) base(2), of "modrm_mode m" ea] base(3) sib by auto
    then have "\<not> ip_relative insn'" using res decode_displacement_flags unfolding unfold by (auto simp: sib)
    then show ?thesis using True by simp
  next
    case no_sib: False
    then have d: "decode_displacement (rd_advance 1 rd) (fst ?st) (snd ?st) = Inr (rd', insn')" using res unfolding unfold by simp
    then have "snd ?st = 32" using base(4) True decode_displacement_flags by metis
    then show ?thesis using decode_displacement_32 [OF at1 _ d [unfolded \<open>snd ?st = 32\<close>]] room by simp
  qed
qed (simp add: disp_read_def)

lemma decode_immediate_keeps:
  assumes "x86_insn_decode_immediate rd insn conf = Inr (rd', insn')"
  shows "disp_read bs insn' = disp_read bs insn"
  using assms by (auto simp: x86_insn_decode_immediate_def disp_read_def split: option.splits if_splits)

lemma decoded_displacement:
  assumes len: "15 \<le> length bs" and pre: "prefix_len \<lparr>mode = 64\<rparr> (take 15 bs) \<le> 9"
    and res: "x86_insn_decode zero_insn bs \<lparr>mode = 64\<rparr> = Inr insn"
  shows "disp_read (take 15 bs @ replicate 5 0xcc) insn"
proof -
  let ?c = "\<lparr>mode = 64\<rparr> :: x86_options_t"
  let ?p = "prefix_len ?c (take 15 bs)"
  let ?insn = "(apply_rex (prefix_rex ?c (take 15 bs)) zero_insn)\<lparr>d_prefix := prefix_set ?c (take 15 bs)\<rparr>"
  obtain rd where at: "rd_at rd ?p" and buf: "rd_buffer rd = take 15 bs @ replicate 5 0xcc"
    and unfold: "x86_insn_decode zero_insn bs ?c =
      bindE (bindE (x86_insn_decode_opcode rd ?insn ?c) (decode_operands ?c)) decode_length"
    using len pre by (rule x86_insn_decode_stages)
  obtain rd1 insn1 where 1: "x86_insn_decode_opcode rd ?insn ?c = Inr (rd1, insn1)" using res unfolding unfold by auto
  obtain rd2 insn2 where 2: "(if x86_insn_has_modrm_byte (d_insn_spec insn1) then x86_insn_decode_modrm_sib rd1 insn1 ?c
      else Inr (rd1, insn1)) = Inr (rd2, insn2)" using res unfolding unfold by (auto simp: 1 decode_operands_def)
  obtain rd3 insn3 where 3: "(if x86_insn_has_immediate (d_insn_spec insn2) then x86_insn_decode_immediate rd2 insn2 ?c
      else Inr (rd2, insn2)) = Inr (rd3, insn3)" "insn = insn3\<lparr>d_length := d_length insn\<rparr>"
    using res unfolding unfold by (auto simp: 1 2 decode_operands_def decode_length_def split: prod.splits)
  have "stage {Unimplemented} rd ?p 2 (opcode_post ?p ?insn) (x86_insn_decode_opcode rd ?insn ?c)"
    using at pre by (intro decode_opcode_stage) auto
  then obtain j where j: "rd_at rd1 j" "rd_buffer rd1 = rd_buffer rd" "?p \<le> j" "j \<le> ?p + 2" "opcode_post ?p ?insn j insn1"
    by (auto simp: 1 stage_Inr)
  have nip: "\<not> ip_relative insn1" using j(5) insn_cleared by (simp add: opcode_post_def)
  have "disp_read (rd_buffer rd) insn2"
  proof (cases "x86_insn_has_modrm_byte (d_insn_spec insn1)")
    case True
    then have "j + 6 \<le> 20" using j(5) pre by (auto simp: opcode_post_def spec_fits_def Let_def)
    then show ?thesis using modrm_sib_disp_read [OF j(1) _ nip] 2 True j(2) by simp
  next
    case False
    then show ?thesis using 2 nip by (simp add: disp_read_def)
  qed
  then have "disp_read (rd_buffer rd) insn3" using 3(1) decode_immediate_keeps by (auto split: if_splits)
  moreover have "disp_read (rd_buffer rd) insn = disp_read (rd_buffer rd) insn3" by (subst 3(2)) (simp add: disp_read_def)
  ultimately show ?thesis using buf by simp
qed

end
