(* ===== verification/X64Relocation.thy ===== *)
theory X64Relocation
  imports X64Assembler ProcessMemory X86Displacement
begin

text \<open>
  Relocation on x64 (\<^verbatim>\<open>X64InstructionRelocation.cc\<close>) and on x86 (\<^verbatim>\<open>X86InstructionRelocation.cc\<close>, the same loop without the
  branch for addresses relative to \<^verbatim>\<open>rip\<close>). \<open>code\<close> holds the bytes that can be read at the address of the function. The
  loop advances by the length that the decoder reports, so it is a partial function into \<open>option\<close>: \<open>None\<close> is a
  loop that does not end. \<^verbatim>\<open>UNIMPLEMENTED\<close> and reads behind \<open>code\<close> are faults.
\<close>

section \<open>One instruction\<close>

definition code_bytes :: "u8 list \<Rightarrow> nat \<Rightarrow> nat \<Rightarrow> x86_fault + u8 list" where
  "code_bytes code i n = (if i + n \<le> length code then Inr (take n (drop i code)) else Inl OutOfBounds)"

text \<open>\<^verbatim>\<open>jcc rel8\<close> becomes the form with a 32-bit distance.\<close>

definition reloc_jcc_rel8 :: "addr \<Rightarrow> addr \<Rightarrow> x86_insn_decode_t \<Rightarrow> u8 list" where
  "reloc_jcc_rel8 curr_orig_ip curr_relo_ip insn =
     (let orig_offset = ucast (d_immediate insn) :: u8;
          new_offset = ucast (curr_orig_ip + scast orig_offset - curr_relo_ip) :: u32
      in [0x0F, 0x80 OR (d_primary_opcode insn AND 0x0f)] @ le_bytes 4 new_offset)"

definition reloc_jmp_rel8 :: "addr \<Rightarrow> addr \<Rightarrow> x86_insn_decode_t \<Rightarrow> u8 list" where
  "reloc_jmp_rel8 curr_orig_ip curr_relo_ip insn =
     (let orig_offset = ucast (d_immediate insn) :: u8;
          new_offset = ucast (curr_orig_ip + scast orig_offset - curr_relo_ip) :: u8
      in [0xE9] @ le_bytes 4 (scast new_offset :: u32))"

definition reloc_rip :: "u8 list \<Rightarrow> nat \<Rightarrow> addr \<Rightarrow> addr \<Rightarrow> x86_insn_decode_t \<Rightarrow> x86_fault + u8 list" where
  "reloc_rip code i curr_orig_ip curr_relo_ip insn =
     (let orig_disp = mem_disp (opr_mem (d_operand1 insn));
          new_disp = ucast (curr_orig_ip + scast orig_disp - curr_relo_ip) :: u32;
          imm = unat (d_immediate_offset insn)
      in bindE (code_bytes code i (unat (d_displacement_offset insn))) (\<lambda>front.
         bindE (if imm \<noteq> 0 then code_bytes code (i + imm) (unat (d_length insn) - imm) else Inr []) (\<lambda>tail.
           Inr (front @ le_bytes 4 new_disp @ tail))))"

definition reloc_rel32 :: "u8 list \<Rightarrow> nat \<Rightarrow> addr \<Rightarrow> addr \<Rightarrow> x86_insn_decode_t \<Rightarrow> x86_fault + u8 list" where
  "reloc_rel32 code i curr_orig_ip curr_relo_ip insn =
     (let orig_offset = ucast (d_immediate insn) :: u32;
          offset = ucast (curr_orig_ip + scast orig_offset - curr_relo_ip) :: u32
      in bindE (code_bytes code i (unat (d_immediate_offset insn))) (\<lambda>front. Inr (front @ le_bytes 4 offset)))"

definition uses_rip :: "x86_insn_decode_t \<Rightarrow> bool" where
  "uses_rip insn \<longleftrightarrow>
     d_flags insn AND X86_INSN_DECODE_FLAG_IP_RELATIVE \<noteq> 0 \<and> mem_base (opr_mem (d_operand1 insn)) = ia32e_value RIP"

text \<open>The body of the loop; \<open>rip\<close> tells whether the branch for \<^verbatim>\<open>rip\<close> is there (x64).\<close>

definition relocate_insn :: "bool \<Rightarrow> u8 list \<Rightarrow> nat \<Rightarrow> addr \<Rightarrow> addr \<Rightarrow> x86_insn_decode_t \<Rightarrow> x86_fault + u8 list" where
  "relocate_insn rip code i curr_orig_ip curr_relo_ip insn =
     (let opcode = d_primary_opcode insn in
      if 0x70 \<le> opcode \<and> opcode \<le> 0x7F then Inr (reloc_jcc_rel8 curr_orig_ip curr_relo_ip insn)
      else if opcode = 0xEB then Inr (reloc_jmp_rel8 curr_orig_ip curr_relo_ip insn)
      else if rip \<and> uses_rip insn then reloc_rip code i curr_orig_ip curr_relo_ip insn
      else if opcode = 0xE8 \<or> opcode = 0xE9 then reloc_rel32 code i curr_orig_ip curr_relo_ip insn
      else if 0xE0 \<le> opcode \<and> opcode \<le> 0xE2 then Inl Unimplemented
      else if opcode = 0xE3 then Inl Unimplemented
      else code_bytes code i (unat (d_length insn)))"

section \<open>The loop and the branch back\<close>

partial_function (option) x64_relocate_loop ::
  "x86_options_t \<Rightarrow> u8 list \<Rightarrow> nat \<Rightarrow> addr \<Rightarrow> nat \<Rightarrow> addr \<Rightarrow> x64_Assembler \<Rightarrow> (x86_fault + (addr \<times> x64_Assembler)) option" where
  "x64_relocate_loop conf code n start i curr_orig_ip a =
     (if i < n then
        (case x86_insn_decode zero_insn (drop i code) conf of
           Inl e \<Rightarrow> Some (Inl e)
         | Inr insn \<Rightarrow>
             (case relocate_insn (mode conf = 64) code i curr_orig_ip (start + word_of_int (ip_offset a)) insn of
                Inl e \<Rightarrow> Some (Inl e)
              | Inr bs \<Rightarrow>
                  x64_relocate_loop conf code n start (i + unat (d_length insn)) (curr_orig_ip + ucast (d_length insn))
                    (x64_EmitBuffer bs a)))
      else Some (Inr (curr_orig_ip, a)))"

text \<open>\<^verbatim>\<open>RT_SUCCESS\<close> is \<open>True\<close>; the result also has the bytes and the new range of the origin.\<close>

definition x64_GenRelocateCodeFixed ::
  "u8 list \<Rightarrow> MemoryChunk \<Rightarrow> MemoryChunk \<Rightarrow> (x86_fault + (bool \<times> u8 list \<times> MemoryChunk)) option" where
  "x64_GenRelocateCodeFixed code org rel =
     (case x64_relocate_loop \<lparr>mode = 64\<rparr> code (unat (chunk_length org)) (chunk_address rel) 0 (chunk_address org)
             (new_x64_Assembler (chunk_address rel)) of
        None \<Rightarrow> None
      | Some (Inl e) \<Rightarrow> Some (Inl e)
      | Some (Inr (curr_orig_ip, a)) \<Rightarrow>
          (let curr_relo_ip = chunk_address rel + word_of_int (ip_offset a);
               a = x64_Emit64 curr_orig_ip (JmpNearIndirect (curr_relo_ip + 6) a);
               org = init_region_range (chunk_address org) (curr_orig_ip - chunk_address org)
           in Some (Inr (length (x64_buffer a) \<le> unat (chunk_length rel), x64_buffer a, org))))"

text \<open>
  The finished code goes to the chunk by \<^verbatim>\<open>AssemblyCodeBuilder::FinalizeFromTurboAssembler\<close>, whose assembler has the address of
  the chunk.
\<close>

datatype x64_fault = In_code x86_fault | In_memory asm_fault

definition x64_place :: "int \<Rightarrow> addr \<Rightarrow> u8 list \<Rightarrow> process \<Rightarrow> x64_fault + process" where
  "x64_place page_size address bs P =
     (case CodePatch page_size address bs P of Inl f \<Rightarrow> Inl (In_memory f) | Inr P \<Rightarrow> Inr P)"

text \<open>
  The retry with a larger chunk; the chunk that was too small stays allocated (\<^verbatim>\<open>MemoryArena::Destroy\<close> is empty).
  \<open>mapped k\<close> is the page that the system maps in attempt \<open>k\<close> if the arena needs one.
\<close>

partial_function (option) x64_try_again ::
  "int \<Rightarrow> (nat \<Rightarrow> addr) \<Rightarrow> u8 list \<Rightarrow> MemoryChunk \<Rightarrow> int \<Rightarrow> process \<Rightarrow>
     (x64_fault + ((MemoryChunk \<times> MemoryChunk) option \<times> process)) option" where
  "x64_try_again page_size mapped code org relo_code_chunk_size P =
     (case allocate_code page_size (mapped 0) relo_code_chunk_size P of
        (None, P) \<Rightarrow> Some (Inr (None, P))
      | (Some rel, P) \<Rightarrow>
          (case x64_GenRelocateCodeFixed code org rel of
             None \<Rightarrow> None
           | Some (Inl e) \<Rightarrow> Some (Inl (In_code e))
           | Some (Inr (success, bs, org)) \<Rightarrow>
               if success then Some (bindE (x64_place page_size (chunk_address rel) bs P) (\<lambda>P. Inr (Some (rel, org), P)))
               else x64_try_again page_size (\<lambda>k. mapped (Suc k)) code org (relo_code_chunk_size + 16) P))"

definition x64_GenRelocateCodeAndBranch ::
  "int \<Rightarrow> (nat \<Rightarrow> addr) \<Rightarrow> u8 list \<Rightarrow> MemoryChunk \<Rightarrow> process \<Rightarrow>
     (x64_fault + ((MemoryChunk \<times> MemoryChunk) option \<times> process)) option" where
  "x64_GenRelocateCodeAndBranch page_size mapped code org P = x64_try_again page_size mapped code org 32 P"

text \<open>On x86 the branch back is \<^verbatim>\<open>jmp rel32\<close> in 32-bit addresses.\<close>

definition JmpNear :: "u32 \<Rightarrow> x64_Assembler \<Rightarrow> x64_Assembler" where
  "JmpNear address a =
     (let currIP = ucast (CurrentIP a) + 5; offset = address - currIP in x64_Emit32 offset (Emit1 0xe9 a))"

definition x86_GenRelocateCodeFixed ::
  "u8 list \<Rightarrow> MemoryChunk \<Rightarrow> MemoryChunk \<Rightarrow> (x86_fault + (bool \<times> u8 list \<times> MemoryChunk)) option" where
  "x86_GenRelocateCodeFixed code org rel =
     (case x64_relocate_loop \<lparr>mode = 32\<rparr> code (unat (chunk_length org)) (chunk_address rel) 0 (chunk_address org)
             (new_x64_Assembler (chunk_address rel)) of
        None \<Rightarrow> None
      | Some (Inl e) \<Rightarrow> Some (Inl e)
      | Some (Inr (curr_orig_ip, a)) \<Rightarrow>
          (let a = JmpNear (ucast curr_orig_ip) a;
               org = init_region_range (chunk_address org) (curr_orig_ip - chunk_address org)
           in Some (Inr (length (x64_buffer a) \<le> unat (chunk_length rel), x64_buffer a, org))))"

definition x86_GenerateNormalTrampolineBuffer :: "u32 \<Rightarrow> u32 \<Rightarrow> u8 list" where
  "x86_GenerateNormalTrampolineBuffer src dst = x64_buffer (JmpNear dst (new_x64_Assembler (ucast src)))"

section \<open>References relative to the instruction pointer\<close>

text \<open>The four bytes of an instruction that hold a distance from the instruction pointer.\<close>

definition ip_field :: "x86_insn_decode_t \<Rightarrow> nat option" where
  "ip_field insn =
     (if uses_rip insn then Some (unat (d_displacement_offset insn))
      else if d_primary_opcode insn = 0xE8 \<or> d_primary_opcode insn = 0xE9 then Some (unat (d_immediate_offset insn))
      else None)"

definition fits32 :: "u64 \<Rightarrow> bool" where
  "fits32 w \<longleftrightarrow> scast (ucast w :: u32) = w"

text \<open>
  \<open>bs'\<close> at \<open>rip\<close> is the instruction \<open>bs\<close> at \<open>oip\<close> with the distance changed so that it leads to the same address.
\<close>

definition same_reference :: "nat option \<Rightarrow> addr \<Rightarrow> addr \<Rightarrow> u8 list \<Rightarrow> u8 list \<Rightarrow> bool" where
  "same_reference f oip rip bs bs' \<longleftrightarrow>
     length bs' = length bs \<and>
     (case f of None \<Rightarrow> bs' = bs
      | Some k \<Rightarrow> take k bs' = take k bs \<and> drop (k + 4) bs' = drop (k + 4) bs \<and>
          rip + of_nat (length bs') + scast (le_word (take 4 (drop k bs')) :: u32) =
          oip + of_nat (length bs) + scast (le_word (take 4 (drop k bs)) :: u32))"

text \<open>
  The instructions that the relocator handles: not the short branches and the loops, \<^verbatim>\<open>call\<close> and \<^verbatim>\<open>jmp\<close> without a prefix, and
  not the conditional branches of the two-byte map, which it copies.
\<close>

definition two_byte_opcode :: "u8 list \<Rightarrow> bool" where
  "two_byte_opcode bs \<longleftrightarrow> nth_opt bs (prefix_len \<lparr>mode = 64\<rparr> (take 15 bs)) = Some 0x0F"

definition handled :: "u8 list \<Rightarrow> x86_insn_decode_t \<Rightarrow> bool" where
  "handled bs insn \<longleftrightarrow>
     (let opcode = d_primary_opcode insn in
      15 \<le> length bs \<and> prefix_len \<lparr>mode = 64\<rparr> (take 15 bs) \<le> 9 \<and> d_length insn \<le> 15 \<and>
      \<not> (0x70 \<le> opcode \<and> opcode \<le> 0x7F) \<and> \<not> (0xE0 \<le> opcode \<and> opcode \<le> 0xE3) \<and> opcode \<noteq> 0xEB \<and>
      (uses_rip insn \<or> (opcode \<noteq> 0xE8 \<and> opcode \<noteq> 0xE9) \<or> hd bs = opcode) \<and>
      \<not> (two_byte_opcode bs \<and> 0x80 \<le> opcode \<and> opcode \<le> 0x8F))"

definition field_value :: "u8 list \<Rightarrow> x86_insn_decode_t \<Rightarrow> u64" where
  "field_value bs insn = (case ip_field insn of None \<Rightarrow> 0 | Some k \<Rightarrow> scast (le_word (take 4 (drop k bs)) :: u32))"

lemma decoded_layout:
  assumes "15 \<le> length bs" "prefix_len \<lparr>mode = 64\<rparr> (take 15 bs) \<le> 9" "x86_insn_decode zero_insn bs \<lparr>mode = 64\<rparr> = Inr insn"
  shows "layout_ok (prefix_len \<lparr>mode = 64\<rparr> (take 15 bs)) insn"
  using decode_safe_layout [of bs "\<lparr>mode = 64\<rparr>"] assms by simp

lemma uses_rip_flag: "uses_rip insn \<Longrightarrow> ip_relative insn"
proof -
  assume "uses_rip insn"
  then have "d_flags insn AND push_bit 3 1 \<noteq> 0" by (simp add: uses_rip_def X86_INSN_DECODE_FLAG_IP_RELATIVE_def)
  then show ?thesis by (simp add: bit_iff_and_push_bit_not_eq_0)
qed

lemma same_reference_split:
  assumes "length front = k" "length w = 4" "length w' = 4"
    and "rip + scast (le_word w' :: u32) = oip + scast (le_word w :: u32)"
  shows "same_reference (Some k) oip rip (front @ w @ tail) (front @ w' @ tail)"
  using assms by (simp add: same_reference_def algebra_simps)

lemma distance_moved:
  assumes "fits32 (oip - rip + scast (d :: u32))"
  shows "rip + scast (le_word (le_bytes 4 (ucast (oip + scast d - rip) :: u32)) :: u32) = oip + scast d"
proof -
  have eq: "oip + scast d - rip = oip - rip + scast d" by simp
  show ?thesis using assms unfolding eq fits32_def by (simp add: le_word_le_bytes)
qed

lemma decoded_displacement_15:
  assumes "15 \<le> length bs" "prefix_len \<lparr>mode = 64\<rparr> (take 15 bs) \<le> 9" "x86_insn_decode zero_insn bs \<lparr>mode = 64\<rparr> = Inr insn"
    and "uses_rip insn" "unat (d_displacement_offset insn) + 4 \<le> 15"
  shows "mem_disp (opr_mem (d_operand1 insn)) = le_word (take 4 (drop (unat (d_displacement_offset insn)) bs))"
proof -
  let ?d = "unat (d_displacement_offset insn)"
  have "take 4 (drop ?d (take 15 bs @ replicate 5 0xcc)) = take 4 (drop ?d bs)"
    using assms(1,5) by (simp add: drop_take min_def)
  then show ?thesis using decoded_displacement [OF assms(1-3)] uses_rip_flag [OF assms(4)] by (simp add: disp_read_def)
qed

lemma handledD:
  assumes "handled bs insn"
  shows "15 \<le> length bs" "prefix_len \<lparr>mode = 64\<rparr> (take 15 bs) \<le> 9" "unat (d_length insn) \<le> 15"
    "\<not> (0x70 \<le> d_primary_opcode insn \<and> d_primary_opcode insn \<le> 0x7F)" "d_primary_opcode insn \<noteq> 0xEB"
    "\<not> (0xE0 \<le> d_primary_opcode insn \<and> d_primary_opcode insn \<le> 0xE3)"
    "uses_rip insn \<or> (d_primary_opcode insn \<noteq> 0xE8 \<and> d_primary_opcode insn \<noteq> 0xE9) \<or> hd bs = d_primary_opcode insn"
  using assms unfolding handled_def Let_def by (blast, blast, simp add: word_le_nat_alt, blast+)

lemma reloc_rip_effect:
  assumes dec: "x86_insn_decode zero_insn (drop i code) \<lparr>mode = 64\<rparr> = Inr insn" and ok: "handled (drop i code) insn"
    and rip: "uses_rip insn" and fits: "fits32 (oip - rip + field_value (drop i code) insn)"
  shows "\<exists>bs. reloc_rip code i oip rip insn = Inr bs \<and>
    same_reference (ip_field insn) oip rip (take (unat (d_length insn)) (drop i code)) bs"
proof -
  let ?bs = "drop i code" and ?n = "unat (d_length insn)" and ?d = "unat (d_displacement_offset insn)" and ?m = "unat (d_immediate_offset insn)"
  have h: "15 \<le> length ?bs" "prefix_len \<lparr>mode = 64\<rparr> (take 15 ?bs) \<le> 9" "?n \<le> 15"
    using handledD [OF ok] by blast+
  have lay: "?d + 4 = (if ?m \<noteq> 0 then ?m else ?n)" "?m \<noteq> 0 \<longrightarrow> ?m < ?n" "?d + 4 \<le> ?n"
    using decoded_layout [OF h(1,2) dec] uses_rip_flag [OF rip] by (auto simp: layout_ok_def Let_def split: if_splits)
  define w where "w = take 4 (drop ?d ?bs)"
  define tl where "tl = take (?n - ?d - 4) (drop (?d + 4) ?bs)"
  have orig: "take ?n ?bs = take ?d ?bs @ w @ tl"
  proof -
    have "take ?n ?bs = take (?d + (4 + (?n - ?d - 4))) ?bs" using lay(3) by simp
    then show ?thesis unfolding take_add w_def tl_def by (simp add: add.commute add.left_commute)
  qed
  have disp: "mem_disp (opr_mem (d_operand1 insn)) = le_word w"
    unfolding w_def by (rule decoded_displacement_15 [OF h(1,2) dec rip]) (use lay h(3) in simp)
  let ?w' = "le_bytes 4 (ucast (oip + scast (le_word w :: u32) - rip) :: u32)"
  have "reloc_rip code i oip rip insn = Inr (take ?d ?bs @ ?w' @ tl)"
    using lay h by (auto simp: reloc_rip_def code_bytes_def disp tl_def Let_def add.commute add.left_commute)
  moreover have "same_reference (Some ?d) oip rip (take ?d ?bs @ w @ tl) (take ?d ?bs @ ?w' @ tl)"
    by (rule same_reference_split [OF _ _ _ distance_moved])
      (use h lay fits rip in \<open>auto simp: w_def field_value_def ip_field_def\<close>)
  ultimately show ?thesis using rip orig by (auto simp: ip_field_def)
qed

lemma reloc_rel32_effect:
  assumes dec: "x86_insn_decode zero_insn (drop i code) \<lparr>mode = 64\<rparr> = Inr insn" and ok: "handled (drop i code) insn"
    and opc: "d_primary_opcode insn = 0xE8 \<or> d_primary_opcode insn = 0xE9" and rip: "\<not> uses_rip insn"
    and fits: "fits32 (oip - rip + field_value (drop i code) insn)"
  shows "\<exists>bs. reloc_rel32 code i oip rip insn = Inr bs \<and>
    same_reference (ip_field insn) oip rip (take (unat (d_length insn)) (drop i code)) bs"
proof -
  obtain c rest where bs: "drop i code = c # rest" and len: "14 \<le> length rest"
    using handledD(1) [OF ok] by (cases "drop i code") auto
  have c: "c = d_primary_opcode insn" using handledD(7) [OF ok] opc rip by (auto simp: bs)
  then have 5: "d_length insn = 5" "d_immediate_offset insn = 1" "d_immediate insn = ucast (le_word (take 4 rest) :: u32)"
    using decode_branch_rel32 [of c rest] opc len dec by (auto simp: bs)
  have cast: "ucast (ucast w :: u64) = w" for w :: u32 by (rule bit_word_eqI) (auto simp: bit_simps)
  let ?w' = "le_bytes 4 (ucast (oip + scast (le_word (take 4 rest) :: u32) - rip) :: u32)"
  have "reloc_rel32 code i oip rip insn = Inr ([c] @ ?w' @ [])"
    using len bs by (cases "i < length code") (auto simp: reloc_rel32_def code_bytes_def 5 cast Let_def)
  moreover have "same_reference (Some 1) oip rip ([c] @ take 4 rest @ []) ([c] @ ?w' @ [])"
    by (rule same_reference_split [OF _ _ _ distance_moved])
      (use len fits rip opc in \<open>auto simp: field_value_def ip_field_def 5 bs\<close>)
  moreover have "take (unat (d_length insn)) (drop i code) = [c] @ take 4 rest @ []" by (simp add: 5 bs)
  ultimately show ?thesis using rip opc by (auto simp: ip_field_def 5)
qed

lemma relocate_insn_effect:
  assumes dec: "x86_insn_decode zero_insn (drop i code) \<lparr>mode = 64\<rparr> = Inr insn" and ok: "handled (drop i code) insn"
    and fits: "fits32 (oip - rip + field_value (drop i code) insn)"
  shows "\<exists>bs. relocate_insn True code i oip rip insn = Inr bs \<and>
    same_reference (ip_field insn) oip rip (take (unat (d_length insn)) (drop i code)) bs"
proof -
  let ?op = "d_primary_opcode insn"
  have "?op \<le> 0xE2 \<Longrightarrow> ?op \<le> 0xE3" by (simp add: word_le_nat_alt)
  then have opc: "\<not> (0x70 \<le> ?op \<and> ?op \<le> 0x7F)" "?op \<noteq> 0xEB" "\<not> (0xE0 \<le> ?op \<and> ?op \<le> 0xE2)" "?op \<noteq> 0xE3"
    using handledD(4-6) [OF ok] by auto
  consider "uses_rip insn" | "\<not> uses_rip insn" "?op = 0xE8 \<or> ?op = 0xE9" | "\<not> uses_rip insn" "?op \<noteq> 0xE8" "?op \<noteq> 0xE9" by blast
  then show ?thesis
  proof cases
    case 1
    then show ?thesis using reloc_rip_effect [OF dec ok 1 fits] opc by (auto simp: relocate_insn_def Let_def)
  next
    case 2
    then show ?thesis using reloc_rel32_effect [OF dec ok 2(2,1) fits] opc by (auto simp: relocate_insn_def Let_def)
  next
    case 3
    then show ?thesis using opc handledD(1,3) [OF ok]
      by (auto simp: relocate_insn_def Let_def ip_field_def same_reference_def code_bytes_def)
  qed
qed

section \<open>The instructions of a function\<close>

text \<open>\<open>insns_at code n i is\<close>: from position \<open>i\<close> on, the instructions up to position \<open>n\<close> are \<open>is\<close>, each with its position.\<close>

inductive insns_at :: "x86_options_t \<Rightarrow> u8 list \<Rightarrow> nat \<Rightarrow> nat \<Rightarrow> (nat \<times> x86_insn_decode_t) list \<Rightarrow> bool" for conf code n where
  finished: "n \<le> i \<Longrightarrow> insns_at conf code n i []"
| insn: "\<lbrakk>i < n; x86_insn_decode zero_insn (drop i code) conf = Inr insn; insns_at conf code n (i + unat (d_length insn)) is\<rbrakk> \<Longrightarrow>
    insns_at conf code n i ((i, insn) # is)"

fun end_of :: "nat \<Rightarrow> (nat \<times> x86_insn_decode_t) list \<Rightarrow> nat" where
  "end_of i [] = i"
| "end_of i (x # is) = end_of (fst x + unat (d_length (snd x))) is"

lemma insns_at_end: "insns_at conf code n i is \<Longrightarrow> n \<le> end_of i is \<and> i \<le> end_of i is"
  by (induction rule: insns_at.induct) auto

lemma insns_at_extend:
  "insns_at conf code n i is \<Longrightarrow> insns_at conf code (end_of i is) i is"
proof (induction rule: insns_at.induct)
  case (insn i ins "is")
  then show ?case using insns_at_end [OF insn(3)]
    by (auto intro!: insns_at.insn)
qed (simp add: insns_at.finished)

text \<open>Each instruction is handled and its target is within reach of the new place.\<close>

definition relocatable :: "u8 list \<Rightarrow> u64 \<Rightarrow> nat \<times> x86_insn_decode_t \<Rightarrow> bool" where
  "relocatable code distance x \<longleftrightarrow>
     handled (drop (fst x) code) (snd x) \<and> fits32 (distance + field_value (drop (fst x) code) (snd x))"

definition insn_bytes :: "u8 list \<Rightarrow> nat \<times> x86_insn_decode_t \<Rightarrow> u8 list" where
  "insn_bytes bs x = take (unat (d_length (snd x))) (drop (fst x) bs)"

definition moved_to :: "u8 list \<Rightarrow> addr \<Rightarrow> u8 list \<Rightarrow> addr \<Rightarrow> nat \<times> x86_insn_decode_t \<Rightarrow> bool" where
  "moved_to code org out start x \<longleftrightarrow>
     same_reference (ip_field (snd x)) (org + of_nat (fst x)) (start + of_nat (fst x)) (insn_bytes code x) (insn_bytes out x)"

lemma x64_relocate_loop_moves:
  assumes "insns_at \<lparr>mode = 64\<rparr> code n i is" "\<forall>x\<in>set is. relocatable code (org - start) x"
    and "length (x64_buffer a) = i"
  shows "\<exists>a'. x64_relocate_loop \<lparr>mode = 64\<rparr> code n start i (org + of_nat i) a = Some (Inr (org + of_nat (end_of i is), a')) \<and>
    length (x64_buffer a') = end_of i is \<and> x64_realized a' = x64_realized a \<and>
    (\<exists>out. x64_buffer a' = x64_buffer a @ out) \<and> (\<forall>x\<in>set is. moved_to code org (x64_buffer a') start x)"
  using assms
proof (induction arbitrary: a rule: insns_at.induct)
  case (finished i)
  then show ?case by (subst x64_relocate_loop.simps) auto
next
  case (insn i ins "is")
  let ?n = "unat (d_length ins)" and ?oip = "org + of_nat i" and ?rip = "start + of_nat i"
  have rel: "handled (drop i code) ins" "fits32 (?oip - ?rip + field_value (drop i code) ins)"
    using insn.prems(1) by (simp_all add: relocatable_def)
  obtain bs where bs: "relocate_insn True code i ?oip ?rip ins = Inr bs"
    "same_reference (ip_field ins) ?oip ?rip (take ?n (drop i code)) bs"
    using relocate_insn_effect [OF insn(2) rel] by blast
  then have len: "length bs = ?n" using handledD(1,3) [OF rel(1)] by (simp add: same_reference_def)
  let ?a = "x64_EmitBuffer bs a"
  have "length (x64_buffer ?a) = i + ?n" using insn.prems(2) len by (simp add: x64_EmitBuffer_def)
  with insn.IH [of ?a] insn.prems(1) obtain a' out where a': "x64_relocate_loop \<lparr>mode = 64\<rparr> code n start (i + ?n) (org + of_nat (i + ?n)) ?a
      = Some (Inr (org + of_nat (end_of (i + ?n) is), a'))" "length (x64_buffer a') = end_of (i + ?n) is"
      "x64_realized a' = x64_realized a" "x64_buffer a' = x64_buffer ?a @ out" "\<forall>x\<in>set is. moved_to code org (x64_buffer a') start x"
    by (auto simp: x64_EmitBuffer_def)
  have "ucast (d_length ins) = (of_nat ?n :: u64)" by simp
  then have run: "x64_relocate_loop \<lparr>mode = 64\<rparr> code n start i ?oip a = x64_relocate_loop \<lparr>mode = 64\<rparr> code n start (i + ?n) (org + of_nat (i + ?n)) ?a"
    using insn(1,2) bs(1) insn.prems(2) by (subst x64_relocate_loop.simps) (simp add: ip_offset_def add.assoc)
  have "insn_bytes (x64_buffer a') (i, ins) = bs" using a'(4) insn.prems(2) len by (simp add: insn_bytes_def x64_EmitBuffer_def)
  then have "moved_to code org (x64_buffer a') start (i, ins)" using bs(2) by (simp add: moved_to_def insn_bytes_def)
  then show ?case using a' run by (auto simp: x64_EmitBuffer_def)
qed

lemma JmpNearIndirect_next:
  assumes "x64_realized a = start" "length (x64_buffer a) = n"
  shows "x64_buffer (JmpNearIndirect (start + of_nat n + 6) a) = x64_buffer a @ [0xFF, 0x25, 0, 0, 0, 0]"
  using assms
  by (simp add: JmpNearIndirect_def CurrentIP_def ip_offset_def x64_Emit32_def Emit1_def x64_EmitBuffer_def Let_def numeral_eq_Suc)

lemma x64_relocated:
  assumes "insns_at \<lparr>mode = 64\<rparr> code (unat (chunk_length org)) 0 is"
    and "\<forall>x\<in>set is. relocatable code (chunk_address org - chunk_address rel) x"
  shows "\<exists>out. x64_GenRelocateCodeFixed code org rel =
      Some (Inr (end_of 0 is + 14 \<le> unat (chunk_length rel),
        out @ [0xFF, 0x25, 0, 0, 0, 0] @ le_bytes 8 (chunk_address org + of_nat (end_of 0 is)),
        init_region_range (chunk_address org) (of_nat (end_of 0 is)))) \<and>
    length out = end_of 0 is \<and> (\<forall>x\<in>set is. moved_to code (chunk_address org) out (chunk_address rel) x)"
proof -
  let ?a = "new_x64_Assembler (chunk_address rel)"
  obtain a' where a': "x64_relocate_loop \<lparr>mode = 64\<rparr> code (unat (chunk_length org)) (chunk_address rel) 0 (chunk_address org) ?a
      = Some (Inr (chunk_address org + of_nat (end_of 0 is), a'))" "length (x64_buffer a') = end_of 0 is"
      "x64_realized a' = chunk_address rel" "\<forall>x\<in>set is. moved_to code (chunk_address org) (x64_buffer a') (chunk_address rel) x"
    using x64_relocate_loop_moves [OF assms, of ?a] by (auto simp: new_x64_Assembler_def)
  have "x64_buffer (JmpNearIndirect (chunk_address rel + word_of_int (ip_offset a') + 6) a') = x64_buffer a' @ [0xFF, 0x25, 0, 0, 0, 0]"
    using JmpNearIndirect_next [OF a'(3,2)] by (simp add: ip_offset_def a'(2))
  then show ?thesis using a'
    by (intro exI [of _ "x64_buffer a'"])
      (simp add: x64_GenRelocateCodeFixed_def Let_def x64_Emit64_def x64_EmitBuffer_def numeral_eq_Suc)
qed

end
