(* ===== verification/X64Props.thy ===== *)
theory X64Props
  imports X64Relocation NearTrampoline
begin

text \<open>
  The properties of the relocation on x64: the relocated instructions reach what the original ones reach, the retry
  with larger chunks ends and the code fits its chunk, and the branches that the relocator does not translate correctly.
\<close>

section \<open>What a run depends on\<close>

text \<open>The addresses change the bytes of a relocated instruction but neither their number nor a fault.\<close>

lemma relocated_size_rip: "map_sum id length (reloc_rip code i oip rip insn) = map_sum id length (reloc_rip code i 0 0 insn)"
  by (simp add: reloc_rip_def code_bytes_def Let_def)

lemma relocated_size_rel32: "map_sum id length (reloc_rel32 code i oip rip insn) = map_sum id length (reloc_rel32 code i 0 0 insn)"
  by (simp add: reloc_rel32_def code_bytes_def Let_def)

lemma relocate_insn_independent:
  "map_sum id length (relocate_insn x code i oip rip insn) = map_sum id length (relocate_insn x code i 0 0 insn)"
  using relocated_size_rip [of code i oip rip insn] relocated_size_rel32 [of code i oip rip insn]
  unfolding relocate_insn_def Let_def by (auto simp: reloc_jcc_rel8_def reloc_jmp_rel8_def)

lemma relocate_insn_size:
  assumes ok: "layout_ok p insn" and bs: "relocate_insn x code i oip rip insn = Inr bs"
  shows "length bs \<le> 6 * unat (d_length insn)"
proof -
  have "0 < unat (d_length insn)" "unat (d_immediate_offset insn) \<le> unat (d_length insn)"
    "uses_rip insn \<Longrightarrow> unat (d_displacement_offset insn) + 4 =
       (if unat (d_immediate_offset insn) \<noteq> 0 then unat (d_immediate_offset insn) else unat (d_length insn))"
    using ok uses_rip_flag [of insn] by (auto simp: layout_ok_def Let_def)
  then show ?thesis using bs
    by (auto simp: relocate_insn_def reloc_rip_def reloc_rel32_def reloc_jcc_rel8_def reloc_jmp_rel8_def code_bytes_def Let_def
        split: if_splits)
qed

text \<open>
  \<open>outcome code n i res\<close>: whatever the addresses, the loop from position \<open>i\<close> ends with the fault of \<open>res\<close>, or \<open>res\<close> has the number
  of bytes written and read; it stops at the same place for every limit between \<open>n\<close> and the end of the last instruction.
\<close>

definition outcome :: "x86_options_t \<Rightarrow> u8 list \<Rightarrow> nat \<Rightarrow> nat \<Rightarrow> x86_fault + nat \<times> nat \<Rightarrow> bool" where
  "outcome conf code n i res \<longleftrightarrow>
     (case res of
        Inl e \<Rightarrow> \<forall>start oip a. x64_relocate_loop conf code n start i oip a = Some (Inl e)
      | Inr (k, m) \<Rightarrow> k \<le> 6 * m \<and> n \<le> i + m \<and> i + m \<le> max i (n + 19) \<and>
          (\<forall>n' start oip a. n \<le> n' \<longrightarrow> n' \<le> i + m \<longrightarrow>
             (\<exists>a'. x64_relocate_loop conf code n' start i oip a = Some (Inr (oip + of_nat m, a')) \<and>
               length (x64_buffer a') = length (x64_buffer a) + k)))"

lemma outcome_run:
  assumes "outcome conf code n i (Inr (k, m))" "n \<le> n'" "n' \<le> i + m"
  obtains a' where "x64_relocate_loop conf code n' start i oip a = Some (Inr (oip + of_nat m, a'))"
    "length (x64_buffer a') = length (x64_buffer a) + k"
  using assms unfolding outcome_def by fastforce

definition readable_code :: "x86_options_t \<Rightarrow> u8 list \<Rightarrow> nat \<Rightarrow> bool" where
  "readable_code conf code n \<longleftrightarrow>
     (mode conf = 32 \<or> mode conf = 64) \<and> n + 14 \<le> length code \<and> list_all (\<lambda>i. prefix_len conf (take 15 (drop i code)) \<le> 9) [0..<n]"

lemma outcome_step:
  assumes i: "i < n" and ok: "readable_code conf code n" and dec: "x86_insn_decode zero_insn (drop i code) conf = Inr insn"
    and lay: "layout_ok (prefix_len conf (take 15 (drop i code))) insn" and rest: "outcome conf code n (i + unat (d_length insn)) res"
  shows "\<exists>res. outcome conf code n i res"
proof (cases "relocate_insn (mode conf = 64) code i 0 0 insn")
  case (Inl e)
  have "relocate_insn (mode conf = 64) code i oip rip insn = Inl e" for oip rip
    using relocate_insn_independent [of "mode conf = 64" code i oip rip insn] Inl
    by (cases "relocate_insn (mode conf = 64) code i oip rip insn") auto
  then have "outcome conf code n i (Inl e)" using i dec by (simp add: outcome_def) (subst x64_relocate_loop.simps, simp)
  then show ?thesis ..
next
  case (Inr bs0)
  let ?n = "unat (d_length insn)"
  have bs: "\<exists>bs. relocate_insn (mode conf = 64) code i oip rip insn = Inr bs \<and> length bs = length bs0" for oip rip
    using relocate_insn_independent [of "mode conf = 64" code i oip rip insn] Inr
    by (cases "relocate_insn (mode conf = 64) code i oip rip insn") auto
  have run: "\<exists>bs. x64_relocate_loop conf code n' start i oip a = x64_relocate_loop conf code n' start (i + ?n) (oip + of_nat ?n) (x64_EmitBuffer bs a)
      \<and> length bs = length bs0" if "n \<le> n'" for n' start oip a
  proof -
    obtain bs where "relocate_insn (mode conf = 64) code i oip (start + word_of_int (ip_offset a)) insn = Inr bs" "length bs = length bs0"
      using bs by blast
    then show ?thesis using i that dec by (subst x64_relocate_loop.simps) auto
  qed
  have pre: "prefix_len conf (take 15 (drop i code)) \<le> 9" using ok i by (simp add: readable_code_def list_all_iff)
  have size: "length bs0 \<le> 6 * ?n" "0 < ?n" "?n \<le> 20"
    using relocate_insn_size [OF lay Inr] lay pre by (simp_all add: layout_ok_def Let_def)
  show ?thesis
  proof (cases res)
    case (Inl e)
    have "x64_relocate_loop conf code n start i oip a = Some (Inl e)" for start oip a
      using run [of n start oip a] rest Inl by (auto simp: outcome_def)
    then show ?thesis by (intro exI [of _ "Inl e"]) (simp add: outcome_def)
  next
    case (Inr km)
    obtain k m where km: "res = Inr (k, m)" using Inr by (cases km) auto
    have "\<exists>a'. x64_relocate_loop conf code n' start i oip a = Some (Inr (oip + of_nat (?n + m), a')) \<and>
        length (x64_buffer a') = length (x64_buffer a) + (length bs0 + k)" if lim: "n \<le> n'" "n' \<le> i + (?n + m)" for n' start oip a
    proof -
      obtain bs where bs: "x64_relocate_loop conf code n' start i oip a = x64_relocate_loop conf code n' start (i + ?n) (oip + of_nat ?n) (x64_EmitBuffer bs a)"
        "length bs = length bs0" using run [OF lim(1)] by blast
      obtain a' where "x64_relocate_loop conf code n' start (i + ?n) (oip + of_nat ?n) (x64_EmitBuffer bs a) = Some (Inr (oip + of_nat ?n + of_nat m, a'))"
        "length (x64_buffer a') = length (x64_buffer (x64_EmitBuffer bs a)) + k"
        by (rule outcome_run [OF rest [unfolded km] lim(1)]) (use lim(2) in simp)
      then show ?thesis using bs by (simp add: x64_EmitBuffer_def add.assoc)
    qed
    then have "outcome conf code n i (Inr (length bs0 + k, ?n + m))"
      using rest size i unfolding km outcome_def by auto
    then show ?thesis ..
  qed
qed

lemma relocate_loop_outcome:
  assumes "readable_code conf code n"
  shows "\<exists>res. outcome conf code n i res"
proof (induction "n - i" arbitrary: i rule: less_induct)
  case less
  show ?case
  proof (cases "i < n")
    case False
    then have "outcome conf code n i (Inr (0, 0))" by (simp add: outcome_def) (subst x64_relocate_loop.simps, simp)
    then show ?thesis ..
  next
    case True
    have h: "15 \<le> length (drop i code)" "prefix_len conf (take 15 (drop i code)) \<le> 9" "mode conf = 32 \<or> mode conf = 64"
      using assms True by (auto simp: readable_code_def list_all_iff)
    show ?thesis
    proof (cases "x86_insn_decode zero_insn (drop i code) conf")
      case (Inl e)
      then have "outcome conf code n i (Inl e)" using True by (simp add: outcome_def) (subst x64_relocate_loop.simps, simp)
      then show ?thesis ..
    next
      case (Inr insn)
      have lay: "layout_ok (prefix_len conf (take 15 (drop i code))) insn" using decode_safe_layout [OF h] Inr by simp
      then have "0 < unat (d_length insn)" by (auto simp: layout_ok_def Let_def)
      then have "\<exists>res. outcome conf code n (i + unat (d_length insn)) res" using less True by simp
      then show ?thesis using outcome_step [OF True assms Inr lay] by blast
    qed
  qed
qed

section \<open>The retry ends\<close>

lemma allocate_code_length:
  "allocate_code ps mapped n P = (Some c, P') \<Longrightarrow> chunk_length c = word_of_int n"
  by (auto simp: allocate_code_def AllocateCodeChunk_def AllocateChunk_def cut_chunk_def Let_def split: option.splits if_splits)

lemma JmpNearIndirect_length: "length (x64_buffer (JmpNearIndirect w a)) = length (x64_buffer a) + 6"
  by (simp add: JmpNearIndirect_def x64_Emit32_def Emit1_def x64_EmitBuffer_def Let_def)

lemma x64_fixed_outcome:
  assumes out: "outcome \<lparr>mode = 64\<rparr> code n 0 (Inr (k, m))" and len: "n \<le> unat (chunk_length org)" "unat (chunk_length org) \<le> m"
  obtains bs where "x64_GenRelocateCodeFixed code org rel =
      Some (Inr (k + 14 \<le> unat (chunk_length rel), bs, init_region_range (chunk_address org) (of_nat m)))" "length bs = k + 14"
proof -
  obtain a' where "x64_relocate_loop \<lparr>mode = 64\<rparr> code (unat (chunk_length org)) (chunk_address rel) 0 (chunk_address org)
      (new_x64_Assembler (chunk_address rel)) = Some (Inr (chunk_address org + of_nat m, a'))"
      "length (x64_buffer a') = length (x64_buffer (new_x64_Assembler (chunk_address rel))) + k"
    by (rule outcome_run [OF out len(1)]) (use len(2) in simp)
  then show thesis
    by (intro that) (auto simp: x64_GenRelocateCodeFixed_def Let_def x64_Emit64_def x64_EmitBuffer_def JmpNearIndirect_length new_x64_Assembler_def)
qed

text \<open>What a successful run leaves: the code fits the chunk, the chunk has no more than fifteen bytes to spare beyond the first size.\<close>

definition code_placed :: "MemoryChunk \<Rightarrow> MemoryChunk \<Rightarrow> u8 list \<Rightarrow> MemoryChunk \<Rightarrow> bool" where
  "code_placed org rel bs org' \<longleftrightarrow>
     length bs \<le> unat (chunk_length rel) \<and> unat (chunk_length rel) \<le> max 32 (length bs + 15) \<and>
     chunk_address org' = chunk_address org \<and> unat (chunk_length org) \<le> unat (chunk_length org') \<and>
     unat (chunk_length org') \<le> unat (chunk_length org) + 19 \<and> length bs \<le> 6 * unat (chunk_length org') + 14"

definition stands_at :: "process \<Rightarrow> addr \<Rightarrow> u8 list \<Rightarrow> bool" where
  "stands_at P a bs \<longleftrightarrow> (\<forall>i < length bs. memory P (a + of_nat i) = bs ! i)"

definition placed_exactly :: "nat \<Rightarrow> nat \<Rightarrow> addr \<Rightarrow> x64_fault + ((MemoryChunk \<times> MemoryChunk) option \<times> process) \<Rightarrow> bool" where
  "placed_exactly k m address res \<longleftrightarrow>
     (case res of Inr (Some (rel, org'), P') \<Rightarrow>
        k + 14 \<le> unat (chunk_length rel) \<and> unat (chunk_length rel) \<le> max 32 (k + 14 + 15) \<and>
        org' = init_region_range address (of_nat m) \<and> (\<exists>bs. length bs = k + 14 \<and> stands_at P' (chunk_address rel) bs)
      | _ \<Rightarrow> True)"

lemma x64_place_stands: "x64_place ps a bs P = Inr P' \<Longrightarrow> length bs \<le> 2 ^ 64 \<Longrightarrow> stands_at P' a bs"
  by (auto simp: x64_place_def stands_at_def CodePatch_memory write_bytes_at split: sum.splits)

lemma x64_try_again_ends:
  assumes out: "outcome \<lparr>mode = 64\<rparr> code n 0 (Inr (k, m))" and small: "n < 2 ^ 24"
    and len: "n \<le> unat (chunk_length org)" "unat (chunk_length org) \<le> m" and s: "32 \<le> s" "s \<le> max 32 (int k + 14 + 15)"
  shows "\<exists>res. x64_try_again ps mapped code org s P = Some res \<and> placed_exactly k m (chunk_address org) res"
  using len s
proof (induction "nat (int k + 14 - s)" arbitrary: s P org mapped rule: less_induct)
  case less
  have km: "k \<le> 6 * m" "m \<le> n + 19" using out by (simp_all add: outcome_def)
  obtain c P' where al: "allocate_code ps (mapped 0) s P = (c, P')" by fastforce
  show ?case
  proof (cases c)
    case None
    then show ?thesis using al by (subst x64_try_again.simps) (simp add: placed_exactly_def)
  next
    case (Some rel)
    have sz: "unat (chunk_length rel) = nat s"
      using allocate_code_length al Some less.prems km small by (subst unat_word_of_int [symmetric]) auto
    obtain bs where bs: "x64_GenRelocateCodeFixed code org rel =
      Some (Inr (k + 14 \<le> unat (chunk_length rel), bs, init_region_range (chunk_address org) (of_nat m)))" "length bs = k + 14"
      using x64_fixed_outcome [OF out less.prems(1,2)] .
    show ?thesis
    proof (cases "k + 14 \<le> unat (chunk_length rel)")
      case True
      let ?res = "bindE (x64_place ps (chunk_address rel) bs P') (\<lambda>P. Inr (Some (rel, init_region_range (chunk_address org) (of_nat m)), P))"
      have "length bs \<le> 2 ^ 64" using bs(2) km small by simp
      then have "placed_exactly k m (chunk_address org) ?res"
        using True sz less.prems(3,4) bs(2) x64_place_stands [of ps "chunk_address rel" bs P']
        by (cases "x64_place ps (chunk_address rel) bs P'") (auto simp: placed_exactly_def)
      then show ?thesis using al Some bs True by (subst x64_try_again.simps) simp
    next
      case False
      let ?org = "init_region_range (chunk_address org) (of_nat m)"
      have m: "unat (of_nat m :: u64) = m" using km small by (simp add: unat_of_nat)
      have "\<exists>res. x64_try_again ps (\<lambda>j. mapped (Suc j)) code ?org (s + 16) P' = Some res \<and> placed_exactly k m (chunk_address ?org) res"
        by (rule less.hyps) (use False sz less.prems out in \<open>auto simp: init_region_range_def m outcome_def\<close>)
      moreover have "chunk_address ?org = chunk_address org" by (simp add: init_region_range_def)
      ultimately show ?thesis using al Some bs False by (subst x64_try_again.simps) auto
    qed
  qed
qed


section \<open>Short branches\<close>

definition short_branches :: "u8 list" where
  "short_branches = [0x70, 0x71, 0x72, 0x73, 0x74, 0x75, 0x76, 0x77, 0x78, 0x79, 0x7A, 0x7B, 0x7C, 0x7D, 0x7E, 0x7F, 0xEB]"

lemma short_branch_entries:
  "list_all (\<lambda>c. x86_opcode_map_one_byte ! unat c = op1 (spec_name (x86_opcode_map_one_byte ! unat c)) ''Jb'') short_branches"
  by code_simp

lemma decode_branch_rel8:
  assumes c: "c \<in> set short_branches" and len: "13 \<le> length rest"
  shows "\<exists>insn. x86_insn_decode zero_insn (c # d # rest) \<lparr>mode = 64\<rparr> = Inr insn \<and> d_length insn = 2 \<and>
           d_primary_opcode insn = c \<and> d_immediate insn = ucast d"
proof -
  let ?conf = "\<lparr>mode = 64\<rparr> :: x86_options_t"
  obtain rd where at: "rd_at rd 0" and buf: "rd_buffer rd = take 15 (c # d # rest) @ replicate 5 0xcc"
    and unfold: "x86_insn_decode zero_insn (c # d # rest) ?conf =
      bindE (bindE (x86_insn_decode_opcode rd (zero_insn\<lparr>d_prefix := 0\<rparr>) ?conf)
               (decode_operands ?conf)) decode_length"
    by (rule x86_insn_decode_no_prefix [of c "d # rest" ?conf zero_insn])
       (use c len in \<open>auto simp: is_rex_def legacy_prefix_def short_branches_def\<close>)
  have at1: "rd_at (rd_advance 1 rd) 1" using rd_at_advance [OF at, of 1] by simp
  have at2: "rd_at (rd_advance 1 (rd_advance 1 rd)) 2" using rd_at_advance [OF at1, of 1] by (simp add: numeral_2_eq_2)
  have bytes: "rd_buffer rd ! 0 = c" "rd_buffer rd ! 1 = d" using len by (simp_all add: buf)
  obtain n where n: "x86_opcode_map_one_byte ! unat c = op1 n ''Jb''"
    using short_branch_entries c unfolding list_all_iff by blast
  define insn where "insn = zero_insn\<lparr>d_prefix := 0, d_primary_opcode := c, d_insn_spec := op1 n ''Jb''\<rparr>"
  have op: "x86_insn_decode_opcode rd (zero_insn\<lparr>d_prefix := 0\<rparr>) ?conf = Inr (rd_advance 1 rd, insn)"
    using c n by (auto simp: x86_insn_decode_opcode_def read_byte_at [OF at] bytes decode_group_def insn_def short_branches_def)
  have "effective_operand ?conf insn = Some 32"
    by (simp add: effective_operand_def insn_def zero_insn_def)
  moreover have "x86_insn_imm_bits (d_insn_spec insn) 32 = Inr 8"
    by (simp add: insn_def x86_insn_imm_bits_def immediate_type_3 immediate_code_def)
  ultimately have imm: "x86_insn_decode_immediate (rd_advance 1 rd) insn ?conf =
      Inr (rd_advance 1 (rd_advance 1 rd), insn\<lparr>d_immediate_offset := 1, d_immediate := ucast d\<rparr>)"
    using read_byte_at [OF at1] bytes(2) reader_offset_at [OF at1]
    by (simp add: x86_insn_decode_immediate_def x86_insn_decode_number_def rd_advance_def)
  have "\<not> x86_insn_has_modrm_byte (d_insn_spec insn)" "x86_insn_has_immediate (d_insn_spec insn)"
    by (simp_all add: insn_def x86_insn_has_modrm_byte_def x86_insn_has_immediate_def immediate_code_def)
  then show ?thesis
    unfolding unfold op using imm reader_offset_at [OF at2]
    by (simp add: decode_operands_def decode_length_def) (simp add: insn_def zero_insn_def)
qed

text \<open>The low byte of a distance survives both conversions, so an error of less than 256 in it is never made up for.\<close>

lemma take_bit_8_diff: "take_bit 8 (take_bit 64 x - take_bit 64 y) = take_bit 8 (x - y :: int)"
  using take_bit_diff [of 8 "take_bit 64 x" "take_bit 64 y"] take_bit_diff [of 8 x y] by (simp add: min_def)

lemma ucast_u8_diff: "(ucast (x - y :: u64) :: u8) = ucast x - ucast y"
  by transfer (simp add: take_bit_8_diff)

lemma low_byte_kept:
  "(ucast (scast (ucast x :: u32) :: u64) :: u8) = ucast (x :: u64)"
  "(ucast (scast (scast (ucast x :: u8) :: u32) :: u64) :: u8) = ucast x"
  by (rule bit_word_eqI, auto simp: bit_simps)+

lemma distance_missed:
  assumes y: "(ucast (y :: u64) :: u8) = ucast (oip + t - rip)" and k: "ucast (k :: u64) \<noteq> (2 :: u8)"
  shows "rip + k + y \<noteq> oip + 2 + t"
proof
  assume "rip + k + y = oip + 2 + t"
  then have "y - (oip + t - rip) = 2 - k" by (simp add: algebra_simps)
  then have "(ucast (y - (oip + t - rip)) :: u8) = ucast (2 - k)" by simp
  then show False using y k by (simp only: ucast_u8_diff [of y] ucast_u8_diff [of 2]) simp
qed

text \<open>
  A short branch is relocated to a wrong place. The conditional branches \<^verbatim>\<open>70\<close> to \<^verbatim>\<open>7F\<close> and \<^verbatim>\<open>jmp rel8\<close> are two bytes long;
  they are replaced by their long forms of six and five bytes, but the distance is computed as if the length had not
  changed. For every byte of distance and every pair of addresses, the target of the relocated branch differs from the
  target of the original one.
\<close>

lemma x64_short_branch_missed:
  assumes c: "c \<in> set short_branches" and len: "13 \<le> length rest"
  shows "\<exists>insn opcode off. x86_insn_decode zero_insn (c # d # rest) \<lparr>mode = 64\<rparr> = Inr insn \<and> d_length insn = 2 \<and>
    relocate_insn True (c # d # rest) 0 oip rip insn = Inr (opcode @ le_bytes 4 (off :: u32)) \<and>
    opcode = (if c = 0xEB then [0xE9] else [0x0F, c + 0x10]) \<and>
    rip + of_nat (length opcode + 4) + scast off \<noteq> oip + 2 + scast d"
proof -
  obtain insn where insn: "x86_insn_decode zero_insn (c # d # rest) \<lparr>mode = 64\<rparr> = Inr insn" "d_length insn = 2"
    "d_primary_opcode insn = c" "d_immediate insn = ucast d"
    using decode_branch_rel8 [OF assms] by blast
  have d: "ucast (ucast d :: u64) = d" by (rule bit_word_eqI) (auto simp: bit_simps)
  show ?thesis
  proof (cases "c = 0xEB")
    case True
    let ?off = "scast (ucast (oip + scast d - rip) :: u8) :: u32"
    have "rip + 5 + scast ?off \<noteq> oip + 2 + scast d" by (rule distance_missed) (simp_all add: low_byte_kept)
    moreover have "relocate_insn True (c # d # rest) 0 oip rip insn = Inr ([0xE9] @ le_bytes 4 ?off)"
      by (simp add: relocate_insn_def reloc_jmp_rel8_def insn d True)
    ultimately show ?thesis using insn(1,2) True by (intro exI [of _ insn] exI [of _ "[0xE9]"] exI [of _ ?off]) simp
  next
    case False
    let ?off = "ucast (oip + scast d - rip) :: u32"
    have "0x70 \<le> c \<and> c \<le> 0x7F \<and> 0x80 OR (c AND 0x0f) = c + 0x10" using c False by (auto simp: short_branches_def)
    then have "relocate_insn True (c # d # rest) 0 oip rip insn = Inr ([0x0F, c + 0x10] @ le_bytes 4 ?off)"
      by (simp add: relocate_insn_def reloc_jcc_rel8_def insn d)
    moreover have "rip + 6 + scast ?off \<noteq> oip + 2 + scast d" by (rule distance_missed) (simp_all add: low_byte_kept)
    ultimately show ?thesis using insn(1,2) False by (intro exI [of _ insn] exI [of _ "[0x0F, c + 0x10]"] exI [of _ ?off]) simp
  qed
qed

section \<open>Long conditional branches\<close>

definition jcc_rel32 :: "u8 list" where
  "jcc_rel32 = [0x80, 0x81, 0x82, 0x83, 0x84, 0x85, 0x86, 0x87, 0x88, 0x89, 0x8A, 0x8B, 0x8C, 0x8D, 0x8E, 0x8F]"

lemma jcc_rel32_entries:
  "list_all (\<lambda>c. x86_opcode_map_two_byte ! unat c = op1 (spec_name (x86_opcode_map_two_byte ! unat c)) ''Jz'') jcc_rel32"
  by code_simp

lemma decode_jcc_rel32:
  assumes c: "c \<in> set jcc_rel32" and len: "13 \<le> length rest"
  shows "\<exists>insn. x86_insn_decode zero_insn (0x0F # c # rest) \<lparr>mode = 64\<rparr> = Inr insn \<and> d_length insn = 6 \<and>
           d_primary_opcode insn = c \<and> d_flags insn = 0"
proof -
  let ?conf = "\<lparr>mode = 64\<rparr> :: x86_options_t"
  obtain rd where at: "rd_at rd 0" and buf: "rd_buffer rd = take 15 (0x0F # c # rest) @ replicate 5 0xcc"
    and unfold: "x86_insn_decode zero_insn (0x0F # c # rest) ?conf =
      bindE (bindE (x86_insn_decode_opcode rd (zero_insn\<lparr>d_prefix := 0\<rparr>) ?conf)
               (decode_operands ?conf)) decode_length"
    by (rule x86_insn_decode_no_prefix [of "0x0F" "c # rest" ?conf zero_insn])
       (use len in \<open>auto simp: is_rex_def legacy_prefix_def\<close>)
  have at1: "rd_at (rd_advance 1 rd) 1" using rd_at_advance [OF at, of 1] by simp
  have at2: "rd_at (rd_advance 1 (rd_advance 1 rd)) 2" using rd_at_advance [OF at1, of 1] by (simp add: numeral_2_eq_2)
  have at6: "rd_at (rd_advance 4 (rd_advance 1 (rd_advance 1 rd))) 6" using rd_at_advance [OF at2, of 4] by simp
  have bytes: "rd_buffer rd ! 0 = 0x0F" "rd_buffer rd ! 1 = c" using len by (simp_all add: buf)
  obtain n where n: "x86_opcode_map_two_byte ! unat c = op1 n ''Jz''"
    using jcc_rel32_entries c unfolding list_all_iff by blast
  define insn where "insn = zero_insn\<lparr>d_prefix := 0, d_primary_opcode := c, d_insn_spec := op1 n ''Jz''\<rparr>"
  have op: "x86_insn_decode_opcode rd (zero_insn\<lparr>d_prefix := 0\<rparr>) ?conf = Inr (rd_advance 1 (rd_advance 1 rd), insn)"
    using n read_byte_at [OF at] read_byte_at [OF at1] bytes
    by (simp add: x86_insn_decode_opcode_def decode_group_def insn_def rd_advance_def)
  have "effective_operand ?conf insn = Some 32" by (simp add: effective_operand_def insn_def zero_insn_def)
  moreover have "x86_insn_imm_bits (d_insn_spec insn) 32 = Inr 32"
    by (simp add: insn_def x86_insn_imm_bits_def immediate_type_3 immediate_code_def)
  ultimately have imm: "x86_insn_decode_immediate (rd_advance 1 (rd_advance 1 rd)) insn ?conf =
      Inr (rd_advance 4 (rd_advance 1 (rd_advance 1 rd)),
        insn\<lparr>d_immediate_offset := 2, d_immediate := ucast (le_word (take 4 (drop 2 (rd_buffer rd))) :: u32)\<rparr>)"
    using read_dword_at [OF at2] reader_offset_at [OF at2] by (simp add: x86_insn_decode_immediate_def x86_insn_decode_number_def)
  have "\<not> x86_insn_has_modrm_byte (d_insn_spec insn)" "x86_insn_has_immediate (d_insn_spec insn)"
    by (simp_all add: insn_def x86_insn_has_modrm_byte_def x86_insn_has_immediate_def immediate_code_def)
  then show ?thesis
    unfolding unfold op using imm reader_offset_at [OF at6]
    by (simp add: decode_operands_def decode_length_def) (simp add: insn_def zero_insn_def)
qed

text \<open>
  The conditional branches with a 32-bit distance (\<^verbatim>\<open>0F 80\<close> to \<^verbatim>\<open>0F 8F\<close>) are copied as they are, because the decoder
  reports the second byte of the opcode and the relocator has no case for it. The copy branches to where the original does only when
  both have the same address.
\<close>

lemma x64_jcc_rel32_copied:
  assumes c: "c \<in> set jcc_rel32" and len: "13 \<le> length rest"
  shows "\<exists>insn. x86_insn_decode zero_insn (0x0F # c # rest) \<lparr>mode = 64\<rparr> = Inr insn \<and>
    relocate_insn True (0x0F # c # rest) 0 oip rip insn = Inr (0x0F # c # take 4 rest) \<and>
    (rip + 6 + scast (le_word (take 4 rest) :: u32) = oip + 6 + scast (le_word (take 4 rest) :: u32) \<longleftrightarrow> rip = oip)"
proof -
  obtain insn where insn: "x86_insn_decode zero_insn (0x0F # c # rest) \<lparr>mode = 64\<rparr> = Inr insn" "d_length insn = 6"
    "d_primary_opcode insn = c" "d_flags insn = 0" using decode_jcc_rel32 [OF assms] by blast
  have opc: "\<not> (0x70 \<le> c \<and> c \<le> 0x7F)" "c \<noteq> 0xEB" "c \<noteq> 0xE8" "c \<noteq> 0xE9" "\<not> (0xE0 \<le> c \<and> c \<le> 0xE2)" "c \<noteq> 0xE3"
    using c by (auto simp: jcc_rel32_def)
  have "relocate_insn True (0x0F # c # rest) 0 oip rip insn = Inr (0x0F # c # take 4 rest)"
    using len opc by (auto simp: relocate_insn_def insn uses_rip_def code_bytes_def)
  then show ?thesis using insn(1) by auto
qed

text \<open>
  C39: the branches that the x64 relocator loses. A conditional branch or a jump with an 8-bit distance gets a form with
  a 32-bit distance that is computed as if the length had not changed, so for every distance and every pair of addresses the
  new target is not the original one. A conditional branch with a 32-bit distance is copied as it is, so it
  keeps its target only when it is not moved.
\<close>

theorem x64_branch_departures:
  assumes c: "c \<in> set short_branches" and c': "c' \<in> set jcc_rel32" and len: "13 \<le> length rest"
  shows "(\<exists>insn opcode off. x86_insn_decode zero_insn (c # d # rest) \<lparr>mode = 64\<rparr> = Inr insn \<and> d_length insn = 2 \<and>
      relocate_insn True (c # d # rest) 0 oip rip insn = Inr (opcode @ le_bytes 4 (off :: u32)) \<and>
      opcode = (if c = 0xEB then [0xE9] else [0x0F, c + 0x10]) \<and>
      rip + of_nat (length opcode + 4) + scast off \<noteq> oip + 2 + scast d) \<and>
    (\<exists>insn. x86_insn_decode zero_insn (0x0F # c' # rest) \<lparr>mode = 64\<rparr> = Inr insn \<and>
      relocate_insn True (0x0F # c' # rest) 0 oip rip insn = Inr (0x0F # c' # take 4 rest) \<and>
      (rip + 6 + scast (le_word (take 4 rest) :: u32) = oip + 6 + scast (le_word (take 4 rest) :: u32) \<longleftrightarrow> rip = oip))"
  using x64_short_branch_missed [OF c len] x64_jcc_rel32_copied [OF c' len] by blast

theorem x64_branch_departures_witness:
  "(\<exists>off. relocate_insn True (0x74 # 0x05 # 0x10 # replicate 12 0) 0 0x401000 0x500000
      (projr (x86_insn_decode zero_insn (0x74 # 0x05 # 0x10 # replicate 12 0) \<lparr>mode = 64\<rparr>)) = Inr ([0x0F, 0x84] @ le_bytes 4 (off :: u32)) \<and>
      0x500000 + 6 + scast off \<noteq> (0x401007 :: u64)) \<and>
   relocate_insn True (0x0F # 0x84 # 0x10 # replicate 12 0) 0 0x401000 0x500000
     (projr (x86_insn_decode zero_insn (0x0F # 0x84 # 0x10 # replicate 12 0) \<lparr>mode = 64\<rparr>)) = Inr [0x0F, 0x84, 0x10, 0, 0, 0]"
  using x64_branch_departures [of "0x74" "0x84" "0x10 # replicate 12 0" "0x05" "0x401000" "0x500000"]
  by (auto simp: short_branches_def jcc_rel32_def numeral_3_eq_3)

section \<open>Relocated code\<close>


text \<open>A sample: \<^verbatim>\<open>mov rax, [rip + 0x10]\<close> and \<^verbatim>\<open>call +0x20\<close>.\<close>

definition sample_x64 :: "u8 list" where
  "sample_x64 = [0x48, 0x8B, 0x05, 0x10, 0, 0, 0, 0xE8, 0x20, 0, 0, 0] @ replicate 15 0x90"

definition sample_insn :: "nat \<Rightarrow> x86_insn_decode_t" where
  "sample_insn i = projr (x86_insn_decode zero_insn (drop i sample_x64) \<lparr>mode = 64\<rparr>)"

lemma sample_x64_decoded:
  "x86_insn_decode zero_insn (drop 0 sample_x64) \<lparr>mode = 64\<rparr> = Inr (sample_insn 0)"
  "x86_insn_decode zero_insn (drop 7 sample_x64) \<lparr>mode = 64\<rparr> = Inr (sample_insn 7)"
  "d_length (sample_insn 0) = 7" "d_length (sample_insn 7) = 5"
  by code_simp+

lemma sample_x64_relocatable:
  "relocatable sample_x64 (0x401000 - 0x500000) (0, sample_insn 0)"
  "relocatable sample_x64 (0x401000 - 0x500000) (7, sample_insn 7)"
  by code_simp+

lemma sample_x64_insns: "insns_at \<lparr>mode = 64\<rparr> sample_x64 6 0 [(0, sample_insn 0)]"
  "insns_at \<lparr>mode = 64\<rparr> sample_x64 8 0 [(0, sample_insn 0), (7, sample_insn 7)]"
  using sample_x64_decoded by (auto intro!: insns_at.intros)



end
