(* ===== verification/X64Trampoline.thy ===== *)
theory X64Trampoline
  imports NearTrampoline X64Relocation
begin

text \<open>
  The trampoline on x64 (\<^verbatim>\<open>trampoline-x64.cc\<close>): \<^verbatim>\<open>jmp [rip + disp32]\<close> through a pointer in a data chunk near the function.
\<close>

section \<open>Generation\<close>

definition AllocIndirectStub ::
  "(nat \<Rightarrow> system_view) \<Rightarrow> int \<Rightarrow> addr \<Rightarrow> process \<Rightarrow> (asm_fault + (addr option \<times> process)) option" where
  "AllocIndirectStub view page_size branch_address P =
     bindR (near_AllocateDataChunk view page_size branch_address (2 * 1024 * 1024 * 1024) 8 P) (\<lambda>(forwardStub, P).
       Some (Inr (map_option chunk_address forwardStub, P)))"

text \<open>A stub that could not be allocated is written to all the same.\<close>

definition x64_GenerateNormalTrampolineBuffer ::
  "(nat \<Rightarrow> system_view) \<Rightarrow> int \<Rightarrow> addr \<Rightarrow> addr \<Rightarrow> process \<Rightarrow> (asm_fault + (u8 list \<times> process)) option" where
  "x64_GenerateNormalTrampolineBuffer view page_size src dst P =
     bindR (AllocIndirectStub view page_size src P) (\<lambda>(branch_stub, P).
     case branch_stub of
       None \<Rightarrow> Some (Inl Null_pointer)
     | Some stub \<Rightarrow>
         bindR (Some (memcpy_to page_size stub (le_bytes 8 dst) P)) (\<lambda>P.
           Some (Inr (x64_buffer (JmpNearIndirect stub (new_x64_Assembler src)), P))))"

definition x64_GenerateNearTrampolineBuffer :: "addr \<Rightarrow> addr \<Rightarrow> process \<Rightarrow> (asm_fault + (u8 list option \<times> process)) option" where
  "x64_GenerateNearTrampolineBuffer src dst P = Some (Inr (None, P))"

section \<open>The jump\<close>

text \<open>Where the processor goes from \<^verbatim>\<open>jmp [rip + disp32]\<close> (\<^verbatim>\<open>FF 25\<close>) at \<open>ip\<close>.\<close>

definition x64_jump :: "(addr \<Rightarrow> u8) \<Rightarrow> addr \<Rightarrow> addr option" where
  "x64_jump m ip =
     (if bytes_at m ip 2 = [0xFF, 0x25]
      then Some (le_word (bytes_at m (ip + 6 + scast (le_word (bytes_at m (ip + 2) 4) :: u32)) 8)) else None)"

lemma JmpNearIndirect_bytes:
  "x64_buffer (JmpNearIndirect stub (new_x64_Assembler src)) = [0xFF, 0x25] @ le_bytes 4 (ucast (stub - (src + 6)) :: u32)"
  by (simp add: JmpNearIndirect_def new_x64_Assembler_def CurrentIP_def ip_offset_def x64_Emit32_def Emit1_def x64_EmitBuffer_def Let_def)

lemma x64_jump_through:
  assumes code: "bytes_at m ip 6 = [0xFF, 0x25] @ le_bytes 4 (ucast (stub - (ip + 6)) :: u32)" and fits: "fits32 (stub - (ip + 6))"
    and stub: "bytes_at m stub 8 = le_bytes 8 dst"
  shows "x64_jump m ip = Some dst"
proof -
  have split: "bytes_at m ip 6 = bytes_at m ip 2 @ bytes_at m (ip + 2) 4"
    by (simp add: bytes_at_def upt_rec add.assoc)
  have 2: "bytes_at m ip 2 = [0xFF, 0x25]" "bytes_at m (ip + 2) 4 = le_bytes 4 (ucast (stub - (ip + 6)) :: u32)"
    using code append_eq_append_conv [of "bytes_at m ip 2" "[0xFF, 0x25]"] unfolding split by simp_all
  have "ip + 6 + scast (le_word (bytes_at m (ip + 2) 4) :: u32) = stub"
    using fits unfolding 2 fits32_def by (simp add: le_word_le_bytes)
  then show ?thesis using 2 stub by (simp add: x64_jump_def le_word_le_bytes)
qed

section \<open>The stub\<close>

text \<open>The pages of the near arena are away from the six bytes that are patched, and their cursors are multiples of eight.\<close>

definition stub_apart :: "addr \<Rightarrow> MemoryChunk \<Rightarrow> bool" where
  "stub_apart src d \<longleftrightarrow> chunk_end d \<le> unat src \<or> unat src + 6 \<le> unat (chunk_address d)"

definition stub_page_ok :: "addr \<Rightarrow> PageChunk \<Rightarrow> bool" where
  "stub_page_ok src pg \<longleftrightarrow> page_ok pg \<and> take_bit 3 (page_cursor pg) = 0 \<and> stub_apart src (page pg)"

definition stubs_ok :: "addr \<Rightarrow> process \<Rightarrow> bool" where
  "stubs_ok src P \<longleftrightarrow> list_all (stub_page_ok src) (arena_pages (near_arena P))"

definition grants_apart :: "nat \<Rightarrow> addr \<Rightarrow> system_view \<Rightarrow> bool" where
  "grants_apart k src v \<longleftrightarrow> view_ok v \<and>
     (\<forall>a. Allocate v a = a \<and> a \<noteq> 0 \<longrightarrow> stub_apart src \<lparr>chunk_address = a, chunk_length = 2 ^ k\<rparr>)"

definition stub_at :: "addr \<Rightarrow> MemoryChunk \<Rightarrow> bool" where
  "stub_at src c \<longleftrightarrow> take_bit 3 (chunk_address c) = 0 \<and> llabs (chunk_address c - src) < 2 ^ 31 \<and>
     unat (chunk_address c) + 8 < 2 ^ 63 \<and> (unat (chunk_address c) + 8 \<le> unat src \<or> unat src + 6 \<le> unat (chunk_address c))"

lemma stub_cut:
  assumes pg: "stub_page_ok src pg" and room: "near_has_room src (2 ^ 31) 8 perm pg" and cut: "cut_chunk 8 pg = (c, pg')"
  shows "stub_at src c"
proof -
  have ok: "page_ok pg" "take_bit 3 (page_cursor pg) = 0" "stub_apart src (page pg)" using pg by (simp_all add: stub_page_ok_def)
  have "page_has_room 8 perm pg" using room by (simp add: near_has_room_def page_has_room_def)
  then have "unat (page_cursor pg) + 8 \<le> chunk_end (page pg)" using page_has_room_nat [OF ok(1)] by fastforce
  then have "inside c (page pg)" "chunk_address c = page_cursor pg" "chunk_length c = 8"
    using cut_chunk_ok [OF ok(1) _ _ _ cut] cut by (auto simp: cut_chunk_def Let_def)
  moreover have "chunk_end (page pg) < 2 ^ 63" using ok(1) by (simp add: page_ok_def)
  moreover have "llabs (page_cursor pg - src) < 2 ^ 31" using room by (simp add: near_has_room_def)
  ultimately show ?thesis using ok(2,3) unfolding stub_at_def stub_apart_def inside_def chunk_end_def by auto
qed

lemma stub_allocated:
  assumes ok: "4 \<le> k" "k < 30" "unat src + 2 ^ 31 < 2 ^ 63" and v: "\<forall>i. grants_apart k src (view i)" and P: "stubs_ok src P"
  shows "\<exists>res. near_AllocateDataChunk view (2 ^ k) src (2 ^ 31) 8 P = Some res \<and>
    (case res of Inr (Some c, P') \<Rightarrow> stub_at src c | _ \<Rightarrow> True)"
proof -
  have "(2 :: nat) ^ (k + 1) \<le> 2 ^ 31" using ok(2) by (intro power_increasing) simp_all
  then have r: "range_ok k (2 ^ 31)" "unat src + unat (2 ^ 31 :: u64) < 2 ^ 63" using ok(2,3) by (simp_all add: range_ok_def)
  have "(2 :: int) ^ 4 \<le> 2 ^ k" using ok(1) by (intro power_increasing) simp_all
  then have n: "(0 :: int) \<le> 8" "(8 :: int) < 2 ^ k" by simp_all
  have vo: "\<forall>i. view_ok (view i)" using v by (simp add: grants_apart_def)
  have p31: "(2 :: int) ^ k < 2 ^ 31" using ok(2) by (intro power_strict_increasing) simp_all
  note unf = near_AllocateDataChunk_def
  show ?thesis
  proof (cases rule: near_search_returns [OF r vo n, of kReadWrite P])
    case kept: (3 j c pg)
    then have "stub_page_ok src (arena_pages (near_arena P) ! j)" using P by (simp add: stubs_ok_def list_all_length)
    then show ?thesis using stub_cut [OF _ kept(3,4)] kept(1) by (simp add: unf)
  next
    case mapped: (4 a j c pg)
    let ?new = "new_page a (word_of_int (2 ^ k)) kReadWrite"
    have "unat a + 2 ^ k < 2 ^ 63" using mapped(1) r(2) unfolding in_reach_def by linarith
    then have "page_ok ?new" using new_page_ok [of a "2 ^ k" kReadWrite] p31 by (simp add: nat_power_eq)
    moreover have "(2 :: nat) ^ 3 dvd 2 ^ k" using ok(1) by (intro le_imp_power_dvd) simp
    then have "2 ^ 3 dvd unat a" using mapped(1) by (meson dvd_trans in_reach_def mod_eq_0_iff_dvd)
    then have "take_bit 3 a = 0" by (simp add: take_bit_eq_mod word_unat_eq_iff unat_mod mod_eq_0_iff_dvd)
    moreover have "stub_apart src (page ?new)" using v [rule_format, of 0] mapped(2,3) by (simp add: grants_apart_def new_page_def)
    ultimately have "stub_page_ok src ?new" by (simp add: stub_page_ok_def new_page_def)
    then have "list_all (stub_page_ok src) (PushPage (2 ^ k) a kReadWrite (arena_pages (near_arena P)))"
      using P by (simp add: stubs_ok_def PushPage_def)
    then have "stub_page_ok src (PushPage (2 ^ k) a kReadWrite (arena_pages (near_arena P)) ! j)"
      using mapped(5) by (simp add: list_all_length)
    then show ?thesis using stub_cut [OF _ mapped(6,7)] mapped(4) by (simp add: unf)
  qed (simp_all add: unf)
qed

text \<open>A multiple of eight in reach leaves room for the six bytes of the jump.\<close>

lemma fits32_sint:
  assumes "- (2 ^ 31) \<le> sint w" "sint w < 2 ^ 31"
  shows "fits32 w"
proof -
  have "sint (scast (ucast w :: u32) :: u64) = signed_take_bit 31 (sint w)"
    by (rule bit_eqI) (auto simp: bit_simps min_def)
  also have "\<dots> = sint w" by (rule signed_take_bit_int_eq_self) (use assms in simp_all)
  finally show ?thesis by (simp add: fits32_def signed_word_eqI)
qed

lemma stub_fits:
  assumes "stub_at src c" "take_bit 3 src = 0"
  shows "fits32 (chunk_address c - (src + 6))"
proof -
  let ?d = "chunk_address c - src"
  have "uint (llabs ?d) < 2 ^ 31" using assms(1) by (simp add: stub_at_def word_less_def)
  then have a: "\<bar>sint ?d\<bar> < 2 ^ 31" by (simp add: uint_llabs)
  have "take_bit 3 ?d = 0" using assms unfolding take_bit_eq_0_iff stub_at_def by (simp add: dvd_diff)
  then have "\<not> bit ?d n" if "n < 3" for n using that by (metis bit_0_eq bit_take_bit_iff bot_apply bot_bool_def)
  then have "take_bit 3 (sint ?d) = 0" by (intro bit_eqI) (auto simp: bit_take_bit_iff bit_sint_iff min_def)
  then have "8 dvd sint ?d" by (simp add: take_bit_eq_0_iff)
  then have "8 - 2 ^ 31 \<le> sint ?d" using a by (auto elim!: dvdE)
  moreover have "sint (?d - 6) = sint ?d - 6" using sint_small [of "sint ?d - 6"] a calculation by simp
  ultimately have "fits32 (?d - 6)" using a by (intro fits32_sint) simp_all
  then show ?thesis by (simp add: algebra_simps)
qed

lemma stub_away:
  assumes "stub_at src c" "i < 8" "unat src + 2 ^ 31 < 2 ^ 63"
  shows "6 \<le> unat (chunk_address c + of_nat i - src)"
proof -
  have u: "unat (chunk_address c + of_nat i) = unat (chunk_address c) + i"
    using assms(1,2) by (subst unat_add_small) (simp_all add: stub_at_def unat_of_nat)
  show ?thesis using assms unfolding stub_at_def unat_sub_if' u by auto
qed

text \<open>
  C24: the trampoline on x64 reaches its target. For a function at a multiple of eight, whatever the system reports and maps,
  the generator returns; unless it faults, the buffer has six bytes, and a processor that enters the function with these
  bytes there, and elsewhere the memory that the generator left, jumps to the target. The pages of the near arena and
  those that the system grants do not cover the six bytes.
\<close>

theorem x64_trampoline_lands:
  assumes ok: "4 \<le> k" "k < 30" "unat src + 2 ^ 31 < 2 ^ 63" and v: "\<forall>i. grants_apart k src (view i)" and P: "stubs_ok src P"
    and align: "take_bit 3 src = 0"
  shows "\<exists>res. x64_GenerateNormalTrampolineBuffer view (2 ^ k) src dst P = Some res \<and>
    (case res of Inl f \<Rightarrow> True
     | Inr (bs, P') \<Rightarrow> length bs = 6 \<and>
         (\<forall>m. bytes_at m src 6 = bs \<and> (\<forall>x. 6 \<le> unat (x - src) \<longrightarrow> m x = memory P' x) \<longrightarrow> x64_jump m src = Some dst))"
proof -
  let ?alloc = "near_AllocateDataChunk view (2 ^ k) src 0x80000000 8 P"
  obtain res where res: "?alloc = Some res" "case res of Inr (Some c, P') \<Rightarrow> stub_at src c | _ \<Rightarrow> True"
    using stub_allocated [OF ok v P] by auto
  note unf = x64_GenerateNormalTrampolineBuffer_def AllocIndirectStub_def
  show ?thesis
  proof (cases "\<exists>c P1. res = Inr (Some c, P1)")
    case False
    then show ?thesis using res(1) by (cases res) (auto simp: unf)
  next
    case True
    then obtain c P1 where c: "?alloc = Some (Inr (Some c, P1))" "stub_at src c" using res by auto
    let ?bs = "[0xFF, 0x25] @ le_bytes 4 (ucast (chunk_address c - (src + 6)) :: u32)"
    show ?thesis
    proof (cases "memcpy_to (2 ^ k) (chunk_address c) (le_bytes 8 dst) P1")
      case (Inl f)
      then show ?thesis using c(1) by (simp add: unf)
    next
      case (Inr P')
      have P': "memory P' = write_bytes (chunk_address c) (le_bytes 8 dst) (memory P1)"
        using Inr by (auto simp: memcpy_to_def split: if_splits)
      have "x64_jump m src = Some dst" if code: "bytes_at m src 6 = ?bs" and mem: "\<forall>x. 6 \<le> unat (x - src) \<longrightarrow> m x = memory P' x" for m
      proof (rule x64_jump_through [OF code stub_fits [OF c(2) align]])
        have "m (chunk_address c + of_nat i) = le_bytes 8 dst ! i" if "i < 8" for i
          using stub_away [OF c(2) that ok(3)] mem that by (simp add: P' write_bytes_at)
        then show "bytes_at m (chunk_address c) 8 = le_bytes 8 dst" by (intro nth_equalityI) (simp_all add: bytes_at_def)
      qed
      then show ?thesis using c(1) Inr by (simp add: unf JmpNearIndirect_bytes)
    qed
  qed
qed

theorem x64_trampoline_lands_witness:
  "\<exists>bs P'. x64_GenerateNormalTrampolineBuffer (\<lambda>_. \<lparr>process_memory_layout = [], Allocate = \<lambda>_. 0\<rparr>) (2 ^ 12) 0x401000 0x7fff00001234
      \<lparr>memory = \<lambda>_. 0, protection = [0x500000 \<mapsto> kReadWrite], code_arena = None, near_arena = Some [new_page 0x500000 4096 kReadWrite],
       interceptor = None\<rparr> = Some (Inr (bs, P')) \<and>
    x64_jump (write_bytes 0x401000 bs (memory P')) 0x401000 = Some 0x7fff00001234"
proof -
  let ?v = "\<lambda>_ :: nat. \<lparr>process_memory_layout = [], Allocate = \<lambda>_. 0\<rparr>"
  let ?P = "\<lparr>memory = \<lambda>_. 0, protection = [0x500000 \<mapsto> kReadWrite], code_arena = None, near_arena = Some [new_page 0x500000 4096 kReadWrite],
       interceptor = None\<rparr>"
  have w: "list_all (\<lambda>i. writable 4096 P (0x500000 + of_nat i)) [0..<8]" if "protection P = [0x500000 \<mapsto> kReadWrite]" for P
    using that by (simp add: upt_rec writable_def page_of_def ALIGN_FLOOR_def)
  have "\<exists>bs P'. x64_GenerateNormalTrampolineBuffer ?v (2 ^ 12) 0x401000 0x7fff00001234 ?P = Some (Inr (bs, P'))"
    by (simp add: x64_GenerateNormalTrampolineBuffer_def AllocIndirectStub_def near_AllocateDataChunk_def near_AllocateChunk_def near_search.simps
        arena_pages_def near_has_room_def new_page_def llabs_def cut_chunk_def Let_def memcpy_to_def w)
  then obtain bs P' where g: "x64_GenerateNormalTrampolineBuffer ?v (2 ^ 12) 0x401000 0x7fff00001234 ?P = Some (Inr (bs, P'))" by blast
  have "\<forall>i. grants_apart 12 0x401000 (?v i)" "stubs_ok 0x401000 ?P"
    by (simp_all add: grants_apart_def view_ok_def stubs_ok_def stub_page_ok_def page_ok_def arena_pages_def new_page_def chunk_end_def stub_apart_def take_bit_eq_mod)
  from x64_trampoline_lands [OF _ _ _ this, of "0x7fff00001234"] g
  have l: "length bs = 6" "bytes_at m 0x401000 6 = bs \<and> (\<forall>x. 6 \<le> unat (x - 0x401000) \<longrightarrow> m x = memory P' x) \<longrightarrow> x64_jump m 0x401000 = Some 0x7fff00001234" for m
    by (simp_all add: take_bit_eq_mod)
  have "bytes_at (write_bytes 0x401000 bs (memory P')) 0x401000 6 = bs"
    using l(1) by (intro nth_equalityI) (simp_all add: bytes_at_def write_bytes_at)
  then have "x64_jump (write_bytes 0x401000 bs (memory P')) 0x401000 = Some 0x7fff00001234"
    using l by (simp add: write_bytes_outside)
  then show ?thesis using g by blast
qed

end
