(* ===== verification/AppGlue.thy ===== *)
theory AppGlue
  imports Prelude
begin

text \<open>
  The native activity glue (\<^verbatim>\<open>android_native_app_glue.c\<close>): the main thread of the process hands commands to the thread of the
  application through a pipe and waits for their effect on a condition variable. Each thread is a list of
  actions that the interleaving relation executes one by one; the mutex, the condition variable and the
  pipe behave as POSIX says (a waiting thread sleeps until a broadcast, then takes the mutex again and tests
  again). The command handler of the application is an argument. Handles of the system are addresses;
  the configuration object is left to the system.
\<close>

section \<open>Data\<close>

datatype app_cmd =
    APP_CMD_INPUT_CHANGED | APP_CMD_INIT_WINDOW | APP_CMD_TERM_WINDOW | APP_CMD_WINDOW_RESIZED
  | APP_CMD_WINDOW_REDRAW_NEEDED | APP_CMD_CONTENT_RECT_CHANGED | APP_CMD_GAINED_FOCUS | APP_CMD_LOST_FOCUS
  | APP_CMD_CONFIG_CHANGED | APP_CMD_LOW_MEMORY | APP_CMD_START | APP_CMD_RESUME | APP_CMD_SAVE_STATE
  | APP_CMD_PAUSE | APP_CMD_STOP | APP_CMD_DESTROY

record android_app =
  savedState :: "u8 list option"
  savedStateSize :: nat
  inputQueue :: addr
  window :: addr
  activityState :: app_cmd
  destroyRequested :: bool
  running :: bool
  stateSaved :: bool
  destroyed :: bool
  pendingInputQueue :: addr
  pendingWindow :: addr
  looper_queue :: addr

text \<open>\<^verbatim>\<open>memset\<close> zeroes the new object; the zero of \<^verbatim>\<open>activityState\<close> is the first command.\<close>

definition new_android_app :: "u8 list option \<Rightarrow> android_app" where
  "new_android_app saved =
     \<lparr>savedState = saved, savedStateSize = (case saved of None \<Rightarrow> 0 | Some bs \<Rightarrow> length bs), inputQueue = 0, window = 0,
      activityState = APP_CMD_INPUT_CHANGED, destroyRequested = False, running = False, stateSaved = False, destroyed = False,
      pendingInputQueue = 0, pendingWindow = 0, looper_queue = 0\<rparr>"

text \<open>The actions of a thread. \<open>Write p c\<close> writes the command to the pipe if the test \<open>p\<close> holds.\<close>

datatype act =
    Lock | Unlock | Broadcast
  | Upd "android_app \<Rightarrow> android_app"
  | Write "android_app \<Rightarrow> bool" app_cmd
  | WaitWhile "android_app \<Rightarrow> bool"
  | TakeState | Free

section \<open>The thread of the application\<close>

definition free_saved_state :: "act list" where
  "free_saved_state =
     [Lock, Upd (\<lambda>a. if savedState a \<noteq> None then a\<lparr>savedState := None, savedStateSize := 0\<rparr> else a), Unlock]"

definition android_app_read_cmd :: "app_cmd \<Rightarrow> act list" where
  "android_app_read_cmd cmd = (if cmd = APP_CMD_SAVE_STATE then free_saved_state else [])"

definition input_changed :: "android_app \<Rightarrow> android_app" where
  "input_changed a =
     (let a = (if inputQueue a \<noteq> 0 then a\<lparr>looper_queue := 0\<rparr> else a); a = a\<lparr>inputQueue := pendingInputQueue a\<rparr>
      in if inputQueue a \<noteq> 0 then a\<lparr>looper_queue := inputQueue a\<rparr> else a)"

definition android_app_pre_exec_cmd :: "app_cmd \<Rightarrow> act list" where
  "android_app_pre_exec_cmd cmd =
     (if cmd = APP_CMD_INPUT_CHANGED then [Lock, Upd input_changed, Broadcast, Unlock]
      else if cmd = APP_CMD_INIT_WINDOW then [Lock, Upd (\<lambda>a. a\<lparr>window := pendingWindow a\<rparr>), Broadcast, Unlock]
      else if cmd = APP_CMD_TERM_WINDOW then [Broadcast]
      else if cmd \<in> {APP_CMD_RESUME, APP_CMD_START, APP_CMD_PAUSE, APP_CMD_STOP}
        then [Lock, Upd (\<lambda>a. a\<lparr>activityState := cmd\<rparr>), Broadcast, Unlock]
      else if cmd = APP_CMD_DESTROY then [Upd (\<lambda>a. a\<lparr>destroyRequested := True\<rparr>)]
      else [])"

definition android_app_post_exec_cmd :: "app_cmd \<Rightarrow> act list" where
  "android_app_post_exec_cmd cmd =
     (if cmd = APP_CMD_TERM_WINDOW then [Lock, Upd (\<lambda>a. a\<lparr>window := 0\<rparr>), Broadcast, Unlock]
      else if cmd = APP_CMD_SAVE_STATE then [Lock, Upd (\<lambda>a. a\<lparr>stateSaved := True\<rparr>), Broadcast, Unlock]
      else if cmd = APP_CMD_RESUME then free_saved_state
      else [])"

definition android_app_destroy :: "act list" where
  "android_app_destroy =
     free_saved_state @
     [Lock, Upd (\<lambda>a. (if inputQueue a \<noteq> 0 then a\<lparr>looper_queue := 0\<rparr> else a)\<lparr>destroyed := True\<rparr>), Broadcast, Unlock]"

type_synonym handler = "app_cmd \<Rightarrow> android_app \<Rightarrow> android_app"

definition process_cmd :: "handler \<Rightarrow> app_cmd \<Rightarrow> act list" where
  "process_cmd h cmd = android_app_read_cmd cmd @ android_app_pre_exec_cmd cmd @ [Upd (h cmd)] @ android_app_post_exec_cmd cmd"

text \<open>
  \<^verbatim>\<open>android_app_entry\<close> reports that it runs, then \<^verbatim>\<open>android_main\<close> polls the pipe and processes commands until the
  activity is destroyed, and the thread cleans up. A handler may not stop earlier.
\<close>

definition android_app_entry :: "act list" where
  "android_app_entry = [Lock, Upd (\<lambda>a. a\<lparr>running := True\<rparr>), Broadcast, Unlock]"

definition command_prog :: "handler \<Rightarrow> app_cmd \<Rightarrow> act list" where
  "command_prog h cmd = process_cmd h cmd @ (if cmd = APP_CMD_DESTROY then android_app_destroy else [])"

text \<open>The \<^verbatim>\<open>android_main\<close> of \<^verbatim>\<open>hook.cpp\<close> is empty: the thread cleans up at once.\<close>

definition empty_main_entry :: "act list" where
  "empty_main_entry = android_app_entry @ android_app_destroy"

section \<open>The main thread\<close>

definition android_app_write_cmd :: "app_cmd \<Rightarrow> act list" where
  "android_app_write_cmd cmd = [Write (\<lambda>_. True) cmd]"

definition android_app_create_wait :: "act list" where
  "android_app_create_wait = [Lock, WaitWhile (\<lambda>a. \<not> running a), Unlock]"

definition android_app_set_input :: "addr \<Rightarrow> act list" where
  "android_app_set_input q =
     [Lock, Upd (\<lambda>a. a\<lparr>pendingInputQueue := q\<rparr>)] @ android_app_write_cmd APP_CMD_INPUT_CHANGED @
     [WaitWhile (\<lambda>a. inputQueue a \<noteq> pendingInputQueue a), Unlock]"

definition android_app_set_window :: "addr \<Rightarrow> act list" where
  "android_app_set_window w =
     [Lock, Write (\<lambda>a. pendingWindow a \<noteq> 0) APP_CMD_TERM_WINDOW, Upd (\<lambda>a. a\<lparr>pendingWindow := w\<rparr>),
      Write (\<lambda>_. w \<noteq> 0) APP_CMD_INIT_WINDOW, WaitWhile (\<lambda>a. window a \<noteq> pendingWindow a), Unlock]"

definition android_app_set_activity_state :: "app_cmd \<Rightarrow> act list" where
  "android_app_set_activity_state cmd =
     [Lock] @ android_app_write_cmd cmd @ [WaitWhile (\<lambda>a. activityState a \<noteq> cmd), Unlock]"

definition android_app_free :: "act list" where
  "android_app_free =
     [Lock] @ android_app_write_cmd APP_CMD_DESTROY @ [WaitWhile (\<lambda>a. \<not> destroyed a), Unlock, Free]"

definition onSaveInstanceState :: "act list" where
  "onSaveInstanceState =
     [Lock, Upd (\<lambda>a. a\<lparr>stateSaved := False\<rparr>)] @ android_app_write_cmd APP_CMD_SAVE_STATE @
     [WaitWhile (\<lambda>a. \<not> stateSaved a), TakeState, Unlock]"

text \<open>The callbacks of the activity, by what they ask of the application.\<close>

datatype main_request = Create | Post app_cmd | SetState app_cmd | SetInput addr | SetWindow addr | SaveState | FreeApp

fun request_prog :: "main_request \<Rightarrow> act list" where
  "request_prog Create = android_app_create_wait"
| "request_prog (Post cmd) = android_app_write_cmd cmd"
| "request_prog (SetState cmd) = android_app_set_activity_state cmd"
| "request_prog (SetInput q) = android_app_set_input q"
| "request_prog (SetWindow w) = android_app_set_window w"
| "request_prog SaveState = onSaveInstanceState"
| "request_prog FreeApp = android_app_free"

datatype callback =
    onDestroy | onStart | onResume | onSaveInstance | onPause | onStop | onConfigurationChanged | onLowMemory
  | onWindowFocusChanged bool | onNativeWindowCreated addr | onNativeWindowDestroyed addr
  | onInputQueueCreated addr | onInputQueueDestroyed addr

fun callback_request :: "callback \<Rightarrow> main_request" where
  "callback_request onDestroy = FreeApp"
| "callback_request onStart = SetState APP_CMD_START"
| "callback_request onResume = SetState APP_CMD_RESUME"
| "callback_request onSaveInstance = SaveState"
| "callback_request onPause = SetState APP_CMD_PAUSE"
| "callback_request onStop = SetState APP_CMD_STOP"
| "callback_request onConfigurationChanged = Post APP_CMD_CONFIG_CHANGED"
| "callback_request onLowMemory = Post APP_CMD_LOW_MEMORY"
| "callback_request (onWindowFocusChanged focused) = Post (if focused then APP_CMD_GAINED_FOCUS else APP_CMD_LOST_FOCUS)"
| "callback_request (onNativeWindowCreated w) = SetWindow w"
| "callback_request (onNativeWindowDestroyed w) = SetWindow 0"
| "callback_request (onInputQueueCreated q) = SetInput q"
| "callback_request (onInputQueueDestroyed q) = SetInput 0"

section \<open>Interleaving\<close>

datatype thread = Main | App
datatype status = Running | Sleeping | Woken

record glue =
  app :: android_app
  msgpipe :: "app_cmd list"
  mutex :: "thread option"
  app_prog :: "act list"
  app_polls :: bool
  main_req :: main_request
  main_pc :: nat
  main_status :: status
  main_result :: "u8 list option"
  freed :: bool

definition main_act :: "glue \<Rightarrow> act option" where
  "main_act s = nth_opt (request_prog (main_req s)) (main_pc s)"

definition take_state :: "android_app \<Rightarrow> android_app" where
  "take_state a = (if savedState a \<noteq> None then a\<lparr>savedState := None, savedStateSize := 0\<rparr> else a)"

definition woken :: "status \<Rightarrow> status" where
  "woken st = (case st of Sleeping \<Rightarrow> Woken | _ \<Rightarrow> st)"

text \<open>
  One step of one thread. The main thread acts while it is \<open>Running\<close>; in \<^verbatim>\<open>pthread_cond_wait\<close> it gives the mutex back and is
  \<open>Sleeping\<close> until a broadcast makes it \<open>Woken\<close>; it then needs the mutex to go on with the test of its loop.
\<close>

inductive glue_step :: "handler \<Rightarrow> glue \<Rightarrow> glue \<Rightarrow> bool" for h where
  app_read: "\<lbrakk>app_polls s; app_prog s = []; msgpipe s = cmd # cmds\<rbrakk> \<Longrightarrow>
    glue_step h s (s\<lparr>msgpipe := cmds, app_prog := command_prog h cmd, app_polls := (cmd \<noteq> APP_CMD_DESTROY)\<rparr>)"
| app_lock: "\<lbrakk>app_prog s = Lock # p; mutex s = None\<rbrakk> \<Longrightarrow> glue_step h s (s\<lparr>mutex := Some App, app_prog := p\<rparr>)"
| app_unlock: "app_prog s = Unlock # p \<Longrightarrow> glue_step h s (s\<lparr>mutex := None, app_prog := p\<rparr>)"
| app_broadcast: "app_prog s = Broadcast # p \<Longrightarrow> glue_step h s (s\<lparr>app_prog := p, main_status := woken (main_status s)\<rparr>)"
| app_upd: "app_prog s = Upd f # p \<Longrightarrow> glue_step h s (s\<lparr>app := f (app s), app_prog := p\<rparr>)"
| main_lock: "\<lbrakk>main_act s = Some Lock; mutex s = None\<rbrakk> \<Longrightarrow> glue_step h s (s\<lparr>mutex := Some Main, main_pc := Suc (main_pc s)\<rparr>)"
| main_unlock: "main_act s = Some Unlock \<Longrightarrow> glue_step h s (s\<lparr>mutex := None, main_pc := Suc (main_pc s)\<rparr>)"
| main_upd: "main_act s = Some (Upd f) \<Longrightarrow> glue_step h s (s\<lparr>app := f (app s), main_pc := Suc (main_pc s)\<rparr>)"
| main_write: "main_act s = Some (Write t cmd) \<Longrightarrow>
    glue_step h s (s\<lparr>msgpipe := msgpipe s @ (if t (app s) then [cmd] else []), main_pc := Suc (main_pc s)\<rparr>)"
| main_pass: "\<lbrakk>main_act s = Some (WaitWhile b); main_status s = Running; \<not> b (app s)\<rbrakk> \<Longrightarrow>
    glue_step h s (s\<lparr>main_pc := Suc (main_pc s)\<rparr>)"
| main_sleep: "\<lbrakk>main_act s = Some (WaitWhile b); main_status s = Running; b (app s)\<rbrakk> \<Longrightarrow>
    glue_step h s (s\<lparr>mutex := None, main_status := Sleeping\<rparr>)"
| main_wake: "\<lbrakk>main_status s = Woken; mutex s = None\<rbrakk> \<Longrightarrow> glue_step h s (s\<lparr>mutex := Some Main, main_status := Running\<rparr>)"
| main_take: "main_act s = Some TakeState \<Longrightarrow>
    glue_step h s (s\<lparr>main_result := savedState (app s), app := take_state (app s), main_pc := Suc (main_pc s)\<rparr>)"
| main_free: "main_act s = Some Free \<Longrightarrow> glue_step h s (s\<lparr>freed := True, main_pc := Suc (main_pc s)\<rparr>)"

text \<open>The framework calls one callback after the other, until the object is freed.\<close>

definition main_idle :: "glue \<Rightarrow> bool" where
  "main_idle s \<longleftrightarrow> main_act s = None"

definition start :: "act list \<Rightarrow> bool \<Rightarrow> u8 list option \<Rightarrow> glue" where
  "start entry polls saved =
     \<lparr>app = new_android_app saved, msgpipe = [], mutex = None, app_prog = entry, app_polls = polls, main_req = Create, main_pc = 0,
      main_status = Running, main_result = None, freed = False\<rparr>"

definition begin_callback :: "callback \<Rightarrow> glue \<Rightarrow> glue" where
  "begin_callback cb s = s\<lparr>main_req := callback_request cb, main_pc := 0, main_result := None\<rparr>"

inductive reachable :: "handler \<Rightarrow> glue \<Rightarrow> glue \<Rightarrow> bool" for h s0 where
  initial: "reachable h s0 s0"
| step: "\<lbrakk>reachable h s0 s; glue_step h s s'\<rbrakk> \<Longrightarrow> reachable h s0 s'"
| callback: "\<lbrakk>reachable h s0 s; main_idle s; \<not> freed s\<rbrakk> \<Longrightarrow> reachable h s0 (begin_callback cb s)"

text \<open>The application with a polling \<^verbatim>\<open>android_main\<close>, and with the empty one of \<^verbatim>\<open>hook.cpp\<close>.\<close>

definition polling_app :: "u8 list option \<Rightarrow> glue" where
  "polling_app saved = start android_app_entry True saved"

definition hook_app :: "u8 list option \<Rightarrow> glue" where
  "hook_app saved = start empty_main_entry False saved"

end
