(* ===== verification/AppGlueInvariant.thy ===== *)
theory AppGlueInvariant
  imports AppGlue
begin

text \<open>
  The invariant of the glue. The \<open>future\<close> of the application's thread is the rest of its program followed by the
  programs of the commands in the pipe: its own steps only consume it, so what the future promises
  holds on. For each program point of a callback the invariant says what the future promises to the waiting main
  thread: that the awaited condition becomes true, stays true, and is followed by a broadcast.
\<close>

section \<open>What a program does to the object\<close>

fun eff :: "act \<Rightarrow> android_app \<Rightarrow> android_app" where
  "eff (Upd f) a = f a"
| "eff _ a = a"

text \<open>\<open>b\<close> is false from now on; \<open>b\<close> is false from some broadcast of the program on.\<close>

fun stays_false :: "(android_app \<Rightarrow> bool) \<Rightarrow> android_app \<Rightarrow> act list \<Rightarrow> bool" where
  "stays_false b a [] \<longleftrightarrow> \<not> b a"
| "stays_false b a (x # p) \<longleftrightarrow> \<not> b a \<and> stays_false b (eff x a) p"

fun promised :: "(android_app \<Rightarrow> bool) \<Rightarrow> android_app \<Rightarrow> act list \<Rightarrow> bool" where
  "promised b a [] \<longleftrightarrow> False"
| "promised b a (Broadcast # p) \<longleftrightarrow> stays_false b a p \<or> promised b a p"
| "promised b a (x # p) \<longleftrightarrow> promised b (eff x a) p"

definition settled :: "(android_app \<Rightarrow> bool) \<Rightarrow> android_app \<Rightarrow> act list \<Rightarrow> bool" where
  "settled b a p \<longleftrightarrow> promised b a p \<or> stays_false b a p"

text \<open>\<open>Q\<close> holds now and at every later point of the program, of the object and the rest of the program there.\<close>

fun throughout :: "(android_app \<Rightarrow> act list \<Rightarrow> bool) \<Rightarrow> android_app \<Rightarrow> act list \<Rightarrow> bool" where
  "throughout ok a [] \<longleftrightarrow> ok a []"
| "throughout ok a (x # p) \<longleftrightarrow> ok a (x # p) \<and> throughout ok (eff x a) p"

definition run_prog :: "act list \<Rightarrow> android_app \<Rightarrow> android_app" where
  "run_prog p a = fold eff p a"

lemma run_prog_simps [simp]: "run_prog [] a = a" "run_prog (x # p) a = run_prog p (eff x a)" "run_prog (p @ q) a = run_prog q (run_prog p a)"
  by (simp_all add: run_prog_def)

lemma promised_step: "promised b a (x # p) \<Longrightarrow> settled b (eff x a) p"
  by (cases x) (auto simp: settled_def)

lemma promised_keep: "promised b a (x # p) \<Longrightarrow> x \<noteq> Broadcast \<Longrightarrow> promised b (eff x a) p"
  by (cases x) auto

lemma settled_step: "settled b a (x # p) \<Longrightarrow> settled b (eff x a) p"
  using promised_step by (auto simp: settled_def)

lemma throughout_now: "throughout ok a p \<Longrightarrow> ok a p"
  by (cases p) auto

lemma throughout_step: "throughout ok a (x # p) \<Longrightarrow> throughout ok (eff x a) p"
  by simp

lemma promised_append: "promised b (run_prog p a) q \<Longrightarrow> promised b a (p @ q)"
  by (induction b a p rule: promised.induct) (auto simp: run_prog_def)

text \<open>Actions that leave the value of \<open>b\<close> alone may follow.\<close>

lemma stays_append:
  assumes "stays_false b a p" and "\<And>x a. x \<in> set q \<Longrightarrow> b (eff x a) = b a"
  shows "stays_false b a (p @ q)"
proof -
  have end_q: "\<not> b a \<Longrightarrow> stays_false b a q" for a using assms(2) by (induction q arbitrary: a) auto
  show ?thesis using assms(1) by (induction p arbitrary: a) (auto intro: end_q)
qed

lemma promised_append_keep:
  assumes "promised b a p" and "\<And>x a. x \<in> set q \<Longrightarrow> b (eff x a) = b a"
  shows "promised b a (p @ q)"
  using assms(1) stays_append [OF _ assms(2)] by (induction b a p rule: promised.induct) auto

lemma settled_append_keep:
  "\<lbrakk>settled b a p; \<And>x a. x \<in> set q \<Longrightarrow> b (eff x a) = b a\<rbrakk> \<Longrightarrow> settled b a (p @ q)"
  using promised_append_keep stays_append by (metis settled_def)

lemma settled_cong:
  assumes keep: "\<And>x a. x \<in> set p \<Longrightarrow> k (eff x a) = k a" and eq: "\<And>a'. k a' = k a \<Longrightarrow> b a' = c a'"
  shows "settled b a p = settled c a p"
proof -
  have st: "stays_false b a p = stays_false c a p" if "\<And>x a. x \<in> set p \<Longrightarrow> k (eff x a) = k a" "\<And>a'. k a' = k a \<Longrightarrow> b a' = c a'" for a p
    using that by (induction p arbitrary: a) (auto simp: eq)
  have "promised b a p = promised c a p" using keep eq
  proof (induction p arbitrary: a)
    case (Cons x p)
    have "stays_false b a p = stays_false c a p" by (rule st) (use Cons.prems in auto)
    moreover have "promised b (eff x a) p = promised c (eff x a) p" by (rule Cons.IH) (use Cons.prems in auto)
    ultimately show ?case by (cases x) auto
  qed simp
  then show ?thesis using st [OF keep eq] by (simp add: settled_def)
qed

lemma throughout_append: "throughout ok a (p @ q) \<Longrightarrow> throughout ok (run_prog p a) q"
  by (induction p arbitrary: a) (auto dest: throughout_now)

definition leaves :: "(android_app \<Rightarrow> 'v) \<Rightarrow> act list \<Rightarrow> bool" where
  "leaves k p \<longleftrightarrow> (\<forall>x\<in>set p. \<forall>a. k (eff x a) = k a)"

lemma leaves_simps [simp]:
  "leaves k []" "leaves k (x # p) \<longleftrightarrow> (\<forall>a. k (eff x a) = k a) \<and> leaves k p" "leaves k (p @ q) \<longleftrightarrow> leaves k p \<and> leaves k q"
  by (auto simp: leaves_def)

lemma leaves_run: "leaves k p \<Longrightarrow> k (run_prog p a) = k a"
  by (induction p arbitrary: a) auto

lemma throughout_append_keep:
  assumes "leaves k p" "throughout ok (run_prog p a) q" "\<And>a' r. k a' = k a \<Longrightarrow> ok a' (r @ q)"
  shows "throughout ok a (p @ q)"
  using assms
proof (induction p arbitrary: a)
  case (Cons x p)
  have "throughout ok (eff x a) (p @ q)" using Cons.prems by (intro Cons.IH) auto
  then show ?case using Cons.prems(3) [of a "x # p"] by simp
qed simp

section \<open>The programs of the commands\<close>

text \<open>What is asked of a command handler: it touches nothing of the glue but the saved state.\<close>

definition glue_fields :: "android_app \<Rightarrow> addr \<times> addr \<times> app_cmd \<times> bool \<times> bool \<times> bool \<times> addr \<times> addr" where
  "glue_fields a = (inputQueue a, window a, activityState a, running a, stateSaved a, destroyed a, pendingInputQueue a, pendingWindow a)"

definition benign :: "(android_app \<Rightarrow> android_app) \<Rightarrow> bool" where
  "benign f \<longleftrightarrow> (\<forall>a. glue_fields (f a) = glue_fields a)"

definition handler_ok :: "handler \<Rightarrow> bool" where
  "handler_ok h \<longleftrightarrow> (\<forall>cmd. benign (h cmd))"

text \<open>Critical sections are well bracketed, and an update outside of them is benign.\<close>

fun bracketed :: "bool \<Rightarrow> act list \<Rightarrow> bool" where
  "bracketed i [] = (\<not> i)"
| "bracketed i (Lock # p) = (\<not> i \<and> bracketed True p)"
| "bracketed i (Unlock # p) = (i \<and> bracketed False p)"
| "bracketed i (Upd f # p) = ((i \<or> benign f) \<and> bracketed i p)"
| "bracketed i (Broadcast # p) = bracketed i p"
| "bracketed i _ = False"

text \<open>No action touches the pending handles, and what it does to the window depends on the window and its pending handle only.\<close>

definition win :: "android_app \<Rightarrow> addr \<times> addr" where
  "win a = (window a, pendingWindow a)"

definition act_ok :: "act \<Rightarrow> bool" where
  "act_ok x \<longleftrightarrow>
     (\<forall>a. pendingWindow (eff x a) = pendingWindow a \<and> pendingInputQueue (eff x a) = pendingInputQueue a)
     \<and> (\<forall>a a'. win a = win a' \<longrightarrow> win (eff x a) = win (eff x a'))"

lemma act_ok_win: "act_ok x \<Longrightarrow> win a = win a' \<Longrightarrow> win (eff x a) = win (eff x a')"
  unfolding act_ok_def by blast

lemma act_ok_pending:
  "act_ok x \<Longrightarrow> pendingWindow (eff x a) = pendingWindow a" "act_ok x \<Longrightarrow> pendingInputQueue (eff x a) = pendingInputQueue a"
  unfolding act_ok_def by blast+

lemma handler_fields [simp]:
  assumes "handler_ok h"
  shows "inputQueue (h cmd a) = inputQueue a" "window (h cmd a) = window a" "activityState (h cmd a) = activityState a"
    "running (h cmd a) = running a" "stateSaved (h cmd a) = stateSaved a" "destroyed (h cmd a) = destroyed a"
    "pendingInputQueue (h cmd a) = pendingInputQueue a" "pendingWindow (h cmd a) = pendingWindow a"
  using assms by (simp_all add: handler_ok_def benign_def glue_fields_def)

lemmas command_defs = command_prog_def process_cmd_def android_app_read_cmd_def android_app_pre_exec_cmd_def
  android_app_post_exec_cmd_def android_app_destroy_def free_saved_state_def input_changed_def

lemma benign_intros:
  "handler_ok h \<Longrightarrow> benign (h cmd)" "benign (\<lambda>a. a\<lparr>destroyRequested := True\<rparr>)"
  unfolding handler_ok_def by (blast, simp add: benign_def glue_fields_def)

lemma command_prog_bracketed: "handler_ok h \<Longrightarrow> bracketed False (command_prog h cmd)"
  by (cases cmd) (simp_all add: command_defs benign_intros)

lemma command_prog_not_Nil [simp]: "command_prog h cmd \<noteq> []"
  by (simp add: command_defs)

lemma command_prog_ok: "handler_ok h \<Longrightarrow> x \<in> set (command_prog h cmd) \<Longrightarrow> act_ok x"
  by (cases cmd) (auto simp: command_defs act_ok_def win_def Let_def)

declare act_ok_pending [simp]

lemma command_prog_keeps:
  assumes "handler_ok h"
  shows "cmd \<noteq> APP_CMD_SAVE_STATE \<Longrightarrow> leaves stateSaved (command_prog h cmd)"
    "cmd \<noteq> APP_CMD_DESTROY \<Longrightarrow> leaves destroyed (command_prog h cmd)"
    "cmd \<noteq> APP_CMD_INIT_WINDOW \<Longrightarrow> cmd \<noteq> APP_CMD_TERM_WINDOW \<Longrightarrow> leaves window (command_prog h cmd)"
  using assms by (cases cmd; auto simp: command_defs Let_def)+

text \<open>The promise that each command makes.\<close>

lemma command_prog_promised:
  assumes "handler_ok h"
  shows "c \<in> {APP_CMD_START, APP_CMD_RESUME, APP_CMD_PAUSE, APP_CMD_STOP} \<Longrightarrow> promised (\<lambda>a. activityState a \<noteq> c) a (command_prog h c)"
    "promised (\<lambda>a. inputQueue a \<noteq> pendingInputQueue a) a (command_prog h APP_CMD_INPUT_CHANGED)"
    "promised (\<lambda>a. window a \<noteq> pendingWindow a) a (command_prog h APP_CMD_INIT_WINDOW)"
    "promised (\<lambda>a. \<not> stateSaved a) a (command_prog h APP_CMD_SAVE_STATE)"
    "promised (\<lambda>a. \<not> destroyed a) a (command_prog h APP_CMD_DESTROY)"
  using assms by (auto simp: command_defs Let_def)

lemma settled_respects:
  assumes "\<And>x. x \<in> set p \<Longrightarrow> act_ok x" "win a = win a'" "\<And>a a'. win a = win a' \<Longrightarrow> b a = b a'"
  shows "settled b a p = settled b a' p"
proof -
  have st: "stays_false b a p = stays_false b a' p" if "\<And>x. x \<in> set p \<Longrightarrow> act_ok x" "win a = win a'" for a a' p
    using that
  proof (induction p arbitrary: a a')
    case (Cons x p)
    then have "stays_false b (eff x a) p = stays_false b (eff x a') p"
      by (intro Cons.IH act_ok_win) (auto intro: act_ok_win)
    then show ?case using assms(3) [OF Cons.prems(2)] by simp
  qed (metis assms(3) stays_false.simps(1))
  have "promised b a p = promised b a' p" using assms(1,2)
  proof (induction p arbitrary: a a')
    case (Cons x p)
    then have "promised b (eff x a) p = promised b (eff x a') p"
      by (intro Cons.IH act_ok_win) (auto intro: act_ok_win)
    moreover have "stays_false b a p = stays_false b a' p" using Cons.prems by (intro st) auto
    ultimately show ?case by (cases x) auto
  qed simp
  then show ?thesis using st [OF assms(1,2)] by (simp add: settled_def)
qed

section \<open>The invariant\<close>

definition future :: "handler \<Rightarrow> glue \<Rightarrow> act list" where
  "future h s = app_prog s @ concat (map (command_prog h) (msgpipe s))"

text \<open>After the last update of a command's program, only this is left.\<close>

definition ends :: "act list \<Rightarrow> bool" where
  "ends p \<longleftrightarrow> p = [] \<or> p = [Unlock] \<or> p = [Broadcast, Unlock]"

text \<open>A state comes from the handler, called with nothing saved before.\<close>

definition saved_by :: "handler \<Rightarrow> u8 list option \<Rightarrow> bool" where
  "saved_by h v \<longleftrightarrow> (\<exists>a. savedState a = None \<and> v = savedState (h APP_CMD_SAVE_STATE a))"

definition save_point :: "handler \<Rightarrow> android_app \<Rightarrow> act list \<Rightarrow> bool" where
  "save_point h a p \<longleftrightarrow> (stateSaved a \<longrightarrow> ends p \<and> saved_by h (savedState a))"

definition destroy_point :: "android_app \<Rightarrow> act list \<Rightarrow> bool" where
  "destroy_point a p \<longleftrightarrow> (destroyed a \<longrightarrow> ends p)"

definition w_ok :: "android_app \<Rightarrow> act list \<Rightarrow> bool" where
  "w_ok a p \<longleftrightarrow> (pendingWindow a = 0 \<longrightarrow> settled (\<lambda>a. window a \<noteq> 0) a p)"

definition term_last :: "act list \<Rightarrow> bool" where
  "term_last p \<longleftrightarrow> (\<exists>q. p = q @ [Lock, Upd (\<lambda>a. a\<lparr>window := 0\<rparr>), Broadcast, Unlock])"

definition alive :: "android_app \<Rightarrow> act list \<Rightarrow> bool" where
  "alive a p \<longleftrightarrow> \<not> destroyed a \<and> leaves destroyed p \<and> w_ok a p"

fun phase :: "handler \<Rightarrow> main_request \<Rightarrow> nat \<Rightarrow> android_app \<Rightarrow> act list \<Rightarrow> u8 list option \<Rightarrow> bool" where
  "phase h Create pc a p r \<longleftrightarrow> alive a p \<and> leaves stateSaved p \<and> (pc = 0 \<longrightarrow> settled (\<lambda>a. \<not> running a) a p) \<and> (pc = 2 \<longrightarrow> running a)"
| "phase h (Post c) pc a p r \<longleftrightarrow> alive a p \<and> leaves stateSaved p"
| "phase h (SetState c) pc a p r \<longleftrightarrow> alive a p \<and> leaves stateSaved p \<and> (pc = 3 \<longrightarrow> activityState a = c)"
| "phase h (SetInput q) pc a p r \<longleftrightarrow>
     alive a p \<and> leaves stateSaved p \<and> (2 \<le> pc \<longrightarrow> pendingInputQueue a = q) \<and> (pc = 4 \<longrightarrow> inputQueue a = q)"
| "phase h (SetWindow w) pc a p r \<longleftrightarrow>
     alive a p \<and> leaves stateSaved p \<and> (pc = 2 \<longrightarrow> term_last p \<or> pendingWindow a = 0) \<and> (3 \<le> pc \<longrightarrow> pendingWindow a = w)
     \<and> (pc = 5 \<longrightarrow> window a = w)"
| "phase h SaveState pc a p r \<longleftrightarrow>
     alive a p \<and> (if pc = 3 \<or> pc = 4 then throughout (save_point h) a p else leaves stateSaved p) \<and> (pc = 2 \<longrightarrow> \<not> stateSaved a)
     \<and> (pc = 4 \<longrightarrow> stateSaved a) \<and> (5 \<le> pc \<longrightarrow> saved_by h r)"
| "phase h FreeApp pc a p r \<longleftrightarrow>
     (if pc < 2 then alive a p \<and> leaves stateSaved p else if pc = 2 then throughout destroy_point a p else p = [] \<and> destroyed a)"

fun valid_req :: "main_request \<Rightarrow> bool" where
  "valid_req (Post c) \<longleftrightarrow> c \<in> {APP_CMD_CONFIG_CHANGED, APP_CMD_LOW_MEMORY, APP_CMD_GAINED_FOCUS, APP_CMD_LOST_FOCUS}"
| "valid_req (SetState c) \<longleftrightarrow> c \<in> {APP_CMD_START, APP_CMD_RESUME, APP_CMD_PAUSE, APP_CMD_STOP}"
| "valid_req _ \<longleftrightarrow> True"

definition in_section :: "main_request \<Rightarrow> nat \<Rightarrow> bool" where
  "in_section r pc \<longleftrightarrow> Lock \<in> set (take pc (request_prog r)) \<and> Unlock \<notin> set (take pc (request_prog r))"

definition mutex_ok :: "glue \<Rightarrow> bool" where
  "mutex_ok s \<longleftrightarrow>
     bracketed (mutex s = Some App) (app_prog s)
     \<and> (mutex s = Some Main \<longleftrightarrow> main_status s = Running \<and> in_section (main_req s) (main_pc s))
     \<and> (main_status s \<noteq> Running \<longrightarrow> (\<exists>b. main_act s = Some (WaitWhile b)))"

definition destroying :: "glue \<Rightarrow> bool" where
  "destroying s \<longleftrightarrow> main_req s = FreeApp \<and> 2 \<le> main_pc s"

definition pipe_ok :: "glue \<Rightarrow> bool" where
  "pipe_ok s \<longleftrightarrow>
     APP_CMD_DESTROY \<notin> set (butlast (msgpipe s)) \<and> (app_polls s \<or> msgpipe s = [])
     \<and> (\<not> destroying s \<longrightarrow> app_polls s \<and> APP_CMD_DESTROY \<notin> set (msgpipe s))
     \<and> (freed s \<longleftrightarrow> main_req s = FreeApp \<and> 5 \<le> main_pc s)"

definition wait_ok :: "handler \<Rightarrow> glue \<Rightarrow> bool" where
  "wait_ok h s \<longleftrightarrow>
     (\<forall>b. main_act s = Some (WaitWhile b) \<longrightarrow>
        settled b (app s) (future h s) \<and> (main_status s = Sleeping \<longrightarrow> promised b (app s) (future h s)))"

definition invariant :: "handler \<Rightarrow> glue \<Rightarrow> bool" where
  "invariant h s \<longleftrightarrow>
     mutex_ok s \<and> pipe_ok s \<and> (\<forall>x\<in>set (future h s). act_ok x) \<and> valid_req (main_req s) \<and> wait_ok h s
     \<and> phase h (main_req s) (main_pc s) (app s) (future h s) (main_result s)"

text \<open>Where the main thread is, by the action it is about to do.\<close>

lemma main_act_cases:
  "main_act s = Some x \<longleftrightarrow>
     (main_req s, main_pc s, x) \<in>
       {(Create, 0, Lock), (Create, 1, WaitWhile (\<lambda>a. \<not> running a)), (Create, 2, Unlock), (SaveState, 0, Lock),
        (SaveState, 1, Upd (\<lambda>a. a\<lparr>stateSaved := False\<rparr>)), (SaveState, 2, Write (\<lambda>_. True) APP_CMD_SAVE_STATE),
        (SaveState, 3, WaitWhile (\<lambda>a. \<not> stateSaved a)), (SaveState, 4, TakeState), (SaveState, 5, Unlock), (FreeApp, 0, Lock),
        (FreeApp, 1, Write (\<lambda>_. True) APP_CMD_DESTROY), (FreeApp, 2, WaitWhile (\<lambda>a. \<not> destroyed a)), (FreeApp, 3, Unlock),
        (FreeApp, 4, Free)}
     \<or> (\<exists>c. (main_req s, main_pc s, x) = (Post c, 0, Write (\<lambda>_. True) c))
     \<or> (\<exists>c. (main_req s, main_pc s, x) \<in>
            {(SetState c, 0, Lock), (SetState c, 1, Write (\<lambda>_. True) c), (SetState c, 2, WaitWhile (\<lambda>a. activityState a \<noteq> c)),
             (SetState c, 3, Unlock)})
     \<or> (\<exists>q. (main_req s, main_pc s, x) \<in>
            {(SetInput q, 0, Lock), (SetInput q, 1, Upd (\<lambda>a. a\<lparr>pendingInputQueue := q\<rparr>)),
             (SetInput q, 2, Write (\<lambda>_. True) APP_CMD_INPUT_CHANGED),
             (SetInput q, 3, WaitWhile (\<lambda>a. inputQueue a \<noteq> pendingInputQueue a)), (SetInput q, 4, Unlock)})
     \<or> (\<exists>w. (main_req s, main_pc s, x) \<in>
            {(SetWindow w, 0, Lock), (SetWindow w, 1, Write (\<lambda>a. pendingWindow a \<noteq> 0) APP_CMD_TERM_WINDOW),
             (SetWindow w, 2, Upd (\<lambda>a. a\<lparr>pendingWindow := w\<rparr>)), (SetWindow w, 3, Write (\<lambda>_. w \<noteq> 0) APP_CMD_INIT_WINDOW),
             (SetWindow w, 4, WaitWhile (\<lambda>a. window a \<noteq> pendingWindow a)), (SetWindow w, 5, Unlock)})"
  by (cases "main_req s")
    (auto simp: main_act_def nth_opt_def less_Suc_eq android_app_create_wait_def android_app_write_cmd_def android_app_set_input_def
      android_app_set_window_def android_app_set_activity_state_def android_app_free_def onSaveInstanceState_def)

section \<open>Steps of the application\<close>

definition held :: "main_request \<Rightarrow> nat \<Rightarrow> bool" where
  "held r pc \<longleftrightarrow>
     (case r of Create \<Rightarrow> pc = 2 | SetState c \<Rightarrow> pc = 3 | SetInput q \<Rightarrow> pc = 4 | SetWindow w \<Rightarrow> pc = 2 \<or> pc = 5 | SaveState \<Rightarrow> pc = 2 \<or> pc = 4 | _ \<Rightarrow> False)"

lemmas request_prog_defs = android_app_create_wait_def android_app_write_cmd_def android_app_set_input_def
  android_app_set_window_def android_app_set_activity_state_def android_app_free_def onSaveInstanceState_def

lemma held_mutex: "mutex_ok s \<Longrightarrow> held (main_req s) (main_pc s) \<Longrightarrow> mutex s = Some Main"
  by (cases "main_req s")
    (auto simp: held_def mutex_ok_def in_section_def main_act_def request_prog_defs numeral_eq_Suc)

lemma alive_step: "alive a (x # p) \<Longrightarrow> act_ok x \<Longrightarrow> alive (eff x a) p"
  by (auto simp: alive_def w_ok_def settled_step)

lemma term_last_step: "term_last (x # p) \<Longrightarrow> x \<noteq> Lock \<Longrightarrow> term_last p"
  by (auto simp: term_last_def Cons_eq_append_conv)

lemma phase_step:
  assumes "phase h r pc a (x # p) res" "act_ok x"
    and "held r pc \<Longrightarrow> x \<noteq> Lock \<and> glue_fields (eff x a) = glue_fields a"
  shows "phase h r pc (eff x a) p res"
  using assms
  by (cases r)
    (auto simp: alive_step settled_step held_def glue_fields_def term_last_step split: if_splits)

lemma bracketed_free:
  assumes "bracketed False (x # q)" "x \<noteq> Lock"
  shows "glue_fields (eff x a) = glue_fields a"
  using assms by (cases x) (auto simp: benign_def)

definition app_mutex :: "act \<Rightarrow> thread option \<Rightarrow> thread option" where
  "app_mutex x m = (case x of Lock \<Rightarrow> Some App | Unlock \<Rightarrow> None | _ \<Rightarrow> m)"

definition app_acts :: "act \<Rightarrow> act list \<Rightarrow> glue \<Rightarrow> glue" where
  "app_acts x q s =
     s\<lparr>app := eff x (app s), mutex := app_mutex x (mutex s), app_prog := q,
       main_status := (if x = Broadcast then woken (main_status s) else main_status s)\<rparr>"

lemma app_acts_mutex_ok:
  assumes "mutex_ok s" "app_prog s = x # q" "x = Lock \<Longrightarrow> mutex s = None"
  shows "mutex_ok (app_acts x q s)"
proof -
  have "main_status s \<noteq> Running \<longleftrightarrow> woken (main_status s) \<noteq> Running" by (cases "main_status s") (auto simp: woken_def)
  then show ?thesis using assms
    by (cases x) (auto simp: mutex_ok_def app_acts_def app_mutex_def main_act_def)
qed

lemma app_acts_invariant:
  assumes inv: "invariant h s" and x: "app_prog s = x # q" and lock: "x = Lock \<Longrightarrow> mutex s = None"
  shows "invariant h (app_acts x q s)"
proof -
  let ?s = "app_acts x q s"
  have fut: "future h s = x # future h ?s" by (simp add: future_def app_acts_def x)
  have same: "main_req ?s = main_req s" "main_pc ?s = main_pc s" "main_result ?s = main_result s" "msgpipe ?s = msgpipe s"
    "app_polls ?s = app_polls s" "freed ?s = freed s" "app ?s = eff x (app s)" "main_act ?s = main_act s"
    by (simp_all add: app_acts_def main_act_def)
  have mok: "mutex_ok s" and ok: "act_ok x" using inv by (auto simp: invariant_def fut)
  have "wait_ok h ?s" unfolding wait_ok_def same
  proof (intro allI impI)
    fix b
    assume "main_act s = Some (WaitWhile b)"
    then have b: "settled b (app s) (x # future h ?s)" "main_status s = Sleeping \<Longrightarrow> promised b (app s) (x # future h ?s)"
      using inv by (auto simp: invariant_def wait_ok_def fut)
    have "main_status ?s = Sleeping \<Longrightarrow> x \<noteq> Broadcast \<and> main_status s = Sleeping"
      by (auto simp: app_acts_def woken_def split: if_splits status.splits)
    then show "settled b (eff x (app s)) (future h ?s) \<and> (main_status ?s = Sleeping \<longrightarrow> promised b (eff x (app s)) (future h ?s))"
      using b settled_step promised_keep by blast
  qed
  moreover have "phase h (main_req s) (main_pc s) (eff x (app s)) (future h ?s) (main_result s)"
  proof (rule phase_step [OF _ ok])
    assume "held (main_req s) (main_pc s)"
    then have m: "mutex s = Some Main" using held_mutex mok by blast
    moreover have "bracketed False (x # q)" using mok m by (simp add: mutex_ok_def x)
    ultimately show "x \<noteq> Lock \<and> glue_fields (eff x (app s)) = glue_fields (app s)" using bracketed_free lock by auto
  qed (use inv fut in \<open>simp add: invariant_def\<close>)
  moreover have "pipe_ok ?s" using inv by (simp add: invariant_def pipe_ok_def destroying_def same)
  ultimately show ?thesis using inv app_acts_mutex_ok [OF mok x lock] by (simp add: invariant_def same fut)
qed

lemma app_read_invariant:
  assumes h: "handler_ok h" and inv: "invariant h s" and read: "app_polls s" "app_prog s = []" "msgpipe s = cmd # cmds"
  shows "invariant h (s\<lparr>msgpipe := cmds, app_prog := command_prog h cmd, app_polls := (cmd \<noteq> APP_CMD_DESTROY)\<rparr>)"
proof -
  let ?s = "s\<lparr>msgpipe := cmds, app_prog := command_prog h cmd, app_polls := (cmd \<noteq> APP_CMD_DESTROY)\<rparr>"
  have fut: "future h ?s = future h s" by (simp add: future_def read)
  have act: "main_act ?s = main_act s" by (simp add: main_act_def)
  have "mutex s \<noteq> Some App" using inv by (auto simp: invariant_def mutex_ok_def read)
  then have "mutex_ok ?s" using inv command_prog_bracketed [OF h] by (simp add: invariant_def mutex_ok_def act)
  moreover have "pipe_ok ?s" using inv
    by (auto simp: invariant_def pipe_ok_def destroying_def read split: if_splits)
  moreover have "wait_ok h ?s" using inv unfolding invariant_def wait_ok_def fut act by simp
  ultimately show ?thesis using inv unfolding invariant_def fut by simp
qed

section \<open>Steps of the main thread\<close>

lemma future_main [simp]:
  "future h (s\<lparr>mutex := m\<rparr>) = future h s" "future h (s\<lparr>main_pc := n\<rparr>) = future h s" "future h (s\<lparr>main_status := st\<rparr>) = future h s"
  "future h (s\<lparr>app := a\<rparr>) = future h s" "future h (s\<lparr>main_result := r\<rparr>) = future h s" "future h (s\<lparr>freed := f\<rparr>) = future h s"
  "future h (s\<lparr>main_req := rq\<rparr>) = future h s"
  by (simp_all add: future_def)

lemma future_write [simp]: "future h (s\<lparr>msgpipe := msgpipe s @ cs\<rparr>) = future h s @ concat (map (command_prog h) cs)"
  by (simp add: future_def)

lemma running_unless_waiting:
  assumes "invariant h s" "main_act s = Some x" "\<And>b. x \<noteq> WaitWhile b"
  shows "main_status s = Running"
  using assms by (auto simp: invariant_def mutex_ok_def)

lemma section_Suc:
  "main_act s = Some x \<Longrightarrow> in_section (main_req s) (Suc (main_pc s)) \<longleftrightarrow> (x = Lock \<or> in_section (main_req s) (main_pc s)) \<and> x \<noteq> Unlock"
  unfolding main_act_cases in_section_def by (elim disjE exE) (auto simp: request_prog_defs)

lemma section_at:
  "main_act s = Some Lock \<Longrightarrow> \<not> in_section (main_req s) (main_pc s)" "main_act s = Some Unlock \<Longrightarrow> in_section (main_req s) (main_pc s)"
  "main_act s = Some (WaitWhile b) \<Longrightarrow> in_section (main_req s) (main_pc s)"
  "main_act s = Some (Upd f) \<Longrightarrow> in_section (main_req s) (main_pc s)" "main_act s = Some TakeState \<Longrightarrow> in_section (main_req s) (main_pc s)"
  unfolding main_act_cases in_section_def by (auto simp: request_prog_defs)

definition written :: "act \<Rightarrow> android_app \<Rightarrow> app_cmd list" where
  "written x a = (case x of Write t cmd \<Rightarrow> if t a then [cmd] else [] | _ \<Rightarrow> [])"

definition main_mutex :: "act \<Rightarrow> thread option \<Rightarrow> thread option" where
  "main_mutex x m = (case x of Lock \<Rightarrow> Some Main | Unlock \<Rightarrow> None | _ \<Rightarrow> m)"

lemma advance_mutex_ok:
  assumes "mutex_ok s" "main_act s = Some x" "main_status s = Running" "x = Lock \<Longrightarrow> mutex s = None"
    "main_req s' = main_req s" "main_pc s' = Suc (main_pc s)" "main_status s' = Running" "app_prog s' = app_prog s"
    "mutex s' = main_mutex x (mutex s)"
  shows "mutex_ok s'"
  using assms section_Suc [OF assms(2)] section_at [of s]
  by (cases x) (auto simp: mutex_ok_def main_mutex_def)

lemma written_cases:
  assumes "main_act s = Some x" "valid_req (main_req s)"
  shows "main_req s = FreeApp \<and> main_pc s = 1 \<and> written x a = [APP_CMD_DESTROY]
    \<or> \<not> (main_req s = FreeApp \<and> main_pc s = 1) \<and> written x a = []
    \<or> main_req s \<noteq> FreeApp \<and> (\<exists>c. written x a = [c] \<and> c \<noteq> APP_CMD_DESTROY)"
  using assms by (cases "main_req s") (auto simp: main_act_cases written_def split: if_splits)

lemma free_at: "main_act s = Some x \<Longrightarrow> x = Free \<longleftrightarrow> main_req s = FreeApp \<and> main_pc s = 4"
  by (cases "main_req s") (auto simp: main_act_cases)

lemma advance_pipe_ok:
  assumes ok: "pipe_ok s" and x: "main_act s = Some x" and s': "main_req s' = main_req s" "main_pc s' = Suc (main_pc s)"
    "msgpipe s' = msgpipe s @ written x (app s)" "app_polls s' = app_polls s" "freed s' = (freed s \<or> x = Free)" and v: "valid_req (main_req s)"
  shows "pipe_ok s'"
proof -
  have "main_pc s < 5" if "main_req s = FreeApp" using x that by (auto simp: main_act_cases)
  then have "freed s' \<longleftrightarrow> main_req s' = FreeApp \<and> 5 \<le> main_pc s'" using ok free_at [OF x] by (auto simp: pipe_ok_def s')
  with written_cases [OF x v, of "app s"] ok show ?thesis
    by (elim disjE exE conjE) (auto simp: pipe_ok_def destroying_def s' butlast_append)
qed

lemma advance_invariant:
  assumes h: "handler_ok h" and inv: "invariant h s" and x: "main_act s = Some x" and st: "main_status s = Running" "x = Lock \<Longrightarrow> mutex s = None"
    and s': "main_req s' = main_req s" "main_pc s' = Suc (main_pc s)" "main_status s' = Running" "app_prog s' = app_prog s"
      "mutex s' = main_mutex x (mutex s)" "msgpipe s' = msgpipe s @ written x (app s)" "app_polls s' = app_polls s"
      "freed s' = (freed s \<or> x = Free)"
    and wait: "\<And>b. main_act s' = Some (WaitWhile b) \<Longrightarrow> settled b (app s') (future h s')"
    and ph: "phase h (main_req s') (main_pc s') (app s') (future h s') (main_result s')"
  shows "invariant h s'"
proof -
  have "mutex_ok s'" using advance_mutex_ok [OF _ x st s'(1-5)] inv by (simp add: invariant_def)
  moreover have "pipe_ok s'" using advance_pipe_ok [OF _ x s'(1,2,6-8)] inv by (simp add: invariant_def)
  moreover have "\<forall>x\<in>set (future h s'). act_ok x" using inv command_prog_ok [OF h] s' by (auto simp: invariant_def future_def)
  moreover have "wait_ok h s'" using wait s'(3) by (simp add: wait_ok_def)
  ultimately show ?thesis using inv ph by (simp add: invariant_def s')
qed

lemma act_at:
  "main_act s = Some Lock \<Longrightarrow> main_pc s = 0"
  "main_act s = Some (Upd f) \<Longrightarrow>
     main_req s = SaveState \<and> main_pc s = 1 \<and> f = (\<lambda>a. a\<lparr>stateSaved := False\<rparr>)
     \<or> (\<exists>q. main_req s = SetInput q \<and> main_pc s = 1 \<and> f = (\<lambda>a. a\<lparr>pendingInputQueue := q\<rparr>))
     \<or> (\<exists>w. main_req s = SetWindow w \<and> main_pc s = 2 \<and> f = (\<lambda>a. a\<lparr>pendingWindow := w\<rparr>))"
  by (auto simp: main_act_cases)

lemma main_lock_invariant:
  assumes h: "handler_ok h" and inv: "invariant h s" and x: "main_act s = Some Lock" "mutex s = None"
  shows "invariant h (s\<lparr>mutex := Some Main, main_pc := Suc (main_pc s)\<rparr>)" (is "invariant h ?s")
proof (rule advance_invariant [OF h inv x(1)])
  have pc: "main_pc s = 0" using act_at(1) x by blast
  show "settled b (app ?s) (future h ?s)" if "main_act ?s = Some (WaitWhile b)" for b
    using that inv by (cases "main_req s") (auto simp: main_act_cases invariant_def pc)
  show "phase h (main_req ?s) (main_pc ?s) (app ?s) (future h ?s) (main_result ?s)"
    using inv by (cases "main_req s") (simp_all add: invariant_def pc)
qed (use running_unless_waiting [OF inv x(1)] x in \<open>simp_all add: main_mutex_def written_def\<close>)

lemma main_unlock_invariant:
  assumes h: "handler_ok h" and inv: "invariant h s" and x: "main_act s = Some Unlock"
  shows "invariant h (s\<lparr>mutex := None, main_pc := Suc (main_pc s)\<rparr>)" (is "invariant h ?s")
proof (rule advance_invariant [OF h inv x])
  show "settled b (app ?s) (future h ?s)" if "main_act ?s = Some (WaitWhile b)" for b
    using that x by (cases "main_req s") (auto simp: main_act_cases)
  show "phase h (main_req ?s) (main_pc ?s) (app ?s) (future h ?s) (main_result ?s)"
    using inv x by (cases "main_req s") (auto simp: invariant_def main_act_cases)
qed (use running_unless_waiting [OF inv x] x in \<open>simp_all add: main_mutex_def written_def\<close>)

lemma alive_cong:
  assumes "\<forall>x\<in>set p. act_ok x" "win a = win a'" "destroyed a = destroyed a'"
  shows "alive a p = alive a' p"
proof -
  have "settled (\<lambda>a. window a \<noteq> 0) a p = settled (\<lambda>a. window a \<noteq> 0) a' p"
    by (rule settled_respects) (use assms in \<open>auto simp: win_def\<close>)
  then show ?thesis using assms(2,3) by (simp add: alive_def w_ok_def win_def)
qed

lemma term_last_promised: "term_last p \<Longrightarrow> promised (\<lambda>a. window a \<noteq> 0) a p"
  by (auto simp: term_last_def intro!: promised_append)

lemma main_upd_invariant:
  assumes h: "handler_ok h" and inv: "invariant h s" and x: "main_act s = Some (Upd f)"
  shows "invariant h (s\<lparr>app := f (app s), main_pc := Suc (main_pc s)\<rparr>)" (is "invariant h ?s")
proof (rule advance_invariant [OF h inv x])
  show "settled b (app ?s) (future h ?s)" if "main_act ?s = Some (WaitWhile b)" for b
    using that x by (cases "main_req s") (auto simp: main_act_cases)
  have ok: "\<forall>x\<in>set (future h s). act_ok x" using inv by (simp add: invariant_def)
  consider (save) "main_req s = SaveState" "main_pc s = 1" "f = (\<lambda>a. a\<lparr>stateSaved := False\<rparr>)"
    | (input) q where "main_req s = SetInput q" "main_pc s = 1" "f = (\<lambda>a. a\<lparr>pendingInputQueue := q\<rparr>)"
    | (window) w where "main_req s = SetWindow w" "main_pc s = 2" "f = (\<lambda>a. a\<lparr>pendingWindow := w\<rparr>)"
    using act_at(2) [OF x] by blast
  then show "phase h (main_req ?s) (main_pc ?s) (app ?s) (future h ?s) (main_result ?s)"
  proof cases
    case save
    then show ?thesis using inv alive_cong [OF ok, of "app s" "f (app s)"] by (simp add: invariant_def win_def)
  next
    case input
    then show ?thesis using inv alive_cong [OF ok, of "app s" "f (app s)"] by (simp add: invariant_def win_def)
  next
    case (window w)
    then have "alive (app s) (future h s)" "leaves stateSaved (future h s)" "term_last (future h s) \<or> pendingWindow (app s) = 0"
      using inv by (simp_all add: invariant_def)
    moreover from this have "alive ((app s)\<lparr>pendingWindow := w\<rparr>) (future h s)"
      using term_last_promised alive_cong [OF ok, of "app s" "(app s)\<lparr>pendingWindow := 0\<rparr>"]
      by (auto simp: alive_def w_ok_def settled_def win_def)
    ultimately show ?thesis using window by simp
  qed
qed (use running_unless_waiting [OF inv x] x in \<open>simp_all add: main_mutex_def written_def\<close>)

lemma leavesD: "leaves k p \<Longrightarrow> x \<in> set p \<Longrightarrow> k (eff x a) = k a"
  by (simp add: leaves_def)

lemma alive_append: "alive a p \<Longrightarrow> leaves destroyed q \<Longrightarrow> leaves window q \<Longrightarrow> alive a (p @ q)"
  by (auto simp: alive_def w_ok_def leavesD intro!: settled_append_keep)

lemma alive_append_pending: "alive a p \<Longrightarrow> leaves destroyed q \<Longrightarrow> pendingWindow a \<noteq> 0 \<Longrightarrow> alive a (p @ q)"
  by (auto simp: alive_def w_ok_def)

lemma term_last_append: "handler_ok h \<Longrightarrow> term_last (p @ command_prog h APP_CMD_TERM_WINDOW)"
  by (auto simp: term_last_def command_defs intro!: exI [of _ "p @ [Broadcast, Upd (h APP_CMD_TERM_WINDOW)]"])

lemma saved_by_handler: "savedState a = None \<Longrightarrow> saved_by h (savedState (h APP_CMD_SAVE_STATE a))"
  unfolding saved_by_def by blast

lemma save_throughout:
  assumes "handler_ok h" "\<not> stateSaved a" "leaves stateSaved p"
  shows "throughout (save_point h) a (p @ command_prog h APP_CMD_SAVE_STATE)"
proof (rule throughout_append_keep [OF assms(3)])
  have "\<not> stateSaved (run_prog p a)" using leaves_run [OF assms(3)] assms(2) by blast
  then show "throughout (save_point h) (run_prog p a) (command_prog h APP_CMD_SAVE_STATE)"
    using assms(1) by (auto simp: command_defs save_point_def ends_def saved_by_handler)
qed (use assms(2) in \<open>simp add: save_point_def\<close>)

lemma destroy_throughout:
  assumes "handler_ok h" "\<not> destroyed a" "leaves destroyed p"
  shows "throughout destroy_point a (p @ command_prog h APP_CMD_DESTROY)"
proof (rule throughout_append_keep [OF assms(3)])
  have "\<not> destroyed (run_prog p a)" using leaves_run [OF assms(3)] assms(2) by blast
  then show "throughout destroy_point (run_prog p a) (command_prog h APP_CMD_DESTROY)"
    using assms(1) by (auto simp: command_defs destroy_point_def ends_def)
qed (use assms(2) in \<open>simp add: destroy_point_def\<close>)

lemma write_at:
  "main_act s = Some (Write t c) \<Longrightarrow>
     main_req s = SaveState \<and> main_pc s = 2 \<and> t = (\<lambda>_. True) \<and> c = APP_CMD_SAVE_STATE
     \<or> main_req s = FreeApp \<and> main_pc s = 1 \<and> t = (\<lambda>_. True) \<and> c = APP_CMD_DESTROY
     \<or> main_req s = Post c \<and> main_pc s = 0 \<and> t = (\<lambda>_. True)
     \<or> main_req s = SetState c \<and> main_pc s = 1 \<and> t = (\<lambda>_. True)
     \<or> (\<exists>q. main_req s = SetInput q \<and> main_pc s = 2 \<and> t = (\<lambda>_. True) \<and> c = APP_CMD_INPUT_CHANGED)
     \<or> (\<exists>w. main_req s = SetWindow w \<and> main_pc s = 1 \<and> t = (\<lambda>a. pendingWindow a \<noteq> 0) \<and> c = APP_CMD_TERM_WINDOW)
     \<or> (\<exists>w. main_req s = SetWindow w \<and> main_pc s = 3 \<and> t = (\<lambda>_. w \<noteq> 0) \<and> c = APP_CMD_INIT_WINDOW)"
  by (cases "main_req s") (auto simp: main_act_cases)

lemma main_write_phase:
  assumes h: "handler_ok h" and inv: "invariant h s" and x: "main_act s = Some (Write t c)"
  shows "phase h (main_req s) (Suc (main_pc s)) (app s) (future h s @ concat (map (command_prog h) (written (Write t c) (app s)))) (main_result s)"
proof -
  note k = command_prog_keeps [OF h]
  have v: "valid_req (main_req s)" and ph: "phase h (main_req s) (main_pc s) (app s) (future h s) (main_result s)"
    using inv by (simp_all add: invariant_def)
  from write_at [OF x] show ?thesis
  proof (elim disjE conjE exE)
    assume "main_req s = SaveState" "main_pc s = 2" "t = (\<lambda>_. True)" "c = APP_CMD_SAVE_STATE"
    then show ?thesis using ph k save_throughout [OF h] by (auto simp: written_def alive_append)
  next
    assume "main_req s = FreeApp" "main_pc s = 1" "t = (\<lambda>_. True)" "c = APP_CMD_DESTROY"
    then show ?thesis using ph destroy_throughout [OF h] by (auto simp: written_def alive_def)
  next
    assume "main_req s = Post c" "main_pc s = 0" "t = (\<lambda>_. True)"
    then show ?thesis using ph v k by (auto simp: written_def alive_append)
  next
    assume "main_req s = SetState c" "main_pc s = 1" "t = (\<lambda>_. True)"
    then show ?thesis using ph v k by (auto simp: written_def alive_append)
  next
    fix q
    assume "main_req s = SetInput q" "main_pc s = 2" "t = (\<lambda>_. True)" "c = APP_CMD_INPUT_CHANGED"
    then show ?thesis using ph k by (auto simp: written_def alive_append)
  next
    fix w
    assume "main_req s = SetWindow w" "main_pc s = 1" "t = (\<lambda>a. pendingWindow a \<noteq> 0)" "c = APP_CMD_TERM_WINDOW"
    then show ?thesis using ph k term_last_append [OF h] by (auto simp: written_def alive_append_pending)
  next
    fix w
    assume "main_req s = SetWindow w" "main_pc s = 3" "t = (\<lambda>_. w \<noteq> 0)" "c = APP_CMD_INIT_WINDOW"
    then show ?thesis using ph k by (auto simp: written_def alive_append_pending)
  qed
qed

lemma settled_command: "promised b (run_prog p a) q \<Longrightarrow> settled b a (p @ q)"
  by (simp add: settled_def promised_append)

lemma settled_pendingWindow:
  assumes "\<forall>x\<in>set p. act_ok x" "pendingWindow a = 0"
  shows "settled (\<lambda>a. window a \<noteq> pendingWindow a) a p = settled (\<lambda>a. window a \<noteq> 0) a p"
  by (rule settled_cong [where k = pendingWindow]) (use assms in auto)

lemma main_write_wait:
  assumes h: "handler_ok h" and inv: "invariant h s" and x: "main_act s = Some (Write t c)"
    and wait: "main_act (s\<lparr>main_pc := Suc (main_pc s)\<rparr>) = Some (WaitWhile b)"
  shows "settled b (app s) (future h s @ concat (map (command_prog h) (written (Write t c) (app s))))"
proof -
  note pr = command_prog_promised [OF h]
  have v: "valid_req (main_req s)" and ph: "phase h (main_req s) (main_pc s) (app s) (future h s) (main_result s)"
    and ok: "\<forall>x\<in>set (future h s). act_ok x" using inv by (simp_all add: invariant_def)
  from write_at [OF x] show ?thesis
  proof (elim disjE conjE exE)
    assume "main_req s = SaveState" "main_pc s = 2" "t = (\<lambda>_. True)" "c = APP_CMD_SAVE_STATE"
    then show ?thesis using wait pr by (simp add: main_act_cases written_def settled_command)
  next
    assume "main_req s = FreeApp" "main_pc s = 1" "t = (\<lambda>_. True)" "c = APP_CMD_DESTROY"
    then show ?thesis using wait pr by (simp add: main_act_cases written_def settled_command)
  next
    assume "main_req s = Post c" "main_pc s = 0" "t = (\<lambda>_. True)"
    then show ?thesis using wait by (simp add: main_act_cases)
  next
    assume "main_req s = SetState c" "main_pc s = 1" "t = (\<lambda>_. True)"
    then show ?thesis using wait v pr(1) [of c] by (simp add: main_act_cases written_def settled_command)
  next
    fix q
    assume "main_req s = SetInput q" "main_pc s = 2" "t = (\<lambda>_. True)" "c = APP_CMD_INPUT_CHANGED"
    then show ?thesis using wait pr by (simp add: main_act_cases written_def settled_command)
  next
    fix w
    assume "main_req s = SetWindow w" "main_pc s = 1" "t = (\<lambda>a. pendingWindow a \<noteq> 0)" "c = APP_CMD_TERM_WINDOW"
    then show ?thesis using wait by (simp add: main_act_cases)
  next
    fix w
    assume w: "main_req s = SetWindow w" "main_pc s = 3" "t = (\<lambda>_. w \<noteq> 0)" "c = APP_CMD_INIT_WINDOW"
    then have b: "b = (\<lambda>a. window a \<noteq> pendingWindow a)" and pw: "pendingWindow (app s) = w" "alive (app s) (future h s)"
      using wait ph by (simp_all add: main_act_cases)
    show ?thesis
    proof (cases "w = 0")
      case True
      then have "settled b (app s) (future h s)" using pw settled_pendingWindow [OF ok] by (simp add: b alive_def w_ok_def)
      then show ?thesis using True w by (simp add: written_def)
    next
      case False
      then show ?thesis using w pr(3) by (simp add: b written_def settled_command)
    qed
  qed
qed

lemma main_write_invariant:
  assumes h: "handler_ok h" and inv: "invariant h s" and x: "main_act s = Some (Write t c)"
  shows "invariant h (s\<lparr>msgpipe := msgpipe s @ (if t (app s) then [c] else []), main_pc := Suc (main_pc s)\<rparr>)" (is "invariant h ?s")
proof (rule advance_invariant [OF h inv x])
  have wr: "written (Write t c) (app s) = (if t (app s) then [c] else [])" by (simp add: written_def)
  have fut: "future h ?s = future h s @ concat (map (command_prog h) (written (Write t c) (app s)))"
    unfolding wr future_main(2) future_write by simp
  show "settled b (app ?s) (future h ?s)" if "main_act ?s = Some (WaitWhile b)" for b
    using main_write_wait [OF h inv x] that unfolding fut by (simp add: main_act_def)
  show "phase h (main_req ?s) (main_pc ?s) (app ?s) (future h ?s) (main_result ?s)"
    using main_write_phase [OF h inv x] unfolding fut by simp
qed (use running_unless_waiting [OF inv x] x in \<open>simp_all add: main_mutex_def written_def\<close>)

lemma bracketed_append: "bracketed i p \<Longrightarrow> bracketed False q \<Longrightarrow> bracketed i (p @ q)"
  by (induction i p rule: bracketed.induct) auto

lemma bracketed_future:
  assumes h: "handler_ok h" and inv: "invariant h s"
  shows "bracketed (mutex s = Some App) (future h s)"
proof -
  have "bracketed False (concat (map (command_prog h) cs))" for cs
    by (induction cs) (auto intro: bracketed_append command_prog_bracketed [OF h])
  then show ?thesis using inv by (auto simp: future_def invariant_def mutex_ok_def intro: bracketed_append)
qed

lemma waiting_mutex: "invariant h s \<Longrightarrow> main_act s = Some (WaitWhile b) \<Longrightarrow> main_status s = Running \<Longrightarrow> mutex s = Some Main"
  using section_at(3) by (auto simp: invariant_def mutex_ok_def)

lemma main_pass_invariant:
  assumes h: "handler_ok h" and inv: "invariant h s" and x: "main_act s = Some (WaitWhile b)" "main_status s = Running" "\<not> b (app s)"
  shows "invariant h (s\<lparr>main_pc := Suc (main_pc s)\<rparr>)" (is "invariant h ?s")
proof (rule advance_invariant [OF h inv x(1)])
  show "settled b (app ?s) (future h ?s)" if "main_act ?s = Some (WaitWhile b)" for b
    using that x by (cases "main_req s") (auto simp: main_act_cases)
  have "bracketed False (future h s)" using bracketed_future [OF h inv] waiting_mutex [OF inv x(1,2)] by simp
  then have "ends (future h s) \<Longrightarrow> future h s = []" by (auto simp: ends_def)
  then show "phase h (main_req ?s) (main_pc ?s) (app ?s) (future h ?s) (main_result ?s)"
    using inv x by (cases "main_req s") (auto simp: invariant_def main_act_cases destroy_point_def dest!: throughout_now)
qed (use x in \<open>simp_all add: main_mutex_def written_def\<close>)

lemma main_take_invariant:
  assumes h: "handler_ok h" and inv: "invariant h s" and x: "main_act s = Some TakeState"
  shows "invariant h (s\<lparr>main_result := savedState (app s), app := take_state (app s), main_pc := Suc (main_pc s)\<rparr>)" (is "invariant h ?s")
proof (rule advance_invariant [OF h inv x])
  have at: "main_req s = SaveState" "main_pc s = 4" using x by (auto simp: main_act_cases)
  show "settled b (app ?s) (future h ?s)" if "main_act ?s = Some (WaitWhile b)" for b
    using that at by (simp add: main_act_cases)
  have a: "win (take_state (app s)) = win (app s)" "destroyed (take_state (app s)) = destroyed (app s)"
    by (simp_all add: win_def take_state_def)
  have "alive (take_state (app s)) (future h s)"
    using inv alive_cong [OF _ a] by (simp add: invariant_def at)
  moreover have "save_point h (app s) (future h s)" "stateSaved (app s)"
    using inv throughout_now by (auto simp: invariant_def at)
  ultimately show "phase h (main_req ?s) (main_pc ?s) (app ?s) (future h ?s) (main_result ?s)"
    by (auto simp: at save_point_def ends_def)
qed (use running_unless_waiting [OF inv x] in \<open>simp_all add: main_mutex_def written_def\<close>)

lemma main_free_invariant:
  assumes h: "handler_ok h" and inv: "invariant h s" and x: "main_act s = Some Free"
  shows "invariant h (s\<lparr>freed := True, main_pc := Suc (main_pc s)\<rparr>)" (is "invariant h ?s")
proof (rule advance_invariant [OF h inv x])
  have at: "main_req s = FreeApp" "main_pc s = 4" using x by (auto simp: main_act_cases)
  show "settled b (app ?s) (future h ?s)" if "main_act ?s = Some (WaitWhile b)" for b
    using that at by (simp add: main_act_cases)
  show "phase h (main_req ?s) (main_pc ?s) (app ?s) (future h ?s) (main_result ?s)" using inv by (simp add: invariant_def at)
qed (use running_unless_waiting [OF inv x] in \<open>simp_all add: main_mutex_def written_def\<close>)

lemma main_sleep_invariant:
  assumes inv: "invariant h s" and x: "main_act s = Some (WaitWhile b)" "main_status s = Running" "b (app s)"
  shows "invariant h (s\<lparr>mutex := None, main_status := Sleeping\<rparr>)" (is "invariant h ?s")
proof -
  have act: "main_act ?s = main_act s" by (simp add: main_act_def)
  have m: "mutex s = Some Main" by (rule waiting_mutex [OF inv x(1,2)])
  have "mutex_ok ?s" using inv x m by (auto simp: invariant_def mutex_ok_def act)
  moreover have "promised b (app s) (future h s)"
  proof -
    have "\<not> stays_false b (app s) (future h s)" using x(3) by (cases "future h s") auto
    then show ?thesis using inv x(1) by (auto simp: invariant_def wait_ok_def settled_def)
  qed
  then have "wait_ok h ?s" using x(1) unfolding wait_ok_def act by (simp add: settled_def)
  moreover have "pipe_ok ?s" using inv by (simp add: invariant_def pipe_ok_def destroying_def)
  ultimately show ?thesis using inv by (simp add: invariant_def)
qed

lemma main_wake_invariant:
  assumes inv: "invariant h s" and x: "main_status s = Woken" "mutex s = None"
  shows "invariant h (s\<lparr>mutex := Some Main, main_status := Running\<rparr>)" (is "invariant h ?s")
proof -
  have act: "main_act ?s = main_act s" by (simp add: main_act_def)
  obtain b where "main_act s = Some (WaitWhile b)" using inv x by (auto simp: invariant_def mutex_ok_def)
  then have "mutex_ok ?s" using inv x section_at(3) by (auto simp: invariant_def mutex_ok_def act)
  moreover have "wait_ok h ?s" using inv unfolding invariant_def wait_ok_def act by simp
  moreover have "pipe_ok ?s" using inv by (simp add: invariant_def pipe_ok_def destroying_def)
  ultimately show ?thesis using inv by (simp add: invariant_def)
qed

section \<open>The invariant holds of every reachable state\<close>

lemma glue_step_invariant:
  assumes "glue_step h s s'" "handler_ok h" "invariant h s"
  shows "invariant h s'"
  using assms
proof (induction rule: glue_step.induct)
  case (app_read s cmd cmds)
  then show ?case by (intro app_read_invariant)
next
  case (app_lock s p)
  then show ?case using app_acts_invariant [of h s Lock p] by (simp add: app_acts_def app_mutex_def)
next
  case (app_unlock s p)
  then show ?case using app_acts_invariant [of h s Unlock p] by (simp add: app_acts_def app_mutex_def)
next
  case (app_broadcast s p)
  then show ?case using app_acts_invariant [of h s Broadcast p] by (simp add: app_acts_def app_mutex_def)
next
  case (app_upd s f p)
  then show ?case using app_acts_invariant [of h s "Upd f" p] by (simp add: app_acts_def app_mutex_def)
qed (simp_all add: main_lock_invariant main_unlock_invariant main_upd_invariant main_write_invariant main_pass_invariant
    main_sleep_invariant main_wake_invariant main_take_invariant main_free_invariant)

lemma main_idle_iff: "main_idle s \<longleftrightarrow> length (request_prog (main_req s)) \<le> main_pc s"
  by (simp add: main_idle_def main_act_def nth_opt_def not_less)

lemma idle_status:
  assumes "invariant h s" "main_idle s"
  shows "main_status s = Running" "mutex s \<noteq> Some Main"
proof -
  show "main_status s = Running" using assms by (auto simp: invariant_def mutex_ok_def main_idle_def)
  have "\<not> in_section (main_req s) (main_pc s)"
    using assms(2) unfolding main_idle_iff in_section_def by (cases "main_req s") (auto simp: request_prog_defs)
  then show "mutex s \<noteq> Some Main" using assms by (simp add: invariant_def mutex_ok_def)
qed

lemma idle_alive:
  assumes "invariant h s" "main_idle s" "\<not> freed s"
  shows "alive (app s) (future h s)" "leaves stateSaved (future h s)" "main_req s \<noteq> FreeApp"
proof -
  show r: "main_req s \<noteq> FreeApp" using assms by (auto simp: main_idle_iff invariant_def pipe_ok_def request_prog_defs)
  show "alive (app s) (future h s)" using assms(1) r by (cases "main_req s") (auto simp: invariant_def)
  show "leaves stateSaved (future h s)"
    using assms(1,2) r by (cases "main_req s") (auto simp: main_idle_iff invariant_def request_prog_defs split: if_splits)
qed

lemma begin_callback_invariant:
  assumes inv: "invariant h s" and "main_idle s" "\<not> freed s"
  shows "invariant h (begin_callback cb s)" (is "invariant h ?s")
proof -
  note idle = idle_status [OF assms(1,2)] idle_alive [OF assms]
  have fut: "future h ?s = future h s" by (simp add: begin_callback_def)
  have "\<not> in_section (callback_request cb) 0" by (simp add: in_section_def)
  then have "mutex_ok ?s" using inv idle by (simp add: invariant_def mutex_ok_def begin_callback_def)
  moreover have "pipe_ok ?s" using inv idle assms(3) by (simp add: invariant_def pipe_ok_def destroying_def begin_callback_def)
  moreover have "wait_ok h ?s" by (cases cb) (auto simp: wait_ok_def main_act_cases begin_callback_def)
  moreover have "phase h (callback_request cb) 0 (app s) (future h s) None" "valid_req (callback_request cb)"
    using idle by (cases cb; simp)+
  ultimately show ?thesis using inv unfolding invariant_def fut by (simp add: begin_callback_def)
qed

lemma polling_app_invariant: "invariant h (polling_app saved)"
  by (simp add: invariant_def polling_app_def start_def future_def android_app_entry_def mutex_ok_def pipe_ok_def wait_ok_def
      in_section_def destroying_def main_act_cases new_android_app_def act_ok_def win_def alive_def w_ok_def settled_def
      del: act_ok_pending)

theorem reachable_invariant: "reachable h (polling_app saved) s \<Longrightarrow> handler_ok h \<Longrightarrow> invariant h s"
  by (induction rule: reachable.induct)
    (auto intro: polling_app_invariant glue_step_invariant begin_callback_invariant)

end
