(* ===== verification/AppGlueProps.thy ===== *)
theory AppGlueProps
  imports AppGlueInvariant
begin

text \<open>
  What the invariant of the glue gives: freedom from races on the fields of the handshake, no access to the object after it is
  freed, what each callback has achieved when it returns, and that every callback returns. With the empty
  \<^verbatim>\<open>android_main\<close> of \<^verbatim>\<open>hook.cpp\<close>, the callbacks that set the state of the activity never return.
\<close>

section \<open>Progress\<close>

fun cost :: "handler \<Rightarrow> act \<Rightarrow> nat" where
  "cost h (Write t cmd) = 3 * (length (command_prog h cmd) + 1) + 1"
| "cost h _ = 1"

fun status_rank :: "status \<Rightarrow> nat" where
  "status_rank Sleeping = 0"
| "status_rank Running = 1"
| "status_rank Woken = 2"

text \<open>Each broadcast can make the main thread wake up and go to sleep again; the weight of an action allows for it.\<close>

definition rank :: "handler \<Rightarrow> glue \<Rightarrow> nat" where
  "rank h s =
     3 * (length (future h s) + length (msgpipe s)) + sum_list (map (cost h) (drop (main_pc s) (request_prog (main_req s))))
     + status_rank (main_status s)"

lemma rank_act:
  assumes "main_act s = Some x"
  shows "sum_list (map (cost h) (drop (main_pc s) (request_prog (main_req s)))) =
    cost h x + sum_list (map (cost h) (drop (Suc (main_pc s)) (request_prog (main_req s))))"
proof -
  have "main_pc s < length (request_prog (main_req s))" "x = request_prog (main_req s) ! main_pc s"
    using assms by (auto simp: main_act_def nth_opt_def split: if_splits)
  then show ?thesis by (simp add: Cons_nth_drop_Suc [symmetric])
qed

lemma cost_pos: "0 < cost h x"
  by (cases x) auto

lemma rank_decreases: "glue_step h s s' \<Longrightarrow> rank h s' < rank h s"
proof (induction rule: glue_step.induct)
  case (app_broadcast s p)
  have "status_rank (woken (main_status s)) \<le> status_rank (main_status s) + 2" by (cases "main_status s") (auto simp: woken_def)
  then show ?case using app_broadcast by (simp add: rank_def future_def)
qed (auto simp: rank_def future_def rank_act cost_pos split: if_splits)

lemma progress:
  assumes inv: "invariant h s" and busy: "\<not> main_idle s"
  shows "\<exists>s'. glue_step h s s'"
proof (rule ccontr)
  assume stuck: "\<nexists>s'. glue_step h s s'"
  obtain x where x: "main_act s = Some x" using busy by (auto simp: main_idle_def)
  have mok: "mutex_ok s" and pok: "pipe_ok s" and wok: "wait_ok h s" using inv by (simp_all add: invariant_def)
  have run: "\<not> (main_status s = Running \<and> (x = Lock \<longrightarrow> mutex s = None))"
  proof
    assume "main_status s = Running \<and> (x = Lock \<longrightarrow> mutex s = None)"
    moreover have "x \<noteq> Broadcast" using x by (cases "main_req s") (auto simp: main_act_cases)
    ultimately show False
      using stuck x main_lock [of s h] main_unlock [of s h] main_upd [of s _ h] main_write [of s _ _ h] main_pass [of s _ h]
        main_sleep [of s _ h] main_take [of s h] main_free [of s h]
      by (cases x) auto
  qed
  have none: "mutex s = None \<Longrightarrow> app_prog s = []"
  proof (rule ccontr)
    assume m: "mutex s = None" "app_prog s \<noteq> []"
    then obtain y q where y: "app_prog s = y # q" by (cases "app_prog s") auto
    then have "bracketed False (y # q)" using mok m by (simp add: mutex_ok_def)
    then show False using stuck y m by (cases y) (auto intro: glue_step.intros)
  qed
  have "mutex s \<noteq> Some App"
  proof
    assume "mutex s = Some App"
    then have br: "bracketed True (app_prog s)" using mok by (simp add: mutex_ok_def)
    then obtain y q where y: "app_prog s = y # q" by (cases "app_prog s") auto
    then show False using stuck br by (cases y) (auto intro: glue_step.intros)
  qed
  moreover have "mutex s \<noteq> Some Main"
  proof
    assume "mutex s = Some Main"
    then have "main_status s = Running" "in_section (main_req s) (main_pc s)" using mok by (simp_all add: mutex_ok_def)
    then show False using run section_at(1) x by auto
  qed
  ultimately have m: "mutex s = None" by (cases "mutex s") (auto, metis thread.exhaust)
  then have st: "main_status s = Sleeping" using run stuck main_wake [of s h] by (cases "main_status s") auto
  then obtain b where b: "main_act s = Some (WaitWhile b)" using mok by (auto simp: mutex_ok_def)
  have "app_prog s = []" by (rule none [OF m])
  moreover have "msgpipe s = []"
    using stuck pok app_read [of s _ _ h] calculation by (cases "msgpipe s") (auto simp: pipe_ok_def)
  ultimately have "future h s = []" by (simp add: future_def)
  then show False using wok b st by (simp add: wait_ok_def)
qed

text \<open>On every run, however the threads are scheduled, a state with \<open>P\<close> is reached.\<close>

inductive inevitably :: "handler \<Rightarrow> (glue \<Rightarrow> bool) \<Rightarrow> glue \<Rightarrow> bool" for h P where
  now: "P s \<Longrightarrow> inevitably h P s"
| later: "\<lbrakk>\<exists>s'. glue_step h s s'; \<And>s'. glue_step h s s' \<Longrightarrow> inevitably h P s'\<rbrakk> \<Longrightarrow> inevitably h P s"

lemma invariant_returns: "handler_ok h \<Longrightarrow> invariant h s \<Longrightarrow> inevitably h main_idle s"
proof (induction s rule: measure_induct_rule [where f = "rank h"])
  case (less s)
  show ?case
  proof (cases "main_idle s")
    case False
    show ?thesis
    proof (rule inevitably.later)
      show "\<exists>s'. glue_step h s s'" using progress [OF less.prems(2) False] .
      show "inevitably h main_idle s'" if "glue_step h s s'" for s'
        using less.IH [OF rank_decreases [OF that] less.prems(1) glue_step_invariant [OF that less.prems]] .
    qed
  qed (rule inevitably.now)
qed

lemma take_state_fields: "glue_fields (take_state a) = glue_fields a"
  by (simp add: glue_fields_def take_state_def)

text \<open>What the application has taken over when a callback leaves its critical section.\<close>

fun handshake :: "main_request \<Rightarrow> android_app \<Rightarrow> bool" where
  "handshake Create a \<longleftrightarrow> running a"
| "handshake (SetState c) a \<longleftrightarrow> activityState a = c"
| "handshake (SetInput q) a \<longleftrightarrow> inputQueue a = q"
| "handshake (SetWindow w) a \<longleftrightarrow> window a = w"
| "handshake FreeApp a \<longleftrightarrow> destroyed a"
| "handshake _ a \<longleftrightarrow> True"

text \<open>The \<^verbatim>\<open>hook.cpp\<close> application polls no command, so the activity state stays the zero of the new object.\<close>

definition hook_inv :: "glue \<Rightarrow> bool" where
  "hook_inv s \<longleftrightarrow>
     \<not> app_polls s \<and> leaves activityState (app_prog s) \<and> activityState (app s) = APP_CMD_INPUT_CHANGED
     \<and> (\<forall>c. main_req s = SetState c \<longrightarrow> c \<noteq> APP_CMD_INPUT_CHANGED \<and> main_pc s \<le> 2)"

lemma main_upd_activity: "main_act s = Some (Upd f) \<Longrightarrow> activityState (f a) = activityState a"
  using act_at(2) by fastforce

lemma hook_inv_step: "glue_step h s s' \<Longrightarrow> hook_inv s \<Longrightarrow> hook_inv s'"
proof (induction rule: glue_step.induct)
  case (main_pass s b)
  have "\<not> (main_req s = SetState c \<and> main_pc s = 2)" for c
    using main_pass by (auto simp: hook_inv_def main_act_cases)
  then show ?case using main_pass(1,4) by (auto simp: hook_inv_def main_act_cases)
next
  case (main_upd s f)
  then show ?case using main_upd_activity act_at(2) by (fastforce simp: hook_inv_def)
next
  case (main_write s t cmd)
  then show ?case using write_at by (fastforce simp: hook_inv_def)
next
  case (main_lock s)
  then show ?case using act_at(1) by (auto simp: hook_inv_def)
qed (auto simp: hook_inv_def main_act_cases take_state_def)

lemma callback_request_valid: "callback_request cb = SetState c \<Longrightarrow> c \<noteq> APP_CMD_INPUT_CHANGED"
  by (cases cb) auto

lemma hook_app_inv: "reachable h (hook_app saved) s \<Longrightarrow> hook_inv s"
proof (induction rule: reachable.induct)
  case initial
  then show ?case
    by (simp add: hook_inv_def hook_app_def start_def empty_main_entry_def android_app_entry_def android_app_destroy_def
        free_saved_state_def new_android_app_def)
next
  case (callback s cb)
  then show ?case using callback_request_valid by (auto simp: hook_inv_def begin_callback_def)
qed (rule hook_inv_step)

section \<open>Properties\<close>

text \<open>A handler for the witnesses: it stores two bytes when it is asked to save the state.\<close>

definition saving_handler :: handler where
  "saving_handler cmd a = (if cmd = APP_CMD_SAVE_STATE then a\<lparr>savedState := Some [1, 2], savedStateSize := 2\<rparr> else a)"

lemma saving_handler_ok: "handler_ok saving_handler"
  by (simp add: handler_ok_def saving_handler_def benign_def glue_fields_def)

text \<open>A scheduler that executes the steps of the chosen threads, for concrete runs.\<close>

fun app_next :: "handler \<Rightarrow> glue \<Rightarrow> glue option" where
  "app_next h s =
     (case app_prog s of
        [] \<Rightarrow> (case msgpipe s of
          [] \<Rightarrow> None
        | cmd # cmds \<Rightarrow>
            if app_polls s then Some (s\<lparr>msgpipe := cmds, app_prog := command_prog h cmd, app_polls := (cmd \<noteq> APP_CMD_DESTROY)\<rparr>) else None)
      | Lock # p \<Rightarrow> if mutex s = None then Some (s\<lparr>mutex := Some App, app_prog := p\<rparr>) else None
      | Unlock # p \<Rightarrow> Some (s\<lparr>mutex := None, app_prog := p\<rparr>)
      | Broadcast # p \<Rightarrow> Some (s\<lparr>app_prog := p, main_status := woken (main_status s)\<rparr>)
      | Upd f # p \<Rightarrow> Some (s\<lparr>app := f (app s), app_prog := p\<rparr>)
      | _ \<Rightarrow> None)"

fun main_next :: "glue \<Rightarrow> glue option" where
  "main_next s =
     (case main_status s of
        Sleeping \<Rightarrow> None
      | Woken \<Rightarrow> if mutex s = None then Some (s\<lparr>mutex := Some Main, main_status := Running\<rparr>) else None
      | Running \<Rightarrow> (case main_act s of
          Some Lock \<Rightarrow> if mutex s = None then Some (s\<lparr>mutex := Some Main, main_pc := Suc (main_pc s)\<rparr>) else None
        | Some Unlock \<Rightarrow> Some (s\<lparr>mutex := None, main_pc := Suc (main_pc s)\<rparr>)
        | Some (Upd f) \<Rightarrow> Some (s\<lparr>app := f (app s), main_pc := Suc (main_pc s)\<rparr>)
        | Some (Write t cmd) \<Rightarrow> Some (s\<lparr>msgpipe := msgpipe s @ (if t (app s) then [cmd] else []), main_pc := Suc (main_pc s)\<rparr>)
        | Some (WaitWhile b) \<Rightarrow>
            Some (if b (app s) then s\<lparr>mutex := None, main_status := Sleeping\<rparr> else s\<lparr>main_pc := Suc (main_pc s)\<rparr>)
        | Some TakeState \<Rightarrow> Some (s\<lparr>main_result := savedState (app s), app := take_state (app s), main_pc := Suc (main_pc s)\<rparr>)
        | Some Free \<Rightarrow> Some (s\<lparr>freed := True, main_pc := Suc (main_pc s)\<rparr>)
        | _ \<Rightarrow> None))"

fun sched :: "handler \<Rightarrow> thread list \<Rightarrow> glue \<Rightarrow> glue option" where
  "sched h [] s = Some s"
| "sched h (App # ts) s = (case app_next h s of None \<Rightarrow> None | Some s' \<Rightarrow> sched h ts s')"
| "sched h (Main # ts) s = (case main_next s of None \<Rightarrow> None | Some s' \<Rightarrow> sched h ts s')"

lemma app_next_step: "app_next h s = Some s' \<Longrightarrow> glue_step h s s'"
  by (auto split: list.splits act.splits if_splits intro: glue_step.intros)

lemma main_write_split:
  "main_act s = Some (Write t cmd) \<Longrightarrow> t (app s) \<Longrightarrow> glue_step h s (s\<lparr>msgpipe := msgpipe s @ [cmd], main_pc := Suc (main_pc s)\<rparr>)"
  "main_act s = Some (Write t cmd) \<Longrightarrow> \<not> t (app s) \<Longrightarrow> glue_step h s (s\<lparr>main_pc := Suc (main_pc s)\<rparr>)"
  using main_write [of s t cmd h] by simp_all

lemma main_next_step: "main_next s = Some s' \<Longrightarrow> glue_step h s s'"
  by (auto split: status.splits option.splits act.splits if_splits intro: glue_step.intros main_write_split)

lemma sched_reachable: "sched h ts s = Some s' \<Longrightarrow> reachable h s0 s \<Longrightarrow> reachable h s0 s'"
  by (induction h ts s rule: sched.induct)
    (auto simp del: app_next.simps main_next.simps split: option.splits intro: reachable.step app_next_step main_next_step)

text \<open>The state in which the creation of the activity has returned, and one in which it then saved its state.\<close>

definition created :: "glue" where
  "created = the (sched saving_handler [Main, Main, App, App, App, App, Main, Main, Main] (polling_app None))"

definition saved_once :: "glue" where
  "saved_once =
     the (sched saving_handler ([Main, Main, Main, Main] @ replicate 9 App @ [Main, Main, Main]) (begin_callback onSaveInstance created))"

lemmas run_defs = polling_app_def start_def new_android_app_def android_app_entry_def main_act_def nth_opt_def woken_def

lemma created_value:
  "created =
     \<lparr>app = (new_android_app None)\<lparr>running := True\<rparr>, msgpipe = [], mutex = None, app_prog = [], app_polls = True, main_req = Create,
      main_pc = 3, main_status = Running, main_result = None, freed = False\<rparr>"
  by (simp add: created_def run_defs android_app_create_wait_def)

lemma created_reachable: "reachable saving_handler (polling_app None) created"
proof (rule sched_reachable [OF _ reachable.initial])
  show "sched saving_handler [Main, Main, App, App, App, App, Main, Main, Main] (polling_app None) = Some created"
    by (simp add: created_def run_defs android_app_create_wait_def)
qed

lemma save_begun_reachable: "reachable saving_handler (polling_app None) (begin_callback onSaveInstance created)"
  by (rule reachable.callback [OF created_reachable])
    (simp_all add: created_value main_idle_def main_act_def nth_opt_def android_app_create_wait_def)

lemma saved_once_run:
  "sched saving_handler ([Main, Main, Main, Main] @ replicate 9 App @ [Main, Main, Main]) (begin_callback onSaveInstance created) =
     Some \<lparr>app = (new_android_app None)\<lparr>running := True, stateSaved := True\<rparr>, msgpipe = [], mutex = Some Main, app_prog = [],
           app_polls = True, main_req = SaveState, main_pc = 5, main_status = Running, main_result = Some [1, 2], freed = False\<rparr>"
  by (simp add: created_value begin_callback_def run_defs onSaveInstanceState_def android_app_write_cmd_def command_defs
      saving_handler_def take_state_def numeral_eq_Suc)

lemma saved_once_reachable: "reachable saving_handler (polling_app None) saved_once"
  unfolding saved_once_def saved_once_run option.sel by (rule sched_reachable [OF saved_once_run save_begun_reachable])

lemmas saved_once_value = saved_once_def [unfolded saved_once_run option.sel]

lemma idle_created: "main_idle created" "\<not> freed created"
  by (simp_all add: created_value main_idle_def main_act_def nth_opt_def android_app_create_wait_def)

definition freed_app :: "glue" where
  "freed_app =
     the (sched saving_handler ([Main, Main, Main] @ replicate 10 App @ [Main, Main, Main, Main]) (begin_callback onDestroy created))"

lemma freed_app_run:
  "sched saving_handler ([Main, Main, Main] @ replicate 10 App @ [Main, Main, Main, Main]) (begin_callback onDestroy created) =
     Some \<lparr>app = (new_android_app None)\<lparr>destroyRequested := True, running := True, destroyed := True\<rparr>, msgpipe = [], mutex = None, app_prog = [],
           app_polls = False, main_req = FreeApp, main_pc = 5, main_status = Running, main_result = None, freed = True\<rparr>"
  by (simp add: created_value begin_callback_def run_defs android_app_free_def android_app_write_cmd_def command_defs
      saving_handler_def numeral_eq_Suc)

lemmas freed_app_value = freed_app_def [unfolded freed_app_run option.sel]

lemma freed_app_reachable: "reachable saving_handler (polling_app None) freed_app"
  unfolding freed_app_value
  by (rule sched_reachable [OF freed_app_run reachable.callback [OF created_reachable idle_created]])

text \<open>The \<^verbatim>\<open>hook.cpp\<close> application, stuck in \<^verbatim>\<open>onStart\<close>.\<close>

definition hook_created :: "glue" where
  "hook_created = the (sched saving_handler ([Main, Main] @ replicate 11 App @ [Main, Main, Main]) (hook_app None))"

lemma hook_created_run:
  "sched saving_handler ([Main, Main] @ replicate 11 App @ [Main, Main, Main]) (hook_app None) =
     Some \<lparr>app = (new_android_app None)\<lparr>running := True, destroyed := True\<rparr>, msgpipe = [], mutex = None, app_prog = [],
           app_polls = False, main_req = Create, main_pc = 3, main_status = Running, main_result = None, freed = False\<rparr>"
  by (simp add: hook_app_def run_defs empty_main_entry_def android_app_create_wait_def android_app_destroy_def free_saved_state_def
      numeral_eq_Suc)

lemmas hook_created_value = hook_created_def [unfolded hook_created_run option.sel]

definition hook_stuck :: "glue" where
  "hook_stuck = the (sched saving_handler [Main, Main, Main] (begin_callback onStart hook_created))"

lemma hook_stuck_run:
  "sched saving_handler [Main, Main, Main] (begin_callback onStart hook_created) =
     Some \<lparr>app = (new_android_app None)\<lparr>running := True, destroyed := True\<rparr>, msgpipe = [APP_CMD_START], mutex = None, app_prog = [],
           app_polls = False, main_req = SetState APP_CMD_START, main_pc = 2, main_status = Sleeping, main_result = None, freed = False\<rparr>"
  by (simp add: hook_created_value begin_callback_def run_defs android_app_set_activity_state_def android_app_write_cmd_def)

lemmas hook_stuck_value = hook_stuck_def [unfolded hook_stuck_run option.sel]

lemma hook_stuck_reachable: "reachable saving_handler (hook_app None) hook_stuck"
proof -
  have "reachable saving_handler (hook_app None) hook_created"
    unfolding hook_created_value by (rule sched_reachable [OF hook_created_run reachable.initial])
  moreover have "main_idle hook_created" "\<not> freed hook_created"
    by (simp_all add: hook_created_value main_idle_def main_act_def nth_opt_def android_app_create_wait_def)
  ultimately show ?thesis
    unfolding hook_stuck_value by (rule sched_reachable [OF hook_stuck_run reachable.callback])
qed

text \<open>
  C10: Every callback returns: from every state that is reached with a command handler that leaves the fields of the handshake
  alone, the main thread finishes its current callback on every schedule of the two threads. No wake-up is lost and
  there is no deadlock.
\<close>

theorem callback_returns:
  assumes "handler_ok h" and "reachable h (polling_app saved) s"
  shows "inevitably h main_idle s"
  using assms invariant_returns reachable_invariant by blast

theorem callback_returns_witness: "inevitably saving_handler main_idle (begin_callback onSaveInstance created)"
  by (rule callback_returns [OF saving_handler_ok save_begun_reachable])

text \<open>
  C11: When the main thread is about to leave the critical section of a callback, the application has taken over what the
  callback asks for: the activity state, the input queue or the window is the requested one, the thread runs after
  creation and has cleaned up before the object is freed.
\<close>

theorem callback_handshake:
  assumes "handler_ok h" and "reachable h (polling_app saved) s" and "main_act s = Some Unlock"
  shows "handshake (main_req s) (app s)"
proof -
  have "phase h (main_req s) (main_pc s) (app s) (future h s) (main_result s)"
    using reachable_invariant [OF assms(2,1)] by (simp add: invariant_def)
  then show ?thesis using assms(3) by (cases "main_req s") (auto simp: main_act_cases)
qed

theorem callback_handshake_witness: "handshake (main_req saved_once) (app saved_once)"
  by (rule callback_handshake [OF saving_handler_ok saved_once_reachable])
    (simp add: saved_once_value main_act_def onSaveInstanceState_def android_app_write_cmd_def)

text \<open>
  C14: The state that \<^verbatim>\<open>onSaveInstanceState\<close> returns is the one the handler of the application stored for this request, with
  nothing saved before: no older state and no state freed by a later command is returned.
\<close>

theorem saved_state_returned:
  assumes "handler_ok h" and "reachable h (polling_app saved) s" and "main_req s = SaveState" and "5 \<le> main_pc s"
  shows "\<exists>a. savedState a = None \<and> main_result s = savedState (h APP_CMD_SAVE_STATE a)"
  using reachable_invariant [OF assms(2,1)] assms(3,4) by (auto simp: invariant_def saved_by_def)

theorem saved_state_returned_witness:
  "main_result saved_once = Some [1, 2] \<and> (\<exists>a. savedState a = None \<and> main_result saved_once = savedState (saving_handler APP_CMD_SAVE_STATE a))"
  using saved_state_returned [OF saving_handler_ok saved_once_reachable] by (simp add: saved_once_value)

text \<open>
  C12: The object is not used after it is freed: then the thread of the application has no action left, no command waits in the
  pipe, and no step of either thread is possible.
\<close>

theorem glue_no_use_after_free:
  assumes "handler_ok h" and "reachable h (polling_app saved) s" and "freed s"
  shows "app_prog s = [] \<and> msgpipe s = [] \<and> \<not> (\<exists>s'. glue_step h s s')"
proof -
  have inv: "invariant h s" by (rule reachable_invariant [OF assms(2,1)])
  then have at: "main_req s = FreeApp" "5 \<le> main_pc s" using assms(3) by (auto simp: invariant_def pipe_ok_def)
  then have "future h s = []" using inv by (simp add: invariant_def)
  then have "app_prog s = []" "msgpipe s = []" by (auto simp: future_def)
  moreover have idle: "main_idle s" using at by (simp add: main_idle_iff request_prog_defs)
  moreover have "main_status s = Running" using idle_status(1) [OF inv idle] .
  ultimately show ?thesis by (auto simp: main_idle_def elim: glue_step.cases)
qed

theorem glue_no_use_after_free_witness:
  "freed freed_app \<and> app_prog freed_app = [] \<and> msgpipe freed_app = [] \<and> \<not> (\<exists>s'. glue_step saving_handler freed_app s')"
  using glue_no_use_after_free [OF saving_handler_ok freed_app_reachable] by (simp add: freed_app_value)

text \<open>
  C13: The shared fields of the handshake are changed only by the thread that holds the mutex.
\<close>

theorem glue_no_race:
  assumes "handler_ok h" and "reachable h (polling_app saved) s" and "glue_step h s s'"
    and "glue_fields (app s') \<noteq> glue_fields (app s)"
  shows "mutex s = Some (if app_prog s' = app_prog s then Main else App)"
proof -
  have inv: "invariant h s" by (rule reachable_invariant [OF assms(2,1)])
  from assms(3,4) show ?thesis
  proof cases
    case (app_upd f p)
    then have "\<not> benign f" using assms(4) by (auto simp: benign_def)
    then show ?thesis using inv app_upd by (auto simp: invariant_def mutex_ok_def split: if_splits)
  next
    case (main_upd f)
    then have "main_status s = Running" "in_section (main_req s) (main_pc s)"
      using running_unless_waiting [OF inv] section_at(4) by auto
    then show ?thesis using inv main_upd by (simp add: invariant_def mutex_ok_def)
  next
    case main_take
    then show ?thesis using assms(4) by (simp add: take_state_fields)
  qed simp_all
qed

theorem glue_no_race_witness:
  "mutex (the (sched saving_handler [App] (polling_app None))) = Some App"
proof -
  let ?s = "the (sched saving_handler [App] (polling_app None))" and ?s' = "the (sched saving_handler [App, App] (polling_app None))"
  have 1: "reachable saving_handler (polling_app None) ?s"
    by (rule sched_reachable [of _ "[App]", OF _ reachable.initial]) (simp add: run_defs)
  have 2: "glue_step saving_handler ?s ?s'"
    by (rule app_next_step) (simp add: run_defs)
  have 3: "glue_fields (app ?s') \<noteq> glue_fields (app ?s)" "app_prog ?s' \<noteq> app_prog ?s"
    by (simp_all add: run_defs glue_fields_def)
  show ?thesis using glue_no_race [OF saving_handler_ok 1 2 3(1)] 3(2) by (simp del: sched.simps)
qed

text \<open>
  C30: With the empty \<^verbatim>\<open>android_main\<close> of \<^verbatim>\<open>hook.cpp\<close>, a callback that sets the activity state
  (\<^verbatim>\<open>onStart\<close>, \<^verbatim>\<open>onResume\<close>, \<^verbatim>\<open>onPause\<close>, \<^verbatim>\<open>onStop\<close>) never returns: the main thread of the process waits for ever.
\<close>

theorem hook_app_never_returns:
  assumes "reachable h (hook_app saved) s" and "main_req s = SetState c"
  shows "\<not> main_idle s"
  using hook_app_inv [OF assms(1)] assms(2)
  by (auto simp: hook_inv_def main_idle_iff android_app_set_activity_state_def android_app_write_cmd_def)

theorem hook_app_never_returns_witness:
  "\<not> main_idle hook_stuck \<and> app_next saving_handler hook_stuck = None \<and> main_next hook_stuck = None"
  using hook_app_never_returns [OF hook_stuck_reachable] by (simp add: hook_stuck_value)

end
