(* ===== verification/VariableCache.thy ===== *)
theory VariableCache
  imports Prelude
begin

text \<open>
  The variable cache (\<^verbatim>\<open>variable_cache.c\<close>): a list of named 64-bit values with its file format. A name is the byte sequence in
  front of its NUL. Each entry is reached from \<open>root\<close> only, so the chain of entries is a list, the newest first.
  Writes behind a fixed array, a copy from an array without NUL and the use of a null pointer are faults.
\<close>

section \<open>The cache\<close>

datatype cache_fault = KeyOverflow | ValueOverflow | KeyUnterminated | NullEntry

record var_entry =
  entry_key :: "u8 list"
  entry_value :: u64

definition KEY_SIZE :: nat where "KEY_SIZE = 128"

fun cache_get_entry_internal :: "u8 list \<Rightarrow> var_entry list \<Rightarrow> nat option" where
  "cache_get_entry_internal name [] = None"
| "cache_get_entry_internal name (entry # rest) =
     (if name = entry_key entry then Some 0 else map_option Suc (cache_get_entry_internal name rest))"

text \<open>\<open>mem\<close> tells whether \<^verbatim>\<open>malloc\<close> returns memory.\<close>

definition new_entry :: "bool \<Rightarrow> u8 list \<Rightarrow> u64 \<Rightarrow> var_entry list \<Rightarrow> cache_fault + var_entry list" where
  "new_entry mem name v root =
     (if \<not> mem then Inl NullEntry
      else if KEY_SIZE < length name + 1 then Inl KeyOverflow
      else Inr (\<lparr>entry_key = name, entry_value = v\<rparr> # root))"

definition cache_set :: "bool \<Rightarrow> u8 list \<Rightarrow> u64 \<Rightarrow> var_entry list \<Rightarrow> cache_fault + var_entry list" where
  "cache_set mem name v root =
     (case cache_get_entry_internal name root of
        Some i \<Rightarrow> Inr (root[i := (root ! i)\<lparr>entry_value := v\<rparr>])
      | None \<Rightarrow> new_entry mem name v root)"

definition cache_get :: "u8 list \<Rightarrow> var_entry list \<Rightarrow> u64" where
  "cache_get name root = (case cache_get_entry_internal name root of Some i \<Rightarrow> entry_value (root ! i) | None \<Rightarrow> 0)"

section \<open>The file\<close>

text \<open>A block holds two \<^verbatim>\<open>int\<close> lengths; the key is written with its NUL.\<close>

definition serialize_entry :: "var_entry \<Rightarrow> u8 list" where
  "serialize_entry entry =
     le_bytes 4 (word_of_nat (length (entry_key entry) + 1) :: u32) @ le_bytes 4 (8 :: u32)
     @ (entry_key entry @ [0]) @ le_bytes 8 (entry_value entry)"

definition serialized_to_file :: "bool \<Rightarrow> var_entry list \<Rightarrow> int \<times> u8 list option" where
  "serialized_to_file opens root = (if opens then (0, Some (concat (map serialize_entry root))) else (- 1, None))"

text \<open>\<^verbatim>\<open>read\<close> takes its count as \<^verbatim>\<open>size_t\<close>, and overwrites the front of the array it reads into.\<close>

definition read_count :: "u32 \<Rightarrow> nat" where
  "read_count len = unat (scast len :: u64)"

definition overlay :: "u8 list \<Rightarrow> u8 list \<Rightarrow> u8 list" where
  "overlay bs old = bs @ drop (length bs) old"

function unserialize_loop :: "bool \<Rightarrow> u8 list \<Rightarrow> u8 list \<Rightarrow> var_entry list \<Rightarrow> cache_fault + var_entry list" where
  "unserialize_loop mem block file root =
     (if file = [] then Inr root
      else
        let block = overlay (take 8 file) block; file1 = drop 8 file;
            key_length = read_count (le_word (take 4 block)); value_length = read_count (le_word (take 4 (drop 4 block)));
            key_bytes = take key_length file1; file2 = drop key_length file1;
            value_bytes = take value_length file2; file3 = drop value_length file2
        in if KEY_SIZE < length key_bytes then Inl KeyOverflow
           else if 8 < length value_bytes then Inl ValueOverflow
           else
             let key = overlay key_bytes (replicate KEY_SIZE 0)
             in if 0 \<notin> set key then Inl KeyUnterminated
                else bindE (new_entry mem (takeWhile (\<lambda>b. b \<noteq> 0) key) (le_word (overlay value_bytes (replicate 8 0))) root)
                       (\<lambda>root. unserialize_loop mem block file3 root))"
  by pat_completeness auto
termination
  by (relation "measure (\<lambda>(mem, block, file, root). length file)") auto

declare unserialize_loop.simps [simp del]

definition unserialized_from_file :: "bool \<Rightarrow> u8 list option \<Rightarrow> var_entry list \<Rightarrow> cache_fault + (int \<times> var_entry list)" where
  "unserialized_from_file mem file root =
     (case file of
        None \<Rightarrow> Inr (- 1, root)
      | Some bs \<Rightarrow> bindE (unserialize_loop mem (replicate 8 0) bs root) (\<lambda>root. Inr (0, root)))"

section \<open>Entries and lookups\<close>

primrec put_all :: "('k \<Rightarrow> 'v \<Rightarrow> 's \<Rightarrow> 'e + 's) \<Rightarrow> ('k \<times> 'v) list \<Rightarrow> 's \<Rightarrow> 'e + 's" where
  "put_all put [] s = Inr s"
| "put_all put (kv # kvs) s = bindE (put (fst kv) (snd kv) s) (put_all put kvs)"

text \<open>The contract of a store of named values, and what a client that puts a sequence of values gets from it.\<close>

locale named_store =
  fixes ok :: "'s \<Rightarrow> bool" and valid :: "'k \<Rightarrow> bool" and put :: "'k \<Rightarrow> 'v \<Rightarrow> 's \<Rightarrow> 'e + 's" and lookup :: "'k \<Rightarrow> 's \<Rightarrow> 'v option"
  assumes put_ok: "\<lbrakk>ok s; valid k\<rbrakk> \<Longrightarrow> \<exists>s'. put k v s = Inr s' \<and> ok s' \<and> (\<forall>n. lookup n s' = (if n = k then Some v else lookup n s))"
begin

lemma put_all_map_of:
  "ok s \<Longrightarrow> \<forall>kv\<in>set kvs. valid (fst kv) \<Longrightarrow>
     \<exists>s'. put_all put kvs s = Inr s' \<and> ok s' \<and> (\<forall>n. lookup n s' = (case map_of (rev kvs) n of Some v \<Rightarrow> Some v | None \<Rightarrow> lookup n s))"
proof (induction kvs arbitrary: s)
  case (Cons kv kvs)
  then obtain s1 where s1: "put (fst kv) (snd kv) s = Inr s1" "ok s1"
    "\<forall>n. lookup n s1 = (if n = fst kv then Some (snd kv) else lookup n s)"
    using put_ok [of s "fst kv" "snd kv"] by auto
  then obtain s2 where "put_all put kvs s1 = Inr s2" "ok s2"
    "\<forall>n. lookup n s2 = (case map_of (rev kvs) n of Some v \<Rightarrow> Some v | None \<Rightarrow> lookup n s1)"
    using Cons.IH [OF s1(2)] Cons.prems by auto
  with s1 show ?case by (simp add: map_add_def split: option.splits)
qed simp

end

definition key_ok :: "u8 list \<Rightarrow> bool" where
  "key_ok name \<longleftrightarrow> 0 \<notin> set name \<and> length name < KEY_SIZE"

definition cache_ok :: "var_entry list \<Rightarrow> bool" where
  "cache_ok root \<longleftrightarrow> distinct (map entry_key root) \<and> (\<forall>e\<in>set root. key_ok (entry_key e))"

definition cache_lookup :: "u8 list \<Rightarrow> var_entry list \<Rightarrow> u64 option" where
  "cache_lookup name root = map_of (map (\<lambda>e. (entry_key e, entry_value e)) root) name"

lemma entry_found:
  "cache_get_entry_internal name root = Some i \<Longrightarrow>
     i < length root \<and> entry_key (root ! i) = name \<and> cache_lookup name root = Some (entry_value (root ! i))"
  by (induction root arbitrary: i) (auto simp: cache_lookup_def split: if_splits)

lemma entry_missing: "cache_get_entry_internal name root = None \<longleftrightarrow> name \<notin> entry_key ` set root"
  by (induction root) auto

lemma cache_lookup_None: "cache_lookup name root = None \<longleftrightarrow> name \<notin> entry_key ` set root"
  by (auto simp: cache_lookup_def map_of_eq_None_iff image_image)

lemma cache_get_lookup: "cache_get name root = (case cache_lookup name root of Some v \<Rightarrow> v | None \<Rightarrow> 0)"
  using entry_found [of name root] entry_missing [of name root] cache_lookup_None [of name root]
  by (auto simp: cache_get_def split: option.splits)

lemma cache_lookup_update:
  assumes "distinct (map entry_key root)" "i < length root"
  shows "cache_lookup n (root[i := (root ! i)\<lparr>entry_value := v\<rparr>]) = (if n = entry_key (root ! i) then Some v else cache_lookup n root)"
  using assms
proof (induction root arbitrary: i)
  case (Cons e root)
  have "j < length root \<Longrightarrow> entry_key (root ! j) \<noteq> entry_key e" for j
  proof
    assume "j < length root" "entry_key (root ! j) = entry_key e"
    then have "entry_key e \<in> entry_key ` set root" by (metis imageI nth_mem)
    then show False using Cons.prems(1) by simp
  qed
  with Cons show ?case by (cases i) (auto simp: cache_lookup_def)
qed simp

lemma cache_set_ok:
  assumes ok: "cache_ok root" and name: "key_ok name"
  shows "\<exists>r. cache_set True name v root = Inr r \<and> cache_ok r \<and> (\<forall>n. cache_lookup n r = (if n = name then Some v else cache_lookup n root))"
proof (cases "cache_get_entry_internal name root")
  case None
  then have "cache_set True name v root = Inr (\<lparr>entry_key = name, entry_value = v\<rparr> # root)"
    using name by (simp add: cache_set_def new_entry_def key_ok_def)
  then show ?thesis using assms None by (auto simp: entry_missing cache_ok_def cache_lookup_def)
next
  case (Some i)
  let ?r = "root[i := (root ! i)\<lparr>entry_value := v\<rparr>]"
  have i: "i < length root" "entry_key (root ! i) = name" using entry_found [OF Some] by auto
  then have keys: "map entry_key ?r = map entry_key root" by (simp add: map_update list_update_same_conv)
  have "\<forall>e\<in>set ?r. key_ok (entry_key e)"
    using ok keys by (metis cache_ok_def image_eqI image_set imageE)
  then have "cache_ok ?r" using ok keys by (simp add: cache_ok_def)
  moreover have "\<forall>n. cache_lookup n ?r = (if n = name then Some v else cache_lookup n root)"
    using cache_lookup_update i ok by (simp add: cache_ok_def)
  ultimately show ?thesis using Some by (auto simp: cache_set_def)
qed

interpretation cache: named_store cache_ok key_ok "cache_set True" cache_lookup
  by unfold_locales (rule cache_set_ok)

section \<open>The file format\<close>

lemma read_count_small: "n < 2 ^ 31 \<Longrightarrow> read_count (word_of_nat n) = n"
proof -
  assume n: "n < 2 ^ 31"
  then have "sint (word_of_nat n :: u32) = int n"
    by (simp add: sint_uint signed_take_bit_int_eq_self unsigned_of_nat take_bit_nat_eq_self)
  then have "(scast (word_of_nat n :: u32) :: u64) = word_of_nat n" by (simp add: scast_eq)
  then show ?thesis using n by (simp add: read_count_def unsigned_of_nat take_bit_nat_eq_self)
qed

lemma unserialize_entry:
  assumes "key_ok (entry_key entry)" "length block = 8"
  shows "\<exists>b. length b = 8 \<and> unserialize_loop True block (serialize_entry entry @ file) root = unserialize_loop True b file (entry # root)"
proof -
  let ?n = "length (entry_key entry) + 1"
  let ?b = "le_bytes 4 (word_of_nat ?n :: u32) @ le_bytes 4 (8 :: u32)"
  have n: "?n \<le> 128" using assms by (simp add: key_ok_def KEY_SIZE_def)
  have lens: "read_count (le_word (take 4 ?b)) = ?n" "read_count (le_word (take 4 (drop 4 ?b))) = 8"
    using n read_count_small [of ?n] read_count_small [of 8] by (simp_all add: le_word_le_bytes)
  have key: "takeWhile (\<lambda>b. b \<noteq> 0) (entry_key entry @ 0 # r) = entry_key entry" for r
    using assms(1) by (subst takeWhile_append2) (auto simp: key_ok_def)
  have eta: "\<lparr>entry_key = entry_key entry, entry_value = entry_value entry\<rparr> = entry" by simp
  show ?thesis
    by (intro exI [of _ ?b] conjI, simp, subst unserialize_loop.simps)
      (use n lens key assms in \<open>simp add: eta serialize_entry_def overlay_def Let_def KEY_SIZE_def new_entry_def le_word_le_bytes\<close>)
qed

lemma unserialize_serialize:
  assumes "\<forall>e\<in>set es. key_ok (entry_key e)" "length block = 8"
  shows "unserialize_loop True block (concat (map serialize_entry es)) root = Inr (rev es @ root)"
  using assms
proof (induction es arbitrary: block root)
  case Nil
  then show ?case by (simp add: unserialize_loop.simps)
next
  case (Cons e es)
  then show ?case using unserialize_entry [of e block "concat (map serialize_entry es)" root] by auto
qed

lemma cache_lookup_append:
  "cache_lookup n (r @ r') = (case cache_lookup n r of Some v \<Rightarrow> Some v | None \<Rightarrow> cache_lookup n r')"
  by (simp add: cache_lookup_def map_add_def split: option.splits)

lemma cache_lookup_rev: "distinct (map entry_key root) \<Longrightarrow> cache_lookup n (rev root) = cache_lookup n root"
proof (induction root)
  case (Cons e root)
  then have "cache_lookup (entry_key e) root = None" using cache_lookup_None by auto
  with Cons show ?case
    by (auto simp: cache_lookup_append split: option.splits) (auto simp: cache_lookup_def split: if_splits)
qed simp

section \<open>Properties\<close>

text \<open>
  C29: Setting any sequence of valid names, starting with the empty cache, never faults, keeps the names distinct, and a later
  lookup returns the last value set under the name, or 0 for a name that was never set.
\<close>

theorem cache_refines_map:
  assumes "\<forall>kv\<in>set kvs. key_ok (fst kv)"
  shows "\<exists>r. put_all (cache_set True) kvs [] = Inr r \<and> cache_ok r \<and> (\<forall>n. cache_get n r = (case map_of (rev kvs) n of Some v \<Rightarrow> v | None \<Rightarrow> 0))"
proof -
  have "cache_ok []" by (simp add: cache_ok_def)
  from cache.put_all_map_of [OF this assms] obtain r where
    "put_all (cache_set True) kvs [] = Inr r" "cache_ok r"
    "\<forall>n. cache_lookup n r = (case map_of (rev kvs) n of Some v \<Rightarrow> Some v | None \<Rightarrow> cache_lookup n [])" by blast
  then show ?thesis by (auto simp: cache_get_lookup cache_lookup_def split: option.splits)
qed

theorem cache_refines_map_witness:
  "\<exists>r. put_all (cache_set True) [([65], 1), ([66], 2), ([65], 3)] [] = Inr r \<and> cache_ok r \<and> cache_get [65] r = 3"
  using cache_refines_map [of "[([65], 1), ([66], 2), ([65], 3)]"] by (auto simp: key_ok_def KEY_SIZE_def)



end
