(* ===== verification/ProcessLayout.thy ===== *)
theory ProcessLayout
  imports NearArena
begin

text \<open>
  The memory layout and the modules of the process (\<^verbatim>\<open>UserMode/PlatformUtil/Linux/ProcessRuntimeUtility.cc\<close>): both are read
  from the text of \<^verbatim>\<open>/proc/self/maps\<close>, which is an argument here. The parts of stdio that the code uses (\<^verbatim>\<open>fgets\<close>, \<^verbatim>\<open>feof\<close>,
  \<^verbatim>\<open>getc\<close>, the conversions of \<^verbatim>\<open>sscanf\<close>) are modelled on a stream of characters. The line buffer is declared inside the loop
  and not initialised: \<open>fresh\<close> gives what it holds in an iteration from what it held at the end of the one before
  (the identity when the compiler leaves it at its place on the stack).
\<close>

section \<open>Streams and lines\<close>

datatype runtime_fault = Fatal_parse | Over_read | Wild_pointer

definition NUL :: char where "NUL = CHR 0x00"

definition newline :: char where "newline = CHR 0x0A"

definition LINE_MAX :: nat where "LINE_MAX = 2048"

record stream =
  unread :: string
  eof :: bool

text \<open>\<^verbatim>\<open>fopen\<close> of a text: nothing is read yet, so the end of the file is not known.\<close>

definition open_stream :: "string \<Rightarrow> stream" where
  "open_stream s = \<lparr>unread = s, eof = False\<rparr>"

fun take_line :: "nat \<Rightarrow> string \<Rightarrow> string \<times> string" where
  "take_line 0 s = ([], s)"
| "take_line (Suc n) [] = ([], [])"
| "take_line (Suc n) (c # s) = (if c = newline then ([c], s) else (let (line, rest) = take_line n s in (c # line, rest)))"

text \<open>
  \<^verbatim>\<open>fgets(buf, n, fp)\<close> reads up to \<open>n - 1\<close> characters and stops behind a newline; it meets the end of the file when it
  wants another character and there is none. When it read nothing, the buffer is left as it was.
\<close>

definition fgets :: "nat \<Rightarrow> stream \<Rightarrow> string \<Rightarrow> stream \<times> string" where
  "fgets n st buf =
     (let (line, rest) = take_line (n - 1) (unread st)
      in (\<lparr>unread = rest, eof = (eof st \<or> length line < n - 1 \<and> (line = [] \<or> last line \<noteq> newline))\<rparr>,
          if line = [] then buf else line @ NUL # drop (Suc (length line)) buf))"

text \<open>The rest of a line, read with \<^verbatim>\<open>getc\<close> up to a newline or the end of the file; the flag tells the latter.\<close>

definition skip_line :: "stream \<Rightarrow> stream \<times> bool" where
  "skip_line st =
     (case dropWhile (\<lambda>c. c \<noteq> newline) (unread st) of
        [] \<Rightarrow> (\<lparr>unread = [], eof = True\<rparr>, True)
      | c # s \<Rightarrow> (st\<lparr>unread := s\<rparr>, False))"

text \<open>The string in a character array; without a NUL the library functions read behind the array.\<close>

definition c_string :: "string \<Rightarrow> runtime_fault + string" where
  "c_string buf = (if NUL \<in> set buf then Inr (takeWhile (\<lambda>c. c \<noteq> NUL) buf) else Inl Over_read)"

text \<open>The head of both loops: \<open>None\<close> leaves the loop; otherwise the stream, the buffer and its string.\<close>

definition next_line :: "(string \<Rightarrow> string) \<Rightarrow> stream \<Rightarrow> string \<Rightarrow> runtime_fault + (stream \<times> string \<times> string) option" where
  "next_line fresh st buf =
     (let (st, buf) = fgets LINE_MAX st (fresh buf)
      in bindE (c_string buf) (\<lambda>line.
           if length line = LINE_MAX \<and> buf ! LINE_MAX \<noteq> newline then
             (let (st, at_end) = skip_line st in Inr (if at_end then None else Some (st, buf, line)))
           else Inr (Some (st, buf, line))))"

section \<open>The conversions of sscanf\<close>

definition is_space :: "char \<Rightarrow> bool" where
  "is_space c \<longleftrightarrow> c = CHR '' '' \<or> (of_char c :: nat) \<in> {9..13}"

definition digit_value :: "nat \<Rightarrow> char \<Rightarrow> nat option" where
  "digit_value base c =
     (let n = of_char c :: nat;
          v = (if 48 \<le> n \<and> n \<le> 57 then n - 48 else if 97 \<le> n \<and> n \<le> 102 then n - 87
               else if 65 \<le> n \<and> n \<le> 70 then n - 55 else base)
      in if v < base then Some v else None)"

definition number_of :: "nat \<Rightarrow> string \<Rightarrow> nat" where
  "number_of base ds = foldl (\<lambda>v c. base * v + the (digit_value base c)) 0 ds"

definition scan_sign :: "string \<Rightarrow> bool \<times> string" where
  "scan_sign s =
     (case s of [] \<Rightarrow> (False, []) | c # r \<Rightarrow> if c = CHR ''-'' then (True, r) else if c = CHR ''+'' then (False, r) else (False, s))"

definition scan_prefix :: "nat \<Rightarrow> string \<Rightarrow> string" where
  "scan_prefix base s =
     (case s of c # x # r \<Rightarrow> if base = 16 \<and> c = CHR ''0'' \<and> (x = CHR ''x'' \<or> x = CHR ''X'') then r else s | _ \<Rightarrow> s)"

text \<open>An integer: white space, a sign, the prefix of a hexadecimal number and at least one digit.\<close>

definition scan_number :: "nat \<Rightarrow> string \<Rightarrow> (bool \<times> nat \<times> string) option" where
  "scan_number base s =
     (let (neg, s) = scan_sign (dropWhile is_space s);
          s = scan_prefix base s;
          ds = takeWhile (\<lambda>c. digit_value base c \<noteq> None) s
      in if ds = [] then None else Some (neg, number_of base ds, drop (length ds) s))"

text \<open>\<^verbatim>\<open>%lx\<close> stores as \<^verbatim>\<open>strtoul\<close> does: a value that does not fit becomes the largest one, a sign negates.\<close>

definition scan_lx :: "string \<Rightarrow> (u64 \<times> string) option" where
  "scan_lx s = map_option (\<lambda>(neg, n, r). (if 2 ^ 64 \<le> n then - 1 else if neg then - of_nat n else of_nat n, r)) (scan_number 16 s)"

definition scan_char :: "char \<Rightarrow> string \<Rightarrow> string option" where
  "scan_char c s = (case s of [] \<Rightarrow> None | x # r \<Rightarrow> if x = c then Some r else None)"

definition scan_chars :: "nat \<Rightarrow> string \<Rightarrow> (string \<times> string) option" where
  "scan_chars n s = (if length s < n then None else Some (take n s, drop n s))"

text \<open>
  \<^verbatim>\<open>sscanf\<close> with the format \<open>%lx-%lx %4c %lx %hhx:%hhx %ld %n\<close>: \<open>None\<close> when fewer than seven values are stored, otherwise the
  values that the code uses, the last one the index behind the white space that follows the inode number.
\<close>

definition sscanf_line :: "string \<Rightarrow> (u64 \<times> u64 \<times> string \<times> nat) option" where
  "sscanf_line line =
     Option.bind (scan_lx line) (\<lambda>(region_start, s).
     Option.bind (scan_char (CHR ''-'') s) (\<lambda>s.
     Option.bind (scan_lx s) (\<lambda>(region_stop, s).
     Option.bind (scan_chars 4 (dropWhile is_space s)) (\<lambda>(permissions, s).
     Option.bind (scan_lx s) (\<lambda>(region_offset, s).
     Option.bind (scan_number 16 s) (\<lambda>(_, dev_major, s).
     Option.bind (scan_char (CHR '':'') s) (\<lambda>s.
     Option.bind (scan_number 16 s) (\<lambda>(_, dev_minor, s).
     Option.bind (scan_number 10 s) (\<lambda>(_, inode, s).
       Some (region_start, region_stop, permissions, length line - length (dropWhile is_space s)))))))))))"

section \<open>The memory layout\<close>

definition permission_of :: "string \<Rightarrow> MemoryPermission" where
  "permission_of permissions =
     (if permissions ! 0 = CHR ''r'' \<and> permissions ! 1 = CHR ''w'' then kReadWrite
      else if permissions ! 0 = CHR ''r'' \<and> permissions ! 2 = CHR ''x'' then kReadExecute
      else if permissions ! 0 = CHR ''r'' \<and> permissions ! 1 = CHR ''w'' \<and> permissions ! 2 = CHR ''x'' then kReadWriteExecute
      else kNoAccess)"

definition parse_region :: "string \<Rightarrow> runtime_fault + MemoryRegion" where
  "parse_region line =
     (case sscanf_line line of
        None \<Rightarrow> Inl Fatal_parse
      | Some (region_start, region_stop, permissions, _) \<Rightarrow>
          Inr \<lparr>region_address = region_start, region_length = region_stop - region_start,
               region_permission = permission_of permissions\<rparr>)"

lemma take_line_length: "take_line n s = (line, rest) \<Longrightarrow> length s = length line + length rest"
  by (induction n s arbitrary: line rest rule: take_line.induct) (auto split: if_splits prod.splits)

abbreviation stream_measure :: "stream \<Rightarrow> nat" where
  "stream_measure st \<equiv> length (unread st) + (if eof st then 0 else 1)"

lemma next_line_decreases:
  assumes n: "next_line fresh st buf = Inr (Some (st', buf', line))" and e: "\<not> eof st"
  shows "stream_measure st' < stream_measure st"
proof -
  obtain l r where l: "take_line 2047 (unread st) = (l, r)" by fastforce
  have len: "length (unread st) = length l + length r" using take_line_length [OF l] .
  have d: "length (dropWhile (\<lambda>c. c \<noteq> newline) r) \<le> length r" by (rule length_dropWhile_le)
  show ?thesis using n e len d
    by (cases l) (auto simp: next_line_def fgets_def LINE_MAX_def l skip_line_def Let_def split: if_splits list.splits)
qed

function layout_loop :: "(string \<Rightarrow> string) \<Rightarrow> stream \<Rightarrow> string \<Rightarrow> MemoryRegion list \<Rightarrow> runtime_fault + MemoryRegion list" where
  "layout_loop fresh st buf regions =
     (if eof st then Inr regions
      else bindE (next_line fresh st buf) (\<lambda>r.
             case r of
               None \<Rightarrow> Inr regions
             | Some (st', buf', line) \<Rightarrow>
                 bindE (parse_region line) (\<lambda>region. layout_loop fresh st' buf' (regions @ [region]))))"
  by pat_completeness auto
termination
  by (relation "measure (\<lambda>(fresh, st, buf, regions). stream_measure st)") (auto dest: next_line_decreases split: if_splits)

declare layout_loop.simps [simp del]

text \<open>\<^verbatim>\<open>std::sort\<close> by the start address; regions that start at the same address keep the order of the file here.\<close>

definition GetProcessMemoryLayout :: "(string \<Rightarrow> string) \<Rightarrow> string \<Rightarrow> string option \<Rightarrow> runtime_fault + MemoryRegion list" where
  "GetProcessMemoryLayout fresh buf maps =
     (case maps of
        None \<Rightarrow> Inr []
      | Some s \<Rightarrow> bindE (layout_loop fresh (open_stream s) buf []) (\<lambda>regions. Inr (sort_key region_address regions)))"

section \<open>The modules\<close>

text \<open>\<^verbatim>\<open>path\<close> is an array of 1024 characters.\<close>

record RuntimeModule =
  module_path :: string
  load_address :: addr

definition PATH_SIZE :: nat where "PATH_SIZE = 1024"

definition strncpy :: "nat \<Rightarrow> string \<Rightarrow> string" where
  "strncpy n s = take n s @ replicate (n - length s) NUL"

definition ELFMAG :: "u8 list" where "ELFMAG = [0x7f, 0x45, 0x4c, 0x46]"

definition magic_at :: "(addr \<Rightarrow> u8) \<Rightarrow> addr \<Rightarrow> bool" where
  "magic_at mem a \<longleftrightarrow> map (\<lambda>i. mem (a + of_nat i)) [0..<4] = ELFMAG"

text \<open>
  The body of the loop behind the parser: the module of the line, if it is the header of one, and the line buffer, from which
  the newline behind the path is taken away. \<open>mem\<close> is the memory of the process; the regions that the code
  looks into are readable.
\<close>

definition module_of_line :: "(addr \<Rightarrow> u8) \<Rightarrow> string \<Rightarrow> string \<Rightarrow> u64 \<times> u64 \<times> string \<times> nat \<Rightarrow> RuntimeModule option \<times> string" where
  "module_of_line mem buf line scanned =
     (case scanned of (region_start, region_stop, permissions, path_index) \<Rightarrow>
      if permissions \<noteq> ''r--p'' \<and> permissions \<noteq> ''r-xp'' then (None, buf)
      else if \<not> magic_at mem region_start then (None, buf)
      else
        let path_buffer = drop path_index line in
        if path_buffer = [] \<or> hd path_buffer = newline \<or> hd path_buffer = CHR ''['' then (None, buf)
        else
          let strip = last path_buffer = newline;
              path = (if strip then butlast path_buffer else path_buffer)
          in (Some \<lparr>module_path = strncpy PATH_SIZE path, load_address = region_start\<rparr>,
              if strip then buf[path_index + length path_buffer - 1 := NUL] else buf))"

function module_loop :: "(addr \<Rightarrow> u8) \<Rightarrow> (string \<Rightarrow> string) \<Rightarrow> stream \<Rightarrow> string \<Rightarrow> RuntimeModule list \<Rightarrow> runtime_fault + RuntimeModule list" where
  "module_loop mem fresh st buf modules =
     (if eof st then Inr modules
      else bindE (next_line fresh st buf) (\<lambda>r.
             case r of
               None \<Rightarrow> Inr modules
             | Some (st', buf', line) \<Rightarrow>
                 (case sscanf_line line of
                    None \<Rightarrow> Inl Fatal_parse
                  | Some scanned \<Rightarrow>
                      (case module_of_line mem buf' line scanned of
                         (None, buf'') \<Rightarrow> module_loop mem fresh st' buf'' modules
                       | (Some module, buf'') \<Rightarrow> module_loop mem fresh st' buf'' (modules @ [module])))))"
  by pat_completeness auto
termination
  by (relation "measure (\<lambda>(mem, fresh, st, buf, modules). stream_measure st)") (auto dest: next_line_decreases split: if_splits)

declare module_loop.simps [simp del]

definition GetProcessModuleMap :: "(addr \<Rightarrow> u8) \<Rightarrow> (string \<Rightarrow> string) \<Rightarrow> string \<Rightarrow> string option \<Rightarrow> runtime_fault + RuntimeModule list" where
  "GetProcessModuleMap mem fresh buf maps =
     (case maps of None \<Rightarrow> Inr [] | Some s \<Rightarrow> module_loop mem fresh (open_stream s) buf [])"

fun strstr :: "string \<Rightarrow> string \<Rightarrow> bool" where
  "strstr [] name = (name = [])"
| "strstr (c # s) name = (take (length name) (c # s) = name \<or> strstr s name)"

definition null_module :: RuntimeModule where
  "null_module = \<lparr>module_path = replicate PATH_SIZE NUL, load_address = 0\<rparr>"

fun find_module :: "string \<Rightarrow> RuntimeModule list \<Rightarrow> runtime_fault + RuntimeModule" where
  "find_module name [] = Inr null_module"
| "find_module name (module # modules) =
     bindE (c_string (module_path module)) (\<lambda>path. if strstr path name then Inr module else find_module name modules)"

definition GetProcessModule :: "(addr \<Rightarrow> u8) \<Rightarrow> (string \<Rightarrow> string) \<Rightarrow> string \<Rightarrow> string option \<Rightarrow> string \<Rightarrow> runtime_fault + RuntimeModule" where
  "GetProcessModule mem fresh buf maps name = bindE (GetProcessModuleMap mem fresh buf maps) (find_module name)"

end
