(* ===== verification/ProcessMaps.thy ===== *)
theory ProcessMaps
  imports ProcessLayout
begin

text \<open>
  What the reader of \<^verbatim>\<open>/proc/self/maps\<close> makes of a well-formed file: the line format of the kernel
  (\<^verbatim>\<open>man 5 proc\<close>, quoted in the source), the round trip of one line through \<open>sscanf_line\<close>, and the loops
  over a whole file.
\<close>

section \<open>The format of the file\<close>

definition digit_char :: "nat \<Rightarrow> char" where
  "digit_char d = (if d < 10 then char_of (48 + d) else char_of (87 + d))"

fun digits :: "nat \<Rightarrow> nat \<Rightarrow> string" where
  "digits base n = (if n < base \<or> base < 2 then [digit_char n] else digits base (n div base) @ [digit_char (n mod base)])"

declare digits.simps [simp del]

definition padded :: "nat \<Rightarrow> string \<Rightarrow> string" where
  "padded w s = replicate (w - length s) (CHR ''0'') @ s"

record map_entry =
  entry_start :: u64
  entry_stop :: u64
  entry_perms :: string
  entry_offset :: u64
  entry_major :: nat
  entry_minor :: nat
  entry_inode :: nat
  entry_gap :: nat
  entry_path :: string

definition render_line :: "map_entry \<Rightarrow> string" where
  "render_line e =
     padded 8 (digits 16 (unat (entry_start e))) @ ''-'' @ padded 8 (digits 16 (unat (entry_stop e))) @ '' '' @ entry_perms e @ '' ''
     @ padded 8 (digits 16 (unat (entry_offset e))) @ '' '' @ padded 2 (digits 16 (entry_major e)) @ '':'' @ padded 2 (digits 16 (entry_minor e))
     @ '' '' @ digits 10 (entry_inode e) @ replicate (Suc (entry_gap e)) (CHR '' '') @ entry_path e"

definition render_entry :: "map_entry \<Rightarrow> string" where
  "render_entry e = render_line e @ [newline]"

definition perms_ok :: "string \<Rightarrow> bool" where
  "perms_ok p \<longleftrightarrow> length p = 4 \<and> p ! 0 \<in> {CHR ''r'', CHR ''-''} \<and> p ! 1 \<in> {CHR ''w'', CHR ''-''} \<and>
     p ! 2 \<in> {CHR ''x'', CHR ''-''} \<and> p ! 3 \<in> {CHR ''p'', CHR ''s''}"

definition entry_ok :: "map_entry \<Rightarrow> bool" where
  "entry_ok e \<longleftrightarrow> perms_ok (entry_perms e) \<and> entry_start e \<le> entry_stop e \<and>
     list_all (\<lambda>c. c \<noteq> NUL \<and> c \<noteq> newline) (entry_path e) \<and> (entry_path e = [] \<or> \<not> is_space (hd (entry_path e))) \<and>
     length (render_entry e) < LINE_MAX"

definition region_of :: "map_entry \<Rightarrow> MemoryRegion" where
  "region_of e =
     \<lparr>region_address = entry_start e, region_length = entry_stop e - entry_start e,
      region_permission = permission_of (entry_perms e)\<rparr>"

section \<open>Numbers\<close>

lemma of_digit_char: "d < 16 \<Longrightarrow> (of_char (digit_char d) :: nat) = (if d < 10 then 48 + d else 87 + d)"
  by (simp add: digit_char_def)

lemma digit_char_neq:
  "d < 16 \<Longrightarrow> (of_char c :: nat) < 48 \<or> 58 \<le> (of_char c :: nat) \<and> (of_char c :: nat) < 97 \<or> 102 < (of_char c :: nat) \<Longrightarrow> digit_char d \<noteq> c"
  using of_digit_char [of d] by (auto split: if_splits)

lemma digit_value_char [simp]: "d < base \<Longrightarrow> base \<le> 16 \<Longrightarrow> digit_value base (digit_char d) = Some d"
  by (simp add: digit_value_def of_digit_char)

lemma digit_value_separator [simp]:
  "digit_value 16 (CHR ''-'') = None" "digit_value 16 (CHR '' '') = None" "digit_value 16 (CHR '':'') = None"
  "digit_value 10 (CHR '' '') = None" "digit_value 10 newline = None"
  by (simp_all add: digit_value_def newline_def)

lemma zero_is_digit: "CHR ''0'' = digit_char 0"
proof -
  have "(of_char (CHR ''0'') :: nat) = 48" by simp
  then have "char_of (48 :: nat) = CHR ''0''" by (metis char_of_char)
  then show ?thesis by (simp add: digit_char_def)
qed

text \<open>\<open>numeral_text\<close>: characters that are digits of the base.\<close>

definition all_digits :: "nat \<Rightarrow> string \<Rightarrow> bool" where
  "all_digits base s \<longleftrightarrow> list_all (\<lambda>c. \<exists>d < base. c = digit_char d) s"

lemma all_digits_simps [simp]:
  "all_digits base []" "all_digits base (s @ t) \<longleftrightarrow> all_digits base s \<and> all_digits base t"
  "all_digits base (c # s) \<longleftrightarrow> (\<exists>d < base. c = digit_char d) \<and> all_digits base s"
  by (auto simp: all_digits_def)

lemma digit_char_in [simp]: "d < base \<Longrightarrow> \<exists>d'<base. digit_char d = digit_char d'"
  by blast

lemma digits_are_digits: "2 \<le> base \<Longrightarrow> all_digits base (digits base n)"
  by (induction base n rule: digits.induct) (subst digits.simps, simp)

lemma digits_not_Nil [simp]: "digits base n \<noteq> []"
  by (subst digits.simps) simp

lemma padded_digits: "2 \<le> base \<Longrightarrow> all_digits base (padded w (digits base n))"
proof -
  assume "2 \<le> base"
  then have "all_digits base (replicate k (CHR ''0''))" for k
    by (induction k) (simp_all add: zero_is_digit)
  with \<open>2 \<le> base\<close> show ?thesis by (simp add: padded_def digits_are_digits)
qed

lemma number_of_append: "number_of base (s @ [digit_char d]) = base * number_of base s + d" if "d < base" "base \<le> 16"
  using that by (simp add: number_of_def)

lemma number_of_digits: "2 \<le> base \<Longrightarrow> base \<le> 16 \<Longrightarrow> number_of base (digits base n) = n"
proof (induction base n rule: digits.induct)
  case (1 base n)
  show ?case
  proof (cases "n < base")
    case True
    with 1 show ?thesis by (subst digits.simps) (simp add: number_of_def)
  next
    case False
    with 1 have "number_of base (digits base n) = base * (n div base) + n mod base"
      by (subst digits.simps) (simp add: number_of_append)
    then show ?thesis by simp
  qed
qed

lemma number_of_zeros: "number_of base (replicate k (CHR ''0'') @ s) = number_of base s" if "2 \<le> base" "base \<le> 16"
proof -
  have "foldl (\<lambda>v c. base * v + the (digit_value base c)) 0 (replicate k (CHR ''0'')) = 0"
    using that by (induction k) (simp_all add: zero_is_digit)
  then show ?thesis by (simp add: number_of_def)
qed

lemma number_of_padded [simp]: "2 \<le> base \<Longrightarrow> base \<le> 16 \<Longrightarrow> number_of base (padded w (digits base n)) = n"
  by (simp add: padded_def number_of_zeros number_of_digits)

text \<open>A text of digits is read as a whole when something else follows.\<close>

definition stops :: "nat \<Rightarrow> string \<Rightarrow> bool" where
  "stops base r \<longleftrightarrow> r = [] \<or> digit_value base (hd r) = None"

lemma takeWhile_digits:
  "all_digits base ds \<Longrightarrow> base \<le> 16 \<Longrightarrow> stops base r \<Longrightarrow> takeWhile (\<lambda>c. digit_value base c \<noteq> None) (ds @ r) = ds"
  by (induction ds) (auto simp: stops_def takeWhile_eq_Nil_iff)

lemma digit_not_space: "d < 16 \<Longrightarrow> \<not> is_space (digit_char d)"
  by (auto simp: is_space_def of_digit_char dest: arg_cong [where f = "of_char :: char \<Rightarrow> nat"] split: if_splits)

lemma scan_number_digits:
  assumes ds: "all_digits base ds" "ds \<noteq> []" and base: "base \<le> 16" and r: "stops base r" "r \<noteq> []" "hd r \<notin> {CHR ''x'', CHR ''X''}"
    and sp: "list_all is_space sp"
  shows "scan_number base (sp @ ds @ r) = Some (False, number_of base ds, r)"
proof -
  obtain d ds' where d: "ds = digit_char d # ds'" "d < base" using ds by (cases ds) auto
  have d16: "d < 16" using d base by simp
  have "dropWhile is_space (sp @ ds @ r) = ds @ r"
    using sp digit_not_space [OF d16] by (simp add: d dropWhile_append2 list_all_iff)
  moreover have "scan_sign (ds @ r) = (False, ds @ r)"
    using d16 by (simp add: d scan_sign_def digit_char_neq)
  moreover have "scan_prefix base (ds @ r) = ds @ r"
  proof (cases ds')
    case Nil
    then show ?thesis using r by (cases r) (auto simp: d scan_prefix_def)
  next
    case (Cons x ds'')
    then obtain d2 where "x = digit_char d2" "d2 < 16" using ds base by (auto simp: d)
    then show ?thesis by (simp add: d Cons scan_prefix_def digit_char_neq)
  qed
  ultimately show ?thesis
    using takeWhile_digits [OF ds(1) base r(1)] ds(2) by (simp add: scan_number_def)
qed

section \<open>One line\<close>

lemma scan_lx_word:
  assumes "stops 16 r" "r \<noteq> []" "hd r \<notin> {CHR ''x'', CHR ''X''}" "list_all is_space sp"
  shows "scan_lx (sp @ padded w (digits 16 (unat (a :: u64))) @ r) = Some (a, r)"
proof -
  have "padded w (digits 16 (unat a)) \<noteq> []" by (simp add: padded_def)
  then have "scan_number 16 (sp @ padded w (digits 16 (unat a)) @ r) = Some (False, unat a, r)"
    using assms by (subst scan_number_digits) (simp_all add: padded_digits)
  moreover have "\<not> 2 ^ 64 \<le> unat a" using unsigned_less [of a] by (simp add: not_le)
  ultimately show ?thesis by (simp add: scan_lx_def)
qed

lemma scan_number_nat:
  assumes "base \<in> {10, 16}" "stops base r" "r \<noteq> []" "hd r \<notin> {CHR ''x'', CHR ''X''}" "list_all is_space sp"
  shows "scan_number base (sp @ padded w (digits base n) @ r) = Some (False, n, r)"
proof -
  have "padded w (digits base n) \<noteq> []" by (simp add: padded_def)
  with assms show ?thesis by (subst scan_number_digits) (auto simp: padded_digits)
qed

lemma dropWhile_spaces: "list_all is_space sp \<Longrightarrow> dropWhile is_space (sp @ s) = dropWhile is_space s"
  by (induction sp) auto

lemma is_space_blank [simp]: "is_space (CHR '' '')" "is_space newline" "\<not> is_space (CHR ''r'')" "\<not> is_space (CHR ''-'')"
  by (simp_all add: is_space_def newline_def)

lemma spaces_replicate [simp]: "list_all is_space (replicate k (CHR '' ''))"
  by (simp add: list_all_iff)

lemma perms_split:
  assumes "perms_ok p" shows "\<exists>a b c d. p = [a, b, c, d] \<and> \<not> is_space a"
proof -
  obtain a b c d where "p = [a, b, c, d]"
    using assms by (auto simp: perms_ok_def numeral_eq_Suc length_Suc_conv)
  with assms show ?thesis by (auto simp: perms_ok_def)
qed

text \<open>What stands behind the inode number: the index that \<^verbatim>\<open>%n\<close> stores leads to the path, with the rest of the line.\<close>

definition path_text :: "map_entry \<Rightarrow> string \<Rightarrow> string" where
  "path_text e ending = (if entry_path e = [] then [] else entry_path e @ ending)"

lemma sscanf_render:
  assumes e: "perms_ok (entry_perms e)" "entry_path e = [] \<or> \<not> is_space (hd (entry_path e))" and ending: "ending \<in> {[], [newline]}"
  shows "sscanf_line (render_line e @ ending) =
     Some (entry_start e, entry_stop e, entry_perms e, length (render_line e @ ending) - length (path_text e ending))"
proof -
  let ?blank = "CHR '' ''"
  let ?tail = "replicate (Suc (entry_gap e)) ?blank @ entry_path e @ ending"
  let ?minor = "padded 2 (digits 16 (entry_minor e)) @ ?blank # digits 10 (entry_inode e) @ ?tail"
  let ?offset = "padded 8 (digits 16 (unat (entry_offset e))) @ ?blank # padded 2 (digits 16 (entry_major e)) @ CHR '':'' # ?minor"
  obtain a b c d where p: "entry_perms e = [a, b, c, d]" "\<not> is_space a" using perms_split [OF e(1)] by blast
  have start: "scan_lx (padded 8 (digits 16 (unat (entry_start e))) @ CHR ''-'' # r) = Some (entry_start e, CHR ''-'' # r)" for r
    using scan_lx_word [of "CHR ''-'' # r" "[]"] by (simp add: stops_def)
  have stop: "scan_lx (padded 8 (digits 16 (unat (entry_stop e))) @ ?blank # r) = Some (entry_stop e, ?blank # r)" for r
    using scan_lx_word [of "?blank # r" "[]"] by (simp add: stops_def)
  have offset: "scan_lx (?blank # padded 8 (digits 16 (unat (entry_offset e))) @ ?blank # r) = Some (entry_offset e, ?blank # r)" for r
    using scan_lx_word [of "?blank # r" "[?blank]"] by (simp add: stops_def)
  have major: "scan_number 16 (?blank # padded 2 (digits 16 (entry_major e)) @ CHR '':'' # r) = Some (False, entry_major e, CHR '':'' # r)" for r
    using scan_number_nat [of 16 "CHR '':'' # r" "[?blank]"] by (simp add: stops_def)
  have minor: "scan_number 16 (padded 2 (digits 16 (entry_minor e)) @ ?blank # r) = Some (False, entry_minor e, ?blank # r)" for r
    using scan_number_nat [of 16 "?blank # r" "[]"] by (simp add: stops_def)
  have inode: "scan_number 10 (?blank # digits 10 (entry_inode e) @ ?blank # r) = Some (False, entry_inode e, ?blank # r)" for r
    using scan_number_nat [of 10 "?blank # r" "[?blank]" 0] by (simp add: stops_def padded_def)
  have rest: "dropWhile is_space ?tail = path_text e ending"
    using e(2) ending by (cases "entry_path e") (auto simp: path_text_def dropWhile_spaces)
  have line: "render_line e @ ending = padded 8 (digits 16 (unat (entry_start e))) @ CHR ''-'' # padded 8 (digits 16 (unat (entry_stop e)))
      @ ?blank # entry_perms e @ ?blank # ?offset"
    by (simp add: render_line_def)
  show ?thesis
    unfolding sscanf_line_def line
    using rest by (simp add: start stop offset major minor inode scan_char_def scan_chars_def p)
qed

section \<open>The lines of a file\<close>

definition line_clean :: "string \<Rightarrow> bool" where
  "line_clean l \<longleftrightarrow> list_all (\<lambda>c. c \<noteq> NUL \<and> c \<noteq> newline) l"

lemma line_clean_simps [simp]:
  "line_clean []" "line_clean (c # l) \<longleftrightarrow> c \<noteq> NUL \<and> c \<noteq> newline \<and> line_clean l"
  "line_clean (l @ m) \<longleftrightarrow> line_clean l \<and> line_clean m"
  by (auto simp: line_clean_def)

lemma digits_clean: "all_digits base ds \<Longrightarrow> base \<le> 16 \<Longrightarrow> line_clean ds"
  by (induction ds) (auto simp: digit_char_neq NUL_def newline_def)

lemma render_clean: "entry_ok e \<Longrightarrow> line_clean (render_line e)"
proof -
  assume e: "entry_ok e"
  then have "line_clean (entry_perms e)"
    by (auto simp: entry_ok_def perms_ok_def numeral_eq_Suc length_Suc_conv NUL_def newline_def)
  moreover have "line_clean (entry_path e)" using e by (simp add: entry_ok_def line_clean_def)
  moreover have "line_clean (replicate k (CHR '' ''))" for k by (induction k) (simp_all add: NUL_def newline_def)
  ultimately show ?thesis
    using digits_clean [OF padded_digits, of 16] digits_clean [OF digits_are_digits, of 10]
    by (simp add: render_line_def NUL_def newline_def)
qed

lemma take_line_newline: "line_clean l \<Longrightarrow> length l < n \<Longrightarrow> take_line n (l @ newline # r) = (l @ [newline], r)"
proof (induction l arbitrary: n)
  case Nil
  then show ?case by (cases n) auto
next
  case (Cons c l)
  then show ?case by (cases n) auto
qed

lemma take_line_all: "line_clean l \<Longrightarrow> length l \<le> n \<Longrightarrow> take_line n l = (l, [])"
proof (induction l arbitrary: n)
  case Nil
  then show ?case by (cases n) auto
next
  case (Cons c l)
  then show ?case by (cases n) auto
qed

lemma NUL_not_newline [simp]: "NUL \<noteq> newline" "newline \<noteq> NUL"
  by (simp_all add: NUL_def newline_def)

lemma c_string_clean: "line_clean l \<Longrightarrow> c_string (l @ NUL # d) = Inr l" "line_clean l \<Longrightarrow> c_string (l @ newline # NUL # d) = Inr (l @ [newline])"
proof -
  assume "line_clean l"
  then have "\<forall>c\<in>set l. c \<noteq> NUL" by (simp add: line_clean_def list_all_iff)
  then show "c_string (l @ NUL # d) = Inr l" "c_string (l @ newline # NUL # d) = Inr (l @ [newline])"
    by (simp_all add: c_string_def takeWhile_append2)
qed

lemma next_line_render:
  "line_clean l \<Longrightarrow> length l + 1 < LINE_MAX \<Longrightarrow>
     \<exists>d. next_line fresh \<lparr>unread = l @ newline # r, eof = False\<rparr> buf =
       Inr (Some (\<lparr>unread = r, eof = False\<rparr>, l @ newline # NUL # d, l @ [newline]))"
  by (simp add: next_line_def fgets_def take_line_newline c_string_clean)

lemma next_line_last:
  "line_clean l \<Longrightarrow> l \<noteq> [] \<Longrightarrow> length l + 1 < LINE_MAX \<Longrightarrow>
     \<exists>d. next_line fresh \<lparr>unread = l, eof = False\<rparr> buf = Inr (Some (\<lparr>unread = [], eof = True\<rparr>, l @ NUL # d, l))"
  by (auto simp: next_line_def fgets_def take_line_all c_string_clean line_clean_def list_all_iff)

text \<open>Behind the last line the buffer is read as it is.\<close>

lemma next_line_stale:
  "c_string (fresh buf) = Inr line \<Longrightarrow> length line < LINE_MAX \<Longrightarrow>
     next_line fresh \<lparr>unread = [], eof = False\<rparr> buf = Inr (Some (\<lparr>unread = [], eof = True\<rparr>, fresh buf, line))"
proof -
  have "take_line n [] = ([], [])" for n by (cases n) auto
  then show "c_string (fresh buf) = Inr line \<Longrightarrow> length line < LINE_MAX \<Longrightarrow> ?thesis"
    by (simp add: next_line_def fgets_def LINE_MAX_def)
qed

lemma parse_render: "entry_ok e \<Longrightarrow> ending \<in> {[], [newline]} \<Longrightarrow> parse_region (render_line e @ ending) = Inr (region_of e)"
  by (simp add: parse_region_def sscanf_render entry_ok_def region_of_def)

section \<open>The layout\<close>

lemma layout_loop_entries:
  assumes "list_all entry_ok es"
  shows "\<exists>buf'. layout_loop fresh \<lparr>unread = concat (map render_entry es) @ s, eof = False\<rparr> buf regions =
       layout_loop fresh \<lparr>unread = s, eof = False\<rparr> buf' (regions @ map region_of es) \<and>
     (es \<noteq> [] \<longrightarrow> (\<exists>d. buf' = render_line (last es) @ newline # NUL # d))"
  using assms
proof (induction es arbitrary: buf regions)
  case (Cons e es)
  let ?r = "concat (map render_entry es) @ s"
  have e: "entry_ok e" "length (render_line e) + 1 < LINE_MAX" using Cons.prems by (auto simp: entry_ok_def render_entry_def)
  obtain d where n: "next_line fresh \<lparr>unread = render_line e @ newline # ?r, eof = False\<rparr> buf =
      Inr (Some (\<lparr>unread = ?r, eof = False\<rparr>, render_line e @ newline # NUL # d, render_line e @ [newline]))"
    using next_line_render [OF render_clean [OF e(1)] e(2)] by blast
  have "layout_loop fresh \<lparr>unread = concat (map render_entry (e # es)) @ s, eof = False\<rparr> buf regions =
      layout_loop fresh \<lparr>unread = ?r, eof = False\<rparr> (render_line e @ newline # NUL # d) (regions @ [region_of e])"
    by (subst layout_loop.simps) (simp add: render_entry_def n parse_render [OF e(1)])
  moreover obtain buf' where "layout_loop fresh \<lparr>unread = ?r, eof = False\<rparr> (render_line e @ newline # NUL # d) (regions @ [region_of e]) =
      layout_loop fresh \<lparr>unread = s, eof = False\<rparr> buf' (regions @ region_of e # map region_of es)"
    "es \<noteq> [] \<longrightarrow> (\<exists>d. buf' = render_line (last es) @ newline # NUL # d)"
    "es = [] \<longrightarrow> buf' = render_line e @ newline # NUL # d"
  proof (cases "es = []")
    case False
    with Cons.IH [of "render_line e @ newline # NUL # d" "regions @ [region_of e]"] Cons.prems show ?thesis by (auto intro: that)
  qed (auto intro: that)
  ultimately show ?case by (intro exI [of _ buf']) auto
qed auto

lemma layout_terminated:
  assumes es: "list_all entry_ok es" "es \<noteq> []"
  shows "layout_loop (\<lambda>b. b) (open_stream (concat (map render_entry es))) buf [] = Inr (map region_of es @ [region_of (last es)])"
proof -
  have e: "entry_ok (last es)" using es by (simp add: list_all_iff)
  then have len: "length (render_line (last es) @ [newline]) < LINE_MAX" by (simp add: entry_ok_def render_entry_def)
  obtain d where l: "layout_loop (\<lambda>b. b) (open_stream (concat (map render_entry es))) buf [] =
      layout_loop (\<lambda>b. b) \<lparr>unread = [], eof = False\<rparr> (render_line (last es) @ newline # NUL # d) (map region_of es)"
    using layout_loop_entries [OF es(1), of "\<lambda>b. b" "[]" buf "[]"] es(2) by (auto simp: open_stream_def)
  have n: "next_line (\<lambda>b. b) \<lparr>unread = [], eof = False\<rparr> (render_line (last es) @ newline # NUL # d) =
      Inr (Some (\<lparr>unread = [], eof = True\<rparr>, render_line (last es) @ newline # NUL # d, render_line (last es) @ [newline]))"
    using next_line_stale [of "\<lambda>b. b", OF c_string_clean(2) [OF render_clean [OF e]] len] by simp
  show ?thesis
    unfolding l by (subst layout_loop.simps, simp add: n parse_render [OF e], subst layout_loop.simps, simp)
qed

lemma layout_unterminated:
  assumes es: "list_all entry_ok es" and e: "entry_ok e"
  shows "layout_loop fresh (open_stream (concat (map render_entry es) @ render_line e)) buf [] = Inr (map region_of (es @ [e]))"
proof -
  obtain buf' where l: "layout_loop fresh (open_stream (concat (map render_entry es) @ render_line e)) buf [] =
      layout_loop fresh \<lparr>unread = render_line e, eof = False\<rparr> buf' (map region_of es)"
    using layout_loop_entries [OF es(1), of fresh "render_line e" buf "[]"] by (auto simp: open_stream_def)
  have "length (render_line e) + 1 < LINE_MAX" "render_line e \<noteq> []"
    using e by (auto simp: entry_ok_def render_entry_def render_line_def)
  then obtain d where n: "next_line fresh \<lparr>unread = render_line e, eof = False\<rparr> buf' =
      Inr (Some (\<lparr>unread = [], eof = True\<rparr>, render_line e @ NUL # d, render_line e))"
    using next_line_last [OF render_clean [OF e]] by blast
  show ?thesis
    unfolding l using parse_render [OF e, of "[]"]
    by (subst layout_loop.simps) (simp add: n, subst layout_loop.simps, simp)
qed

lemma region_end_of: "entry_ok e \<Longrightarrow> unat (region_address (region_of e)) + unat (region_length (region_of e)) < 2 ^ 64"
  using unsigned_less [of "entry_stop e"] by (simp add: region_of_def entry_ok_def unat_sub word_le_nat_alt)


definition libc_entry :: map_entry where
  "libc_entry = \<lparr>entry_start = 0x7f0000, entry_stop = 0x7f2000, entry_perms = ''r--p'', entry_offset = 0, entry_major = 3, entry_minor = 12,
     entry_inode = 64593, entry_gap = 0, entry_path = ''/lib/libc.so''\<rparr>"

definition code_entry :: map_entry where
  "code_entry = libc_entry\<lparr>entry_start := 0x7f2000, entry_stop := 0x7f3000, entry_perms := ''r-xp'', entry_offset := 0x2000\<rparr>"

lemma libc_entry_ok: "entry_ok libc_entry"
  by (simp add: libc_entry_def entry_ok_def perms_ok_def render_entry_def render_line_def padded_def digits.simps LINE_MAX_def NUL_def
      newline_def is_space_def)

lemma code_entry_ok: "entry_ok code_entry"
  by (simp add: code_entry_def libc_entry_def entry_ok_def perms_ok_def render_entry_def render_line_def padded_def digits.simps LINE_MAX_def
      NUL_def newline_def is_space_def)


section \<open>The modules\<close>

text \<open>An entry is the header of a module when it is mapped read-only or executable at an ELF header and has a file.\<close>

definition entry_module :: "(addr \<Rightarrow> u8) \<Rightarrow> map_entry \<Rightarrow> RuntimeModule option" where
  "entry_module mem e =
     (if entry_perms e \<in> {''r--p'', ''r-xp''} \<and> magic_at mem (entry_start e) \<and> entry_path e \<noteq> [] \<and> hd (entry_path e) \<noteq> CHR ''[''
      then Some \<lparr>module_path = strncpy PATH_SIZE (entry_path e), load_address = entry_start e\<rparr> else None)"

definition entry_modules :: "(addr \<Rightarrow> u8) \<Rightarrow> map_entry list \<Rightarrow> RuntimeModule list" where
  "entry_modules mem es = concat (map (\<lambda>e. case entry_module mem e of None \<Rightarrow> [] | Some m \<Rightarrow> [m]) es)"

lemma entry_modules_simps [simp]:
  "entry_modules mem [] = []" "entry_modules mem (es @ es') = entry_modules mem es @ entry_modules mem es'"
  "entry_modules mem (e # es) = (case entry_module mem e of None \<Rightarrow> [] | Some m \<Rightarrow> [m]) @ entry_modules mem es"
  by (simp_all add: entry_modules_def)

text \<open>The line buffer holds the line of an entry, with or without its newline.\<close>

definition holds_line :: "map_entry \<Rightarrow> string \<Rightarrow> bool" where
  "holds_line e buf \<longleftrightarrow> (\<exists>ending d. ending \<in> {[], [newline]} \<and> buf = render_line e @ ending @ NUL # d)"

lemma holds_line_string:
  "holds_line e buf \<Longrightarrow> entry_ok e \<Longrightarrow> \<exists>ending d. ending \<in> {[], [newline]} \<and> buf = render_line e @ ending @ NUL # d \<and> c_string buf = Inr (render_line e @ ending)"
  unfolding holds_line_def using c_string_clean [OF render_clean] by fastforce

lemma drop_path: "drop (length (render_line e @ ending) - length (path_text e ending)) (render_line e @ ending) = path_text e ending"
proof (cases "entry_path e = []")
  case False
  then obtain a where "render_line e = a @ entry_path e" by (auto simp: render_line_def)
  then show ?thesis using False by (simp add: path_text_def)
qed (simp add: path_text_def)

lemma module_of_render:
  assumes e: "entry_ok e" and ending: "ending \<in> {[], [newline]}" and buf: "buf = render_line e @ ending @ NUL # d"
  shows "\<exists>buf'. module_of_line mem buf (render_line e @ ending)
       (entry_start e, entry_stop e, entry_perms e, length (render_line e @ ending) - length (path_text e ending)) =
     (entry_module mem e, buf') \<and> holds_line e buf'"
proof (cases "entry_perms e \<in> {''r--p'', ''r-xp''} \<and> magic_at mem (entry_start e) \<and> entry_path e \<noteq> []")
  case False
  then have "module_of_line mem buf (render_line e @ ending)
       (entry_start e, entry_stop e, entry_perms e, length (render_line e @ ending) - length (path_text e ending)) = (None, buf)"
    using drop_path [of e ending] by (auto simp: module_of_line_def path_text_def)
  moreover have "entry_module mem e = None" using False by (auto simp: entry_module_def)
  ultimately show ?thesis using ending buf by (auto simp: holds_line_def)
next
  case True
  then have path: "path_text e ending = entry_path e @ ending" "hd (entry_path e @ ending) = hd (entry_path e)" by (auto simp: path_text_def)
  have clean: "line_clean (entry_path e)" using e by (simp add: entry_ok_def line_clean_def)
  with True have nl: "hd (entry_path e) \<noteq> newline" "last (entry_path e) \<noteq> newline"
    by (auto simp: line_clean_def list_all_iff)
  define i where "i = length (render_line e @ ending) - length (path_text e ending)"
  have dp: "drop i (render_line e @ ending) = entry_path e @ ending"
    using drop_path [of e ending] path(1) by (simp only: i_def)
  obtain a where "render_line e = a @ entry_path e" by (auto simp: render_line_def)
  then have i: "ending = [newline] \<Longrightarrow> i + length (entry_path e @ ending) - 1 = length (render_line e)"
    using True by (simp add: path_text_def i_def)
  have m: "module_of_line mem buf (render_line e @ ending) (entry_start e, entry_stop e, entry_perms e, i) =
     (if hd (entry_path e) = CHR ''['' then (None, buf)
      else (entry_module mem e, if ending = [newline] then buf[i + length (entry_path e @ ending) - 1 := NUL] else buf))"
  proof (cases "ending = []")
    case empty: True
    then show ?thesis using True nl dp by (auto simp: module_of_line_def Let_def entry_module_def)
  next
    case False
    with ending have "ending = [newline]" by simp
    then show ?thesis using True nl dp by (auto simp: module_of_line_def Let_def entry_module_def butlast_append)
  qed
  have upd: "ending = [newline] \<Longrightarrow> buf[length (render_line e) := NUL] = render_line e @ [] @ NUL # NUL # d"
    by (simp add: buf list_update_append)
  have held: "holds_line e buf" using ending buf by (auto simp: holds_line_def)
  show ?thesis
  proof (cases "hd (entry_path e) = CHR ''[''")
    case True
    then show ?thesis using held m by (simp add: i_def entry_module_def)
  next
    case False
    have "holds_line e (if ending = [newline] then buf[length (render_line e) := NUL] else buf)"
    proof (cases "ending = [newline]")
      case True
      then show ?thesis unfolding holds_line_def using upd by (intro exI [of _ "[]"] exI [of _ "NUL # d"]) simp
    qed (use held in simp)
    then show ?thesis using False i m by (cases "ending = [newline]") (simp_all add: i_def)
  qed
qed

lemma module_loop_step:
  assumes e: "entry_ok e" and ending: "ending \<in> {[], [newline]}" and buf: "buf' = render_line e @ ending @ NUL # d"
    and n: "next_line fresh \<lparr>unread = s, eof = False\<rparr> buf = Inr (Some (st', buf', render_line e @ ending))"
  shows "\<exists>buf''. module_loop mem fresh \<lparr>unread = s, eof = False\<rparr> buf modules =
     module_loop mem fresh st' buf'' (modules @ entry_modules mem [e]) \<and> holds_line e buf''"
proof -
  have sc: "sscanf_line (render_line e @ ending) =
      Some (entry_start e, entry_stop e, entry_perms e, length (render_line e @ ending) - length (path_text e ending))"
    using e ending by (intro sscanf_render) (auto simp: entry_ok_def)
  obtain buf'' where m: "module_of_line mem buf' (render_line e @ ending)
       (entry_start e, entry_stop e, entry_perms e, length (render_line e @ ending) - length (path_text e ending)) =
     (entry_module mem e, buf'')" "holds_line e buf''"
    using module_of_render [OF e ending buf] by blast
  have "module_loop mem fresh \<lparr>unread = s, eof = False\<rparr> buf modules =
     module_loop mem fresh st' buf'' (modules @ entry_modules mem [e])"
  proof (cases "entry_module mem e")
    case None
    with m(1) show ?thesis by (subst module_loop.simps) (simp add: n sc del: length_append)
  next
    case (Some module)
    with m(1) show ?thesis by (subst module_loop.simps) (simp add: n sc del: length_append)
  qed
  with m(2) show ?thesis by blast
qed

lemma module_loop_entries:
  assumes "list_all entry_ok es"
  shows "\<exists>buf'. module_loop mem fresh \<lparr>unread = concat (map render_entry es) @ s, eof = False\<rparr> buf modules =
       module_loop mem fresh \<lparr>unread = s, eof = False\<rparr> buf' (modules @ entry_modules mem es) \<and>
     (es \<noteq> [] \<longrightarrow> holds_line (last es) buf') \<and> (es = [] \<longrightarrow> buf' = buf)"
  using assms
proof (induction es arbitrary: buf modules)
  case (Cons e es)
  let ?r = "concat (map render_entry es) @ s"
  have e: "entry_ok e" "length (render_line e) + 1 < LINE_MAX" using Cons.prems by (auto simp: entry_ok_def render_entry_def)
  obtain d where n: "next_line fresh \<lparr>unread = render_line e @ newline # ?r, eof = False\<rparr> buf =
      Inr (Some (\<lparr>unread = ?r, eof = False\<rparr>, render_line e @ newline # NUL # d, render_line e @ [newline]))"
    using next_line_render [OF render_clean [OF e(1)] e(2)] by blast
  obtain b1 where b1: "module_loop mem fresh \<lparr>unread = render_line e @ newline # ?r, eof = False\<rparr> buf modules =
      module_loop mem fresh \<lparr>unread = ?r, eof = False\<rparr> b1 (modules @ entry_modules mem [e])" "holds_line e b1"
    using module_loop_step [of e "[newline]" _ d, OF e(1) _ _ n [folded append_Cons]] by auto
  obtain b2 where b2: "module_loop mem fresh \<lparr>unread = ?r, eof = False\<rparr> b1 (modules @ entry_modules mem [e]) =
      module_loop mem fresh \<lparr>unread = s, eof = False\<rparr> b2 ((modules @ entry_modules mem [e]) @ entry_modules mem es)"
    "es \<noteq> [] \<longrightarrow> holds_line (last es) b2" "es = [] \<longrightarrow> b2 = b1"
    using Cons.IH [of b1 "modules @ entry_modules mem [e]"] Cons.prems by auto
  have "concat (map render_entry (e # es)) @ s = render_line e @ newline # ?r" by (simp add: render_entry_def)
  then show ?case
    using b1 b2 by (intro exI [of _ b2]) (auto simp del: list.map)
qed (simp)

text \<open>The module of the last entry comes twice when the file ends with a newline.\<close>

lemma modules_terminated:
  assumes es: "list_all entry_ok es" "es \<noteq> []"
  shows "GetProcessModuleMap mem (\<lambda>b. b) buf (Some (concat (map render_entry es))) = Inr (entry_modules mem (es @ [last es]))"
proof -
  have e: "entry_ok (last es)" using es by (simp add: list_all_iff)
  obtain buf' where l: "module_loop mem (\<lambda>b. b) (open_stream (concat (map render_entry es))) buf [] =
      module_loop mem (\<lambda>b. b) \<lparr>unread = [], eof = False\<rparr> buf' (entry_modules mem es)" "holds_line (last es) buf'"
    using module_loop_entries [OF es(1), of mem "\<lambda>b. b" "[]" buf "[]"] es(2) by (auto simp: open_stream_def)
  obtain ending d where b: "ending \<in> {[], [newline]}" "buf' = render_line (last es) @ ending @ NUL # d" "c_string buf' = Inr (render_line (last es) @ ending)"
    using holds_line_string [OF l(2) e] by blast
  have "length (render_line (last es) @ ending) < LINE_MAX" using e b(1) by (auto simp: entry_ok_def render_entry_def)
  then have n: "next_line (\<lambda>b. b) \<lparr>unread = [], eof = False\<rparr> buf' = Inr (Some (\<lparr>unread = [], eof = True\<rparr>, buf', render_line (last es) @ ending))"
    using next_line_stale [of "\<lambda>b. b" buf'] b(3) by simp
  obtain b2 where "module_loop mem (\<lambda>b. b) \<lparr>unread = [], eof = False\<rparr> buf' (entry_modules mem es) =
      module_loop mem (\<lambda>b. b) \<lparr>unread = [], eof = True\<rparr> b2 (entry_modules mem es @ entry_modules mem [last es])"
    using module_loop_step [OF e b(1,2) n] by blast
  then show ?thesis
    using l(1) by (simp add: GetProcessModuleMap_def module_loop.simps [of _ _ "\<lparr>unread = [], eof = True\<rparr>"] )
qed

lemma strstr_iff: "strstr s name \<longleftrightarrow> (\<exists>a b. s = a @ name @ b)"
proof (induction s)
  case (Cons c s)
  have "(\<exists>a b. c # s = a @ name @ b) \<longleftrightarrow> (\<exists>b. c # s = name @ b) \<or> (\<exists>a b. s = a @ name @ b)"
    by (metis append_Cons append_Nil list.sel(3) neq_Nil_conv)
  moreover have "(\<exists>b. c # s = name @ b) \<longleftrightarrow> take (length name) (c # s) = name"
    by (metis append_eq_conv_conj append_take_drop_id)
  ultimately show ?case using Cons.IH by simp
qed simp

text \<open>The first entry whose path contains the name.\<close>

definition module_named :: "(addr \<Rightarrow> u8) \<Rightarrow> string \<Rightarrow> map_entry list \<Rightarrow> map_entry option" where
  "module_named mem name es = find (\<lambda>e. entry_module mem e \<noteq> None \<and> strstr (entry_path e) name) es"

definition path_fits :: "map_entry \<Rightarrow> bool" where
  "path_fits e \<longleftrightarrow> NUL \<notin> set (entry_path e) \<and> length (entry_path e) < PATH_SIZE"

lemma c_string_path: "path_fits e \<Longrightarrow> c_string (strncpy PATH_SIZE (entry_path e)) = Inr (entry_path e)"
proof -
  assume p: "path_fits e"
  then obtain k where "PATH_SIZE - length (entry_path e) = Suc k" by (cases "PATH_SIZE - length (entry_path e)") (auto simp: path_fits_def)
  moreover have "takeWhile (\<lambda>c. c \<noteq> NUL) (entry_path e @ NUL # r) = entry_path e" for r
    using p by (subst takeWhile_append2) (auto simp: path_fits_def)
  ultimately show ?thesis using p by (simp add: c_string_def strncpy_def path_fits_def)
qed

lemma find_module_entries:
  "list_all path_fits es \<Longrightarrow>
     find_module name (entry_modules mem es) =
     Inr (case module_named mem name es of None \<Rightarrow> null_module | Some e \<Rightarrow> the (entry_module mem e))"
proof (induction es)
  case (Cons e es)
  show ?case
  proof (cases "entry_module mem e")
    case None
    then show ?thesis using Cons by (simp add: module_named_def)
  next
    case (Some m)
    then have "module_path m = strncpy PATH_SIZE (entry_path e)" by (auto simp: entry_module_def split: if_splits)
    with Some show ?thesis using Cons c_string_path [of e]
      by (simp add: module_named_def)
  qed
qed (simp add: module_named_def)

lemma find_again: "e \<in> set es \<Longrightarrow> find P (es @ [e]) = find P es"
proof (induction es)
  case (Cons x es)
  show ?case
  proof (cases "e \<in> set es")
    case False
    have "\<not> P e \<Longrightarrow> find P (es @ [e]) = find P es" for es by (induction es) auto
    with False Cons.prems show ?thesis by auto
  qed (use Cons.IH in simp)
qed simp

lemma module_named_again: "es \<noteq> [] \<Longrightarrow> module_named mem name (es @ [last es]) = module_named mem name es"
  by (simp add: module_named_def find_again)

end
