(* ===== verification/SymbolResolver.thy ===== *)
theory SymbolResolver
  imports ProcessMaps
begin

text \<open>
  The symbol resolver for ELF files (\<^verbatim>\<open>builtin-plugin/SymbolResolver/elf/dobby_symbol_resolver.cc\<close>), for 64-bit targets:
  the file of a module is mapped, its section headers lead to the symbol tables, and the value of a symbol is moved to where
  the module is loaded. What the system answers is an argument: the texts of \<^verbatim>\<open>/proc/self/maps\<close>, the outcome of opening and
  mapping a file, and \<^verbatim>\<open>dlsym\<close>. A load outside the mapped file is a fault.
\<close>

section \<open>The mapped file\<close>

record mapping =
  map_base :: addr
  map_bytes :: "u8 list"

text \<open>
  What comes of \<^verbatim>\<open>open\<close>, \<^verbatim>\<open>fstat\<close> and \<^verbatim>\<open>mmap\<close>; the bytes of a mapping are the readable ones, up to the end of its last page.
\<close>

datatype map_outcome = Open_fails | Stat_fails | Map_fails u64 | Mapped addr u64 "u8 list"

record resolver_state =
  calls :: nat
  live_maps :: "(addr \<times> u64) list"

text \<open>The data pointer, the size, the memory behind the pointer, and the state; a failed \<^verbatim>\<open>mmap\<close> leaves the pointer -1.\<close>

definition file_mmap :: "(nat \<Rightarrow> string \<Rightarrow> map_outcome) \<Rightarrow> string \<Rightarrow> resolver_state \<Rightarrow> addr \<times> u64 \<times> mapping \<times> resolver_state" where
  "file_mmap files file_path st =
     (let st' = st\<lparr>calls := Suc (calls st)\<rparr>
      in case files (calls st) file_path of
           Open_fails \<Rightarrow> (0, 0, \<lparr>map_base = 0, map_bytes = []\<rparr>, st')
         | Stat_fails \<Rightarrow> (0, 0, \<lparr>map_base = 0, map_bytes = []\<rparr>, st')
         | Map_fails file_size \<Rightarrow> (- 1, file_size, \<lparr>map_base = - 1, map_bytes = []\<rparr>, st')
         | Mapped a file_size bs \<Rightarrow>
             (a, file_size, \<lparr>map_base = a, map_bytes = bs\<rparr>, st'\<lparr>live_maps := (a, file_size) # live_maps st\<rparr>))"

definition file_unmap :: "addr \<Rightarrow> u64 \<Rightarrow> resolver_state \<Rightarrow> resolver_state" where
  "file_unmap data data_size st = st\<lparr>live_maps := remove1 (data, data_size) (live_maps st)\<rparr>"

definition load_word :: "nat \<Rightarrow> mapping \<Rightarrow> addr \<Rightarrow> runtime_fault + 'a::len word" where
  "load_word n m a =
     (let off = unat (a - map_base m)
      in if off + n \<le> length (map_bytes m) then Inr (le_word (take n (drop off (map_bytes m)))) else Inl Wild_pointer)"

text \<open>\<^verbatim>\<open>strcmp(p, name) == 0\<close>, byte by byte up to the first difference.\<close>

fun strcmp_eq :: "u8 list \<Rightarrow> u8 list \<Rightarrow> runtime_fault + bool" where
  "strcmp_eq [] name = Inl Wild_pointer"
| "strcmp_eq (b # bs) [] = Inr (b = 0)"
| "strcmp_eq (b # bs) (c # name) = (if b = c then strcmp_eq bs name else Inr False)"

definition strcmp_at :: "mapping \<Rightarrow> addr \<Rightarrow> u8 list \<Rightarrow> runtime_fault + bool" where
  "strcmp_at m a name = strcmp_eq (drop (unat (a - map_base m)) (map_bytes m)) name"

definition bytes_of :: "string \<Rightarrow> u8 list" where "bytes_of s = map of_char s"

section \<open>The ELF context\<close>

text \<open>The types of segments and sections and the sizes of the structures of \<^verbatim>\<open>elf.h\<close> that the code uses.\<close>

definition PT_LOAD :: u32 where "PT_LOAD = 1"
definition PT_DYNAMIC :: u32 where "PT_DYNAMIC = 2"
definition PT_PHDR :: u32 where "PT_PHDR = 6"
definition SHT_SYMTAB :: u32 where "SHT_SYMTAB = 2"
definition SHT_STRTAB :: u32 where "SHT_STRTAB = 3"
definition SHT_DYNSYM :: u32 where "SHT_DYNSYM = 11"
definition PHDR_SIZE :: nat where "PHDR_SIZE = 56"
definition SHDR_SIZE :: nat where "SHDR_SIZE = 64"
definition SYM_SIZE :: nat where "SYM_SIZE = 24"

text \<open>The fields that the code sets; the hash tables of the structure stay zero and unused.\<close>

record elf_ctx =
  header :: addr
  load_bias :: u64
  sym_sh :: addr
  dynsym_sh :: addr
  strtab :: addr
  symtab :: addr
  dynstrtab :: addr
  dynsymtab :: addr

definition zero_ctx :: elf_ctx where
  "zero_ctx = \<lparr>header = 0, load_bias = 0, sym_sh = 0, dynsym_sh = 0, strtab = 0, symtab = 0, dynstrtab = 0, dynsymtab = 0\<rparr>"

text \<open>One program header: its type, its file offset and its virtual address.\<close>

definition phdr_step :: "mapping \<Rightarrow> addr \<Rightarrow> addr \<Rightarrow> nat \<Rightarrow> u64 \<Rightarrow> runtime_fault + u64" where
  "phdr_step m ehdr_addr phdr i bias =
     (let p = phdr + of_nat (PHDR_SIZE * i)
      in bindE (load_word 4 m p) (\<lambda>p_type :: u32.
           if p_type = PT_DYNAMIC then bindE (load_word 8 m (p + 8)) (\<lambda>p_offset :: u64. Inr bias)
           else if p_type = PT_LOAD then
             bindE (load_word 8 m (p + 8)) (\<lambda>p_offset :: u64.
             bindE (load_word 8 m (p + 16)) (\<lambda>p_vaddr.
               Inr (if bias = 0 then ehdr_addr - (p_vaddr - p_offset) else bias)))
           else if p_type = PT_PHDR then bindE (load_word 8 m (p + 16)) (\<lambda>p_vaddr. Inr (phdr - p_vaddr))
           else Inr bias))"

text \<open>The loops take the number of rounds left and the index.\<close>

primrec phdr_loop :: "mapping \<Rightarrow> addr \<Rightarrow> addr \<Rightarrow> nat \<Rightarrow> nat \<Rightarrow> u64 \<Rightarrow> runtime_fault + u64" where
  "phdr_loop m ehdr_addr phdr 0 i bias = Inr bias"
| "phdr_loop m ehdr_addr phdr (Suc k) i bias =
     bindE (phdr_step m ehdr_addr phdr i bias) (phdr_loop m ehdr_addr phdr k (Suc i))"

definition shdr_step :: "mapping \<Rightarrow> addr \<Rightarrow> addr \<Rightarrow> addr \<Rightarrow> nat \<Rightarrow> elf_ctx \<Rightarrow> runtime_fault + elf_ctx" where
  "shdr_step m ehdr_addr shdr shstrtab i ctx =
     (let s = shdr + of_nat (SHDR_SIZE * i);
          named = (\<lambda>name. bindE (load_word 4 m s) (\<lambda>sh_name :: u32. strcmp_at m (shstrtab + ucast sh_name) (bytes_of name)));
          contents = (\<lambda>k. bindE (load_word 8 m (s + 24)) (\<lambda>sh_offset. k (ehdr_addr + sh_offset)))
      in bindE (load_word 4 m (s + 4)) (\<lambda>sh_type :: u32.
           if sh_type = SHT_SYMTAB then contents (\<lambda>a. Inr (ctx\<lparr>sym_sh := s, symtab := a\<rparr>))
           else if sh_type = SHT_STRTAB then
             bindE (named ''.strtab'') (\<lambda>eq.
               if eq then contents (\<lambda>a. Inr (ctx\<lparr>strtab := a\<rparr>))
               else bindE (named ''.dynstr'') (\<lambda>eq. if eq then contents (\<lambda>a. Inr (ctx\<lparr>dynstrtab := a\<rparr>)) else Inr ctx))
           else if sh_type = SHT_DYNSYM then contents (\<lambda>a. Inr (ctx\<lparr>dynsym_sh := s, dynsymtab := a\<rparr>))
           else Inr ctx))"

primrec shdr_loop :: "mapping \<Rightarrow> addr \<Rightarrow> addr \<Rightarrow> addr \<Rightarrow> nat \<Rightarrow> nat \<Rightarrow> elf_ctx \<Rightarrow> runtime_fault + elf_ctx" where
  "shdr_loop m ehdr_addr shdr shstrtab 0 i ctx = Inr ctx"
| "shdr_loop m ehdr_addr shdr shstrtab (Suc k) i ctx =
     bindE (shdr_step m ehdr_addr shdr shstrtab i ctx) (shdr_loop m ehdr_addr shdr shstrtab k (Suc i))"

definition elf_ctx_init :: "mapping \<Rightarrow> addr \<Rightarrow> elf_ctx \<Rightarrow> runtime_fault + elf_ctx" where
  "elf_ctx_init m ehdr ctx =
     bindE (load_word 8 m (ehdr + 32)) (\<lambda>e_phoff.
     bindE (load_word 2 m (ehdr + 56)) (\<lambda>e_phnum :: u16.
     bindE (phdr_loop m ehdr (ehdr + e_phoff) (unat e_phnum) 0 (load_bias ctx)) (\<lambda>bias.
     bindE (load_word 8 m (ehdr + 40)) (\<lambda>e_shoff.
     bindE (load_word 2 m (ehdr + 62)) (\<lambda>e_shstrndx :: u16.
     bindE (load_word 8 m (ehdr + e_shoff + of_nat (SHDR_SIZE * unat e_shstrndx) + 24)) (\<lambda>sh_offset.
     bindE (load_word 2 m (ehdr + 60)) (\<lambda>e_shnum :: u16.
       shdr_loop m ehdr (ehdr + e_shoff) (ehdr + sh_offset) (unat e_shnum) 0 (ctx\<lparr>header := ehdr, load_bias := bias\<rparr>))))))))"

section \<open>The symbol tables\<close>

primrec iterate_symbols :: "mapping \<Rightarrow> u8 list \<Rightarrow> addr \<Rightarrow> addr \<Rightarrow> nat \<Rightarrow> nat \<Rightarrow> runtime_fault + u64" where
  "iterate_symbols m symbol_name syms strs 0 i = Inr 0"
| "iterate_symbols m symbol_name syms strs (Suc k) i =
     (let sym = syms + of_nat (SYM_SIZE * i)
      in bindE (load_word 4 m sym) (\<lambda>st_name :: u32.
         bindE (strcmp_at m (strs + ucast st_name) symbol_name) (\<lambda>eq.
           if eq then load_word 8 m (sym + 8) else iterate_symbols m symbol_name syms strs k (Suc i))))"

text \<open>The number of symbols is passed as an \<^verbatim>\<open>int\<close>.\<close>

definition iterate_symbol_table_impl :: "mapping \<Rightarrow> u8 list \<Rightarrow> addr \<Rightarrow> addr \<Rightarrow> int \<Rightarrow> runtime_fault + u64" where
  "iterate_symbol_table_impl m symbol_name syms strs symbols = iterate_symbols m symbol_name syms strs (nat symbols) 0"

definition table_lookup :: "mapping \<Rightarrow> addr \<Rightarrow> addr \<Rightarrow> addr \<Rightarrow> u8 list \<Rightarrow> runtime_fault + u64" where
  "table_lookup m sh syms strs symbol_name =
     (if syms \<noteq> 0 \<and> strs \<noteq> 0 then
        bindE (load_word 8 m (sh + 32)) (\<lambda>sh_size :: u64.
          iterate_symbol_table_impl m symbol_name syms strs (sint (ucast (sh_size div of_nat SYM_SIZE) :: u32)))
      else Inr 0)"

definition elf_ctx_iterate_symbol_table :: "mapping \<Rightarrow> elf_ctx \<Rightarrow> u8 list \<Rightarrow> runtime_fault + u64" where
  "elf_ctx_iterate_symbol_table m ctx symbol_name =
     bindE (table_lookup m (sym_sh ctx) (symtab ctx) (strtab ctx) symbol_name) (\<lambda>result.
       if result \<noteq> 0 then Inr result
       else table_lookup m (dynsym_sh ctx) (dynsymtab ctx) (dynstrtab ctx) symbol_name)"

section \<open>The resolver\<close>

record process_view =
  proc_maps :: "nat \<Rightarrow> string option"
  proc_mem :: "addr \<Rightarrow> u8"
  proc_files :: "nat \<Rightarrow> string \<Rightarrow> map_outcome"
  proc_dlsym :: "u8 list \<Rightarrow> addr"
  stack_fresh :: "string \<Rightarrow> string"
  stack_buffer :: string

text \<open>The search in the file of one module; both places of the code that do this are the same.\<close>

definition resolve_in_module :: "process_view \<Rightarrow> u8 list \<Rightarrow> RuntimeModule \<Rightarrow> resolver_state \<Rightarrow> runtime_fault + (u64 \<times> resolver_state)" where
  "resolve_in_module v symbol_name module st =
     bindE (if load_address module \<noteq> 0 then
              bindE (c_string (module_path module)) (\<lambda>path. Inr (file_mmap (proc_files v) path st))
            else Inr (0, 0, \<lparr>map_base = 0, map_bytes = []\<rparr>, st)) (\<lambda>(file_mem, file_mem_size, m, st).
     if file_mem \<noteq> 0 then
       bindE (elf_ctx_init m file_mem zero_ctx) (\<lambda>ctx.
       bindE (elf_ctx_iterate_symbol_table m ctx symbol_name) (\<lambda>result.
         Inr (if result \<noteq> 0 then result + load_address module - (file_mem - load_bias ctx) else 0,
              file_unmap file_mem file_mem_size st)))
     else Inr (0, st))"

primrec resolve_loop :: "process_view \<Rightarrow> u8 list \<Rightarrow> RuntimeModule list \<Rightarrow> resolver_state \<Rightarrow> runtime_fault + (u64 \<times> resolver_state)" where
  "resolve_loop v symbol_name [] st = Inr (0, st)"
| "resolve_loop v symbol_name (module # modules) st =
     bindE (resolve_in_module v symbol_name module st) (\<lambda>(result, st).
       if result \<noteq> 0 then Inr (result, st) else resolve_loop v symbol_name modules st)"

definition resolve_elf_internal_symbol :: "process_view \<Rightarrow> string option \<Rightarrow> u8 list \<Rightarrow> resolver_state \<Rightarrow> runtime_fault + (u64 \<times> resolver_state)" where
  "resolve_elf_internal_symbol v library_name symbol_name st =
     bindE (case library_name of
              None \<Rightarrow> Inr (0, st)
            | Some name \<Rightarrow>
                bindE (GetProcessModule (proc_mem v) (stack_fresh v) (stack_buffer v) (proc_maps v 0) name) (\<lambda>module.
                  resolve_in_module v symbol_name module st)) (\<lambda>(result, st).
     if result \<noteq> 0 then Inr (result, st)
     else bindE (GetProcessModuleMap (proc_mem v) (stack_fresh v) (stack_buffer v) (proc_maps v 1)) (\<lambda>modules.
            resolve_loop v symbol_name modules st))"

definition DobbySymbolResolver :: "process_view \<Rightarrow> string option \<Rightarrow> u8 list \<Rightarrow> resolver_state \<Rightarrow> runtime_fault + (u64 \<times> resolver_state)" where
  "DobbySymbolResolver v image_name symbol_name_pattern st =
     (let result = proc_dlsym v symbol_name_pattern
      in if result \<noteq> 0 then Inr (result, st) else resolve_elf_internal_symbol v image_name symbol_name_pattern st)"

end
