(* ===== verification/ResolverProps.thy ===== *)
theory ResolverProps
  imports SymbolResolver
begin

text \<open>
  The symbol resolver against an abstract ELF file: segments, sections and symbols as lists, and a relation that says that
  the bytes of a file hold them. The address that the resolver computes does not depend on where the file is mapped.
\<close>

section \<open>ELF files\<close>

record elf_segment =
  seg_type :: u32
  seg_offset :: u64
  seg_vaddr :: u64

record elf_section =
  sec_name :: "u8 list"
  sec_name_offset :: u32
  sec_type :: u32
  sec_offset :: u64
  sec_size :: u64

record elf_symbol =
  sym_name :: "u8 list"
  sym_name_offset :: u32
  sym_value :: u64

record elf_file =
  elf_phoff :: u64
  elf_shoff :: u64
  elf_shstrndx :: nat
  elf_segments :: "elf_segment list"
  elf_sections :: "elf_section list"
  elf_symbols :: "elf_symbol list"
  elf_dynsymbols :: "elf_symbol list"
  elf_base :: u64

definition field_at :: "u8 list \<Rightarrow> nat \<Rightarrow> nat \<Rightarrow> 'a::len word \<Rightarrow> bool" where
  "field_at bs off n w \<longleftrightarrow> off + n \<le> length bs \<and> take n (drop off bs) = le_bytes n w"

definition string_at :: "u8 list \<Rightarrow> nat \<Rightarrow> u8 list \<Rightarrow> bool" where
  "string_at bs off s \<longleftrightarrow> off + length s < length bs \<and> take (Suc (length s)) (drop off bs) = s @ [0] \<and> 0 \<notin> set s"

definition segment_at :: "u8 list \<Rightarrow> nat \<Rightarrow> elf_segment \<Rightarrow> bool" where
  "segment_at bs off g \<longleftrightarrow> field_at bs off 4 (seg_type g) \<and> field_at bs (off + 8) 8 (seg_offset g) \<and> field_at bs (off + 16) 8 (seg_vaddr g)"

definition section_at :: "u8 list \<Rightarrow> nat \<Rightarrow> nat \<Rightarrow> elf_section \<Rightarrow> bool" where
  "section_at bs names off s \<longleftrightarrow> field_at bs off 4 (sec_name_offset s) \<and> field_at bs (off + 4) 4 (sec_type s) \<and>
     field_at bs (off + 24) 8 (sec_offset s) \<and> field_at bs (off + 32) 8 (sec_size s) \<and> string_at bs (names + unat (sec_name_offset s)) (sec_name s)"

definition symbol_at :: "u8 list \<Rightarrow> nat \<Rightarrow> nat \<Rightarrow> elf_symbol \<Rightarrow> bool" where
  "symbol_at bs strs off s \<longleftrightarrow> field_at bs off 4 (sym_name_offset s) \<and> string_at bs (strs + unat (sym_name_offset s)) (sym_name s) \<and>
     field_at bs (off + 8) 8 (sym_value s)"

primrec last_upto :: "(nat \<Rightarrow> bool) \<Rightarrow> nat \<Rightarrow> nat option" where
  "last_upto P 0 = None"
| "last_upto P (Suc n) = (if P n then Some n else last_upto P n)"

definition is_type :: "elf_file \<Rightarrow> u32 \<Rightarrow> nat \<Rightarrow> bool" where
  "is_type E t j \<longleftrightarrow> sec_type (elf_sections E ! j) = t"

definition is_strings :: "elf_file \<Rightarrow> string \<Rightarrow> nat \<Rightarrow> bool" where
  "is_strings E name j \<longleftrightarrow> sec_type (elf_sections E ! j) = SHT_STRTAB \<and> sec_name (elf_sections E ! j) = bytes_of name"

text \<open>A symbol table with its strings: the last sections of their kinds; without both there are no symbols.\<close>

definition table_at :: "u8 list \<Rightarrow> elf_file \<Rightarrow> u32 \<Rightarrow> string \<Rightarrow> elf_symbol list \<Rightarrow> bool" where
  "table_at bs E t name syms \<longleftrightarrow>
     (case (last_upto (is_type E t) (length (elf_sections E)), last_upto (is_strings E name) (length (elf_sections E))) of
        (Some j, Some k) \<Rightarrow>
          let off = unat (sec_offset (elf_sections E ! j)); strs = unat (sec_offset (elf_sections E ! k))
          in unat (sec_size (elf_sections E ! j)) div SYM_SIZE = length syms \<and> length syms < 2 ^ 31 \<and> off \<le> length bs \<and> strs \<le> length bs \<and>
             list_all (\<lambda>i. symbol_at bs strs (off + SYM_SIZE * i) (syms ! i)) [0..<length syms]
      | _ \<Rightarrow> syms = [])"

text \<open>\<open>elf_base\<close> is the address at which the file asks its header to be: that of the first loaded segment, and of the program headers.\<close>

definition base_ok :: "elf_file \<Rightarrow> bool" where
  "base_ok E \<longleftrightarrow> (case find (\<lambda>g. seg_type g = PT_LOAD) (elf_segments E) of None \<Rightarrow> False | Some g \<Rightarrow> seg_vaddr g - seg_offset g = elf_base E) \<and>
     list_all (\<lambda>g. seg_type g = PT_PHDR \<longrightarrow> seg_vaddr g = elf_base E + elf_phoff E) (elf_segments E)"

definition elf_ok :: "u8 list \<Rightarrow> elf_file \<Rightarrow> bool" where
  "elf_ok bs E \<longleftrightarrow> length bs < 2 ^ 63 \<and>
     field_at bs 32 8 (elf_phoff E) \<and> field_at bs 56 2 (of_nat (length (elf_segments E)) :: u16) \<and> length (elf_segments E) < 2 ^ 16 \<and>
     field_at bs 40 8 (elf_shoff E) \<and> field_at bs 62 2 (of_nat (elf_shstrndx E) :: u16) \<and> elf_shstrndx E < length (elf_sections E) \<and>
     field_at bs 60 2 (of_nat (length (elf_sections E)) :: u16) \<and> length (elf_sections E) < 2 ^ 16 \<and>
     list_all (\<lambda>i. segment_at bs (unat (elf_phoff E) + PHDR_SIZE * i) (elf_segments E ! i)) [0..<length (elf_segments E)] \<and>
     list_all (\<lambda>i. section_at bs (unat (sec_offset (elf_sections E ! elf_shstrndx E))) (unat (elf_shoff E) + SHDR_SIZE * i) (elf_sections E ! i))
       [0..<length (elf_sections E)] \<and>
     base_ok E \<and> table_at bs E SHT_SYMTAB ''.strtab'' (elf_symbols E) \<and> table_at bs E SHT_DYNSYM ''.dynstr'' (elf_dynsymbols E)"

text \<open>The value of a name: the first symbol of that name; the dynamic symbols count when the others give no address.\<close>

definition first_value :: "u8 list \<Rightarrow> elf_symbol list \<Rightarrow> u64" where
  "first_value name syms = (case find (\<lambda>s. sym_name s = name) syms of None \<Rightarrow> 0 | Some s \<Rightarrow> sym_value s)"

definition elf_value :: "elf_file \<Rightarrow> u8 list \<Rightarrow> u64" where
  "elf_value E name = (if first_value name (elf_symbols E) \<noteq> 0 then first_value name (elf_symbols E) else first_value name (elf_dynsymbols E))"

section \<open>Loads from the mapped file\<close>

text \<open>A mapping that does not wrap around and does not start at zero.\<close>

definition file_mapping_ok :: "mapping \<Rightarrow> bool" where
  "file_mapping_ok m \<longleftrightarrow> map_base m \<noteq> 0 \<and> unat (map_base m) + length (map_bytes m) < 2 ^ 64"

lemma field_bound: "field_at bs off n w \<Longrightarrow> off + n \<le> length bs"
  by (simp add: field_at_def)

lemma load_field:
  assumes "file_mapping_ok m" and "field_at (map_bytes m) off n (w :: 'a::len word)" and "LENGTH('a) \<le> 8 * n" and "a = map_base m + of_nat off"
  shows "load_word n m a = Inr w"
proof -
  have "off < 2 ^ 64" using assms by (simp add: file_mapping_ok_def field_at_def)
  then have "unat (a - map_base m) = off" using assms(4) by (simp add: unat_of_nat)
  then show ?thesis using assms by (simp add: load_word_def field_at_def le_word_le_bytes)
qed

lemma strcmp_eq_string: "0 \<notin> set s \<Longrightarrow> 0 \<notin> set name \<Longrightarrow> strcmp_eq (s @ 0 # r) name = Inr (s = name)"
proof (induction s arbitrary: name)
  case Nil
  then show ?case by (cases name) auto
next
  case (Cons c s)
  then show ?case by (cases name) auto
qed

lemma strcmp_string:
  assumes "file_mapping_ok m" and s: "string_at (map_bytes m) off s" and "0 \<notin> set name" and "a = map_base m + of_nat off"
  shows "strcmp_at m a name = Inr (s = name)"
proof -
  have "off < 2 ^ 64" using assms by (simp add: file_mapping_ok_def string_at_def)
  then have off: "unat (a - map_base m) = off" using assms(4) by (simp add: unat_of_nat)
  have "drop off (map_bytes m) = take (Suc (length s)) (drop off (map_bytes m)) @ drop (Suc (length s)) (drop off (map_bytes m))"
    by (rule append_take_drop_id [symmetric])
  also have "\<dots> = s @ 0 # drop (Suc (length s)) (drop off (map_bytes m))"
    using s by (simp only: string_at_def append_assoc append_Cons append_Nil)
  finally show ?thesis using s assms(3) strcmp_eq_string [of s name] by (simp add: strcmp_at_def off string_at_def)
qed

lemma bytes_of_section_names: "0 \<notin> set (bytes_of ''.strtab'')" "0 \<notin> set (bytes_of ''.dynstr'')" "bytes_of ''.strtab'' \<noteq> bytes_of ''.dynstr''"
  by (simp_all add: bytes_of_def)

section \<open>The load bias\<close>

lemma phdr_step_bias:
  assumes m: "file_mapping_ok m" and g: "segment_at (map_bytes m) (unat phoff + PHDR_SIZE * i) g"
  shows "phdr_step m (map_base m) (map_base m + phoff) i bias =
     Inr (if seg_type g = PT_LOAD then if bias = 0 then map_base m - (seg_vaddr g - seg_offset g) else bias
          else if seg_type g = PT_PHDR then map_base m + phoff - seg_vaddr g else bias)"
proof -
  let ?p = "map_base m + phoff + of_nat (PHDR_SIZE * i)"
  have "load_word 4 m ?p = Inr (seg_type g)" "load_word 8 m (?p + 8) = Inr (seg_offset g)" "load_word 8 m (?p + 16) = Inr (seg_vaddr g)"
    using g by (auto simp: segment_at_def add.assoc intro: load_field [OF m])
  then show ?thesis by (simp add: phdr_step_def Let_def PT_LOAD_def PT_DYNAMIC_def PT_PHDR_def)
qed

lemma phdr_loop_bias:
  assumes m: "file_mapping_ok m" and segs: "\<forall>i<length segs. segment_at (map_bytes m) (unat phoff + PHDR_SIZE * i) (segs ! i)"
    and ph: "\<forall>g\<in>set segs. seg_type g = PT_PHDR \<longrightarrow> seg_vaddr g = base + phoff" and b: "map_base m \<noteq> base"
  shows "i + k = length segs \<Longrightarrow>
     bias = map_base m - base \<or> bias = 0 \<and> (\<exists>g. find (\<lambda>g. seg_type g = PT_LOAD) (drop i segs) = Some g \<and> seg_vaddr g - seg_offset g = base) \<Longrightarrow>
     phdr_loop m (map_base m) (map_base m + phoff) k i bias = Inr (map_base m - base)"
proof (induction k arbitrary: i bias)
  case (Suc k)
  then have i: "i < length segs" by simp
  let ?g = "segs ! i"
  have d: "drop i segs = ?g # drop (Suc i) segs" using i by (simp add: Cons_nth_drop_Suc)
  have step: "phdr_step m (map_base m) (map_base m + phoff) i bias =
      Inr (if seg_type ?g = PT_LOAD then if bias = 0 then map_base m - (seg_vaddr ?g - seg_offset ?g) else bias
           else if seg_type ?g = PT_PHDR then map_base m + phoff - seg_vaddr ?g else bias)"
    using segs i by (intro phdr_step_bias [OF m]) simp
  have "seg_type ?g = PT_PHDR \<Longrightarrow> map_base m + phoff - seg_vaddr ?g = map_base m - base" using ph i by simp
  then show ?case
    using Suc.prems b Suc.IH by (auto simp: step d PT_LOAD_def PT_PHDR_def split: if_splits)
qed auto

section \<open>The sections\<close>

text \<open>The context behind the first \<open>n\<close> sections: for every kind, the last section so far.\<close>

definition section_addr :: "mapping \<Rightarrow> elf_file \<Rightarrow> nat option \<Rightarrow> addr" where
  "section_addr m E j = (case j of None \<Rightarrow> 0 | Some j \<Rightarrow> map_base m + elf_shoff E + of_nat (SHDR_SIZE * j))"

definition content_addr :: "mapping \<Rightarrow> elf_file \<Rightarrow> nat option \<Rightarrow> addr" where
  "content_addr m E j = (case j of None \<Rightarrow> 0 | Some j \<Rightarrow> map_base m + sec_offset (elf_sections E ! j))"

definition ctx_after :: "mapping \<Rightarrow> elf_file \<Rightarrow> nat \<Rightarrow> elf_ctx" where
  "ctx_after m E n =
     \<lparr>header = map_base m, load_bias = map_base m - elf_base E,
      sym_sh = section_addr m E (last_upto (is_type E SHT_SYMTAB) n), dynsym_sh = section_addr m E (last_upto (is_type E SHT_DYNSYM) n),
      strtab = content_addr m E (last_upto (is_strings E ''.strtab'') n), symtab = content_addr m E (last_upto (is_type E SHT_SYMTAB) n),
      dynstrtab = content_addr m E (last_upto (is_strings E ''.dynstr'') n), dynsymtab = content_addr m E (last_upto (is_type E SHT_DYNSYM) n)\<rparr>"

lemma shdr_step_ctx:
  assumes m: "file_mapping_ok m" and names: "names < 2 ^ 64"
    and s: "section_at (map_bytes m) names (unat (elf_shoff E) + SHDR_SIZE * i) (elf_sections E ! i)"
  shows "shdr_step m (map_base m) (map_base m + elf_shoff E) (map_base m + of_nat names) i (ctx_after m E i) = Inr (ctx_after m E (Suc i))"
proof -
  let ?s = "elf_sections E ! i" let ?a = "map_base m + elf_shoff E + of_nat (SHDR_SIZE * i)"
  have l: "load_word 4 m ?a = Inr (sec_name_offset ?s)" "load_word 4 m (?a + 4) = Inr (sec_type ?s)" "load_word 8 m (?a + 24) = Inr (sec_offset ?s)"
    using s by (auto simp: section_at_def add.assoc intro: load_field [OF m])
  have str: "strcmp_at m (map_base m + of_nat names + ucast (sec_name_offset ?s)) (bytes_of name) = Inr (sec_name ?s = bytes_of name)"
    if "name \<in> {''.strtab'', ''.dynstr''}" for name
    using s that bytes_of_section_names by (intro strcmp_string [OF m]) (auto simp: section_at_def unsigned_ucast_eq add.assoc)
  show ?thesis
    using str bytes_of_section_names(3)
    by (auto simp: shdr_step_def Let_def l ctx_after_def is_type_def is_strings_def section_addr_def content_addr_def
        SHT_SYMTAB_def SHT_STRTAB_def SHT_DYNSYM_def simp del: of_nat_mult)
qed

lemma shdr_loop_ctx:
  assumes m: "file_mapping_ok m" and names: "names < 2 ^ 64"
    and s: "\<forall>i<n. section_at (map_bytes m) names (unat (elf_shoff E) + SHDR_SIZE * i) (elf_sections E ! i)"
  shows "i + k = n \<Longrightarrow> shdr_loop m (map_base m) (map_base m + elf_shoff E) (map_base m + of_nat names) k i (ctx_after m E i) = Inr (ctx_after m E n)"
proof (induction k arbitrary: i)
  case (Suc k)
  then show ?case using s shdr_step_ctx [OF m names, of E i] by simp
qed simp

lemma ctx_after_0: "ctx_after m E 0 = zero_ctx\<lparr>header := map_base m, load_bias := map_base m - elf_base E\<rparr>"
  by (simp add: ctx_after_def zero_ctx_def section_addr_def content_addr_def)

lemma elf_ctx_init_ok:
  assumes m: "file_mapping_ok m" and e: "elf_ok (map_bytes m) E" and b: "map_base m \<noteq> elf_base E"
  shows "elf_ctx_init m (map_base m) zero_ctx = Inr (ctx_after m E (length (elf_sections E)))"
proof -
  let ?bs = "map_bytes m" let ?n = "length (elf_sections E)" let ?names = "unat (sec_offset (elf_sections E ! elf_shstrndx E))"
  have f: "field_at ?bs 32 8 (elf_phoff E)" "field_at ?bs 56 2 (of_nat (length (elf_segments E)) :: u16)" "length (elf_segments E) < 2 ^ 16"
    "field_at ?bs 40 8 (elf_shoff E)" "field_at ?bs 62 2 (of_nat (elf_shstrndx E) :: u16)" "elf_shstrndx E < ?n"
    "field_at ?bs 60 2 (of_nat ?n :: u16)" "?n < 2 ^ 16"
    using e by (simp_all add: elf_ok_def)
  have secs: "\<forall>i<?n. section_at ?bs ?names (unat (elf_shoff E) + SHDR_SIZE * i) (elf_sections E ! i)"
    using e by (simp add: elf_ok_def list_all_iff)
  have segs: "\<forall>i<length (elf_segments E). segment_at ?bs (unat (elf_phoff E) + PHDR_SIZE * i) (elf_segments E ! i)"
    using e by (simp add: elf_ok_def list_all_iff)
  have base: "\<exists>g. find (\<lambda>g. seg_type g = PT_LOAD) (elf_segments E) = Some g \<and> seg_vaddr g - seg_offset g = elf_base E"
    "\<forall>g\<in>set (elf_segments E). seg_type g = PT_PHDR \<longrightarrow> seg_vaddr g = elf_base E + elf_phoff E"
    using e by (auto simp: elf_ok_def base_ok_def list_all_iff split: option.splits)
  have ph: "phdr_loop m (map_base m) (map_base m + elf_phoff E) (length (elf_segments E)) 0 0 = Inr (map_base m - elf_base E)"
    using phdr_loop_bias [OF m segs base(2) b, of 0 "length (elf_segments E)" 0] base(1) by simp
  have u: "unat (of_nat (length (elf_segments E)) :: u16) = length (elf_segments E)" "unat (of_nat ?n :: u16) = ?n"
    "unat (of_nat (elf_shstrndx E) :: u16) = elf_shstrndx E"
    using f by (simp_all add: unat_of_nat)
  have names: "load_word 8 m (map_base m + elf_shoff E + of_nat (SHDR_SIZE * elf_shstrndx E) + 24) = Inr (sec_offset (elf_sections E ! elf_shstrndx E))"
    using secs f(6) by (auto simp: section_at_def add.assoc intro: load_field [OF m])
  have sh: "shdr_loop m (map_base m) (map_base m + elf_shoff E) (map_base m + sec_offset (elf_sections E ! elf_shstrndx E)) ?n 0 (ctx_after m E 0) =
      Inr (ctx_after m E ?n)"
    using shdr_loop_ctx [OF m _ secs, of 0 ?n] unsigned_less [of "sec_offset (elf_sections E ! elf_shstrndx E)"] by simp
  have l: "load_word 8 m (map_base m + 32) = Inr (elf_phoff E)" "load_word 2 m (map_base m + 56) = Inr (of_nat (length (elf_segments E)) :: u16)"
    "load_word 8 m (map_base m + 40) = Inr (elf_shoff E)" "load_word 2 m (map_base m + 62) = Inr (of_nat (elf_shstrndx E) :: u16)"
    "load_word 2 m (map_base m + 60) = Inr (of_nat ?n :: u16)"
    using f by (auto intro: load_field [OF m])
  have z: "load_bias zero_ctx = 0" by (simp add: zero_ctx_def)
  show ?thesis
    unfolding elf_ctx_init_def using sh by (simp add: l u ph z names ctx_after_0 del: of_nat_mult)
qed

section \<open>The symbols\<close>

lemma iterate_symbols_ok:
  assumes m: "file_mapping_ok m" and name: "0 \<notin> set name"
    and syms: "\<forall>i<length syms. symbol_at (map_bytes m) strs (off + SYM_SIZE * i) (syms ! i)"
  shows "i + k = length syms \<Longrightarrow>
     iterate_symbols m name (map_base m + of_nat off) (map_base m + of_nat strs) k i = Inr (first_value name (drop i syms))"
proof (induction k arbitrary: i)
  case (Suc k)
  then have i: "i < length syms" by simp
  let ?s = "syms ! i" let ?a = "map_base m + of_nat off + of_nat (SYM_SIZE * i)"
  have s: "symbol_at (map_bytes m) strs (off + SYM_SIZE * i) ?s" using syms i by simp
  have l: "load_word 4 m ?a = Inr (sym_name_offset ?s)" "load_word 8 m (?a + 8) = Inr (sym_value ?s)"
    using s by (auto simp: symbol_at_def add.assoc intro: load_field [OF m])
  have "strcmp_at m (map_base m + of_nat strs + ucast (sym_name_offset ?s)) name = Inr (sym_name ?s = name)"
    using s name by (intro strcmp_string [OF m]) (auto simp: symbol_at_def add.assoc)
  moreover have "drop i syms = ?s # drop (Suc i) syms" using i by (simp add: Cons_nth_drop_Suc)
  ultimately show ?case
    using Suc by (simp add: Let_def l first_value_def del: of_nat_mult)
qed (simp add: first_value_def)

lemma table_lookup_ok:
  assumes m: "file_mapping_ok m" and name: "0 \<notin> set name" and t: "table_at (map_bytes m) E t strname syms"
    and secs: "\<forall>i<length (elf_sections E). section_at (map_bytes m) names (unat (elf_shoff E) + SHDR_SIZE * i) (elf_sections E ! i)"
  shows "table_lookup m (section_addr m E (last_upto (is_type E t) (length (elf_sections E))))
       (content_addr m E (last_upto (is_type E t) (length (elf_sections E))))
       (content_addr m E (last_upto (is_strings E strname) (length (elf_sections E)))) name = Inr (first_value name syms)"
proof -
  have lt: "last_upto P n = Some j \<Longrightarrow> j < n" for P n j by (induction n) (auto split: if_splits)
  show ?thesis
  proof (cases "last_upto (is_type E t) (length (elf_sections E)) = None \<or> last_upto (is_strings E strname) (length (elf_sections E)) = None")
    case True
    then show ?thesis using t by (auto simp: table_at_def table_lookup_def content_addr_def first_value_def split: option.splits)
  next
    case False
    then obtain j k where jk: "last_upto (is_type E t) (length (elf_sections E)) = Some j" "last_upto (is_strings E strname) (length (elf_sections E)) = Some k"
      by auto
    let ?off = "unat (sec_offset (elf_sections E ! j))" let ?strs = "unat (sec_offset (elf_sections E ! k))"
    have tb: "unat (sec_size (elf_sections E ! j)) div SYM_SIZE = length syms" "length syms < 2 ^ 31" "?off \<le> length (map_bytes m)" "?strs \<le> length (map_bytes m)"
      "\<forall>i<length syms. symbol_at (map_bytes m) ?strs (?off + SYM_SIZE * i) (syms ! i)"
      using t by (simp_all add: table_at_def jk Let_def list_all_iff)
    have nz: "map_base m + of_nat o' \<noteq> 0" if "o' \<le> length (map_bytes m)" for o'
    proof -
      have "unat (map_base m + of_nat o') = unat (map_base m) + o'"
        using m that by (subst unat_add_small) (simp_all add: file_mapping_ok_def unat_of_nat)
      moreover have "unat (map_base m) \<noteq> 0" using m by (simp add: file_mapping_ok_def unat_eq_0)
      ultimately show ?thesis by force
    qed
    have size: "load_word 8 m (map_base m + elf_shoff E + of_nat (SHDR_SIZE * j) + 32) = Inr (sec_size (elf_sections E ! j))"
      using secs lt [OF jk(1)] by (auto simp: section_at_def add.assoc intro: load_field [OF m])
    have "unat (sec_size (elf_sections E ! j) div of_nat SYM_SIZE) = length syms" using tb(1) by (simp add: SYM_SIZE_def unat_div)
    from arg_cong [OF this, of "of_nat :: nat \<Rightarrow> u64"]
    have "sec_size (elf_sections E ! j) div of_nat SYM_SIZE = of_nat (length syms)" by simp
    then have cnt: "sint (ucast (sec_size (elf_sections E ! j) div of_nat SYM_SIZE) :: u32) = int (length syms)"
      using tb(2) by (simp add: sint_uint unsigned_of_nat unsigned_ucast_eq take_bit_nat_eq_self signed_take_bit_int_eq_self take_bit_int_eq_self)
    show ?thesis
      using nz [OF tb(3)] nz [OF tb(4)] iterate_symbols_ok [OF m name tb(5), of 0 "length syms"]
      by (simp add: table_lookup_def iterate_symbol_table_impl_def section_addr_def content_addr_def jk size cnt del: of_nat_mult)
  qed
qed

section \<open>One module\<close>

lemma elf_value_found:
  assumes m: "file_mapping_ok m" and e: "elf_ok (map_bytes m) E" and name: "0 \<notin> set name"
  shows "elf_ctx_iterate_symbol_table m (ctx_after m E (length (elf_sections E))) name = Inr (elf_value E name)"
proof -
  have secs: "\<forall>i<length (elf_sections E). section_at (map_bytes m) (unat (sec_offset (elf_sections E ! elf_shstrndx E)))
      (unat (elf_shoff E) + SHDR_SIZE * i) (elf_sections E ! i)"
    and tb: "table_at (map_bytes m) E SHT_SYMTAB ''.strtab'' (elf_symbols E)" "table_at (map_bytes m) E SHT_DYNSYM ''.dynstr'' (elf_dynsymbols E)"
    using e by (simp_all add: elf_ok_def list_all_iff)
  show ?thesis
    using table_lookup_ok [OF m name tb(1) secs] table_lookup_ok [OF m name tb(2) secs]
    by (simp add: elf_ctx_iterate_symbol_table_def ctx_after_def elf_value_def)
qed

text \<open>
  What a file is known to hold: \<open>None\<close> for one that cannot be opened. Every call that maps it succeeds, at an address that does
  not wrap around and is not the one that the file asks for.
\<close>

definition file_ok :: "(nat \<Rightarrow> string \<Rightarrow> map_outcome) \<Rightarrow> string \<Rightarrow> elf_file option \<Rightarrow> bool" where
  "file_ok files path img \<longleftrightarrow>
     (\<forall>n. case files n path of
            Mapped a file_size bs \<Rightarrow>
              (case img of None \<Rightarrow> False | Some E \<Rightarrow> file_mapping_ok \<lparr>map_base = a, map_bytes = bs\<rparr> \<and> elf_ok bs E \<and> a \<noteq> elf_base E)
          | Map_fails file_size \<Rightarrow> False
          | _ \<Rightarrow> img = None)"

text \<open>The address of a symbol of a module: its value, moved by the distance of the module from its base.\<close>

definition module_symbol :: "(string \<Rightarrow> elf_file option) \<Rightarrow> u8 list \<Rightarrow> map_entry \<Rightarrow> u64" where
  "module_symbol images name e =
     (case images (entry_path e) of
        None \<Rightarrow> 0
      | Some E \<Rightarrow> if elf_value E name = 0 then 0 else entry_start e + (elf_value E name - elf_base E))"

lemma resolve_in_module_ok:
  assumes mod: "entry_module mem e = Some module" and fits: "path_fits e" and start: "entry_start e \<noteq> 0"
    and f: "file_ok (proc_files v) (entry_path e) (images (entry_path e))" and name: "0 \<notin> set name"
  shows "\<exists>st'. resolve_in_module v name module st = Inr (module_symbol images name e, st') \<and> live_maps st' = live_maps st"
proof -
  have md: "module_path module = strncpy PATH_SIZE (entry_path e)" "load_address module = entry_start e"
    using mod by (auto simp: entry_module_def split: if_splits)
  note f' = f [unfolded file_ok_def]
  note p = c_string_path [OF fits]
  show ?thesis
  proof (cases "proc_files v (calls st) (entry_path e)")
    case (Mapped a file_size bs)
    let ?m = "\<lparr>map_base = a, map_bytes = bs\<rparr>"
    have "case images (entry_path e) of None \<Rightarrow> False | Some E \<Rightarrow> file_mapping_ok ?m \<and> elf_ok bs E \<and> a \<noteq> elf_base E"
      using spec [OF f', of "calls st"] by (simp add: Mapped)
    then obtain E where E: "images (entry_path e) = Some E" "file_mapping_ok ?m" "elf_ok bs E" "a \<noteq> elf_base E"
      by (auto split: option.splits)
    have "elf_ctx_init ?m a zero_ctx = Inr (ctx_after ?m E (length (elf_sections E)))"
      using elf_ctx_init_ok [OF E(2), of E] E by simp
    moreover have "elf_ctx_iterate_symbol_table ?m (ctx_after ?m E (length (elf_sections E))) name = Inr (elf_value E name)"
      using elf_value_found [OF E(2) _ name, of E] E by simp
    moreover have "a \<noteq> 0" using E(2) by (simp add: file_mapping_ok_def)
    ultimately show ?thesis
      using start by (simp add: resolve_in_module_def md p file_mmap_def Let_def Mapped file_unmap_def module_symbol_def E(1)) (simp add: ctx_after_def algebra_simps)
  next
    case (Map_fails file_size)
    then show ?thesis using spec [OF f', of "calls st"] by simp
  next
    case Open_fails
    then have "images (entry_path e) = None" using spec [OF f', of "calls st"] by simp
    then show ?thesis using start by (simp add: resolve_in_module_def md p file_mmap_def Let_def Open_fails module_symbol_def)
  next
    case Stat_fails
    then have "images (entry_path e) = None" using spec [OF f', of "calls st"] by simp
    then show ?thesis using start by (simp add: resolve_in_module_def md p file_mmap_def Let_def Stat_fails module_symbol_def)
  qed
qed

text \<open>When \<^verbatim>\<open>mmap\<close> fails, the file is read at address -1.\<close>

lemma map_failure_faults:
  "c_string (module_path module) = Inr path \<Longrightarrow> load_address module \<noteq> 0 \<Longrightarrow> proc_files v (calls st) path = Map_fails file_size \<Longrightarrow>
     resolve_in_module v name module st = Inl Wild_pointer"
  by (simp add: resolve_in_module_def file_mmap_def Let_def elf_ctx_init_def load_word_def)

section \<open>All modules\<close>

fun first_nonzero :: "u64 list \<Rightarrow> u64" where
  "first_nonzero [] = 0"
| "first_nonzero (x # xs) = (if x \<noteq> 0 then x else first_nonzero xs)"

definition module_ok :: "(nat \<Rightarrow> string \<Rightarrow> map_outcome) \<Rightarrow> (string \<Rightarrow> elf_file option) \<Rightarrow> map_entry \<Rightarrow> bool" where
  "module_ok files images e \<longleftrightarrow> path_fits e \<and> entry_start e \<noteq> 0 \<and> file_ok files (entry_path e) (images (entry_path e))"

lemma resolve_loop_ok:
  assumes name: "0 \<notin> set name"
  shows "list_all (module_ok (proc_files v) images) es \<Longrightarrow>
     \<exists>st'. resolve_loop v name (entry_modules mem es) st =
         Inr (first_nonzero (map (module_symbol images name) (filter (\<lambda>e. entry_module mem e \<noteq> None) es)), st') \<and> live_maps st' = live_maps st"
proof (induction es arbitrary: st)
  case (Cons e es)
  show ?case
  proof (cases "entry_module mem e")
    case None
    then show ?thesis using Cons by simp
  next
    case (Some module)
    obtain st1 where st1: "resolve_in_module v name module st = Inr (module_symbol images name e, st1)" "live_maps st1 = live_maps st"
      using resolve_in_module_ok [OF Some _ _ _ name, of v images st] Cons.prems by (auto simp: module_ok_def)
    obtain st2 where "resolve_loop v name (entry_modules mem es) st1 =
         Inr (first_nonzero (map (module_symbol images name) (filter (\<lambda>e. entry_module mem e \<noteq> None) es)), st2)" "live_maps st2 = live_maps st1"
      using Cons by fastforce
    with st1 show ?thesis by (simp add: Some)
  qed
qed simp

lemma first_nonzero_0: "first_nonzero xs = 0 \<longleftrightarrow> (\<forall>x\<in>set xs. x = 0)"
  by (induction xs) auto

lemma first_nonzero_append: "first_nonzero (xs @ ys) = (if first_nonzero xs \<noteq> 0 then first_nonzero xs else first_nonzero ys)"
  by (induction xs) auto

lemma first_nonzero_again:
  "e \<in> set es \<Longrightarrow> first_nonzero (map f (filter P (es @ [e]))) = first_nonzero (map f (filter P es))"
  by (auto simp: first_nonzero_append first_nonzero_0)

section \<open>The resolver\<close>

text \<open>
  What a process is: the lines of its map, the same in both readings and ended by a newline, a line buffer that keeps its
  content between the rounds, and files that are ELF files or cannot be opened.
\<close>

definition process_ok :: "process_view \<Rightarrow> map_entry list \<Rightarrow> (string \<Rightarrow> elf_file option) \<Rightarrow> bool" where
  "process_ok v es images \<longleftrightarrow> es \<noteq> [] \<and> list_all entry_ok es \<and> list_all (module_ok (proc_files v) images) es \<and>
     (\<forall>n. proc_maps v n = Some (concat (map render_entry es))) \<and> stack_fresh v = (\<lambda>b. b)"

definition named_symbol :: "process_view \<Rightarrow> map_entry list \<Rightarrow> (string \<Rightarrow> elf_file option) \<Rightarrow> string option \<Rightarrow> u8 list \<Rightarrow> u64" where
  "named_symbol v es images image_name name =
     (case image_name of
        None \<Rightarrow> 0
      | Some lib \<Rightarrow> (case module_named (proc_mem v) lib es of None \<Rightarrow> 0 | Some e \<Rightarrow> module_symbol images name e))"

definition resolver_spec :: "process_view \<Rightarrow> map_entry list \<Rightarrow> (string \<Rightarrow> elf_file option) \<Rightarrow> string option \<Rightarrow> u8 list \<Rightarrow> u64" where
  "resolver_spec v es images image_name name =
     first_nonzero (proc_dlsym v name # named_symbol v es images image_name name
       # map (module_symbol images name) (filter (\<lambda>e. entry_module (proc_mem v) e \<noteq> None) es))"

lemma null_module_resolved: "resolve_in_module v name null_module st = Inr (0, st)"
  by (simp add: resolve_in_module_def null_module_def)

lemma named_symbol_resolved:
  assumes p: "process_ok v es images" and name: "0 \<notin> set name"
  shows "\<exists>st'. bindE (GetProcessModule (proc_mem v) (stack_fresh v) (stack_buffer v) (proc_maps v i) lib)
       (\<lambda>module. resolve_in_module v name module st) = Inr (named_symbol v es images (Some lib) name, st') \<and> live_maps st' = live_maps st"
proof -
  have es: "es \<noteq> []" "list_all entry_ok es" "list_all (module_ok (proc_files v) images) es" using p by (auto simp: process_ok_def)
  then have fits: "list_all path_fits (es @ [last es])" by (auto simp: list_all_iff module_ok_def)
  have g: "GetProcessModule (proc_mem v) (stack_fresh v) (stack_buffer v) (proc_maps v i) lib =
      Inr (case module_named (proc_mem v) lib es of None \<Rightarrow> null_module | Some e \<Rightarrow> the (entry_module (proc_mem v) e))"
    using p modules_terminated [OF es(2,1), of "proc_mem v" "stack_buffer v"] find_module_entries [OF fits, of lib "proc_mem v"]
      module_named_again [OF es(1), of "proc_mem v" lib]
    by (simp add: GetProcessModule_def process_ok_def del: entry_modules_simps)
  show ?thesis
  proof (cases "module_named (proc_mem v) lib es")
    case None
    then show ?thesis by (simp add: g named_symbol_def null_module_resolved)
  next
    case (Some e)
    then obtain module where "entry_module (proc_mem v) e = Some module" "e \<in> set es"
      by (auto simp: module_named_def find_Some_iff)
    then show ?thesis
      using resolve_in_module_ok [of "proc_mem v" e module v images name st] es(3) name
      by (auto simp: g Some named_symbol_def list_all_iff module_ok_def)
  qed
qed

section \<open>A sample process\<close>

text \<open>One library with a dynamic symbol, mapped at \<open>0x7f0000\<close>.\<close>

definition sample_bytes :: "u8 list" where
  "sample_bytes =
     ELFMAG @ replicate 28 0 @ le_bytes 8 (64 :: u64) @ le_bytes 8 (120 :: u64) @ replicate 8 0 @ le_bytes 2 (1 :: u16) @ le_bytes 2 (64 :: u16)
     @ le_bytes 2 (3 :: u16) @ le_bytes 2 (0 :: u16)
     @ le_bytes 4 PT_LOAD @ replicate 12 0 @ le_bytes 8 (0x1000 :: u64) @ replicate 32 0
     @ le_bytes 4 (0 :: u32) @ le_bytes 4 SHT_STRTAB @ replicate 16 0 @ le_bytes 8 (312 :: u64) @ le_bytes 8 (32 :: u64) @ replicate 24 0
     @ le_bytes 4 (0 :: u32) @ le_bytes 4 SHT_DYNSYM @ replicate 16 0 @ le_bytes 8 (344 :: u64) @ le_bytes 8 (24 :: u64) @ replicate 24 0
     @ le_bytes 4 (1 :: u32) @ le_bytes 4 SHT_STRTAB @ replicate 16 0 @ le_bytes 8 (312 :: u64) @ le_bytes 8 (32 :: u64) @ replicate 24 0
     @ 0 # bytes_of ''.dynstr'' @ 0 # bytes_of ''open'' @ replicate 19 0
     @ le_bytes 4 (9 :: u32) @ replicate 4 0 @ le_bytes 8 (0x1234 :: u64) @ replicate 8 0"

definition sample_elf :: elf_file where
  "sample_elf =
     \<lparr>elf_phoff = 64, elf_shoff = 120, elf_shstrndx = 0, elf_segments = [\<lparr>seg_type = PT_LOAD, seg_offset = 0, seg_vaddr = 0x1000\<rparr>],
      elf_sections =
        [\<lparr>sec_name = [], sec_name_offset = 0, sec_type = SHT_STRTAB, sec_offset = 312, sec_size = 32\<rparr>,
         \<lparr>sec_name = [], sec_name_offset = 0, sec_type = SHT_DYNSYM, sec_offset = 344, sec_size = 24\<rparr>,
         \<lparr>sec_name = bytes_of ''.dynstr'', sec_name_offset = 1, sec_type = SHT_STRTAB, sec_offset = 312, sec_size = 32\<rparr>],
      elf_symbols = [], elf_dynsymbols = [\<lparr>sym_name = bytes_of ''open'', sym_name_offset = 9, sym_value = 0x1234\<rparr>], elf_base = 0x1000\<rparr>"

lemma le_bytes_zero [simp]: "le_bytes n 0 = replicate n 0"
  by (induction n) auto

lemma sample_length: "length sample_bytes = 368"
  by (simp add: sample_bytes_def ELFMAG_def bytes_of_def)

lemma sample_fields:
  "field_at sample_bytes 32 8 (64 :: u64)" "field_at sample_bytes 40 8 (120 :: u64)" "field_at sample_bytes 56 2 (1 :: u16)"
  "field_at sample_bytes 60 2 (3 :: u16)" "field_at sample_bytes 62 2 (0 :: u16)"
  by (simp_all add: field_at_def sample_bytes_def ELFMAG_def bytes_of_def)

lemma sample_segment: "segment_at sample_bytes 64 \<lparr>seg_type = PT_LOAD, seg_offset = 0, seg_vaddr = 0x1000\<rparr>"
  by (simp add: segment_at_def field_at_def sample_bytes_def ELFMAG_def bytes_of_def)

lemma sample_sections:
  "section_at sample_bytes 312 120 \<lparr>sec_name = [], sec_name_offset = 0, sec_type = SHT_STRTAB, sec_offset = 312, sec_size = 32\<rparr>"
  "section_at sample_bytes 312 184 \<lparr>sec_name = [], sec_name_offset = 0, sec_type = SHT_DYNSYM, sec_offset = 344, sec_size = 24\<rparr>"
  "section_at sample_bytes 312 248 \<lparr>sec_name = bytes_of ''.dynstr'', sec_name_offset = 1, sec_type = SHT_STRTAB, sec_offset = 312, sec_size = 32\<rparr>"
  by (simp_all add: section_at_def field_at_def string_at_def sample_bytes_def ELFMAG_def bytes_of_def)

lemma sample_symbol: "symbol_at sample_bytes 312 344 \<lparr>sym_name = bytes_of ''open'', sym_name_offset = 9, sym_value = 0x1234\<rparr>"
  by (simp add: symbol_at_def field_at_def string_at_def sample_bytes_def ELFMAG_def bytes_of_def)

lemma sample_kinds:
  "last_upto (is_type sample_elf SHT_SYMTAB) 3 = None" "last_upto (is_type sample_elf SHT_DYNSYM) 3 = Some 1"
  "last_upto (is_strings sample_elf ''.dynstr'') 3 = Some 2"
  by (simp_all add: numeral_3_eq_3 is_type_def is_strings_def sample_elf_def SHT_SYMTAB_def SHT_DYNSYM_def SHT_STRTAB_def)

lemma sample_elf_parts:
  "length (elf_sections sample_elf) = 3" "sec_offset (elf_sections sample_elf ! Suc 0) = 344" "sec_size (elf_sections sample_elf ! Suc 0) = 24"
  "sec_offset (elf_sections sample_elf ! 2) = 312"
  "elf_dynsymbols sample_elf = [\<lparr>sym_name = bytes_of ''open'', sym_name_offset = 9, sym_value = 0x1234\<rparr>]"
  by (simp_all add: sample_elf_def)

lemma sample_tables:
  "table_at sample_bytes sample_elf SHT_SYMTAB ''.strtab'' []"
  "table_at sample_bytes sample_elf SHT_DYNSYM ''.dynstr'' (elf_dynsymbols sample_elf)"
  using sample_symbol sample_length
  by (simp_all add: table_at_def sample_elf_parts sample_kinds SYM_SIZE_def)

lemma sample_elf_ok: "elf_ok sample_bytes sample_elf"
proof -
  have "base_ok sample_elf" by (simp add: base_ok_def sample_elf_def PT_LOAD_def PT_PHDR_def)
  moreover have "[0..<3] = [0, 1, 2 :: nat]" by (simp add: upt_rec)
  ultimately show ?thesis
    using sample_fields sample_segment sample_sections sample_tables sample_length
    by (simp add: elf_ok_def, simp add: sample_elf_def PHDR_SIZE_def SHDR_SIZE_def)
qed

definition library_process :: process_view where
  "library_process =
     \<lparr>proc_maps = (\<lambda>_. Some (concat (map render_entry [libc_entry, code_entry]))),
      proc_mem = (\<lambda>a. if 0x7f0000 \<le> a \<and> a < 0x7f0170 then sample_bytes ! unat (a - 0x7f0000) else 0),
      proc_files = (\<lambda>_ path. if path = ''/lib/libc.so'' then Mapped 0x100000 368 sample_bytes else Open_fails),
      proc_dlsym = (\<lambda>_. 0), stack_fresh = (\<lambda>b. b), stack_buffer = []\<rparr>"

definition sample_images :: "string \<Rightarrow> elf_file option" where
  "sample_images path = (if path = ''/lib/libc.so'' then Some sample_elf else None)"

lemma sample_paths: "entry_path libc_entry = ''/lib/libc.so''" "entry_path code_entry = ''/lib/libc.so''"
  by (simp_all add: libc_entry_def code_entry_def)

lemma sample_file_ok: "file_ok (proc_files library_process) ''/lib/libc.so'' (sample_images ''/lib/libc.so'')"
proof -
  have "elf_base sample_elf = 0x1000" by (simp add: sample_elf_def)
  then show ?thesis using sample_elf_ok sample_length
    by (simp add: file_ok_def library_process_def sample_images_def file_mapping_ok_def)
qed

lemma library_process_ok: "process_ok library_process [libc_entry, code_entry] sample_images"
proof -
  have "stack_fresh library_process = (\<lambda>b. b)" "\<forall>n. proc_maps library_process n = Some (concat (map render_entry [libc_entry, code_entry]))"
    by (simp_all add: library_process_def)
  moreover have "list_all (module_ok (proc_files library_process) sample_images) [libc_entry, code_entry]"
    using sample_file_ok by (simp add: module_ok_def path_fits_def sample_paths PATH_SIZE_def NUL_def) (simp add: libc_entry_def code_entry_def)
  ultimately show ?thesis using libc_entry_ok code_entry_ok by (simp only: process_ok_def) simp
qed

lemma sample_modules:
  "entry_module (proc_mem library_process) libc_entry = Some \<lparr>module_path = strncpy PATH_SIZE ''/lib/libc.so'', load_address = 0x7f0000\<rparr>"
  "entry_module (proc_mem library_process) code_entry = None"
proof -
  have "magic_at (proc_mem library_process) 0x7f0000"
    by (simp add: magic_at_def library_process_def upt_rec sample_bytes_def ELFMAG_def)
  then show "entry_module (proc_mem library_process) libc_entry = Some \<lparr>module_path = strncpy PATH_SIZE ''/lib/libc.so'', load_address = 0x7f0000\<rparr>"
    by (simp add: entry_module_def libc_entry_def)
  have "\<not> magic_at (proc_mem library_process) 0x7f2000"
    by (simp add: magic_at_def library_process_def upt_rec ELFMAG_def)
  then show "entry_module (proc_mem library_process) code_entry = None"
    by (simp add: entry_module_def code_entry_def)
qed

lemma sample_symbol_value: "module_symbol sample_images (bytes_of ''open'') libc_entry = 0x7f0234"
  by (simp add: module_symbol_def sample_images_def sample_paths elf_value_def first_value_def sample_elf_def) (simp add: libc_entry_def)

text \<open>
  C20: \<^verbatim>\<open>DobbySymbolResolver\<close> finds what the abstract search finds: the answer of the dynamic linker, or the symbol in the first
  module whose path contains the image name, or the symbol in the first module that has it; the address is that of the
  module plus the distance of the symbol from the base of its file, wherever the file is mapped for the search. Every
  mapping is given back.
\<close>

theorem resolver_refines_search:
  assumes p: "process_ok v es images" and name: "0 \<notin> set name"
  shows "\<exists>st'. DobbySymbolResolver v image_name name st = Inr (resolver_spec v es images image_name name, st') \<and> live_maps st' = live_maps st"
proof -
  have es: "es \<noteq> []" "list_all entry_ok es" "list_all (module_ok (proc_files v) images) (es @ [last es])"
    using p by (auto simp: process_ok_def list_all_iff)
  obtain st1 where st1: "(case image_name of None \<Rightarrow> Inr (0, st)
      | Some lib \<Rightarrow> bindE (GetProcessModule (proc_mem v) (stack_fresh v) (stack_buffer v) (proc_maps v 0) lib) (\<lambda>module. resolve_in_module v name module st)) =
      Inr (named_symbol v es images image_name name, st1)" "live_maps st1 = live_maps st"
  proof (cases image_name)
    case (Some lib)
    then show ?thesis using named_symbol_resolved [OF p name, of 0 lib st] that by auto
  qed (use that in \<open>simp add: named_symbol_def\<close>)
  have mods: "GetProcessModuleMap (proc_mem v) (stack_fresh v) (stack_buffer v) (proc_maps v 1) = Inr (entry_modules (proc_mem v) (es @ [last es]))"
    using p modules_terminated [OF es(2,1), of "proc_mem v" "stack_buffer v"] by (simp add: process_ok_def del: entry_modules_simps)
  obtain st2 where "resolve_loop v name (entry_modules (proc_mem v) (es @ [last es])) st1 =
      Inr (first_nonzero (map (module_symbol images name) (filter (\<lambda>e. entry_module (proc_mem v) e \<noteq> None) es)), st2)" "live_maps st2 = live_maps st1"
    using resolve_loop_ok [OF name es(3), of "proc_mem v" st1] es(1)
    by (auto simp: first_nonzero_again simp del: entry_modules_simps filter_append map_append)
  then show ?thesis
    using st1 mods by (auto simp: DobbySymbolResolver_def resolve_elf_internal_symbol_def resolver_spec_def Let_def simp del: entry_modules_simps)
qed

theorem resolver_refines_search_witness:
  "\<exists>st'. DobbySymbolResolver library_process (Some ''libc'') (bytes_of ''open'') \<lparr>calls = 0, live_maps = []\<rparr> = Inr (0x7f0234, st') \<and> live_maps st' = []"
proof -
  have "resolver_spec library_process [libc_entry, code_entry] sample_images (Some ''libc'') (bytes_of ''open'') = 0x7f0234"
    using sample_symbol_value
    by (simp add: resolver_spec_def named_symbol_def module_named_def sample_modules sample_paths) (simp add: library_process_def)
  moreover have "0 \<notin> set (bytes_of ''open'')" by (simp add: bytes_of_def)
  ultimately show ?thesis
    using resolver_refines_search [OF library_process_ok, of "bytes_of ''open''" "Some ''libc''" "\<lparr>calls = 0, live_maps = []\<rparr>"] by simp
qed

end
