(* ===== verification/Arm32Assembler.thy ===== *)
theory Arm32Assembler
  imports Arm64Assembler
begin

text \<open>
  The assemblers of the 32-bit ARM target: \<^verbatim>\<open>assembler-arm.h\<close>, \<^verbatim>\<open>assembler-arm.cc\<close> and \<^verbatim>\<open>code-buffer-arm.cc\<close> for A32, the Thumb part
  of \<^verbatim>\<open>ARMInstructionRelocation.h\<close>, \<^verbatim>\<open>codegen-arm.cc\<close> and the trampolines of \<^verbatim>\<open>trampoline-arm.cc\<close>. The relocator runs an A32 and
  a Thumb assembler on one code buffer, so one record holds the buffer and the labels of both; an assembler that is
  used alone leaves the other part empty. A register is its number. \<^verbatim>\<open>ASSERT\<close> has no effect in the source; \<^verbatim>\<open>CHECK\<close> has.
\<close>

section \<open>Labels and operands\<close>

datatype ExecuteState = ARMExecuteState | ThumbExecuteState

text \<open>A label with the positions of the loads that wait for it (\<^verbatim>\<open>RelocLabelEntry\<close> and \<^verbatim>\<open>ThumbRelocLabelEntry\<close>).\<close>

record arm_label = Label +
  confused :: "int list"
  arm_data :: u32
  used_for_branch :: bool

definition new_arm_label :: "u32 \<Rightarrow> bool \<Rightarrow> arm_label" where
  "new_arm_label d branch = \<lparr>label_pos = 0, near_link_pos = 0, confused = [], arm_data = d, used_for_branch = branch\<rparr>"

definition arm_link_to :: "int \<Rightarrow> arm_label \<Rightarrow> arm_label" where
  "arm_link_to p l = l\<lparr>confused := confused l @ [p]\<rparr>"

definition fixup_data :: "u32 \<Rightarrow> arm_label \<Rightarrow> arm_label" where
  "fixup_data d l = l\<lparr>arm_data := d\<rparr>"

definition ip_reg :: u32 where "ip_reg = 12"
definition pc_reg :: u32 where "pc_reg = 15"
definition ARM_PC_OFFSET :: int where "ARM_PC_OFFSET = 8"
definition Thumb_PC_OFFSET :: int where "Thumb_PC_OFFSET = 4"
definition cond_AL :: u32 where "cond_AL = 14"

text \<open>\<^verbatim>\<open>no_reg\<close> has the number 0, so \<^verbatim>\<open>r0\<close> does not count as a register offset.\<close>

record arm_mem =
  am_rn :: u32
  am_rm :: u32
  am_offset :: int
  am_mode :: AddrMode

definition arm_mem_imm :: "u32 \<Rightarrow> int \<Rightarrow> arm_mem" where
  "arm_mem_imm rn offset = \<lparr>am_rn = rn, am_rm = 0, am_offset = offset, am_mode = Offset\<rparr>"

definition arm_encode_mem :: "arm_mem \<Rightarrow> asm_fault + u32" where
  "arm_encode_mem operand =
     (if am_rm operand \<noteq> 0 then Inl Abort_unreachable
      else
        let U = (if am_offset operand \<ge> 0 then push_bit 23 1 else 0);
            P = (case am_mode operand of Offset \<Rightarrow> 1 | PostIndex \<Rightarrow> 0 | PreIndex \<Rightarrow> 1);
            W = (case am_mode operand of Offset \<Rightarrow> 0 | PostIndex \<Rightarrow> 0 | PreIndex \<Rightarrow> 1)
        in Inr (U OR bits (word_of_int \<bar>am_offset operand\<bar>) 0 11 OR (push_bit 24 P OR push_bit 21 W) OR push_bit 16 (am_rn operand)))"

text \<open>An operand of \<^verbatim>\<open>mov\<close>: a register other than \<^verbatim>\<open>r0\<close>, or an immediate.\<close>

definition arm_encode_operand :: "u32 \<Rightarrow> u32 \<Rightarrow> u32" where
  "arm_encode_operand rm imm = (if rm \<noteq> 0 then rm else imm)"

section \<open>The code buffer\<close>

record arm_asm =
  arm_code :: "u8 list"
  arm_address :: u32
  arm_labels :: "arm_label list"
  thumb_labels :: "arm_label list"
  arm_state :: ExecuteState
  thumb_state :: ExecuteState

definition new_arm_asm :: "u32 \<Rightarrow> arm_asm" where
  "new_arm_asm address =
     \<lparr>arm_code = [], arm_address = address, arm_labels = [], thumb_labels = [], arm_state = ARMExecuteState, thumb_state = ThumbExecuteState\<rparr>"

definition arm_size :: "arm_asm \<Rightarrow> int" where
  "arm_size a = int (length (arm_code a))"

definition buf_load :: "nat \<Rightarrow> int \<Rightarrow> u8 list \<Rightarrow> asm_fault + 'a::len word" where
  "buf_load n off bs = (if off < 0 then Inl Wild_access else bindE (load_at (nat off) n bs) (\<lambda>p. Inr (le_word p)))"

definition buf_store :: "nat \<Rightarrow> int \<Rightarrow> 'a::len word \<Rightarrow> u8 list \<Rightarrow> asm_fault + u8 list" where
  "buf_store n off w bs = (if off < 0 then Inl Wild_access else store_at (nat off) (le_bytes n w) bs)"

definition LoadARMInst :: "int \<Rightarrow> u8 list \<Rightarrow> asm_fault + u32" where "LoadARMInst = buf_load 4"
definition LoadThumb1Inst :: "int \<Rightarrow> u8 list \<Rightarrow> asm_fault + u16" where "LoadThumb1Inst = buf_load 2"
definition LoadThumb2Inst :: "int \<Rightarrow> u8 list \<Rightarrow> asm_fault + u32" where "LoadThumb2Inst = buf_load 4"
definition RewriteAddr :: "int \<Rightarrow> u32 \<Rightarrow> u8 list \<Rightarrow> asm_fault + u8 list" where "RewriteAddr = buf_store 4"
definition RewriteARMInst :: "int \<Rightarrow> u32 \<Rightarrow> u8 list \<Rightarrow> asm_fault + u8 list" where "RewriteARMInst = buf_store 4"
definition RewriteThumb1Inst :: "int \<Rightarrow> u16 \<Rightarrow> u8 list \<Rightarrow> asm_fault + u8 list" where "RewriteThumb1Inst = buf_store 2"
definition RewriteThumb2Inst :: "int \<Rightarrow> u32 \<Rightarrow> u8 list \<Rightarrow> asm_fault + u8 list" where "RewriteThumb2Inst = buf_store 4"

definition EmitARMInst :: "u32 \<Rightarrow> arm_asm \<Rightarrow> arm_asm" where
  "EmitARMInst instr a = a\<lparr>arm_code := arm_code a @ le_bytes 4 instr\<rparr>"

definition EmitInt16 :: "u16 \<Rightarrow> arm_asm \<Rightarrow> arm_asm" where
  "EmitInt16 val a = a\<lparr>arm_code := arm_code a @ le_bytes 2 val\<rparr>"

definition Emit2Int16 :: "u16 \<Rightarrow> u16 \<Rightarrow> arm_asm \<Rightarrow> arm_asm" where
  "Emit2Int16 val1 val2 a = EmitInt16 val2 (EmitInt16 val1 a)"

definition EmitAddress :: "u32 \<Rightarrow> arm_asm \<Rightarrow> arm_asm" where
  "EmitAddress value a = a\<lparr>arm_code := arm_code a @ le_bytes 4 value\<rparr>"

section \<open>A32\<close>

definition arm_add_sub :: "u32 \<Rightarrow> u32 \<Rightarrow> u32 \<Rightarrow> u32 \<Rightarrow> u32 \<Rightarrow> arm_asm \<Rightarrow> arm_asm" where
  "arm_add_sub encoding cond rd rn imm = EmitARMInst (encoding OR push_bit 28 cond OR imm OR push_bit 12 rd OR push_bit 16 rn)"

definition arm_sub :: "u32 \<Rightarrow> u32 \<Rightarrow> u32 \<Rightarrow> arm_asm \<Rightarrow> arm_asm" where
  "arm_sub = arm_add_sub (push_bit 25 1 OR push_bit 22 1) cond_AL"

definition arm_add :: "u32 \<Rightarrow> u32 \<Rightarrow> u32 \<Rightarrow> arm_asm \<Rightarrow> arm_asm" where
  "arm_add = arm_add_sub (push_bit 25 1 OR push_bit 23 1) cond_AL"

definition load_store_word :: "u32 \<Rightarrow> u32 \<Rightarrow> u32 \<Rightarrow> arm_mem \<Rightarrow> asm_fault + u32" where
  "load_store_word encoding cond rt operand =
     bindE (arm_encode_mem operand) (\<lambda>m. Inr (encoding OR push_bit 28 cond OR (push_bit 12 rt OR m)))"

definition arm_load_store :: "u32 \<Rightarrow> u32 \<Rightarrow> u32 \<Rightarrow> arm_mem \<Rightarrow> arm_asm \<Rightarrow> asm_fault + arm_asm" where
  "arm_load_store encoding cond rt operand a = bindE (load_store_word encoding cond rt operand) (\<lambda>w. Inr (EmitARMInst w a))"

definition arm_ldr :: "u32 \<Rightarrow> arm_mem \<Rightarrow> arm_asm \<Rightarrow> asm_fault + arm_asm" where
  "arm_ldr = arm_load_store (push_bit 20 1 OR push_bit 26 1) cond_AL"

definition arm_str :: "u32 \<Rightarrow> arm_mem \<Rightarrow> arm_asm \<Rightarrow> asm_fault + arm_asm" where
  "arm_str = arm_load_store (push_bit 26 1) cond_AL"

definition arm_mov :: "u32 \<Rightarrow> u32 \<Rightarrow> u32 \<Rightarrow> u32 \<Rightarrow> arm_asm \<Rightarrow> arm_asm" where
  "arm_mov cond rd rm imm = EmitARMInst (0x01a00000 OR push_bit 28 cond OR (push_bit 12 rd OR arm_encode_operand rm imm))"

definition arm_branch_word :: "u32 \<Rightarrow> u32 \<Rightarrow> int \<Rightarrow> u32" where
  "arm_branch_word encoding cond branch_offset =
     encoding OR push_bit 28 cond OR bits (word_of_int (branch_offset div 4)) 0 23"

definition arm_b :: "int \<Rightarrow> arm_asm \<Rightarrow> arm_asm" where
  "arm_b branch_offset = EmitARMInst (arm_branch_word 0xa000000 cond_AL branch_offset)"

definition arm_bl :: "int \<Rightarrow> arm_asm \<Rightarrow> arm_asm" where
  "arm_bl branch_offset = EmitARMInst (arm_branch_word 0xb000000 cond_AL branch_offset)"

definition arm_bx :: "asm_fault + arm_asm" where "arm_bx = Inl Abort_unimplemented"
definition arm_blx :: "asm_fault + arm_asm" where "arm_blx = Inl Abort_unimplemented"

text \<open>A load from a label of the assembler, named by its index.\<close>

definition arm_Ldr :: "u32 \<Rightarrow> nat \<Rightarrow> arm_asm \<Rightarrow> asm_fault + arm_asm" where
  "arm_Ldr rt i a =
     (let label = arm_labels a ! i
      in if is_bound label then arm_ldr rt (arm_mem_imm pc_reg (pos label - arm_size a)) a
         else arm_ldr rt (arm_mem_imm pc_reg 0) (a\<lparr>arm_labels := (arm_labels a)[i := arm_link_to (arm_size a) label]\<rparr>))"

definition arm_CallFunction :: "u32 \<Rightarrow> arm_asm \<Rightarrow> asm_fault + arm_asm" where
  "arm_CallFunction function a =
     bindE (arm_ldr pc_reg (arm_mem_imm pc_reg (- 4)) (arm_b 4 (arm_bl 0 a))) (\<lambda>a. Inr (EmitAddress function a))"

definition arm_AppendRelocLabelEntry :: "arm_label \<Rightarrow> arm_asm \<Rightarrow> arm_asm" where
  "arm_AppendRelocLabelEntry label a = a\<lparr>arm_labels := arm_labels a @ [label]\<rparr>"

text \<open>Binding: the loads that wait get the distance to the label. A negative distance would run into the opcode.\<close>

fun arm_link_confused :: "int \<Rightarrow> int list \<Rightarrow> u8 list \<Rightarrow> asm_fault + u8 list" where
  "arm_link_confused p [] bs = Inr bs"
| "arm_link_confused p (at # rest) bs =
     bindE (LoadARMInst at bs) (\<lambda>inst32.
     bindE (RewriteARMInst at (inst32 AND 0xfffff000 OR word_of_int (p - at - ARM_PC_OFFSET)) bs)
       (arm_link_confused p rest))"

definition arm_PseudoBind :: "arm_label \<Rightarrow> u8 list \<Rightarrow> asm_fault + (arm_label \<times> u8 list)" where
  "arm_PseudoBind label bs =
     (let label = (if is_unused label then bind_to (int (length bs)) label else label)
      in bindE (arm_link_confused (pos label) (confused label) bs) (\<lambda>bs. Inr (label, bs)))"

fun arm_bind_loop :: "arm_label list \<Rightarrow> u8 list \<Rightarrow> asm_fault + (arm_label list \<times> u8 list)" where
  "arm_bind_loop [] bs = Inr ([], bs)"
| "arm_bind_loop (label # rest) bs =
     bindE (arm_PseudoBind label bs) (\<lambda>(label, bs).
     bindE (arm_bind_loop rest (bs @ le_bytes 4 (arm_data label))) (\<lambda>(rest, bs). Inr (label # rest, bs)))"

definition arm_RelocBind :: "arm_asm \<Rightarrow> asm_fault + arm_asm" where
  "arm_RelocBind a = bindE (arm_bind_loop (arm_labels a) (arm_code a)) (\<lambda>(ls, bs). Inr (a\<lparr>arm_labels := ls, arm_code := bs\<rparr>))"

definition arm_RelocBindFixup :: "arm_label \<Rightarrow> u8 list \<Rightarrow> asm_fault + u8 list" where
  "arm_RelocBindFixup label = RewriteAddr (pos label) (arm_data label)"

section \<open>Thumb\<close>

definition t1_nop :: "arm_asm \<Rightarrow> arm_asm" where
  "t1_nop = EmitInt16 0xbf00"

definition t1_b :: "u32 \<Rightarrow> arm_asm \<Rightarrow> arm_asm" where
  "t1_b imm = EmitInt16 (0xe000 OR ucast (bits (signed_drop_bit 1 imm) 0 10))"

text \<open>\<^verbatim>\<open>EmitThumb2Branch\<close> with the condition \<^verbatim>\<open>AL\<close>, the only one that is implemented.\<close>

definition thumb2_branch_words :: "u32 \<Rightarrow> bool \<Rightarrow> u16 \<times> u16" where
  "thumb2_branch_words imm link =
     (let operand = signed_drop_bit 1 imm;
          signbit = drop_bit 31 imm AND 1;
          i1 = drop_bit 22 operand AND 1; i2 = drop_bit 21 operand AND 1;
          imm10 = drop_bit 11 operand AND 0x03ff; imm11 = operand AND 0x07ff;
          j1 = (if i1 XOR signbit = 0 then 1 else 0); j2 = (if i2 XOR signbit = 0 then 1 else 0)
      in (ucast (0xf000 OR LeftShift signbit 1 10 OR LeftShift imm10 10 0),
          ucast (0x9000 OR LeftShift j1 1 13 OR LeftShift j2 1 11 OR LeftShift imm11 11 0 OR (if link then push_bit 14 1 else 0))))"

definition EmitThumb2Branch :: "u32 \<Rightarrow> u32 \<Rightarrow> bool \<Rightarrow> arm_asm \<Rightarrow> asm_fault + arm_asm" where
  "EmitThumb2Branch cond imm link a =
     (if cond \<noteq> cond_AL then Inl Abort_unimplemented
      else Inr (case thumb2_branch_words imm link of (w1, w2) \<Rightarrow> Emit2Int16 w1 w2 a))"

definition t2_b :: "u32 \<Rightarrow> arm_asm \<Rightarrow> asm_fault + arm_asm" where
  "t2_b imm = EmitThumb2Branch cond_AL imm False"

definition t2_bl :: "u32 \<Rightarrow> arm_asm \<Rightarrow> asm_fault + arm_asm" where
  "t2_bl imm = EmitThumb2Branch cond_AL imm True"

definition t2_blx :: "asm_fault + arm_asm" where "t2_blx = Inl Abort_unimplemented"

definition EmitThumb2LoadLiteral :: "u32 \<Rightarrow> int \<Rightarrow> arm_asm \<Rightarrow> arm_asm" where
  "EmitThumb2LoadLiteral rt offset =
     (let U = (if offset > 0 then push_bit 7 1 else 0); imm12 = word_of_int (if offset > 0 then offset else - offset)
      in Emit2Int16 (0xf85f OR U) (ucast (push_bit 12 rt OR imm12)))"

definition EmitThumb2LoadStore :: "u32 \<Rightarrow> arm_mem \<Rightarrow> arm_asm \<Rightarrow> arm_asm" where
  "EmitThumb2LoadStore rt x =
     (if am_rn x = pc_reg then EmitThumb2LoadLiteral rt (am_offset x)
      else if am_mode x = Offset \<and> am_offset x \<ge> 0 then
        Emit2Int16 (0xf8d0 OR ucast (am_rn x)) (ucast (push_bit 12 rt OR word_of_int (am_offset x)))
      else
        let imm8 = word_of_int \<bar>am_offset x\<bar>;
            U = (if am_offset x > 0 then 0 else push_bit 9 1);
            P = (case am_mode x of PreIndex \<Rightarrow> push_bit 10 1 | _ \<Rightarrow> 0);
            W = (case am_mode x of Offset \<Rightarrow> 0 | _ \<Rightarrow> push_bit 8 1)
        in Emit2Int16 (0xf850 OR ucast (am_rn x)) (ucast (0x0800 OR push_bit 12 rt OR P OR U OR W OR imm8)))"

definition t2_ldr :: "u32 \<Rightarrow> arm_mem \<Rightarrow> arm_asm \<Rightarrow> arm_asm" where
  "t2_ldr = EmitThumb2LoadStore"

definition T1_Ldr :: "asm_fault + arm_asm" where "T1_Ldr = Inl Abort_unreachable"

definition T2_Ldr :: "u32 \<Rightarrow> nat \<Rightarrow> arm_asm \<Rightarrow> arm_asm" where
  "T2_Ldr rt i a =
     (let label = thumb_labels a ! i
      in if is_bound label then t2_ldr rt (arm_mem_imm pc_reg (pos label - arm_size a)) a
         else t2_ldr rt (arm_mem_imm pc_reg 0) (a\<lparr>thumb_labels := (thumb_labels a)[i := arm_link_to (arm_size a) label]\<rparr>))"

definition AlignThumbNop :: "arm_asm \<Rightarrow> arm_asm" where
  "AlignThumbNop a = (if (word_of_int (arm_size a) + arm_address a) mod 4 \<noteq> 0 then t1_nop a else a)"

definition thumb_AppendRelocLabelEntry :: "arm_label \<Rightarrow> arm_asm \<Rightarrow> arm_asm" where
  "thumb_AppendRelocLabelEntry label a = a\<lparr>thumb_labels := thumb_labels a @ [label]\<rparr>"

text \<open>The distance is taken from the word that holds the load, as the literal load of Thumb does.\<close>

fun thumb_link_confused :: "int \<Rightarrow> int list \<Rightarrow> u8 list \<Rightarrow> asm_fault + u8 list" where
  "thumb_link_confused p [] bs = Inr bs"
| "thumb_link_confused p (at # rest) bs =
     bindE (LoadThumb2Inst at bs) (\<lambda>instr.
     bindE (LoadThumb1Inst at bs) (\<lambda>inst1.
     bindE (LoadThumb1Inst (at + 2) bs) (\<lambda>inst2.
       let imm12 = word_of_int (p - at div 4 * 4 - Thumb_PC_OFFSET) :: u32 in
       if \<not> imm12 < 4096 then Inl Abort_unreachable
       else bindE (RewriteThumb1Inst at (inst1 OR push_bit 7 1) bs) (\<lambda>bs.
            bindE (RewriteThumb1Inst (at + 2) (inst2 AND 0xf000 OR ucast imm12) bs) (thumb_link_confused p rest)))))"

definition ThumbPseudoBind :: "arm_label \<Rightarrow> u8 list \<Rightarrow> asm_fault + (arm_label \<times> u8 list)" where
  "ThumbPseudoBind label bs =
     (let label = (if is_unused label then bind_to (int (length bs)) label else label)
      in bindE (thumb_link_confused (pos label) (confused label) bs) (\<lambda>bs. Inr (label, bs)))"

fun thumb_bind_loop :: "arm_label list \<Rightarrow> u8 list \<Rightarrow> asm_fault + (arm_label list \<times> u8 list)" where
  "thumb_bind_loop [] bs = Inr ([], bs)"
| "thumb_bind_loop (label # rest) bs =
     bindE (ThumbPseudoBind label bs) (\<lambda>(label, bs).
     bindE (thumb_bind_loop rest (bs @ le_bytes 4 (arm_data label))) (\<lambda>(rest, bs). Inr (label # rest, bs)))"

definition thumb_RelocBind :: "arm_asm \<Rightarrow> asm_fault + arm_asm" where
  "thumb_RelocBind a = bindE (thumb_bind_loop (thumb_labels a) (arm_code a)) (\<lambda>(ls, bs). Inr (a\<lparr>thumb_labels := ls, arm_code := bs\<rparr>))"

section \<open>Trampolines\<close>

definition arm_LiteralLdrBranch :: "u32 \<Rightarrow> arm_asm \<Rightarrow> asm_fault + arm_asm" where
  "arm_LiteralLdrBranch address a = bindE (arm_ldr pc_reg (arm_mem_imm pc_reg (- 4)) a) (\<lambda>a. Inr (EmitAddress address a))"

definition generate_arm_trampoline :: "u32 \<Rightarrow> u32 \<Rightarrow> asm_fault + u8 list" where
  "generate_arm_trampoline from_addr to_addr = bindE (arm_LiteralLdrBranch to_addr (new_arm_asm from_addr)) (\<lambda>a. Inr (arm_code a))"

definition generate_thumb_trampoline :: "u32 \<Rightarrow> u32 \<Rightarrow> u8 list" where
  "generate_thumb_trampoline from_addr to_addr =
     arm_code (EmitAddress to_addr (t2_ldr pc_reg (arm_mem_imm pc_reg 0) (AlignThumbNop (new_arm_asm from_addr))))"

definition arm_GenerateNormalTrampolineBuffer :: "u32 \<Rightarrow> u32 \<Rightarrow> asm_fault + u8 list" where
  "arm_GenerateNormalTrampolineBuffer from_addr to_addr =
     (if from_addr mod 2 = 0 then generate_arm_trampoline from_addr to_addr
      else Inr (generate_thumb_trampoline (from_addr AND NOT (2 - 1)) to_addr))"

definition arm_GenerateNearTrampolineBuffer :: "u32 \<Rightarrow> u32 \<Rightarrow> u8 list option" where
  "arm_GenerateNearTrampolineBuffer src dst = None"

end
