(* ===== verification/Arm32Relocation.thy ===== *)
theory Arm32Relocation
  imports Arm32Assembler
begin

text \<open>
  The relocator of the 32-bit ARM target (\<^verbatim>\<open>ARMInstructionRelocation.cc\<close>): A32 and Thumb instructions one by one, the loops over
  the overwritten code, and \<^verbatim>\<open>GenRelocateCodeAndBranch\<close>. \<open>mem\<close> is the memory that the code reads from; \<open>from_pc\<close> is the program counter
  as the instruction sees it, behind its own address by 8 or 4. The program counter of the new place (\<^verbatim>\<open>to_pc\<close>) is not
  used by the code.
\<close>

record ReloMapEntry =
  orig_instr :: u32
  relocated_instr :: u32
  relocated_code_len :: int

definition is_thumb2 :: "u32 \<Rightarrow> bool" where
  "is_thumb2 instr =
     (let inst1 = instr AND 0xffff; op0 = bits inst1 13 15; op1 = bits inst1 11 12
      in op0 = 0b111 \<and> op1 \<noteq> 0b00)"

section \<open>A32\<close>

definition arm_load_literal :: "u32 \<Rightarrow> u32 \<Rightarrow> arm_asm \<Rightarrow> asm_fault + arm_asm" where
  "arm_load_literal instr from_pc a =
     (let U = bit_at instr 23; imm12 = bits instr 0 11; rt = bits instr 12 15;
          target_address = (if U = 1 then from_pc + imm12 else from_pc - imm12);
          a = arm_AppendRelocLabelEntry (new_arm_label target_address False) a;
          label = length (arm_labels a) - 1
      in if rt = pc_reg then bindE (arm_Ldr ip_reg label a) (arm_ldr rt (arm_mem_imm ip_reg 0))
         else bindE (arm_Ldr rt label a) (arm_ldr rt (arm_mem_imm rt 0)))"

text \<open>Both forms of \<^verbatim>\<open>ADR\<close>; the immediate is taken as it stands in the instruction.\<close>

definition arm_adr :: "u32 \<Rightarrow> u32 \<Rightarrow> arm_asm \<Rightarrow> asm_fault + arm_asm" where
  "arm_adr rd target_address a =
     (let a = arm_AppendRelocLabelEntry (new_arm_label target_address False) a
      in arm_Ldr rd (length (arm_labels a) - 1) a)"

text \<open>
  The condition and the link bit are read from variables of an inner block that hide the outer ones and are 0, so the first
  case is always taken.
\<close>

definition arm_branch_immediate :: "u32 \<Rightarrow> u32 \<Rightarrow> arm_asm \<Rightarrow> asm_fault + arm_asm" where
  "arm_branch_immediate instr from_pc a =
     (let cond = 0 :: u32; H = 0 :: u32;
          label = push_bit 2 (bits instr 0 23);
          target_address = from_pc + label;
          flag_link = (if cond \<noteq> 0b1111 \<and> H = 0 then False else True);
          a = EmitARMInst (instr AND 0xff000000 OR 1) a;
          a = (if flag_link then arm_b 4 (arm_bl 0 a) else arm_b 4 a)
      in bindE (arm_ldr pc_reg (arm_mem_imm pc_reg (- 4)) a) (\<lambda>a. Inr (EmitAddress target_address a)))"

definition ARMRelocateSingleInstr :: "u32 \<Rightarrow> u32 \<Rightarrow> arm_asm \<Rightarrow> asm_fault + arm_asm" where
  "ARMRelocateSingleInstr instr from_pc a =
     (let cond = bits instr 28 31; op0 = bits instr 25 27 in
      if cond \<noteq> 0b1111 \<and> op0 = 0b010 then
        (let P = bit_at instr 24; W = bit_at instr 21; rn = bits instr 16 19; o1 = bit_at instr 20; o2 = bit_at instr 22;
             P_W = push_bit 1 P OR W
         in if o1 = 1 \<and> (o2 = 0 \<or> o2 = 1) \<and> P_W \<noteq> 0b01 \<and> rn = 0b1111 then arm_load_literal instr from_pc a
            else Inr (EmitARMInst instr a))
      else if cond \<noteq> 0b1111 \<and> op0 AND 0b110 = 0 then
        (if bit_at instr 25 = 1 \<and> bits instr 23 24 AND 0b10 = 0 then
           (let opc = bits instr 21 23; S = bit_at instr 20; rn = bits instr 16 19; rd = bits instr 12 15; imm12 = bits instr 0 11
            in if opc = 0b010 \<and> S = 0 \<and> rn = 0b1111 then arm_adr rd (from_pc - imm12) a
               else if opc = 0b100 \<and> S = 0 \<and> rn = 0b1111 then arm_adr rd (from_pc + imm12) a
               else Inr (EmitARMInst instr a))
         else Inr (EmitARMInst instr a))
      else if op0 AND 0b110 = 0b100 \<and> bit_at instr 25 = 1 then arm_branch_immediate instr from_pc a
      else Inr (EmitARMInst instr a))"

section \<open>Thumb, 16 bits\<close>

definition thumb_append :: "u32 \<Rightarrow> bool \<Rightarrow> arm_asm \<Rightarrow> nat \<times> arm_asm" where
  "thumb_append data branch a = (length (thumb_labels a), thumb_AppendRelocLabelEntry (new_arm_label data branch) a)"

text \<open>
  The second result is the address at which the state changes to A32, when the instruction is \<^verbatim>\<open>bx pc\<close>. In the branch for \<^verbatim>\<open>blx\<close> the
  register variable still has its initial value 0.
\<close>

definition thumb1_special :: "u16 \<Rightarrow> u32 \<Rightarrow> arm_asm \<Rightarrow> asm_fault + (arm_asm \<times> u32 option)" where
  "thumb1_special instr from_pc a =
     (let op0 = bits instr 8 9; rs = bits instr 3 6 in
      if op0 \<noteq> 0b11 then
        (if rs = 15 then
           (let rewrite_inst = instr AND 0xff87 OR LeftShift (ucast ip_reg) 4 3; (label, a) = thumb_append from_pc False a
            in Inr (EmitInt16 rewrite_inst (T2_Ldr ip_reg label a), None))
         else Inr (EmitInt16 instr a, None))
      else
        let L = bit_at instr 7 in
        if L = 0 then
          (if rs = 15 then (let (label, a) = thumb_append from_pc True a in Inr (T2_Ldr pc_reg label a, Some from_pc))
           else Inr (EmitInt16 instr a, None))
        else
          let rm = 0 :: u32 in
          if rm = pc_reg then
            (let (label, a) = thumb_append from_pc True a
             in bindE (t2_bl 4 a) (\<lambda>a. bindE (t2_b 4 a) (\<lambda>a. Inr (T2_Ldr pc_reg label a, Some from_pc))))
          else Inr (EmitInt16 instr a, None))"

definition thumb1_load_literal :: "u16 \<Rightarrow> u32 \<Rightarrow> arm_asm \<Rightarrow> arm_asm" where
  "thumb1_load_literal instr from_pc a =
     (let offset = push_bit 2 (ucast (bits instr 0 7)) :: u32; val = (from_pc + offset) AND NOT (4 - 1);
          rt = ucast (bits instr 8 10); (label, a) = thumb_append val False a
      in t2_ldr rt (arm_mem_imm rt 0) (T2_Ldr rt label a))"

definition thumb1_adr :: "u16 \<Rightarrow> u32 \<Rightarrow> arm_asm \<Rightarrow> arm_asm" where
  "thumb1_adr instr from_pc a =
     (let rd = ucast (bits instr 8 10); imm8 = ucast (bits instr 0 7); (label, a) = thumb_append (from_pc + imm8) False a
      in T2_Ldr rd label a)"

definition thumb1_branch_cond :: "u16 \<Rightarrow> u32 \<Rightarrow> arm_asm \<Rightarrow> asm_fault + arm_asm" where
  "thumb1_branch_cond instr from_pc a =
     (if bits instr 8 11 \<ge> 0b1110 then Inl Abort_unreachable
      else
        let offset = push_bit 1 (ucast (bits instr 0 7)) :: u32; val = from_pc + offset;
            (label, a) = thumb_append (val + 1) True a;
            imm8 = 2
        in bindE (t2_b 4 (t1_nop (EmitInt16 (instr AND 0xfff0 OR imm8) a))) (\<lambda>a. Inr (T2_Ldr pc_reg label a)))"

definition thumb1_compare_branch :: "u16 \<Rightarrow> u32 \<Rightarrow> arm_asm \<Rightarrow> asm_fault + arm_asm" where
  "thumb1_compare_branch instr from_pc a =
     (let imm5 = bits instr 3 7; i = bit_at instr 9;
          offset = push_bit 6 (ucast i) OR push_bit 1 (ucast imm5) :: u32; val = from_pc + offset;
          (label, a) = thumb_append (val + 1) True a;
          imm5 = bits 2 1 5; i = bit_at 2 6
      in bindE (t2_b 0 (t1_nop (EmitInt16 (instr AND 0xfd07 OR push_bit 3 imm5 OR push_bit 9 i) a))) (\<lambda>a. Inr (T2_Ldr pc_reg label a)))"

definition thumb1_branch :: "u16 \<Rightarrow> u32 \<Rightarrow> arm_asm \<Rightarrow> arm_asm" where
  "thumb1_branch instr from_pc a =
     (let offset = push_bit 1 (ucast (bits instr 0 10)) :: u32; (label, a) = thumb_append (from_pc + offset + 1) True a
      in T2_Ldr pc_reg label a)"

definition Thumb1RelocateSingleInstr :: "u16 \<Rightarrow> u32 \<Rightarrow> arm_asm \<Rightarrow> asm_fault + (arm_asm \<times> u32 option)" where
  "Thumb1RelocateSingleInstr instr from_pc a =
     (let a = AlignThumbNop a in
      if bits instr 10 15 = 0b010001 then thumb1_special instr from_pc a
      else if instr AND 0xf800 = 0x4800 then Inr (thumb1_load_literal instr from_pc a, None)
      else if instr AND 0xf800 = 0xa000 then Inr (thumb1_adr instr from_pc a, None)
      else if instr AND 0xf000 = 0xd000 then bindE (thumb1_branch_cond instr from_pc a) (\<lambda>a. Inr (a, None))
      else if instr AND 0xf500 = 0xb100 then bindE (thumb1_compare_branch instr from_pc a) (\<lambda>a. Inr (a, None))
      else if instr AND 0xf800 = 0xe000 then Inr (thumb1_branch instr from_pc a, None)
      else Inr (EmitInt16 instr a, None))"

section \<open>Thumb, 32 bits\<close>

text \<open>The distance of the branches with the fields \<^verbatim>\<open>S\<close>, \<^verbatim>\<open>J1\<close> and \<^verbatim>\<open>J2\<close>, without the low part.\<close>

definition thumb2_branch_label :: "u16 \<Rightarrow> u16 \<Rightarrow> u32" where
  "thumb2_branch_label inst1 inst2 =
     (let S = ucast (bit_at inst1 10) :: u32; J1 = ucast (bit_at inst2 13); J2 = ucast (bit_at inst2 11);
          i1 = (if J1 XOR S = 0 then 1 else 0); i2 = (if J2 XOR S = 0 then 1 else 0); imm10 = ucast (bits inst1 0 9)
      in push_bit 24 (- S) OR push_bit 23 i1 OR push_bit 22 i2 OR push_bit 12 imm10)"

definition thumb2_b_cond :: "u16 \<Rightarrow> u16 \<Rightarrow> u32 \<Rightarrow> arm_asm \<Rightarrow> asm_fault + arm_asm" where
  "thumb2_b_cond inst1 inst2 from_pc a =
     (let S = - ucast (bit_at inst1 10) :: u32; J1 = ucast (bit_at inst2 13); J2 = ucast (bit_at inst2 11);
          imm6 = ucast (bits inst1 0 5); imm11 = ucast (bits inst2 0 10);
          label = push_bit 20 S OR push_bit 19 J2 OR push_bit 18 J1 OR push_bit 12 imm6 OR push_bit 1 imm11;
          val = from_pc + label
      in bindE (t2_b 4 (EmitInt16 (inst2 AND 0xd000 OR 2) (EmitInt16 (inst1 AND 0xffc0) a))) (\<lambda>a.
           Inr (EmitAddress (val + 1) (t2_ldr pc_reg (arm_mem_imm pc_reg 0) a))))"

definition thumb2_b :: "u16 \<Rightarrow> u16 \<Rightarrow> u32 \<Rightarrow> arm_asm \<Rightarrow> arm_asm" where
  "thumb2_b inst1 inst2 from_pc a =
     (let val = from_pc + (thumb2_branch_label inst1 inst2 OR push_bit 1 (ucast (bits inst2 0 10)))
      in EmitAddress (val + 1) (t2_ldr pc_reg (arm_mem_imm pc_reg 0) a))"

definition thumb2_bl :: "u16 \<Rightarrow> u16 \<Rightarrow> u32 \<Rightarrow> arm_asm \<Rightarrow> asm_fault + arm_asm" where
  "thumb2_bl inst1 inst2 from_pc a =
     (let val = from_pc + (push_bit 1 (ucast (bits inst2 0 10)) OR thumb2_branch_label inst1 inst2)
      in bindE (t2_bl 4 a) (\<lambda>a. bindE (t2_b 8 a) (\<lambda>a. Inr (EmitAddress (val + 1) (t2_ldr pc_reg (arm_mem_imm pc_reg 0) a)))))"

definition thumb2_blx :: "u16 \<Rightarrow> u16 \<Rightarrow> u32 \<Rightarrow> arm_asm \<Rightarrow> asm_fault + arm_asm" where
  "thumb2_blx inst1 inst2 from_pc a =
     (let val = (from_pc AND NOT (4 - 1)) + (push_bit 2 (ucast (bits inst2 1 10)) OR thumb2_branch_label inst1 inst2)
      in bindE (t2_bl 4 a) (\<lambda>a. bindE (t2_b 8 a) (\<lambda>a. Inr (EmitAddress val (t2_ldr pc_reg (arm_mem_imm pc_reg 0) a)))))"

definition thumb2_adr :: "u16 \<Rightarrow> u16 \<Rightarrow> u32 \<Rightarrow> arm_asm \<Rightarrow> asm_fault + arm_asm" where
  "thumb2_adr inst1 inst2 from_pc a =
     (let i = ucast (bit_at inst1 10) :: u32; imm3 = ucast (bits inst2 12 14); imm8 = ucast (bits inst2 0 7); rd = ucast (bits inst2 8 11);
          label = imm8 OR push_bit 8 imm3 OR push_bit 11 i;
          val = (if bit_at inst1 7 = 0 \<and> bit_at inst1 5 = 0 then from_pc + label else from_pc - label)
      in bindE (t2_b 0 (t2_ldr rd (arm_mem_imm pc_reg 4) a)) (\<lambda>a. Inr (EmitAddress val a)))"

definition thumb2_load_literal :: "u16 \<Rightarrow> u16 \<Rightarrow> u32 \<Rightarrow> arm_asm \<Rightarrow> asm_fault + arm_asm" where
  "thumb2_load_literal inst1 inst2 from_pc a =
     (let U = bit_at inst1 7; label = ucast (bits inst2 0 11) :: u32; rt = ucast (bits inst2 12 15);
          val = (if U = 1 then from_pc + label else from_pc - label) AND NOT (4 - 1)
      in bindE (t2_b 4 (t2_ldr rt (arm_mem_imm pc_reg 4) a)) (\<lambda>a. Inr (t2_ldr rt (arm_mem_imm rt 0) (EmitAddress val a))))"

definition Thumb2RelocateSingleInstr :: "u16 \<Rightarrow> u16 \<Rightarrow> u32 \<Rightarrow> arm_asm \<Rightarrow> asm_fault + arm_asm" where
  "Thumb2RelocateSingleInstr inst1 inst2 from_pc a =
     (let a = AlignThumbNop a; copy = Inr (Emit2Int16 inst1 inst2 a) in
      if inst1 AND 0xf800 = 0xf000 \<and> inst2 AND 0x8000 = 0x8000 then
        (let op1 = bits inst1 6 9; op3 = bits inst2 12 14 in
         if op1 AND 0b1110 \<noteq> 0b1110 \<and> op3 AND 0b101 = 0b000 then thumb2_b_cond inst1 inst2 from_pc a
         else if op3 AND 0b101 = 0b001 then Inr (thumb2_b inst1 inst2 from_pc a)
         else if op3 AND 0b101 = 0b101 then thumb2_bl inst1 inst2 from_pc a
         else if op3 AND 0b101 = 0b100 then thumb2_blx inst1 inst2 from_pc a
         else copy)
      else if inst1 AND 0xfa10 = 0xf200 \<and> inst2 AND 0x8000 = 0 then
        (if bit_at inst1 8 = 0 \<and> bits inst2 5 6 AND 0b10 = 0b00 then
           (let o1 = bit_at inst1 7; o2 = bit_at inst1 5; rn = bits inst1 0 3
            in if (o1 = 0 \<and> o2 = 0 \<or> o1 = 1 \<and> o2 = 1) \<and> rn = 0b1111 then thumb2_adr inst1 inst2 from_pc a else copy)
         else copy)
      else if inst1 AND 0xff7f = 0xf85f then thumb2_load_literal inst1 inst2 from_pc a
      else copy)"

section \<open>The loops\<close>

definition mem_u32 :: "(u32 \<Rightarrow> u8) \<Rightarrow> u32 \<Rightarrow> u32" where
  "mem_u32 mem a = le_word (map (\<lambda>i. mem (a + of_nat i)) [0..<4])"

text \<open>
  \<open>cursor\<close> is the distance of \<^verbatim>\<open>buffer_cursor\<close> from \<^verbatim>\<open>buffer\<close>, \<open>n\<close> the size of the range, \<open>relo_start\<close> the start of \<^verbatim>\<open>relocated\<close>. The
  local \<^verbatim>\<open>execute_state_changed_pc\<close> of the A32 loop is never set, so the loop is never left early. The results are the
  distance at the end, the assembler and the map of the instructions.
\<close>

function arm_relocate_loop ::
  "(u32 \<Rightarrow> u8) \<Rightarrow> u32 \<Rightarrow> nat \<Rightarrow> u32 \<Rightarrow> nat \<Rightarrow> u32 \<Rightarrow> u32 \<Rightarrow> arm_asm \<Rightarrow> ReloMapEntry list \<Rightarrow>
     asm_fault + (nat \<times> u32 \<times> arm_asm \<times> ReloMapEntry list)" where
  "arm_relocate_loop mem code_ptr n relo_start cursor curr_orig_pc curr_relo_pc a relo_map =
     (if cursor < n then
        bindE (ARMRelocateSingleInstr (mem_u32 mem (code_ptr + of_nat cursor)) curr_orig_pc a) (\<lambda>a'.
          let relo_map = relo_map @ [\<lparr>orig_instr = curr_orig_pc - 8, relocated_instr = curr_relo_pc - 8,
                relocated_code_len = arm_size a' - arm_size a\<rparr>]
          in arm_relocate_loop mem code_ptr n relo_start (cursor + 4) (curr_orig_pc + 4) (relo_start + 8 + word_of_int (arm_size a')) a' relo_map)
      else Inr (cursor, curr_orig_pc, a, relo_map))"
  by pat_completeness auto
termination
  by (relation "measure (\<lambda>(_, _, n, _, cursor, _). n - cursor)") auto

declare arm_relocate_loop.simps [simp del]

text \<open>A range of code: its start and its size.\<close>

type_synonym code_range = "u32 \<times> int"

definition gen_arm_relocate_code ::
  "(u32 \<Rightarrow> u8) \<Rightarrow> u32 \<Rightarrow> code_range \<Rightarrow> u32 \<Rightarrow> ReloMapEntry list \<Rightarrow> arm_asm \<Rightarrow> asm_fault + (code_range \<times> arm_asm \<times> ReloMapEntry list)" where
  "gen_arm_relocate_code mem code_ptr origin relo_start relo_map a =
     bindE (arm_relocate_loop mem code_ptr (nat (snd origin)) relo_start 0 (fst origin + 8) (relo_start + 8 + word_of_int (arm_size a)) a relo_map)
       (\<lambda>(cursor, curr_orig_pc, a, relo_map). Inr ((fst origin, sint (curr_orig_pc - fst origin - 8)), a, relo_map))"

text \<open>\<open>changed\<close> is the local \<^verbatim>\<open>execute_state_changed_pc\<close>, 0 until a \<^verbatim>\<open>bx pc\<close> is met.\<close>

function thumb_relocate_loop ::
  "(u32 \<Rightarrow> u8) \<Rightarrow> u32 \<Rightarrow> nat \<Rightarrow> u32 \<Rightarrow> nat \<Rightarrow> u32 \<Rightarrow> u32 \<Rightarrow> u32 \<Rightarrow> arm_asm \<Rightarrow> ReloMapEntry list \<Rightarrow>
     asm_fault + (nat \<times> u32 \<times> u32 \<times> arm_asm \<times> ReloMapEntry list)" where
  "thumb_relocate_loop mem code_ptr n relo_start cursor curr_orig_pc curr_relo_pc changed a relo_map =
     (if cursor < n then
        (let instr = mem_u32 mem (code_ptr + of_nat cursor); a = t1_nop a; len = (if is_thumb2 instr then 4 else 2) in
         bindE (if is_thumb2 instr then bindE (Thumb2RelocateSingleInstr (ucast instr) (ucast (drop_bit 16 instr)) curr_orig_pc a) (\<lambda>a'. Inr (a', None))
                else Thumb1RelocateSingleInstr (ucast instr) curr_orig_pc a) (\<lambda>(a', ch).
           let changed = (case ch of None \<Rightarrow> changed | Some c \<Rightarrow> c);
               relo_map = relo_map @ [\<lparr>orig_instr = curr_orig_pc - 4, relocated_instr = curr_relo_pc - 4,
                 relocated_code_len = arm_size a' - arm_size a\<rparr>];
               curr_orig_pc = curr_orig_pc + of_nat len
           in if changed \<noteq> 0 \<and> curr_orig_pc - 4 = changed then Inr (cursor + len, curr_orig_pc, changed, a', relo_map)
              else thumb_relocate_loop mem code_ptr n relo_start (cursor + len) curr_orig_pc (relo_start + 4 + word_of_int (arm_size a')) changed a' relo_map))
      else Inr (cursor, curr_orig_pc, changed, a, relo_map))"
  by pat_completeness auto
termination
  by (relation "measure (\<lambda>(_, _, n, _, cursor, _). n - cursor)") (auto split: if_splits)

declare thumb_relocate_loop.simps [simp del]

definition gen_thumb_relocate_code ::
  "(u32 \<Rightarrow> u8) \<Rightarrow> u32 \<Rightarrow> code_range \<Rightarrow> u32 \<Rightarrow> ReloMapEntry list \<Rightarrow> u32 \<Rightarrow> arm_asm \<Rightarrow>
     asm_fault + (code_range \<times> u32 \<times> arm_asm \<times> ReloMapEntry list)" where
  "gen_thumb_relocate_code mem code_ptr origin relo_start relo_map changed_pc a =
     bindE (thumb_relocate_loop mem code_ptr (nat (snd origin)) relo_start 0 (fst origin + 4) (relo_start + 4) 0 a relo_map)
       (\<lambda>(cursor, curr_orig_pc, changed, a, relo_map).
         let origin' = (fst origin, sint (curr_orig_pc - fst origin - 4))
         in if cursor < nat (snd origin) then Inr (origin', changed, a\<lparr>thumb_state := ARMExecuteState\<rparr>, relo_map)
            else Inr (origin', changed_pc, a, relo_map))"

section \<open>The fix-up of labels\<close>

fun get_orig_instr_relocated_addr :: "ReloMapEntry list \<Rightarrow> u32 \<Rightarrow> u32" where
  "get_orig_instr_relocated_addr [] orig_pc = 0"
| "get_orig_instr_relocated_addr (relo_entry # rest) orig_pc =
     (if orig_instr relo_entry = orig_pc then relocated_instr relo_entry else get_orig_instr_relocated_addr rest orig_pc)"

text \<open>The Thumb labels that no branch uses are left alone, the A32 labels are not asked.\<close>

fun fixup_labels :: "(arm_label \<Rightarrow> bool) \<Rightarrow> u32 \<Rightarrow> u32 \<Rightarrow> u32 \<Rightarrow> ReloMapEntry list \<Rightarrow> arm_label list \<Rightarrow> u8 list \<Rightarrow> asm_fault + (arm_label list \<times> u8 list)" where
  "fixup_labels used lo hi realized relo_map [] bs = Inr ([], bs)"
| "fixup_labels used lo hi realized relo_map (label # rest) bs =
     (let val = arm_data label in
      if used label \<and> val \<ge> lo \<and> val < hi then
        let label = fixup_data (get_orig_instr_relocated_addr relo_map val + realized) label
        in bindE (arm_RelocBindFixup label bs) (\<lambda>bs.
           bindE (fixup_labels used lo hi realized relo_map rest bs) (\<lambda>(rest, bs). Inr (label # rest, bs)))
      else bindE (fixup_labels used lo hi realized relo_map rest bs) (\<lambda>(rest, bs). Inr (label # rest, bs)))"

definition reloc_label_fixup :: "code_range \<Rightarrow> ReloMapEntry list \<Rightarrow> arm_asm \<Rightarrow> asm_fault + arm_asm" where
  "reloc_label_fixup origin relo_map a =
     (let lo = fst origin; hi = lo + word_of_int (snd origin) in
      bindE (fixup_labels used_for_branch lo hi (arm_address a) relo_map (thumb_labels a) (arm_code a)) (\<lambda>(ts, bs).
      bindE (fixup_labels (\<lambda>_. True) lo hi (arm_address a) relo_map (arm_labels a) bs) (\<lambda>(ls, bs).
        Inr (a\<lparr>thumb_labels := ts, arm_labels := ls, arm_code := bs\<rparr>))))"

section \<open>The whole relocation\<close>

text \<open>One round from the label \<^verbatim>\<open>relocate_remain\<close> to the jump back to it, or to the code behind.\<close>

datatype arm_round =
    Remain u32 code_range arm_asm "ReloMapEntry list"
  | Relocated bool code_range arm_asm "ReloMapEntry list"

definition arm_relocate_round :: "(u32 \<Rightarrow> u8) \<Rightarrow> u32 \<Rightarrow> u32 \<Rightarrow> code_range \<Rightarrow> arm_asm \<Rightarrow> ReloMapEntry list \<Rightarrow> asm_fault + arm_round" where
  "arm_relocate_round mem relo_start code_ptr origin a relo_map =
     (if fst origin mod 2 \<noteq> 0 then
        (let code_ptr = code_ptr - 1; aligned = fst origin - 1 in
         bindE (gen_thumb_relocate_code mem code_ptr (aligned, snd origin) relo_start relo_map 0 a) (\<lambda>(origin, changed, a, relo_map).
           if thumb_state a = ARMExecuteState \<and> changed < fst origin + word_of_int (snd origin) then
             Inr (Remain (code_ptr + (changed - aligned)) (changed, sint (fst origin + word_of_int (snd origin) - changed))
                    (if arm_size a mod 4 \<noteq> 0 then t1_nop a else a) relo_map)
           else Inr (Relocated True origin a relo_map)))
      else
        bindE (gen_arm_relocate_code mem code_ptr origin relo_start relo_map a) (\<lambda>(origin, a, relo_map).
          let changed = 0 :: u32 in
          if arm_state a = ThumbExecuteState \<and> changed < fst origin + word_of_int (snd origin) then
            Inr (Remain (code_ptr + (changed - fst origin)) (changed + 1, sint (fst origin + word_of_int (snd origin) - changed)) a relo_map)
          else Inr (Relocated False origin a relo_map)))"

partial_function (option) relocate_remain ::
  "(u32 \<Rightarrow> u8) \<Rightarrow> u32 \<Rightarrow> u32 \<Rightarrow> code_range \<Rightarrow> arm_asm \<Rightarrow> ReloMapEntry list \<Rightarrow> (asm_fault + (bool \<times> code_range \<times> arm_asm \<times> ReloMapEntry list)) option" where
  "relocate_remain mem relo_start code_ptr origin a relo_map =
     (case arm_relocate_round mem relo_start code_ptr origin a relo_map of
        Inl e \<Rightarrow> Some (Inl e)
      | Inr r \<Rightarrow> (case r of
          Remain code_ptr origin a relo_map \<Rightarrow> relocate_remain mem relo_start code_ptr origin a relo_map
        | Relocated thumb origin a relo_map \<Rightarrow> Some (Inr (thumb, origin, a, relo_map))))"

definition branch_to_rest :: "bool \<Rightarrow> u32 \<Rightarrow> arm_asm \<Rightarrow> asm_fault + arm_asm" where
  "branch_to_rest thumb rest_instr_addr a =
     (if thumb then Inr (EmitAddress (rest_instr_addr + 1) (t2_ldr pc_reg (arm_mem_imm pc_reg 0) (AlignThumbNop a)))
      else arm_LiteralLdrBranch rest_instr_addr a)"

text \<open>
  \<open>chunk\<close> gives the address of the memory for a size, 0 when there is none; \<open>origin\<close> is the range of the overwritten code. The result
  holds the bytes that are put there and the range of \<^verbatim>\<open>relocated\<close>.
\<close>

definition arm_GenRelocateCodeAndBranch ::
  "(u32 \<Rightarrow> u8) \<Rightarrow> (int \<Rightarrow> u32) \<Rightarrow> u32 \<Rightarrow> code_range \<Rightarrow> code_range \<Rightarrow> (asm_fault + (u8 list \<times> code_range) option) option" where
  "arm_GenRelocateCodeAndBranch mem chunk code_ptr origin relocated =
     (let entry_is_thumb = fst origin mod 2 \<noteq> 0;
          origin' = (if entry_is_thumb then (fst origin - 1, snd origin) else origin)
      in map_option (\<lambda>res.
           bindE res (\<lambda>(thumb, rest, a, relo_map).
           bindE (branch_to_rest thumb (fst rest + word_of_int (snd rest)) a) (\<lambda>a.
           bindE (thumb_RelocBind a) (\<lambda>a.
           bindE (arm_RelocBind a) (\<lambda>a.
             let address = chunk (arm_size a) in
             if address = 0 then Inr None
             else bindE (reloc_label_fixup origin' relo_map (a\<lparr>arm_address := address\<rparr>)) (\<lambda>a.
                    Inr (Some (arm_code a, (if entry_is_thumb then address + 1 else address, arm_size a)))))))))
         (relocate_remain mem (fst relocated) code_ptr origin (new_arm_asm 0) []))"

end
