(* ===== verification/Arm32Isa.thy ===== *)
theory Arm32Isa
  imports Arm32Relocation
begin

text \<open>
  The part of the A32 and T32 instruction sets that the code generated for the 32-bit target uses, written from the
  encoding tables of the architecture and independent of the assembler: decoders for the three formats, the
  effect of an instruction, and steps on a machine with both instruction sets. A load into the program counter takes
  the instruction set from bit 0. Instructions outside of this part have no step.
\<close>

section \<open>Instructions\<close>

definition sext32 :: "nat \<Rightarrow> u32 \<Rightarrow> u32" where
  "sext32 n w = signed_take_bit (n - 1) w"

text \<open>\<open>I_LDR\<close> has the register loaded, the base and the offset; the base 15 is the aligned program counter.\<close>

datatype insn32 =
    I_LDR u32 u32 u32 | I_B u32 | I_BL u32 | I_BLX u32 | I_Bcond u32 u32 | I_CB bool u32 u32 | I_NOP | I_other

definition signed_offset :: "bool \<Rightarrow> u32 \<Rightarrow> u32" where
  "signed_offset up imm = (if up then imm else - imm)"

text \<open>An A32 instruction without its condition.\<close>

definition a32_decode :: "u32 \<Rightarrow> insn32" where
  "a32_decode w =
     (if w AND 0x0f700000 = 0x05100000
      then I_LDR (bits w 12 15) (bits w 16 19) (signed_offset (bit w 23) (take_bit 12 w))
      else if w AND 0x0e000000 = 0x0a000000
      then (if bit w 24 then I_BL else I_B) (sext32 26 (push_bit 2 (take_bit 24 w)))
      else I_other)"

text \<open>A halfword starts a 32-bit instruction of T32 when its top five bits are 29 or more.\<close>

definition t32_wide :: "u16 \<Rightarrow> bool" where
  "t32_wide h \<longleftrightarrow> 29 \<le> drop_bit 11 h"

definition t16_decode :: "u16 \<Rightarrow> insn32" where
  "t16_decode h =
     (if h = 0xbf00 then I_NOP
      else if h AND 0xf000 = 0xd000 \<and> bits h 8 11 < 14
      then I_Bcond (ucast (bits h 8 11)) (sext32 9 (push_bit 1 (ucast (take_bit 8 h))))
      else if h AND 0xf800 = 0xe000 then I_B (sext32 12 (push_bit 1 (ucast (take_bit 11 h))))
      else if h AND 0xf500 = 0xb100
      then I_CB (bit h 11) (ucast (take_bit 3 h)) (push_bit 6 (ucast (bit_at h 9)) OR push_bit 1 (ucast (bits h 3 7)))
      else I_other)"

text \<open>The distance of the long branches: 25 bits, of which two are stored as their agreement with the sign.\<close>

definition t32_long_offset :: "u16 \<Rightarrow> u16 \<Rightarrow> u32 \<Rightarrow> u32" where
  "t32_long_offset h1 h2 low =
     sext32 25 (push_bit 24 (ucast (bit_at h1 10)) OR push_bit 23 (1 XOR ucast (bit_at h2 13) XOR ucast (bit_at h1 10)) OR
       push_bit 22 (1 XOR ucast (bit_at h2 11) XOR ucast (bit_at h1 10)) OR push_bit 12 (ucast (take_bit 10 h1)) OR low)"

definition t32_decode :: "u16 \<Rightarrow> u16 \<Rightarrow> insn32" where
  "t32_decode h1 h2 =
     (if h1 AND 0xf800 = 0xf000 \<and> h2 AND 0xd000 = 0x8000 \<and> bits h1 6 9 < 14
      then I_Bcond (ucast (bits h1 6 9))
             (sext32 21 (push_bit 20 (ucast (bit_at h1 10)) OR push_bit 19 (ucast (bit_at h2 11)) OR push_bit 18 (ucast (bit_at h2 13)) OR
                push_bit 12 (ucast (take_bit 6 h1)) OR push_bit 1 (ucast (take_bit 11 h2))))
      else if h1 AND 0xf800 = 0xf000 \<and> h2 AND 0xd000 = 0x9000
      then I_B (t32_long_offset h1 h2 (push_bit 1 (ucast (take_bit 11 h2))))
      else if h1 AND 0xf800 = 0xf000 \<and> h2 AND 0xd000 = 0xd000
      then I_BL (t32_long_offset h1 h2 (push_bit 1 (ucast (take_bit 11 h2))))
      else if h1 AND 0xf800 = 0xf000 \<and> h2 AND 0xd001 = 0xc000
      then I_BLX (t32_long_offset h1 h2 (push_bit 2 (ucast (bits h2 1 10))))
      else if h1 AND 0xff7f = 0xf85f
      then I_LDR (ucast (bits h2 12 15)) 15 (signed_offset (bit h1 7) (ucast (take_bit 12 h2)))
      else if h1 AND 0xfff0 = 0xf8d0
      then I_LDR (ucast (bits h2 12 15)) (ucast (take_bit 4 h1)) (ucast (take_bit 12 h2))
      else I_other)"

section \<open>Steps\<close>

text \<open>Of the flags the machine holds which conditions they make true.\<close>

record cpu =
  c_reg :: "u32 \<Rightarrow> u32"
  c_pc :: u32
  c_thumb :: bool
  c_cond :: "u32 \<Rightarrow> bool"
  c_mem :: "u32 \<Rightarrow> u8"

definition c_bytes :: "cpu \<Rightarrow> u32 \<Rightarrow> nat \<Rightarrow> u8 list" where
  "c_bytes s a n = map (\<lambda>i. c_mem s (a + of_nat i)) [0..<n]"

definition c_word :: "cpu \<Rightarrow> u32 \<Rightarrow> u32" where "c_word s a = le_word (c_bytes s a 4)"
definition c_half :: "cpu \<Rightarrow> u32 \<Rightarrow> u16" where "c_half s a = le_word (c_bytes s a 2)"

definition jump :: "u32 \<Rightarrow> cpu \<Rightarrow> cpu" where
  "jump a s = s\<lparr>c_pc := a\<rparr>"

definition set_r :: "u32 \<Rightarrow> u32 \<Rightarrow> cpu \<Rightarrow> cpu" where
  "set_r r v s = s\<lparr>c_reg := (c_reg s)(r := v)\<rparr>"

definition interwork :: "u32 \<Rightarrow> cpu \<Rightarrow> cpu option" where
  "interwork v s =
     (if bit v 0 then Some (s\<lparr>c_pc := v AND NOT 1, c_thumb := True\<rparr>)
      else if bit v 1 then None else Some (s\<lparr>c_pc := v, c_thumb := False\<rparr>))"

text \<open>The program counter as an instruction reads it, and the address that a call leaves in register 14.\<close>

definition pc_value :: "cpu \<Rightarrow> u32" where
  "pc_value s = c_pc s + (if c_thumb s then 4 else 8)"

definition return_address :: "cpu \<Rightarrow> u32" where
  "return_address s = (if c_thumb s then (c_pc s + 4) OR 1 else c_pc s + 4)"

fun insn_exec :: "u32 \<Rightarrow> insn32 \<Rightarrow> cpu \<Rightarrow> cpu option" where
  "insn_exec len (I_LDR rt rn off) s =
     (let a = (if rn = 15 then pc_value s AND NOT 3 else c_reg s rn) + off
      in if rt = 15 then interwork (c_word s a) s else Some (jump (c_pc s + len) (set_r rt (c_word s a) s)))"
| "insn_exec len (I_B off) s = Some (jump (pc_value s + off) s)"
| "insn_exec len (I_BL off) s = Some (jump (pc_value s + off) (set_r 14 (return_address s) s))"
| "insn_exec len (I_BLX off) s =
     Some ((jump ((pc_value s AND NOT 3) + off) (set_r 14 (return_address s) s))\<lparr>c_thumb := \<not> c_thumb s\<rparr>)"
| "insn_exec len (I_Bcond c off) s = Some (jump (if c_cond s c then pc_value s + off else c_pc s + len) s)"
| "insn_exec len (I_CB nz rn off) s = Some (jump (if (c_reg s rn \<noteq> 0) = nz then pc_value s + off else c_pc s + len) s)"
| "insn_exec len I_NOP s = Some (jump (c_pc s + len) s)"
| "insn_exec len I_other s = None"

definition a32_step :: "cpu \<Rightarrow> cpu option" where
  "a32_step s =
     (let w = c_word s (c_pc s); c = bits w 28 31
      in if c = 15 then None
         else if c = 14 \<or> c_cond s c then insn_exec 4 (a32_decode w) s
         else Some (jump (c_pc s + 4) s))"

definition t32_step :: "cpu \<Rightarrow> cpu option" where
  "t32_step s =
     (let h = c_half s (c_pc s)
      in if t32_wide h then insn_exec 4 (t32_decode h (c_half s (c_pc s + 2))) s else insn_exec 2 (t16_decode h) s)"

definition cpu_step :: "cpu \<Rightarrow> cpu option" where
  "cpu_step s = (if c_thumb s then t32_step s else a32_step s)"

primrec cpu_run :: "nat \<Rightarrow> cpu \<Rightarrow> cpu option" where
  "cpu_run 0 s = Some s"
| "cpu_run (Suc n) s = (case cpu_step s of None \<Rightarrow> None | Some s' \<Rightarrow> cpu_run n s')"

section \<open>Code in memory\<close>

definition c_code :: "cpu \<Rightarrow> u32 \<Rightarrow> u8 list \<Rightarrow> bool" where
  "c_code s a bs \<longleftrightarrow> c_bytes s a (length bs) = bs"

lemma c_bytes_append: "c_bytes s a (m + n) = c_bytes s a m @ c_bytes s (a + of_nat m) n"
proof -
  have "map (\<lambda>i. c_mem s (a + of_nat i)) [m..<m + n] = c_bytes s (a + of_nat m) n"
    by (rule nth_equalityI) (simp_all add: c_bytes_def add.assoc)
  then show ?thesis unfolding c_bytes_def by (subst upt_add_eq_append [of 0 m n]) simp_all
qed

lemma length_c_bytes [simp]: "length (c_bytes s a n) = n"
  by (simp add: c_bytes_def)

lemma c_code_append [simp]: "c_code s a (xs @ ys) \<longleftrightarrow> c_code s a xs \<and> c_code s (a + of_nat (length xs)) ys"
  by (auto simp: c_code_def c_bytes_append)

lemma c_code_Nil [simp]: "c_code s a []"
  by (simp add: c_code_def c_bytes_def)

lemma c_code_steps [simp]:
  "c_code (s\<lparr>c_pc := p\<rparr>) a bs = c_code s a bs" "c_code (s\<lparr>c_thumb := t\<rparr>) a bs = c_code s a bs"
  "c_code (jump p s) a bs = c_code s a bs" "c_code (set_r r v s) a bs = c_code s a bs"
  by (simp_all add: c_code_def c_bytes_def jump_def set_r_def)

lemma step_fields [simp]:
  "c_pc (jump p s) = p" "c_thumb (jump p s) = c_thumb s" "c_reg (jump p s) = c_reg s" "c_mem (jump p s) = c_mem s"
  "c_cond (jump p s) = c_cond s" "c_pc (set_r r v s) = c_pc s" "c_thumb (set_r r v s) = c_thumb s"
  "c_reg (set_r r v s) = (c_reg s)(r := v)" "c_mem (set_r r v s) = c_mem s" "c_cond (set_r r v s) = c_cond s"
  by (simp_all add: jump_def set_r_def)

lemma c_word_code: "c_code s a (le_bytes 4 w) \<Longrightarrow> c_word s a = w"
  by (simp add: c_code_def c_word_def le_word_le_bytes)

lemma c_half_code: "c_code s a (le_bytes 2 h) \<Longrightarrow> c_half s a = h"
  by (simp add: c_code_def c_half_def le_word_le_bytes)

lemma a32_step_code:
  "\<lbrakk>\<not> c_thumb s; c_code s (c_pc s) (le_bytes 4 w); bits w 28 31 = 14\<rbrakk> \<Longrightarrow> cpu_step s = insn_exec 4 (a32_decode w) s"
  by (simp add: cpu_step_def a32_step_def c_word_code)

lemma t32_step_wide:
  "\<lbrakk>c_thumb s; c_code s (c_pc s) (le_bytes 2 h1 @ le_bytes 2 h2); t32_wide h1\<rbrakk> \<Longrightarrow> cpu_step s = insn_exec 4 (t32_decode h1 h2) s"
  using c_half_code [of s "c_pc s" h1] c_half_code [of s "c_pc s + 2" h2] by (simp add: cpu_step_def t32_step_def)

lemma t32_step_narrow:
  "\<lbrakk>c_thumb s; c_code s (c_pc s) (le_bytes 2 h); \<not> t32_wide h\<rbrakk> \<Longrightarrow> cpu_step s = insn_exec 2 (t16_decode h) s"
  by (simp add: cpu_step_def t32_step_def c_half_code)

section \<open>Alignment and interworking\<close>

text \<open>Alignment to words, by the two lowest bits.\<close>

lemma mod_4: "(a :: u32) mod 4 = take_bit 2 a"
  by (simp add: take_bit_eq_mod)

lemma take_2_add_int: "take_bit 2 b = 0 \<Longrightarrow> take_bit 2 (a + b) = take_bit 2 (a :: int)"
  using take_bit_add [of 2 a b] by simp

lemma take_2_add: "take_bit 2 b = 0 \<Longrightarrow> take_bit 2 (a + b) = take_bit 2 (a :: u32)"
  by transfer (simp add: take_2_add_int)

lemma take_2_mult: "take_bit 2 (4 * a) = (0 :: u32)"
proof -
  have "4 * a = push_bit 2 a" by (simp add: push_bit_eq_mult)
  then show ?thesis by (simp add: take_bit_push_bit)
qed

lemma take_2_bits: "take_bit 2 (a :: u32) = 0 \<longleftrightarrow> \<not> bit a 0 \<and> \<not> bit a 1"
proof -
  have "take_bit 2 a = 0 \<longleftrightarrow> (\<forall>k < 2. \<not> bit a k)"
    by (auto simp: bit_eq_iff bit_take_bit_iff)
  then show ?thesis by (auto simp: numeral_2_eq_2 All_less_Suc)
qed

lemma word_aligned: "take_bit 2 (a :: u32) = 0 \<Longrightarrow> a AND NOT 3 = a"
proof -
  assume low: "take_bit 2 a = 0"
  have m: "(3 :: u32) = mask 2" by (simp add: mask_eq_exp_minus_1)
  show "a AND NOT 3 = a"
    unfolding m
  proof (rule bit_word_eqI)
    fix k assume "k < LENGTH(32)"
    then show "bit (a AND NOT (mask 2)) k = bit a k"
      using low unfolding take_2_bits by (cases "k < 2") (auto simp: bit_simps less_2_cases_iff)
  qed
qed

lemma take_2_sum: "take_bit 2 (a + b) = take_bit 2 (take_bit 2 a + take_bit 2 (b :: u32))"
proof -
  have int: "take_bit 2 (a + b) = take_bit 2 (take_bit 2 a + take_bit 2 (b :: int))" for a b
    by (simp add: take_bit_add)
  show ?thesis by transfer (use int in simp)
qed

lemma take_2_even:
  assumes "\<not> bit (a :: u32) 0"
  shows "take_bit 2 a = (if bit a 1 then 2 else 0)"
proof (rule bit_word_eqI)
  fix k show "bit (take_bit 2 a) k = bit (if bit a 1 then 2 else 0 :: u32) k"
    using assms by (cases "k < 2") (auto simp: bit_take_bit_iff less_2_cases_iff bit_2_iff)
qed

lemma clear_bit_0:
  assumes "\<not> bit (a :: u32) 0"
  shows "a AND NOT 1 = a"
proof (rule bit_word_eqI)
  fix k assume "k < LENGTH(32)"
  then show "bit (a AND NOT 1) k = bit a k"
    using assms by (cases k) (auto simp: bit_simps bit_1_iff)
qed

lemma not_bit_0: "\<not> bit ((a :: u32) AND NOT 1) 0"
  by (simp add: bit_simps)

lemma interwork_defined:
  fixes to :: u32
  assumes "to mod 4 \<noteq> 2"
  shows "interwork to s = Some (s\<lparr>c_pc := to AND NOT 1, c_thumb := bit to 0\<rparr>)"
proof (cases "bit to 0")
  case True
  then show ?thesis by (simp add: interwork_def)
next
  case False
  then have "\<not> bit to 1" using assms take_2_even [of to] by (auto simp: mod_4)
  then show ?thesis using False clear_bit_0 [of to] by (simp add: interwork_def)
qed

lemma interwork_odd:
  fixes v :: u32
  assumes "\<not> bit v 0"
  shows "interwork (v + 1) s = Some (s\<lparr>c_pc := v, c_thumb := True\<rparr>)"
proof -
  have "v + 1 = v OR 1"
    by (rule disjunctive_add) (use assms in \<open>auto simp: bit_1_iff intro: gr0I\<close>)
  moreover have "(v OR 1) AND NOT 1 = v"
  proof (rule bit_word_eqI)
    fix k assume "k < LENGTH(32)"
    then show "bit ((v OR 1) AND NOT 1) k = bit v k" using assms by (cases k) (auto simp: bit_simps bit_1_iff)
  qed
  moreover have "bit (v OR 1) 0" by (simp add: bit_simps bit_1_iff)
  ultimately show ?thesis by (simp add: interwork_def)
qed

lemma interwork_aligned: "take_bit 2 v = 0 \<Longrightarrow> interwork v s = Some (s\<lparr>c_pc := v, c_thumb := False\<rparr>)"
  by (simp add: interwork_def take_2_bits)

text \<open>The loads of the program counter and the filler that the generators use.\<close>

lemma decoded_words:
  "a32_decode 0xe51ff004 = I_LDR 15 15 (- 4)" "t32_decode 0xf85f 0xf000 = I_LDR 15 15 0" "t16_decode 0xbf00 = I_NOP"
  "t32_wide 0xf85f" "\<not> t32_wide 0xbf00" "bits (0xe51ff004 :: u32) 28 31 = 14"
  by code_simp+

lemma run_a32_load_pc:
  assumes "\<not> c_thumb s" and "c_code s (c_pc s) (le_bytes 4 (0xe51ff004 :: u32) @ le_bytes 4 to)" and "take_bit 2 (c_pc s) = 0"
  shows "cpu_step s = interwork to s"
proof -
  have "cpu_step s = insn_exec 4 (I_LDR 15 15 (- 4)) s"
    using a32_step_code [of s "0xe51ff004"] assms(1,2) by (simp add: decoded_words)
  moreover have "(c_pc s + 8) AND NOT 3 = c_pc s + 8"
    by (rule word_aligned) (simp add: take_2_add assms(3))
  ultimately show ?thesis
    using assms(1,2) c_word_code [of s "c_pc s + 4" to] by (simp add: pc_value_def add.commute)
qed

lemma run_t32_load_pc:
  assumes "c_thumb s" and "c_code s (c_pc s) (le_bytes 2 (0xf85f :: u16) @ le_bytes 2 (0xf000 :: u16) @ le_bytes 4 to)" and "take_bit 2 (c_pc s) = 0"
  shows "cpu_step s = interwork to s"
proof -
  have "cpu_step s = insn_exec 4 (I_LDR 15 15 0) s"
    using t32_step_wide [of s "0xf85f" "0xf000"] assms(1,2) by (simp add: decoded_words)
  moreover have "(c_pc s + 4) AND NOT 3 = c_pc s + 4"
    by (rule word_aligned) (simp add: take_2_add assms(3))
  ultimately show ?thesis
    using assms(1,2) c_word_code [of s "c_pc s + 4" to] by (simp add: pc_value_def add.commute)
qed

lemma run_t32_nop:
  assumes "c_thumb s" and "c_code s (c_pc s) (le_bytes 2 (0xbf00 :: u16))"
  shows "cpu_step s = Some (jump (c_pc s + 2) s)"
  using t32_step_narrow [OF assms] by (simp add: decoded_words)

end
