(* ===== verification/Arm32Layout.thy ===== *)
theory Arm32Layout
  imports Arm32Isa
begin

text \<open>
  The relocation of A32 code as a whole: the relocator with its labels, the binding and the fix-up produces the words of a
  reference layout, and the layout does what the code did. The instructions covered are those that do not read
  the program counter in one of the ways the relocator knows, and the unconditional literal loads of a word.
\<close>

section \<open>The reference layout\<close>

text \<open>Literal loads, \<^verbatim>\<open>ADR\<close> and branches are what the relocator rewrites.\<close>

definition a32_plain :: "u32 \<Rightarrow> bool" where
  "a32_plain w \<longleftrightarrow> w AND 0x0e1f0000 \<noteq> 0x041f0000 \<and> w AND 0x0fff0000 \<noteq> 0x024f0000 \<and> w AND 0x0fff0000 \<noteq> 0x028f0000 \<and>
     w AND 0x0e000000 \<noteq> 0x0a000000"

definition a32_load :: "u32 \<Rightarrow> bool" where
  "a32_load w \<longleftrightarrow> w AND 0xff7f0000 = 0xe51f0000 \<and> bits w 12 15 \<noteq> 15"

definition literal_of :: "u32 \<Rightarrow> u32 \<Rightarrow> u32" where
  "literal_of w pc = pc + 8 + signed_offset (bit w 23) (take_bit 12 w)"

definition load_link :: "u32 \<Rightarrow> u32 \<Rightarrow> u32" where
  "load_link rt d = 0xe59f0000 OR push_bit 12 rt OR d"

definition load_through :: "u32 \<Rightarrow> u32" where
  "load_through rt = 0xe5900000 OR push_bit 12 rt OR push_bit 16 rt"

definition frag32 :: "u32 \<Rightarrow> u32 list" where
  "frag32 w = (if a32_load w then [load_link (bits w 12 15) 0, load_through (bits w 12 15)] else [w])"

definition frags32 :: "u32 list \<Rightarrow> u32 list" where
  "frags32 ws = concat (map frag32 ws)"

text \<open>The loads that wait for a literal, by the index of their word in the new code, with the address they want.\<close>

fun lits32 :: "nat \<Rightarrow> u32 \<Rightarrow> u32 list \<Rightarrow> (nat \<times> u32) list" where
  "lits32 j pc [] = []"
| "lits32 j pc (w # ws) = (if a32_load w then [(j, literal_of w pc)] else []) @ lits32 (j + length (frag32 w)) (pc + 4) ws"

definition link_word :: "u32 \<Rightarrow> int \<Rightarrow> u32" where
  "link_word w d = w AND 0xfffff000 OR word_of_int d"

fun bind_words :: "(nat \<times> u32) list \<Rightarrow> u32 list \<Rightarrow> u32 list" where
  "bind_words [] cs = cs"
| "bind_words ((j, d) # ls) cs = bind_words ls (cs[j := link_word (cs ! j) (4 * int (length cs) - 4 * int j - 8)] @ [d])"

definition code32 :: "u32 list \<Rightarrow> u8 list" where
  "code32 cs = concat (map (le_bytes 4) cs)"

lemma code32_simps [simp]:
  "code32 [] = []" "code32 (c # cs) = le_bytes 4 c @ code32 cs" "code32 (cs @ ds) = code32 cs @ code32 ds" "length (code32 cs) = 4 * length cs"
proof -
  show "length (code32 cs) = 4 * length cs" by (induction cs) (simp_all add: code32_def)
qed (simp_all add: code32_def)

lemma frags32_simps [simp]: "frags32 [] = []" "frags32 (w # ws) = frag32 w @ frags32 ws" "frags32 (vs @ ws) = frags32 vs @ frags32 ws"
  by (simp_all add: frags32_def)

section \<open>Fields\<close>

lemma bits_and_mask: "drop_bit st m AND submask (fn - st) = submask (fn - st) \<Longrightarrow> bits (w AND m) st fn = bits w st fn"
  for w m :: u32
  by (simp add: bits_def drop_bit_and and.assoc)

lemma bit_at_and_mask: "drop_bit st m AND 1 = 1 \<Longrightarrow> bit_at (w AND m) st = bit_at w st" for w m :: u32
  by (simp add: bit_at_def drop_bit_and and.assoc)

lemma or_masks: "(a OR b) AND m = (a AND m) OR (b AND m :: u32)" "bits (a OR b :: u32) st fn = bits a st fn OR bits b st fn"
  by (rule bit_word_eqI; auto simp: bit_simps field_bit_simps)+

lemma load_fields:
  assumes "a32_load w"
  shows "bits w 28 31 = 14" "bits w 25 27 = 2" "bit_at w 24 = 1" "bit_at w 22 = 0" "bit_at w 21 = 0" "bit_at w 20 = 1" "bits w 16 19 = 15"
    "w AND 0x0f700000 = 0x05100000"
proof -
  have w: "w AND 0xff7f0000 = 0xe51f0000" using assms by (simp add: a32_load_def)
  have b: "bits w st fn = bits 0xe51f0000 st fn" if "drop_bit st 0xff7f0000 AND submask (fn - st) = (submask (fn - st) :: u32)" for st fn
    using bits_and_mask [OF that, of w] w by simp
  have c: "bit_at w st = bit_at 0xe51f0000 st" if "drop_bit st 0xff7f0000 AND 1 = (1 :: u32)" for st
    using bit_at_and_mask [OF that, of w] w by simp
  show "bits w 28 31 = 14" "bits w 25 27 = 2" "bit_at w 24 = 1" "bit_at w 22 = 0" "bit_at w 21 = 0" "bit_at w 20 = 1" "bits w 16 19 = 15"
    by (simp_all add: b c submask_def) (simp_all add: bits_def bit_at_def submask_def)
  have "w AND 0x0f700000 = (w AND 0xff7f0000) AND 0x0f700000" by (simp add: and.assoc)
  then show "w AND 0x0f700000 = 0x05100000" unfolding w by simp
qed

lemma bit_20: "bit (1048576 :: int) k = (k = 20)"
proof -
  have "bit ((2 :: int) ^ 20) k = (k = 20)" unfolding bit_exp_iff by (simp add: eq_commute)
  then show ?thesis by simp
qed

lemma bit_2: "bit (2 :: int) k = (k = 1)"
  by (cases k) (auto simp: bit_Suc bit_1_iff)

lemma bit_6: "bit (6 :: int) k = (k = 1 \<or> k = 2)"
proof (cases k)
  case (Suc n)
  then show ?thesis by (cases n) (auto simp: bit_Suc bit_1_iff)
qed simp

lemma plain_fields:
  assumes "a32_plain w"
  shows "bits w 25 27 = 2 \<Longrightarrow> bit_at w 20 = 1 \<Longrightarrow> bits w 16 19 \<noteq> 15"
    and "bits w 25 27 AND 6 = 4 \<Longrightarrow> bit_at w 25 \<noteq> 1"
    and "bits w 25 27 AND 6 = 0 \<Longrightarrow> bit_at w 25 = 1 \<Longrightarrow> bits w 23 24 AND 2 = 0 \<Longrightarrow> bit_at w 20 = 0 \<Longrightarrow> bits w 16 19 = 15 \<Longrightarrow>
           bits w 21 23 \<noteq> 2 \<and> bits w 21 23 \<noteq> 4"
proof -
  have m: "(0x0e1f0000 :: u32) = push_bit 25 (mask 3) OR push_bit 20 1 OR push_bit 16 (mask 4)"
    "(0x0e000000 :: u32) = push_bit 25 (mask 3)" "(0x0fff0000 :: u32) = push_bit 16 (mask 12)"
    by code_simp+
  have "w AND 0x0e1f0000 = push_bit 25 (bits w 25 27) OR push_bit 20 (bit_at w 20) OR push_bit 16 (bits w 16 19)"
    unfolding m(1) by (rule bit_word_eqI) (auto simp: bit_simps field_bit_simps bit_1_iff bit_20)
  then show "bits w 25 27 = 2 \<Longrightarrow> bit_at w 20 = 1 \<Longrightarrow> bits w 16 19 \<noteq> 15" using assms by (auto simp: a32_plain_def)
  define x where "x = bits w 25 27 AND 6"
  define y where "y = bits w 23 24 AND 2"
  have x: "bit x k \<longleftrightarrow> (k = 1 \<or> k = 2) \<and> bit w (25 + k)" for k
    unfolding x_def by (auto simp: bit_simps field_bit_simps bit_6)
  have y: "bit y k \<longleftrightarrow> k = 1 \<and> bit w 24" for k
    unfolding y_def by (auto simp: bit_simps field_bit_simps bit_2)
  have "w AND 0x0e000000 = push_bit 25 x OR push_bit 25 (bit_at w 25)"
  proof (rule bit_word_eqI)
    fix k assume k: "k < LENGTH(32)"
    have c: "bit (w AND 0x0e000000) k = (bit w k \<and> 25 \<le> k \<and> k < 28)"
      unfolding m(2) using k by (auto simp: bit_simps)
    have "k < 25 \<or> k \<in> {25, 26, 27} \<or> 28 \<le> k" by auto
    then show "bit (w AND 0x0e000000) k = bit (push_bit 25 x OR push_bit 25 (bit_at w 25)) k"
      using k unfolding c by (auto simp: bit_or_iff bit_push_bit_iff field_bit_simps x)
  qed
  then show "bits w 25 27 AND 6 = 4 \<Longrightarrow> bit_at w 25 \<noteq> 1" using assms by (auto simp: a32_plain_def x_def [symmetric])
  have "w AND 0x0fff0000 = push_bit 25 x OR push_bit 25 (bit_at w 25) OR push_bit 23 y OR
      push_bit 21 (bits w 21 23) OR push_bit 20 (bit_at w 20) OR push_bit 16 (bits w 16 19)"
  proof (rule bit_word_eqI)
    fix k assume k: "k < LENGTH(32)"
    have c: "bit (w AND 0x0fff0000) k = (bit w k \<and> 16 \<le> k \<and> k < 28)"
      unfolding m(3) using k by (auto simp: bit_simps)
    have "k < 16 \<or> k = 16 \<or> k = 17 \<or> k = 18 \<or> k = 19 \<or> k = 20 \<or> k = 21 \<or> k = 22 \<or> k = 23 \<or> k = 24 \<or> k = 25 \<or> k = 26 \<or> k = 27 \<or> 28 \<le> k" by presburger
    then show "bit (w AND 0x0fff0000) k = bit (push_bit 25 x OR push_bit 25 (bit_at w 25) OR push_bit 23 y OR
      push_bit 21 (bits w 21 23) OR push_bit 20 (bit_at w 20) OR push_bit 16 (bits w 16 19)) k"
      using k unfolding c by (elim disjE) (auto simp: bit_or_iff bit_push_bit_iff field_bit_simps x y)
  qed
  then show "bits w 25 27 AND 6 = 0 \<Longrightarrow> bit_at w 25 = 1 \<Longrightarrow> bits w 23 24 AND 2 = 0 \<Longrightarrow> bit_at w 20 = 0 \<Longrightarrow> bits w 16 19 = 15 \<Longrightarrow>
           bits w 21 23 \<noteq> 2 \<and> bits w 21 23 \<noteq> 4"
    using assms by (auto simp: a32_plain_def x_def [symmetric] y_def [symmetric])
qed

section \<open>What the relocator emits\<close>

lemma plain_copied: "a32_plain w \<Longrightarrow> ARMRelocateSingleInstr w pc a = Inr (EmitARMInst w a)"
  using plain_fields [of w] by (auto simp: ARMRelocateSingleInstr_def Let_def)

lemma ldr_words:
  "arm_ldr rt (arm_mem_imm pc_reg 0) a = Inr (EmitARMInst (load_link rt 0) a)"
  "arm_ldr rt (arm_mem_imm rt 0) a = Inr (EmitARMInst (load_through rt) a)"
  by (simp_all add: arm_ldr_def arm_load_store_def load_store_word_def arm_encode_mem_def arm_mem_imm_def pc_reg_def cond_AL_def
      load_link_def load_through_def ac_simps bits_def submask_def)

definition lit_label :: "nat \<times> u32 \<Rightarrow> arm_label" where
  "lit_label = (\<lambda>(j, d). \<lparr>label_pos = 0, near_link_pos = 0, confused = [4 * int j], arm_data = d, used_for_branch = False\<rparr>)"

lemma literal_target: "(if bit_at w 23 = 1 then pc + bits w 0 11 else pc - bits w 0 11) = pc + signed_offset (bit w 23) (take_bit 12 w)"
  for w :: u32
proof -
  have "bit_at w 23 = of_bool (bit w 23)" by (rule bit_word_eqI) (auto simp: bit_at_def bit_simps bit_1_iff)
  moreover have "bits w 0 11 = take_bit 12 w" by (rule bit_word_eqI) (auto simp: field_bit_simps bit_simps)
  ultimately show ?thesis by (simp add: signed_offset_def)
qed

lemma load_relocated:
  assumes "a32_load w" and "arm_code a = code32 cs"
  shows "ARMRelocateSingleInstr w (pc + 8) a =
    Inr (a\<lparr>arm_code := code32 (cs @ frag32 w), arm_labels := arm_labels a @ [lit_label (length cs, literal_of w pc)]\<rparr>)"
proof -
  have "ARMRelocateSingleInstr w (pc + 8) a = arm_load_literal w (pc + 8) a"
    by (simp add: ARMRelocateSingleInstr_def Let_def load_fields [OF assms(1)])
  moreover have "bits w 12 15 \<noteq> pc_reg" using assms(1) by (simp add: a32_load_def pc_reg_def)
  ultimately show ?thesis
    using assms
    by (simp add: arm_load_literal_def Let_def literal_target arm_AppendRelocLabelEntry_def new_arm_label_def arm_Ldr_def is_bound_def arm_link_to_def
        ldr_words EmitARMInst_def arm_size_def frag32_def lit_label_def literal_of_def)
qed

lemma word_relocated:
  assumes "a32_plain w \<or> a32_load w" and "arm_code a = code32 cs"
  shows "ARMRelocateSingleInstr w (pc + 8) a =
    Inr (a\<lparr>arm_code := code32 (cs @ frag32 w), arm_labels := arm_labels a @ map lit_label (if a32_load w then [(length cs, literal_of w pc)] else [])\<rparr>)"
  using assms load_relocated [of w a cs pc] plain_copied [of w "pc + 8" a]
  by (cases "a32_load w") (simp_all add: frag32_def EmitARMInst_def)

lemma loop_relocated:
  assumes "list_all (\<lambda>w. a32_plain w \<or> a32_load w) ws" and "\<forall>i < length ws. mem_u32 mem (code_ptr + of_nat (cursor + 4 * i)) = ws ! i"
    and "n = cursor + 4 * length ws" and "arm_code a = code32 cs"
  shows "\<exists>m. arm_relocate_loop mem code_ptr n start cursor (pc + 8) relo a relo_map =
    Inr (n, pc + 8 + 4 * of_nat (length ws), a\<lparr>arm_code := code32 (cs @ frags32 ws), arm_labels := arm_labels a @ map lit_label (lits32 (length cs) pc ws)\<rparr>, m)"
  using assms
proof (induction ws arbitrary: cursor pc relo a relo_map cs)
  case Nil
  then show ?case by (subst arm_relocate_loop.simps) simp
next
  case (Cons w ws)
  let ?a = "a\<lparr>arm_code := code32 (cs @ frag32 w), arm_labels := arm_labels a @ map lit_label (if a32_load w then [(length cs, literal_of w pc)] else [])\<rparr>"
  have w: "mem_u32 mem (code_ptr + of_nat cursor) = w" using Cons.prems(2) by fastforce
  have rel: "ARMRelocateSingleInstr w (pc + 8) a = Inr ?a" using Cons.prems(1,4) by (intro word_relocated) simp_all
  have rest: "\<forall>i < length ws. mem_u32 mem (code_ptr + of_nat (cursor + 4 + 4 * i)) = ws ! i"
  proof (intro allI impI)
    fix i assume "i < length ws"
    then show "mem_u32 mem (code_ptr + of_nat (cursor + 4 + 4 * i)) = ws ! i"
      using Cons.prems(2) [rule_format, of "Suc i"] by (simp add: algebra_simps)
  qed
  have "\<exists>m. arm_relocate_loop mem code_ptr n start (cursor + 4) (pc + 4 + 8) relo' ?a map' =
      Inr (n, pc + 4 + 8 + 4 * of_nat (length ws), ?a\<lparr>arm_code := code32 ((cs @ frag32 w) @ frags32 ws),
        arm_labels := arm_labels ?a @ map lit_label (lits32 (length (cs @ frag32 w)) (pc + 4) ws)\<rparr>, m)" for relo' map'
    using Cons.prems rest by (intro Cons.IH) simp_all
  then show ?case
    using Cons.prems(3) by (subst arm_relocate_loop.simps) (simp add: w rel algebra_simps)
qed

section \<open>The binding of the literals\<close>

lemma code32_split: "j < length cs \<Longrightarrow> code32 cs = code32 (take j cs) @ le_bytes 4 (cs ! j) @ code32 (drop (Suc j) cs)"
  using id_take_nth_drop [of j cs] by (metis code32_simps(2,3))

lemma load_word32: "j < length cs \<Longrightarrow> LoadARMInst (4 * int j) (code32 cs) = Inr (cs ! j)"
  by (subst code32_split [of j]) (simp_all add: LoadARMInst_def buf_load_def load_at_def nat_mult_distrib min_def le_word_le_bytes)

lemma store_word32: "j < length cs \<Longrightarrow> RewriteARMInst (4 * int j) w (code32 cs) = Inr (code32 (cs[j := w]))"
  by (subst code32_split [of j]) (simp_all add: RewriteARMInst_def buf_store_def store_at_def nat_mult_distrib min_def upd_conv_take_nth_drop)

lemma bind_loop_words:
  assumes "\<forall>(j, d) \<in> set ls. j < length cs"
  shows "\<exists>ls'. arm_bind_loop (map lit_label ls) (code32 cs) = Inr (ls', code32 (bind_words ls cs)) \<and> map arm_data ls' = map snd ls"
  using assms
proof (induction ls arbitrary: cs)
  case (Cons l ls)
  obtain j d where l: "l = (j, d)" by (cases l)
  let ?cs = "cs[j := link_word (cs ! j) (4 * int (length cs) - 4 * int j - 8)]"
  have j: "j < length cs" using Cons.prems by (simp add: l)
  obtain m where m: "arm_PseudoBind (lit_label (j, d)) (code32 cs) = Inr (m, code32 ?cs)" "arm_data m = d"
  proof -
    have "arm_PseudoBind (lit_label (j, d)) (code32 cs) = Inr (bind_to (4 * int (length cs)) (lit_label (j, d)), code32 ?cs)"
      using j by (simp add: arm_PseudoBind_def lit_label_def Let_def is_unused_def is_bound_def is_linked_def bind_to_def pos_def load_word32 store_word32
          ARM_PC_OFFSET_def link_word_def)
    then show ?thesis using that by (simp add: bind_to_def lit_label_def)
  qed
  have "\<forall>(j, d) \<in> set ls. j < length (?cs @ [d'])" for d' using Cons.prems by auto
  from Cons.IH [OF this [of d]] show ?case by (auto simp: l m)
qed simp

lemma bind_words_length: "length (bind_words ls cs) = length cs + length ls"
  by (induction ls arbitrary: cs) auto

lemma bind_words_other: "\<lbrakk>j < length cs; j \<notin> set (map fst ls)\<rbrakk> \<Longrightarrow> bind_words ls cs ! j = cs ! j"
  by (induction ls arbitrary: cs) (auto simp: nth_append)

lemma bind_words_at:
  assumes "distinct (map fst ls)" and "\<forall>j \<in> set (map fst ls). j < length cs" and "i < length ls"
  shows "bind_words ls cs ! (fst (ls ! i)) = link_word (cs ! fst (ls ! i)) (4 * int (length cs + i) - 4 * int (fst (ls ! i)) - 8) \<and>
    bind_words ls cs ! (length cs + i) = snd (ls ! i)"
  using assms
proof (induction ls arbitrary: cs i)
  case (Cons l ls)
  obtain k d where l: "l = (k, d)" by (cases l)
  let ?cs = "cs[k := link_word (cs ! k) (4 * int (length cs) - 4 * int k - 8)] @ [d]"
  have pre: "distinct (map fst ls)" "\<forall>j \<in> set (map fst ls). j < length ?cs" and k: "k < length cs" "k \<notin> set (map fst ls)"
    using Cons.prems by (auto simp: l)
  show ?case
  proof (cases i)
    case 0
    have "length cs \<notin> set (map fst ls)" using Cons.prems(2) by (auto simp: l)
    then show ?thesis using bind_words_other [of k ?cs ls] bind_words_other [of "length cs" ?cs ls] k by (simp add: l 0 nth_append)
  next
    case (Suc i')
    then have i': "i' < length ls" using Cons.prems by simp
    then have "fst (ls ! i') \<in> set (map fst ls)" by simp
    then have f: "fst (ls ! i') \<noteq> k" "fst (ls ! i') < length cs" using k Cons.prems(2) by (auto simp: l)
    show ?thesis using Cons.IH [OF pre i'] f by (simp add: l Suc nth_append)
  qed
qed simp

lemma fixup_outside:
  "\<forall>d \<in> set (map arm_data ls). \<not> (lo \<le> d \<and> d < hi) \<Longrightarrow> fixup_labels used lo hi realized m ls bs = Inr (ls, bs)"
  by (induction ls) (auto simp: Let_def)

section \<open>The whole relocation\<close>

definition layout32 :: "u32 \<Rightarrow> u32 list \<Rightarrow> u32 list" where
  "layout32 start ws = bind_words (lits32 0 start ws) (frags32 ws @ [0xe51ff004, start + 4 * of_nat (length ws)])"

lemma lits32_range: "(j, d) \<in> set (lits32 j0 pc ws) \<Longrightarrow> j0 \<le> j \<and> j < j0 + length (frags32 ws)"
proof (induction ws arbitrary: j0 pc)
  case (Cons w ws)
  show ?case
  proof (cases "(j, d) \<in> set (lits32 (j0 + length (frag32 w)) (pc + 4) ws)")
    case True
    from Cons.IH [OF this] show ?thesis by simp
  next
    case False
    then have "j = j0" "a32_load w" using Cons.prems by (auto split: if_splits)
    then show ?thesis by (simp add: frag32_def)
  qed
qed simp

lemma lits32_distinct: "distinct (map fst (lits32 j0 pc ws))"
proof (induction ws arbitrary: j0 pc)
  case (Cons w ws)
  have "j0 \<notin> set (map fst (lits32 (j0 + length (frag32 w)) (pc + 4) ws))"
    using lits32_range [of j0 _ "j0 + length (frag32 w)" "pc + 4" ws] by (force simp: frag32_def split: if_splits)
  then show ?case using Cons.IH by auto
qed simp

lemma branch_back: "arm_LiteralLdrBranch v a = Inr (a\<lparr>arm_code := arm_code a @ le_bytes 4 (0xe51ff004 :: u32) @ le_bytes 4 v\<rparr>)"
proof -
  have "load_store_word (push_bit 20 1 OR push_bit 26 1) cond_AL pc_reg (arm_mem_imm pc_reg (- 4)) = Inr 0xe51ff004"
    by code_simp
  then show ?thesis by (simp add: arm_LiteralLdrBranch_def arm_ldr_def arm_load_store_def EmitARMInst_def EmitAddress_def)
qed

lemma relocated_layout:
  assumes ok: "list_all (\<lambda>w. a32_plain w \<or> a32_load w) ws" and mem: "\<forall>i < length ws. mem_u32 mem (code_ptr + of_nat (4 * i)) = ws ! i"
    and size: "length ws < 2 ^ 29" and start: "start mod 2 = 0"
    and outside: "\<forall>d \<in> set (map snd (lits32 0 start ws)). \<not> (start \<le> d \<and> d < start + 4 * of_nat (length ws))"
    and chunk: "chunk (4 * int (length (layout32 start ws))) = address" "address \<noteq> 0"
  shows "arm_GenRelocateCodeAndBranch mem chunk code_ptr (start, 4 * int (length ws)) relocated =
    Some (Inr (Some (code32 (layout32 start ws), (address, 4 * int (length (layout32 start ws))))))"
proof -
  let ?n = "4 * length ws" and ?ls = "lits32 0 start ws"
  let ?a = "(new_arm_asm 0)\<lparr>arm_code := code32 (frags32 ws), arm_labels := map lit_label ?ls\<rparr>"
  have n: "nat (4 * int (length ws)) = ?n" by simp
  obtain m where loop: "arm_relocate_loop mem code_ptr ?n (fst relocated) 0 (start + 8) (fst relocated + 8 + word_of_int (arm_size (new_arm_asm 0))) (new_arm_asm 0) [] =
      Inr (?n, start + 8 + 4 * of_nat (length ws), ?a, m)"
    using loop_relocated [of ws mem code_ptr 0 ?n "new_arm_asm 0" "[]" "fst relocated" start] ok mem by (fastforce simp: new_arm_asm_def)
  have sint: "sint (4 * of_nat (length ws) :: u32) = 4 * int (length ws)"
  proof -
    have "4 * of_nat (length ws) = (word_of_int (4 * int (length ws)) :: u32)" by simp
    then show ?thesis using size by (simp only: sint_sbintrunc') (simp add: signed_take_bit_int_eq_self)
  qed
  have gen: "gen_arm_relocate_code mem code_ptr (start, 4 * int (length ws)) (fst relocated) [] (new_arm_asm 0) =
      Inr ((start, 4 * int (length ws)), ?a, m)"
    unfolding gen_arm_relocate_code_def fst_conv snd_conv n loop bindE_Inr by (simp add: sint)
  have fresh: "arm_state (new_arm_asm 0) = ARMExecuteState" "thumb_labels (new_arm_asm 0) = []" by (simp_all add: new_arm_asm_def)
  have round: "arm_relocate_round mem (fst relocated) code_ptr (start, 4 * int (length ws)) (new_arm_asm 0) [] =
      Inr (Relocated False (start, 4 * int (length ws)) ?a m)"
    using start by (simp add: arm_relocate_round_def gen fresh)
  have remain: "relocate_remain mem (fst relocated) code_ptr (start, 4 * int (length ws)) (new_arm_asm 0) [] =
      Some (Inr (False, (start, 4 * int (length ws)), ?a, m))"
    by (subst relocate_remain.simps) (simp add: round)
  let ?cs = "frags32 ws @ [0xe51ff004, start + 4 * of_nat (length ws)]"
  have "\<forall>(j, d) \<in> set ?ls. j < length ?cs" using lits32_range [of _ _ 0 start ws] by fastforce
  from bind_loop_words [OF this] obtain ls' where bound: "arm_bind_loop (map lit_label ?ls) (code32 ?cs) = Inr (ls', code32 (layout32 start ws))"
    "map arm_data ls' = map snd ?ls" unfolding layout32_def by blast
  have fixed: "fixup_labels (\<lambda>_. True) start (start + 4 * of_nat (length ws)) address m ls' bs = Inr (ls', bs)" for bs
    using outside unfolding bound(2) [symmetric] by (rule fixup_outside)
  show ?thesis
    using start bound(1) chunk
    by (simp add: arm_GenRelocateCodeAndBranch_def remain branch_to_rest_def branch_back thumb_RelocBind_def fresh arm_RelocBind_def
        arm_size_def reloc_label_fixup_def fixed)
qed

section \<open>Places in the layout\<close>

definition pos32 :: "u32 list \<Rightarrow> nat \<Rightarrow> nat" where
  "pos32 ws i = length (frags32 (take i ws))"

lemma frag32_length: "length (frag32 w) = (if a32_load w then 2 else 1)"
  by (simp add: frag32_def)

lemma pos32_Suc: "i < length ws \<Longrightarrow> pos32 ws (Suc i) = pos32 ws i + length (frag32 (ws ! i))"
  by (simp add: pos32_def take_Suc_conv_app_nth)

lemma pos32_mono: "i \<le> j \<Longrightarrow> pos32 ws i \<le> pos32 ws j"
proof -
  assume "i \<le> j"
  then have "take j ws = take i ws @ take (j - i) (drop i ws)" by (metis le_add_diff_inverse take_add)
  then show ?thesis by (simp add: pos32_def)
qed

lemma frags_split: "i < length ws \<Longrightarrow> frags32 ws = frags32 (take i ws) @ frag32 (ws ! i) @ frags32 (drop (Suc i) ws)"
  by (subst id_take_nth_drop [of i ws]) simp_all

lemma frags_nth: "i < length ws \<Longrightarrow> k < length (frag32 (ws ! i)) \<Longrightarrow> frags32 ws ! (pos32 ws i + k) = frag32 (ws ! i) ! k"
  by (subst frags_split [of i ws]) (simp_all add: pos32_def nth_append)

lemma pos32_inside: "i < length ws \<Longrightarrow> pos32 ws i + length (frag32 (ws ! i)) \<le> length (frags32 ws)"
  by (subst frags_split [of i ws]) (simp_all add: pos32_def)

lemma lits32_member:
  "(j, d) \<in> set (lits32 j0 pc ws) \<longleftrightarrow> (\<exists>i < length ws. a32_load (ws ! i) \<and> j = j0 + pos32 ws i \<and> d = literal_of (ws ! i) (pc + 4 * of_nat i))"
proof (induction ws arbitrary: j0 pc)
  case (Cons w ws)
  have head: "(j, d) \<in> set (if a32_load w then [(j0, literal_of w pc)] else []) \<longleftrightarrow>
      a32_load ((w # ws) ! 0) \<and> j = j0 + pos32 (w # ws) 0 \<and> d = literal_of ((w # ws) ! 0) (pc + 4 * of_nat 0)"
    by (auto simp: pos32_def)
  have rest: "(j, d) \<in> set (lits32 (j0 + length (frag32 w)) (pc + 4) ws) \<longleftrightarrow>
      (\<exists>i < length ws. a32_load ((w # ws) ! Suc i) \<and> j = j0 + pos32 (w # ws) (Suc i) \<and> d = literal_of ((w # ws) ! Suc i) (pc + 4 * of_nat (Suc i)))"
    unfolding Cons.IH by (simp add: pos32_def algebra_simps)
  show ?case using head rest by (simp only: lits32.simps set_append Un_iff length_Cons Ex_less_Suc2)
qed simp

text \<open>Only the first word of a literal load waits for a literal.\<close>

lemma waiting_word:
  assumes "i < length ws" and "k < length (frag32 (ws ! i))" and "pos32 ws i + k \<in> set (map fst (lits32 0 pc ws))"
  shows "k = 0 \<and> a32_load (ws ! i)"
proof -
  obtain i' where i': "i' < length ws" "a32_load (ws ! i')" "pos32 ws i + k = pos32 ws i'"
    using assms(3) by (auto simp: lits32_member)
  have "i' = i"
  proof (rule linorder_cases [of i' i])
    assume "i' < i"
    then have "pos32 ws (Suc i') \<le> pos32 ws i" by (intro pos32_mono) simp
    then show ?thesis using i' pos32_Suc [OF i'(1)] by (simp add: frag32_length)
  next
    assume "i < i'"
    then have "pos32 ws (Suc i) \<le> pos32 ws i'" by (intro pos32_mono) simp
    then show ?thesis using i'(3) assms(2) pos32_Suc [OF assms(1)] by simp
  qed simp
  then show ?thesis using i' by simp
qed

lemma layout_words:
  assumes "i < length ws" and "k < length (frag32 (ws ! i))" and "k \<noteq> 0 \<or> \<not> a32_load (ws ! i)"
  shows "layout32 start ws ! (pos32 ws i + k) = frag32 (ws ! i) ! k"
proof -
  have "pos32 ws i + k < length (frags32 ws)" using pos32_inside [OF assms(1)] assms(2) by simp
  then show ?thesis
    using waiting_word [OF assms(1,2)] assms(3) frags_nth [OF assms(1,2)]
    unfolding layout32_def by (subst bind_words_other) (auto simp: nth_append)
qed

lemma layout_tail:
  "layout32 start ws ! length (frags32 ws) = 0xe51ff004" "layout32 start ws ! (length (frags32 ws) + 1) = start + 4 * of_nat (length ws)"
proof -
  have "length (frags32 ws) + k \<notin> set (map fst (lits32 0 start ws))" for k
    using lits32_range [of _ _ 0 start ws] by fastforce
  from this [of 0] this [of 1]
  show "layout32 start ws ! length (frags32 ws) = 0xe51ff004" "layout32 start ws ! (length (frags32 ws) + 1) = start + 4 * of_nat (length ws)"
    unfolding layout32_def by (subst bind_words_other; simp add: nth_append)+
qed

lemma lits32_length: "length (lits32 j pc ws) \<le> length ws"
  by (induction ws arbitrary: j pc) (auto intro: le_SucI)

lemma frags32_length: "length (frags32 ws) \<le> 2 * length ws"
  by (induction ws) (auto simp: frag32_length)

lemma layout_length: "length (frags32 ws) + 2 \<le> length (layout32 start ws)" "length (layout32 start ws) \<le> 3 * length ws + 2"
  using lits32_length [of 0 start ws] frags32_length [of ws] by (simp_all add: layout32_def bind_words_length)

text \<open>A literal load and its literal.\<close>

lemma layout_load:
  assumes "i < length ws" and "a32_load (ws ! i)"
  shows "\<exists>q. pos32 ws i + 2 \<le> q \<and> q < length (layout32 start ws) \<and> layout32 start ws ! q = literal_of (ws ! i) (start + 4 * of_nat i) \<and>
    layout32 start ws ! pos32 ws i = link_word (load_link (bits (ws ! i) 12 15) 0) (4 * int q - 4 * int (pos32 ws i) - 8)"
proof -
  let ?ls = "lits32 0 start ws" and ?cs = "frags32 ws @ [0xe51ff004, start + 4 * of_nat (length ws)]"
  have "(pos32 ws i, literal_of (ws ! i) (start + 4 * of_nat i)) \<in> set ?ls" using assms by (auto simp: lits32_member)
  then obtain l where l: "l < length ?ls" "?ls ! l = (pos32 ws i, literal_of (ws ! i) (start + 4 * of_nat i))" by (auto simp: in_set_conv_nth)
  have less: "\<forall>j \<in> set (map fst ?ls). j < length ?cs" using lits32_range [of _ _ 0 start ws] by fastforce
  have in1: "pos32 ws i < length (frags32 ws)" and in2: "pos32 ws i + 2 \<le> length ?cs + l"
    using pos32_inside [OF assms(1)] assms(2) by (simp_all add: frag32_length)
  have "?cs ! pos32 ws i = load_link (bits (ws ! i) 12 15) 0"
    using frags_nth [OF assms(1), of 0] in1 assms(2) by (simp add: frag32_def nth_append)
  then show ?thesis
    using bind_words_at [OF lits32_distinct less l(1)] in2 l unfolding layout32_def
    by (intro exI [of _ "length ?cs + l"]) (simp add: bind_words_length)
qed

section \<open>Running the layout\<close>

lemma c_word_code32: "\<lbrakk>c_code s a (code32 cs); j < length cs\<rbrakk> \<Longrightarrow> c_word s (a + 4 * of_nat j) = cs ! j"
  by (subst (asm) code32_split [of j]) (simp_all add: c_word_code min_def mult.commute)

lemma link_load:
  "link_word (load_link rt 0) d = load_link rt (word_of_int d)" if "take_bit 4 rt = rt"
proof -
  have m: "(0xfffff000 :: u32) = NOT (mask 12)" by code_simp
  have "push_bit 12 rt AND NOT (mask 12) = push_bit 12 rt" by (rule bit_word_eqI) (auto simp: bit_simps)
  then show ?thesis by (simp add: link_word_def load_link_def or_masks m [symmetric]) (simp add: m or_masks or.assoc)
qed

text \<open>The fields of a word whose bits lie between two places.\<close>

definition within :: "nat \<Rightarrow> nat \<Rightarrow> u32 \<Rightarrow> bool" where
  "within lo hi w \<longleftrightarrow> (\<forall>k. bit w k \<longrightarrow> lo \<le> k \<and> k < hi)"

lemma within_fields:
  assumes "within lo hi w"
  shows "st \<le> fn \<Longrightarrow> fn < lo \<or> hi \<le> st \<Longrightarrow> bits w st fn = 0" "hi \<le> 20 \<Longrightarrow> w AND 0x0f700000 = 0" "k < lo \<or> hi \<le> k \<Longrightarrow> \<not> bit w k"
    "12 \<le> lo \<Longrightarrow> take_bit 12 w = 0"
proof -
  have w: "\<And>k. bit w k \<Longrightarrow> lo \<le> k \<and> k < hi" using assms by (simp add: within_def)
  show "st \<le> fn \<Longrightarrow> fn < lo \<or> hi \<le> st \<Longrightarrow> bits w st fn = 0" by (rule bit_word_eqI) (auto simp: field_bit_simps dest!: w)
  have m: "(0x0f700000 :: u32) = push_bit 20 0xf7" by simp
  show "w AND 0x0f700000 = 0" if "hi \<le> 20"
    unfolding m by (rule bit_word_eqI) (use that in \<open>auto simp: bit_and_iff bit_push_bit_iff simp del: push_bit_numeral dest!: w\<close>)
  show "k < lo \<or> hi \<le> k \<Longrightarrow> \<not> bit w k" by (auto dest: w)
  show "12 \<le> lo \<Longrightarrow> take_bit 12 w = 0" by (rule bit_word_eqI) (auto simp: bit_simps dest!: w)
qed

lemma within_reg:
  assumes "take_bit 4 rt = (rt :: u32)"
  shows "within 12 16 (push_bit 12 rt)" "within 16 20 (push_bit 16 rt)" "bits (push_bit 12 rt) 12 15 = rt" "bits (push_bit 16 rt) 16 19 = rt"
proof -
  have r: "bit rt k \<Longrightarrow> k < 4" for k using assms by (metis bit_take_bit_iff)
  show "within 12 16 (push_bit 12 rt)" "within 16 20 (push_bit 16 rt)" by (auto simp: within_def bit_simps dest!: r)
  show "bits (push_bit 12 rt) 12 15 = rt" "bits (push_bit 16 rt) 16 19 = rt"
    by (rule bit_word_eqI; auto simp: field_bit_simps bit_simps dest: r)+
qed

lemma decode_loads:
  fixes rt d :: u32
  assumes rt: "take_bit 4 rt = rt" and d: "take_bit 12 d = d"
  shows "a32_decode (load_link rt d) = I_LDR rt 15 d" "bits (load_link rt d) 28 31 = 14"
    "a32_decode (load_through rt) = I_LDR rt rt 0" "bits (load_through rt) 28 31 = 14"
proof -
  have wd: "within 0 12 d" using d by (metis within_def bit_take_bit_iff le0)
  note f = within_fields [OF within_reg(1) [OF rt]] within_fields [OF within_reg(2) [OF rt]] within_fields [OF wd] within_reg(3,4) [OF rt]
  have c: "bits (0xe59f0000 :: u32) 12 15 = 0" "bits (0xe59f0000 :: u32) 16 19 = 15" "bits (0xe59f0000 :: u32) 28 31 = 14"
    "bits (0xe5900000 :: u32) 12 15 = 0" "bits (0xe5900000 :: u32) 16 19 = 0" "bits (0xe5900000 :: u32) 28 31 = 14"
    "bit (0xe59f0000 :: u32) 23" "bit (0xe5900000 :: u32) 23" "take_bit 12 (0xe59f0000 :: u32) = 0" "take_bit 12 (0xe5900000 :: u32) = 0"
    by code_simp+
  show "a32_decode (load_link rt d) = I_LDR rt 15 d" "bits (load_link rt d) 28 31 = 14"
    "a32_decode (load_through rt) = I_LDR rt rt 0" "bits (load_through rt) 28 31 = 14"
    by (simp_all add: a32_decode_def load_link_def load_through_def or_masks f c take_bit_or bit_or_iff d signed_offset_def)
qed

lemma load_steps32:
  assumes "a32_load w" and "\<not> c_thumb s" and "c_word s (c_pc s) = w" and "take_bit 2 (c_pc s) = 0"
  shows "cpu_step s = Some (jump (c_pc s + 4) (set_r (bits w 12 15) (c_word s (literal_of w (c_pc s))) s))"
proof -
  have "bits w 12 15 \<noteq> 15" using assms(1) by (simp add: a32_load_def)
  moreover have "(c_pc s + 8) AND NOT 3 = c_pc s + 8" by (rule word_aligned) (simp add: take_2_add assms(4))
  moreover have "a32_decode w = I_LDR (bits w 12 15) 15 (signed_offset (bit w 23) (take_bit 12 w))"
    by (simp add: a32_decode_def load_fields [OF assms(1)])
  ultimately show ?thesis
    using assms(2) by (simp add: cpu_step_def a32_step_def assms(3) load_fields [OF assms(1)] pc_value_def literal_of_def)
qed

lemma run_relocated_load:
  fixes rt d :: u32
  assumes rt: "take_bit 4 rt = rt" "rt \<noteq> 15" and d: "take_bit 12 d = d" and s: "\<not> c_thumb s" "take_bit 2 (c_pc s) = 0"
    and code: "c_word s (c_pc s) = load_link rt d" "c_word s (c_pc s + 4) = load_through rt"
  shows "cpu_run 2 s = Some (jump (c_pc s + 8) (set_r rt (c_word s (c_word s (c_pc s + 8 + d))) s))"
proof -
  have al: "(c_pc s + 8) AND NOT 3 = c_pc s + 8" by (rule word_aligned) (simp add: take_2_add s(2))
  let ?s = "jump (c_pc s + 4) (set_r rt (c_word s (c_pc s + 8 + d)) s)"
  have mem: "c_word (jump p (set_r r v x)) a = c_word x a" for p r v x a by (simp add: c_word_def c_bytes_def jump_def set_r_def)
  have "cpu_step s = Some ?s"
    using s rt(2) al by (simp add: cpu_step_def a32_step_def code decode_loads [OF rt(1) d] pc_value_def)
  moreover have "cpu_step ?s = Some (jump (c_pc s + 8) (set_r rt (c_word s (c_word s (c_pc s + 8 + d))) s))"
    using s rt(2) by (simp add: cpu_step_def a32_step_def mem code decode_loads [OF rt(1) d] add.assoc)
  ultimately show ?thesis by (simp add: numeral_2_eq_2)
qed

lemma take_12_of_int: "take_bit 12 d = d \<Longrightarrow> take_bit 12 (word_of_int d :: u32) = word_of_int d"
  by transfer (simp add: take_bit_take_bit)

lemma c_word_jump: "c_word (jump p s) a = c_word s a"
  by (simp add: c_word_def c_bytes_def jump_def)

text \<open>The address of an instruction in the new code.\<close>

definition moved32 :: "u32 \<Rightarrow> u32 list \<Rightarrow> nat \<Rightarrow> u32" where
  "moved32 address ws i = address + 4 * of_nat (pos32 ws i)"

text \<open>
  C25: relocating A32 code works from end to end, for up to 300 instructions that are plain or unconditional literal loads of a word whose
  literals lie outside of the overwritten code. \<^verbatim>\<open>GenRelocateCodeAndBranch\<close> returns code for the chunk it got; in a machine that
  has it there, the new place of a plain instruction holds the instruction itself, the new place of a load does in two steps what the load
  did at its old place, up to the program counter, which is at the new place of the next instruction, and behind the last one control
  returns to the code behind the overwritten part.
\<close>

theorem arm32_code_relocated:
  assumes "list_all (\<lambda>w. a32_plain w \<or> a32_load w) ws" and "length ws \<le> 300" and "start mod 4 = 0"
    and "\<forall>i < length ws. mem_u32 mem (code_ptr + of_nat (4 * i)) = ws ! i"
    and "\<forall>d \<in> set (map snd (lits32 0 start ws)). \<not> (start \<le> d \<and> d < start + 4 * of_nat (length ws))"
    and "\<forall>n. chunk n = address" and "address \<noteq> 0" and "address mod 4 = 0"
  shows "\<exists>code. arm_GenRelocateCodeAndBranch mem chunk code_ptr (start, 4 * int (length ws)) relocated =
             Some (Inr (Some (code, (address, int (length code))))) \<and>
           (\<forall>s i. \<not> c_thumb s \<and> c_code s address code \<and> i < length ws \<and> c_pc s = start + 4 * of_nat i \<and> c_word s (c_pc s) = ws ! i \<longrightarrow>
              (if a32_load (ws ! i)
               then \<exists>t. cpu_step s = Some t \<and> cpu_run 2 (jump (moved32 address ws i) s) = Some (jump (moved32 address ws (Suc i)) t)
               else c_word s (moved32 address ws i) = ws ! i)) \<and>
           (\<forall>s. \<not> c_thumb s \<and> c_code s address code \<and> c_pc s = moved32 address ws (length ws) \<longrightarrow>
              cpu_step s = Some (s\<lparr>c_pc := start + 4 * of_nat (length ws)\<rparr>))"
proof -
  let ?L = "layout32 start ws"
  have "(start :: u32) mod 2 = 0"
    using assms(3) unfolding mod_4 take_2_bits by (simp add: bit_0 even_iff_mod_2_eq_zero)
  then have gen: "arm_GenRelocateCodeAndBranch mem chunk code_ptr (start, 4 * int (length ws)) relocated =
      Some (Inr (Some (code32 ?L, (address, int (length (code32 ?L))))))"
    using assms relocated_layout [of ws mem code_ptr start chunk address relocated] by simp
  have step: "if a32_load (ws ! i)
      then \<exists>t. cpu_step s = Some t \<and> cpu_run 2 (jump (moved32 address ws i) s) = Some (jump (moved32 address ws (Suc i)) t)
      else c_word s (moved32 address ws i) = ws ! i"
    if s: "\<not> c_thumb s" "c_code s address (code32 ?L)" "i < length ws" "c_pc s = start + 4 * of_nat i" "c_word s (c_pc s) = ws ! i" for s i
  proof (cases "a32_load (ws ! i)")
    case True
    obtain q where q: "pos32 ws i + 2 \<le> q" "q < length ?L" "?L ! q = literal_of (ws ! i) (start + 4 * of_nat i)"
      "?L ! pos32 ws i = link_word (load_link (bits (ws ! i) 12 15) 0) (4 * int q - 4 * int (pos32 ws i) - 8)"
      using layout_load [OF s(3) True] by blast
    let ?rt = "bits (ws ! i) 12 15" and ?m = "moved32 address ws i" and ?d = "word_of_int (4 * int q - 4 * int (pos32 ws i) - 8) :: u32"
    have rt: "take_bit 4 ?rt = ?rt" "?rt \<noteq> 15"
      using True by (auto simp: a32_load_def intro!: bit_word_eqI simp: bit_simps field_bit_simps)
    have d: "take_bit 12 ?d = ?d"
    proof -
      have "4 * int q - 4 * int (pos32 ws i) - 8 = take_bit 12 (4 * int q - 4 * int (pos32 ws i) - 8)"
        using q(1,2) layout_length(2) [of start ws] assms(2) by (intro take_bit_int_eq_self [symmetric]) auto
      then show ?thesis by (rule take_12_of_int [OF sym])
    qed
    have t: "cpu_step s = Some (jump (c_pc s + 4) (set_r ?rt (c_word s (literal_of (ws ! i) (c_pc s))) s))"
      using True s(1,5) by (rule load_steps32) (use assms(3) s(4) in \<open>simp add: mod_4 take_2_add take_2_mult\<close>)
    have len: "pos32 ws i + 1 < length ?L"
      using pos32_inside [OF s(3)] layout_length(1) [of ws start] by (simp add: frag32_length True)
    have place: "?m + 8 + ?d = address + 4 * of_nat q" by (simp add: moved32_def)
    have "c_word s ?m = load_link ?rt ?d"
      using c_word_code32 [OF s(2), of "pos32 ws i"] len q(4) by (simp add: moved32_def link_load [OF rt(1)])
    moreover have "c_word s (?m + 4) = load_through ?rt"
      using c_word_code32 [OF s(2), of "pos32 ws i + 1"] layout_words [OF s(3), of 1 start] len True
      by (simp add: moved32_def frag32_def algebra_simps)
    moreover have "c_word s (?m + 8 + ?d) = literal_of (ws ! i) (c_pc s)"
      unfolding place c_word_code32 [OF s(2) q(2)] q(3) s(4) ..
    moreover have "take_bit 2 ?m = 0" using assms(8) by (simp add: moved32_def mod_4 take_2_add take_2_mult)
    ultimately have "cpu_run 2 (jump ?m s) = Some (jump (?m + 8) (set_r ?rt (c_word s (literal_of (ws ! i) (c_pc s))) (jump ?m s)))"
      using run_relocated_load [OF rt d, of "jump ?m s"] s(1) by (simp add: c_word_jump)
    moreover have "?m + 8 = moved32 address ws (Suc i)"
      using pos32_Suc [OF s(3)] True by (simp add: moved32_def frag32_length algebra_simps)
    ultimately show ?thesis using True t by (simp add: jump_def set_r_def)
  next
    case False
    have "?L ! pos32 ws i = ws ! i" using layout_words [OF s(3), of 0 start] False by (simp add: frag32_def)
    moreover have "pos32 ws i < length ?L" using pos32_inside [OF s(3)] layout_length(1) [of ws start] by (simp add: frag32_length False)
    ultimately show ?thesis using c_word_code32 [OF s(2), of "pos32 ws i"] False by (simp add: moved32_def)
  qed
  have rest: "cpu_step s = Some (s\<lparr>c_pc := start + 4 * of_nat (length ws)\<rparr>)"
    if s: "\<not> c_thumb s" "c_code s address (code32 ?L)" "c_pc s = moved32 address ws (length ws)" for s
  proof -
    let ?k = "length (frags32 ws)" and ?w = "start + 4 * of_nat (length ws)"
    have k: "pos32 ws (length ws) = ?k" by (simp add: pos32_def)
    have L: "?k < length ?L" "?k + 1 < length ?L" using layout_length(1) [of ws start] by simp_all
    have al: "take_bit 2 (c_pc s) = 0" using assms(8) s(3) by (simp add: moved32_def mod_4 take_2_add take_2_mult)
    have "c_word s (c_pc s) = 0xe51ff004" "c_word s (c_pc s + 4) = ?w"
      using c_word_code32 [OF s(2) L(1)] c_word_code32 [OF s(2) L(2)] s(3) k layout_tail [of start ws]
      by (simp_all add: moved32_def algebra_simps)
    moreover have "(c_pc s + 8) AND NOT 3 = c_pc s + 8" by (rule word_aligned) (simp add: take_2_add al)
    ultimately have "cpu_step s = interwork ?w s"
      using s(1) by (simp add: cpu_step_def a32_step_def decoded_words pc_value_def algebra_simps)
    moreover have "take_bit 2 ?w = 0" using assms(3) by (simp add: mod_4 take_2_add take_2_mult)
    ultimately show ?thesis using s(1) by (simp add: interwork_aligned)
  qed
  show ?thesis by (rule exI [of _ "code32 ?L"]) (use gen step rest in blast)
qed

text \<open>The machine memory of the witness: \<^verbatim>\<open>mov r0, r0\<close> and \<^verbatim>\<open>ldr r1, [pc, #16]\<close>.\<close>

definition sample_a32 :: "u32 \<Rightarrow> u8" where
  "sample_a32 a = (let bs = code32 [0xe1a00000, 0xe59f1010] in if unat (a - 0x1000) < length bs then bs ! unat (a - 0x1000) else 0)"

theorem arm32_code_relocated_witness:
  "\<exists>code. arm_GenRelocateCodeAndBranch sample_a32 (\<lambda>_. 0x2000) 0x1000 (0x1000, 8) (0, 0) = Some (Inr (Some (code, (0x2000, int (length code))))) \<and>
     (\<forall>s. \<not> c_thumb s \<and> c_code s 0x2000 code \<and> c_pc s = 0x1004 \<and> c_word s 0x1004 = 0xe59f1010 \<longrightarrow>
        (\<exists>t. cpu_step s = Some t \<and> cpu_run 2 (jump 0x2004 s) = Some (jump 0x200c t)))"
proof -
  let ?ws = "[0xe1a00000, 0xe59f1010] :: u32 list"
  have ok: "list_all (\<lambda>w. a32_plain w \<or> a32_load w) ?ws" and ld: "a32_load (?ws ! 1)" by code_simp+
  have mem: "\<forall>i < length ?ws. mem_u32 sample_a32 (0x1000 + of_nat (4 * i)) = ?ws ! i"
  proof -
    have "mem_u32 sample_a32 0x1000 = 0xe1a00000" "mem_u32 sample_a32 0x1004 = 0xe59f1010" by code_simp+
    then show ?thesis by (auto simp: less_Suc_eq)
  qed
  have lits: "lits32 0 0x1000 ?ws = [(1, 0x101c)]" by code_simp
  have size: "length ?ws \<le> 300" "(0x1000 :: u32) mod 4 = 0"
    "\<forall>d \<in> set (map snd (lits32 0 0x1000 ?ws)). \<not> (0x1000 \<le> d \<and> d < 0x1000 + 4 * of_nat (length ?ws))"
    unfolding lits by simp_all
  have chunk: "\<forall>n. (\<lambda>_ :: int. 0x2000 :: u32) n = 0x2000" "(0x2000 :: u32) \<noteq> 0" "(0x2000 :: u32) mod 4 = 0" by simp_all
  have places: "moved32 0x2000 ?ws 1 = 0x2004" "moved32 0x2000 ?ws 2 = 0x200c" by code_simp+
  obtain code where c: "arm_GenRelocateCodeAndBranch sample_a32 (\<lambda>_. 0x2000) 0x1000 (0x1000, 4 * int (length ?ws)) (0, 0) =
      Some (Inr (Some (code, (0x2000, int (length code)))))"
    and step: "\<forall>s i. \<not> c_thumb s \<and> c_code s 0x2000 code \<and> i < length ?ws \<and> c_pc s = 0x1000 + 4 * of_nat i \<and> c_word s (c_pc s) = ?ws ! i \<longrightarrow>
      (if a32_load (?ws ! i)
       then \<exists>t. cpu_step s = Some t \<and> cpu_run 2 (jump (moved32 0x2000 ?ws i) s) = Some (jump (moved32 0x2000 ?ws (Suc i)) t)
       else c_word s (moved32 0x2000 ?ws i) = ?ws ! i)"
    using arm32_code_relocated [OF ok size(1,2) mem size(3) chunk, of "(0, 0)"] by blast
  have "\<exists>t. cpu_step s = Some t \<and> cpu_run 2 (jump 0x2004 s) = Some (jump 0x200c t)"
    if "\<not> c_thumb s" "c_code s 0x2000 code" "c_pc s = 0x1004" "c_word s 0x1004 = 0xe59f1010" for s
    using step [rule_format, of s 1] that ld places by (simp add: numeral_2_eq_2)
  then show ?thesis using c by auto
qed

end
