(* ===== verification/Arm32Props.thy ===== *)
theory Arm32Props
  imports Arm32Isa
begin

text \<open>
  The trampolines of the 32-bit target, its relocated long branches of Thumb, and the instructions that its relocator gets wrong, all on
  the machine of \<open>Arm32Isa\<close>.
\<close>

section \<open>Trampolines\<close>

lemma arm_trampoline_bytes:
  "generate_arm_trampoline from to = Inr (le_bytes 4 (0xe51ff004 :: u32) @ le_bytes 4 to)"
proof -
  have "load_store_word (push_bit 20 1 OR push_bit 26 1) cond_AL pc_reg (arm_mem_imm pc_reg (- 4)) = Inr 0xe51ff004"
    by code_simp
  then show ?thesis
    by (simp add: generate_arm_trampoline_def arm_LiteralLdrBranch_def arm_ldr_def arm_load_store_def EmitARMInst_def EmitAddress_def
        new_arm_asm_def)
qed

lemma t2_ldr_pc: "t2_ldr pc_reg (arm_mem_imm pc_reg 0) a = Emit2Int16 0xf85f 0xf000 a"
  by (simp add: t2_ldr_def EmitThumb2LoadStore_def arm_mem_imm_def EmitThumb2LoadLiteral_def pc_reg_def)

lemma thumb_emit_simps [simp]:
  "arm_code (EmitInt16 h a) = arm_code a @ le_bytes 2 h" "arm_code (Emit2Int16 h1 h2 a) = arm_code a @ le_bytes 2 h1 @ le_bytes 2 h2"
  "arm_code (EmitAddress v a) = arm_code a @ le_bytes 4 v" "arm_code (t1_nop a) = arm_code a @ le_bytes 2 (0xbf00 :: u16)"
  by (simp_all add: EmitInt16_def Emit2Int16_def EmitAddress_def t1_nop_def)

lemma AlignThumbNop_code:
  "arm_code (AlignThumbNop a) = arm_code a @ (if (word_of_int (arm_size a) + arm_address a) mod 4 = 0 then [] else le_bytes 2 (0xbf00 :: u16))"
  by (simp add: AlignThumbNop_def)

lemma thumb_trampoline_bytes:
  "generate_thumb_trampoline from to =
     (if from mod 4 = 0 then [] else le_bytes 2 (0xbf00 :: u16)) @ le_bytes 2 (0xf85f :: u16) @ le_bytes 2 (0xf000 :: u16) @ le_bytes 4 to"
  by (simp add: generate_thumb_trampoline_def t2_ldr_pc AlignThumbNop_code arm_size_def new_arm_asm_def)

text \<open>
  C27: the trampoline of the 32-bit target works from both instruction sets and into both: an even address that is a multiple
  of four is taken for A32 code and an odd one for Thumb code. The generator returns at most ten bytes; a machine
  that starts them at \<open>from\<close> in that instruction set is at \<open>to\<close> after at most two instructions, in the instruction set that
  bit 0 of \<open>to\<close> names, and nothing else has changed.
\<close>

theorem arm32_trampoline_lands:
  assumes "from mod 4 \<noteq> 2" and "to mod 4 \<noteq> 2"
  shows "\<exists>bytes. arm_GenerateNormalTrampolineBuffer from to = Inr bytes \<and> length bytes \<le> 10 \<and>
           (\<forall>s. c_pc s = from AND NOT 1 \<and> c_thumb s = bit from 0 \<and> c_code s (from AND NOT 1) bytes \<longrightarrow>
              (\<exists>n \<le> 2. cpu_run n s = Some (s\<lparr>c_pc := to AND NOT 1, c_thumb := bit to 0\<rparr>)))"
proof -
  let ?f = "from AND NOT 1"
  have align: "from AND NOT (2 - 1) = ?f" by simp
  have fin: "interwork to s = Some (s\<lparr>c_pc := to AND NOT 1, c_thumb := bit to 0\<rparr>)" for s
    using assms(2) by (rule interwork_defined)
  show ?thesis
  proof (cases "bit from 0")
    case False
    then have "from mod 2 = 0" and f: "?f = from" and al: "take_bit 2 from = 0"
      using assms(1) take_2_even [of "from"] clear_bit_0 [of "from"] by (auto simp: mod_4 bit_0 even_iff_mod_2_eq_zero)
    then have gen: "arm_GenerateNormalTrampolineBuffer from to = Inr (le_bytes 4 (0xe51ff004 :: u32) @ le_bytes 4 to)"
      by (simp add: arm_GenerateNormalTrampolineBuffer_def arm_trampoline_bytes)
    have "cpu_run 1 s = Some (s\<lparr>c_pc := to AND NOT 1, c_thumb := bit to 0\<rparr>)"
      if "c_pc s = from" "\<not> c_thumb s" "c_code s from (le_bytes 4 (0xe51ff004 :: u32) @ le_bytes 4 to)" for s
      using run_a32_load_pc [of s to] that al fin by simp
    then show ?thesis using gen False unfolding f
      by (intro exI [of _ "le_bytes 4 (0xe51ff004 :: u32) @ le_bytes 4 to"]) (auto intro!: exI [of _ 1])
  next
    case True
    let ?nop = "if ?f mod 4 = 0 then [] else le_bytes 2 (0xbf00 :: u16)"
    let ?ldr = "le_bytes 2 (0xf85f :: u16) @ le_bytes 2 (0xf000 :: u16) @ le_bytes 4 to"
    have gen: "arm_GenerateNormalTrampolineBuffer from to = Inr (?nop @ ?ldr)"
      using True by (simp add: arm_GenerateNormalTrampolineBuffer_def align thumb_trampoline_bytes bit_0 even_iff_mod_2_eq_zero)
    have "\<exists>n \<le> 2. cpu_run n s = Some (s\<lparr>c_pc := to AND NOT 1, c_thumb := bit to 0\<rparr>)"
      if s: "c_pc s = ?f" "c_thumb s" "c_code s ?f (?nop @ ?ldr)" for s
    proof (cases "?f mod 4 = 0")
      case True
      then have "cpu_step s = interwork to s"
        using run_t32_load_pc [of s to] s by (simp add: mod_4)
      then show ?thesis by (intro exI [of _ 1]) (simp add: fin)
    next
      case False
      then have "take_bit 2 ?f = 2" using take_2_even [OF not_bit_0 [of "from"]] by (auto simp: mod_4 split: if_splits)
      then have "take_bit 2 (?f + 2) = 0" using take_2_sum [of ?f 2] by simp
      moreover have code: "c_code s ?f (le_bytes 2 (0xbf00 :: u16))" "c_code s (?f + 2) ?ldr" using s(3) False by simp_all
      ultimately have 2: "cpu_step (jump (?f + 2) s) = interwork to (jump (?f + 2) s)"
        by (intro run_t32_load_pc) (simp_all only: step_fields c_code_steps s(2))
      have 1: "cpu_step s = Some (jump (?f + 2) s)"
        using run_t32_nop [of s] code(1) unfolding s(1) by (simp only: s(2))
      have "cpu_run (Suc (Suc 0)) s = Some (s\<lparr>c_pc := to AND NOT 1, c_thumb := bit to 0\<rparr>)"
        unfolding cpu_run.simps 1 option.case 2 fin by (simp add: jump_def)
      then show ?thesis by (intro exI [of _ "Suc (Suc 0)"]) simp
    qed
    then show ?thesis using gen True by (intro exI [of _ "?nop @ ?ldr"]) simp
  qed
qed

theorem arm32_trampoline_lands_witness:
  "\<exists>bytes. arm_GenerateNormalTrampolineBuffer 0x1003 0x2001 = Inr bytes \<and> length bytes = 10 \<and>
     (\<forall>s. c_pc s = 0x1002 \<and> c_thumb s \<and> c_code s 0x1002 bytes \<longrightarrow>
        (\<exists>n \<le> 2. cpu_run n s = Some (s\<lparr>c_pc := 0x2000, c_thumb := True\<rparr>)))"
proof -
  have m: "(0x1003 :: u32) mod 4 \<noteq> 2" "(0x2001 :: u32) mod 4 \<noteq> 2" by simp_all
  have v: "0x1003 AND NOT 1 = (0x1002 :: u32)" "0x2001 AND NOT 1 = (0x2000 :: u32)" "bit (0x1003 :: u32) 0 = True" "bit (0x2001 :: u32) 0 = True"
    by code_simp+
  obtain bytes where b: "arm_GenerateNormalTrampolineBuffer 0x1003 0x2001 = Inr bytes"
    "\<forall>s. c_pc s = 0x1002 \<and> c_thumb s \<and> c_code s 0x1002 bytes \<longrightarrow>
        (\<exists>n \<le> 2. cpu_run n s = Some (s\<lparr>c_pc := 0x2000, c_thumb := True\<rparr>))"
    using arm32_trampoline_lands [OF m] unfolding v by blast
  have "map_sum id length (arm_GenerateNormalTrampolineBuffer 0x1003 0x2001) = Inr 10" by code_simp
  then have "length bytes = 10" unfolding b(1) by simp
  then show ?thesis using b by blast
qed

section \<open>The long branches of Thumb\<close>

fun long_branch :: "insn32 \<Rightarrow> bool" where
  "long_branch (I_B off) = True"
| "long_branch (I_BL off) = True"
| "long_branch (I_BLX off) = True"
| "long_branch _ = False"

fun is_call :: "insn32 \<Rightarrow> bool" where
  "is_call (I_BL off) = True"
| "is_call (I_BLX off) = True"
| "is_call _ = False"

lemma bit_at_of_bool: "bit_at h n = of_bool (bit h n)"
  by (rule bit_word_eqI) (auto simp: bit_at_def bit_simps bit_1_iff)

lemma bits_low: "bits h 0 n = take_bit (Suc n) h"
  by (rule bit_word_eqI) (auto simp: field_bit_simps bit_simps)

lemma bit_powers: "bit (16777216 :: int) k = (k = 24)" "bit (8388608 :: int) k = (k = 23)" "bit (4194304 :: int) k = (k = 22)"
proof -
  have "bit ((2 :: int) ^ 24) k = (k = 24)" "bit ((2 :: int) ^ 23) k = (k = 23)" "bit ((2 :: int) ^ 22) k = (k = 22)"
    unfolding bit_exp_iff by (simp_all add: eq_commute)
  then show "bit (16777216 :: int) k = (k = 24)" "bit (8388608 :: int) k = (k = 23)" "bit (4194304 :: int) k = (k = 22)" by simp_all
qed

text \<open>The distance that the relocator puts together is the one of the encoding.\<close>

lemma thumb2_label_offset:
  assumes low: "\<And>k. bit low k \<Longrightarrow> k < 12"
  shows "thumb2_branch_label h1 h2 OR low = t32_long_offset h1 h2 low"
proof (rule bit_word_eqI)
  fix k assume k: "k < LENGTH(32)"
  have h: "\<not> bit low k" if "24 \<le> k" for k using low [of k] that by auto
  show "bit (thumb2_branch_label h1 h2 OR low) k = bit (t32_long_offset h1 h2 low) k"
    using k h [of k] h [of 24]
    by (cases "bit h1 10"; cases "bit h2 13"; cases "bit h2 11")
       (auto simp: thumb2_branch_label_def t32_long_offset_def sext32_def bit_at_of_bool bits_low Let_def bit_signed_take_bit_iff bit_simps min_def bit_1_iff bit_powers)
qed

lemma low_part: "bit (push_bit 1 (ucast (take_bit 11 h)) :: u32) k \<Longrightarrow> k < 12" "bit (push_bit 2 (ucast (bits h 1 10)) :: u32) k \<Longrightarrow> k < 12"
  for h :: u16
  unfolding bit_push_bit_iff by (auto simp: bit_simps field_bit_simps)

lemma long_offset_even:
  assumes "bit low 0 = False"
  shows "\<not> bit (t32_long_offset h1 h2 low) 0"
  using assms by (cases "bit h1 10"; cases "bit h2 13"; cases "bit h2 11")
    (auto simp: t32_long_offset_def sext32_def bit_at_of_bool bit_signed_take_bit_iff bit_simps bit_1_iff bit_powers)

lemma long_offset_aligned:
  assumes "bit low 0 = False" "bit low 1 = False"
  shows "take_bit 2 (t32_long_offset h1 h2 low) = 0"
  unfolding take_2_bits using assms by (cases "bit h1 10"; cases "bit h2 13"; cases "bit h2 11")
    (auto simp: t32_long_offset_def sext32_def bit_at_of_bool bit_signed_take_bit_iff bit_simps bit_1_iff bit_powers)

text \<open>What the generated branches do: a call of the second next instruction, a jump over two, and a load of the program counter.\<close>

lemma generated_branches:
  "t2_bl 4 a = Inr (Emit2Int16 0xf000 0xf802 a)" "t2_b 8 a = Inr (Emit2Int16 0xf000 0xb804 a)"
  "t32_decode 0xf000 0xf802 = I_BL 4" "t32_decode 0xf000 0xb804 = I_B 8" "t32_wide 0xf000"
proof -
  have "thumb2_branch_words 4 True = (0xf000, 0xf802)" "thumb2_branch_words 8 False = (0xf000, 0xb804)" by code_simp+
  then show "t2_bl 4 a = Inr (Emit2Int16 0xf000 0xf802 a)" "t2_b 8 a = Inr (Emit2Int16 0xf000 0xb804 a)"
    by (simp_all add: t2_bl_def t2_b_def EmitThumb2Branch_def)
qed code_simp+

lemma cpu_run_add: "cpu_run (m + n) s = (case cpu_run m s of None \<Rightarrow> None | Some t \<Rightarrow> cpu_run n t)"
  by (induction m arbitrary: s) (auto split: option.splits)

text \<open>The bytes of the two forms.\<close>

definition ldr_pc_code :: "u32 \<Rightarrow> u8 list" where
  "ldr_pc_code v = le_bytes 2 (0xf85f :: u16) @ le_bytes 2 (0xf000 :: u16) @ le_bytes 4 v"

definition call_code :: "u32 \<Rightarrow> u8 list" where
  "call_code v =
     (le_bytes 2 (0xf000 :: u16) @ le_bytes 2 (0xf802 :: u16)) @ (le_bytes 2 (0xf000 :: u16) @ le_bytes 2 (0xb804 :: u16)) @ ldr_pc_code v"

definition align_code :: "u32 \<Rightarrow> u8 list" where
  "align_code p = (if p mod 4 = 0 then [] else le_bytes 2 (0xbf00 :: u16))"

lemma code_lengths [simp]: "length (ldr_pc_code v) = 8" "length (call_code v) = 16"
  by (simp_all add: ldr_pc_code_def call_code_def)

lemma select_fields:
  fixes h :: u16
  shows "h AND 0x8000 = (h AND 0xd000) AND 0x8000" "bits h 12 14 AND 5 = drop_bit 12 (h AND 0xd000) AND 5" "h AND 0xd000 = (h AND 0xd001) AND 0xd000"
  by (simp_all add: and.assoc bits_def submask_def drop_bit_and)

lemma long_branch_cases:
  assumes "long_branch (t32_decode h1 h2)"
  obtains (jump) "h1 AND 0xf800 = 0xf000" "h2 AND 0xd000 = 0x9000"
      "t32_decode h1 h2 = I_B (t32_long_offset h1 h2 (push_bit 1 (ucast (take_bit 11 h2))))"
    | (call) "h1 AND 0xf800 = 0xf000" "h2 AND 0xd000 = 0xd000"
      "t32_decode h1 h2 = I_BL (t32_long_offset h1 h2 (push_bit 1 (ucast (take_bit 11 h2))))"
    | (exchange) "h1 AND 0xf800 = 0xf000" "h2 AND 0xd000 = 0xc000"
      "t32_decode h1 h2 = I_BLX (t32_long_offset h1 h2 (push_bit 2 (ucast (bits h2 1 10))))"
proof -
  have "h2 AND 0xd001 = 0xc000 \<Longrightarrow> h2 AND 0xd000 = 0xc000" unfolding select_fields(3) [of h2] by simp
  then show ?thesis
    using assms that by (auto simp: t32_decode_def simp del: push_bit_Suc split: if_splits)
qed

lemma wide_prefix:
  fixes h :: u16
  assumes "h AND 0xf800 = 0xf000"
  shows "t32_wide h"
proof -
  have "drop_bit 11 h = drop_bit 11 (h AND 0xf800)"
  proof (rule bit_word_eqI)
    have m: "(0xf800 :: u16) = mask 16 AND NOT (mask 11)" by code_simp
    fix k show "bit (drop_bit 11 h) k = bit (drop_bit 11 (h AND 0xf800)) k"
      unfolding m by (auto simp: bit_simps dest: bit_imp_le_length)
  qed
  then show ?thesis by (simp add: t32_wide_def assms)
qed

lemma thumb2_branch_emitted:
  assumes "long_branch (t32_decode h1 h2)"
  shows "map_sum id arm_code (Thumb2RelocateSingleInstr h1 h2 pc a) = Inr (arm_code a @ align_code (word_of_int (arm_size a) + arm_address a) @
     (case t32_decode h1 h2 of
        I_B off \<Rightarrow> ldr_pc_code (pc + off + 1) | I_BL off \<Rightarrow> call_code (pc + off + 1) | I_BLX off \<Rightarrow> call_code ((pc AND NOT 3) + off)))"
proof -
  have 1: "thumb2_branch_label h1 h2 OR push_bit 1 (ucast (take_bit 11 h2)) = t32_long_offset h1 h2 (push_bit 1 (ucast (take_bit 11 h2)))"
    by (rule thumb2_label_offset) (rule low_part(1))
  have 2: "thumb2_branch_label h1 h2 OR push_bit 2 (ucast (bits h2 1 10)) = t32_long_offset h1 h2 (push_bit 2 (ucast (bits h2 1 10)))"
    by (rule thumb2_label_offset) (rule low_part(2))
  have low: "bits h2 0 10 = take_bit 11 h2" by (simp add: bits_low)
  have al: "arm_code (AlignThumbNop a) = arm_code a @ align_code (word_of_int (arm_size a) + arm_address a)"
    by (simp add: AlignThumbNop_code align_code_def)
  show ?thesis
    using assms
  proof (cases rule: long_branch_cases)
    case jump
    then show ?thesis
      unfolding Thumb2RelocateSingleInstr_def Let_def thumb2_b_def low 1 select_fields(1,2) [of h2] jump by (simp add: t2_ldr_pc al ldr_pc_code_def add.assoc)
  next
    case call
    then show ?thesis
      unfolding Thumb2RelocateSingleInstr_def Let_def thumb2_bl_def low or.commute [of "push_bit 1 (ucast (take_bit 11 h2))"] 1 select_fields(1,2) [of h2] call
      by (simp add: t2_ldr_pc al generated_branches ldr_pc_code_def call_code_def add.assoc)
  next
    case exchange
    then show ?thesis
      unfolding Thumb2RelocateSingleInstr_def Let_def thumb2_blx_def or.commute [of "push_bit 2 (ucast (bits h2 1 10))"] 2 select_fields(1,2) [of h2] exchange
      by (simp add: t2_ldr_pc al generated_branches ldr_pc_code_def call_code_def add.assoc)
  qed
qed

lemma run_align:
  assumes "c_thumb u" and "c_code u (c_pc u) (align_code p)" and "\<not> bit (c_pc u) 0" and "c_pc u mod 4 = p mod 4"
  shows "\<exists>k \<le> 1. cpu_run k u = Some (jump (c_pc u + of_nat (length (align_code p))) u) \<and> take_bit 2 (c_pc u + of_nat (length (align_code p))) = 0"
proof (cases "p mod 4 = 0")
  case True
  then show ?thesis using assms(4) by (intro exI [of _ 0]) (simp add: align_code_def mod_4 jump_def)
next
  case False
  then have "take_bit 2 (c_pc u) = 2" using take_2_even [OF assms(3)] assms(4) by (auto simp: mod_4 split: if_splits)
  then have "take_bit 2 (c_pc u + 2) = 0" using take_2_sum [of "c_pc u" 2] by simp
  moreover have "cpu_step u = Some (jump (c_pc u + 2) u)"
    using assms(1,2) False by (intro run_t32_nop) (simp_all add: align_code_def)
  ultimately show ?thesis using False by (intro exI [of _ 1]) (simp add: align_code_def)
qed

lemma run_ldr_pc:
  "\<lbrakk>c_thumb u; c_code u (c_pc u) (ldr_pc_code v); take_bit 2 (c_pc u) = 0\<rbrakk> \<Longrightarrow> cpu_step u = interwork v u"
  unfolding ldr_pc_code_def by (rule run_t32_load_pc)

lemma run_call:
  assumes "c_thumb u" and "c_code u (c_pc u) (call_code v)" and "take_bit 2 (c_pc u) = 0"
  shows "cpu_run 2 u = interwork v (jump (c_pc u + 8) (set_r 14 (c_pc u + 4 + 1) u))"
proof -
  have code: "c_code u (c_pc u) (le_bytes 2 (0xf000 :: u16) @ le_bytes 2 (0xf802 :: u16))" "c_code u (c_pc u + 8) (ldr_pc_code v)"
    using assms(2) by (simp_all add: call_code_def add.assoc)
  have "take_bit 2 (c_pc u + 4) = 0" using assms(3) by (simp add: take_2_add)
  then have "\<not> bit (c_pc u + 4) 0" by (simp add: take_2_bits)
  then have ret: "(c_pc u + 4) OR 1 = c_pc u + 4 + 1" by (intro disjunctive_add [symmetric]) (auto simp: bit_1_iff intro: gr0I)
  have 1: "cpu_step u = Some (jump (c_pc u + 8) (set_r 14 (c_pc u + 4 + 1) u))"
    using t32_step_wide [OF assms(1) code(1)] assms(1) by (simp add: generated_branches pc_value_def return_address_def ret)
  have "cpu_step (jump (c_pc u + 8) (set_r 14 (c_pc u + 4 + 1) u)) = interwork v (jump (c_pc u + 8) (set_r 14 (c_pc u + 4 + 1) u))"
    by (rule run_ldr_pc) (simp_all add: assms code(2) take_2_add)
  then show ?thesis by (simp add: numeral_2_eq_2 1 split: option.split)
qed

lemma run_call_return:
  assumes "c_thumb u" and "c_code u p (call_code v)" and "c_pc u = p + 4"
  shows "cpu_step u = Some (jump (p + 16) u)"
proof -
  have "c_code u (c_pc u) (le_bytes 2 (0xf000 :: u16) @ le_bytes 2 (0xb804 :: u16))"
    using assms(2,3) by (simp add: call_code_def add.assoc)
  from t32_step_wide [OF assms(1) this] show ?thesis by (simp add: generated_branches pc_value_def assms(1,3))
qed

lemma low_clear:
  fixes h :: u16
  shows "bit (push_bit 1 (ucast (take_bit 11 h)) :: u32) 0 = False" "bit (push_bit 2 (ucast (bits h 1 10)) :: u32) 0 = False"
    "bit (push_bit 2 (ucast (bits h 1 10)) :: u32) 1 = False"
  unfolding bit_push_bit_iff by simp_all

text \<open>What the new code has to do where it replaces a branch: come to the same place in the same instruction set, with the registers
  as they were; after a call, register 14 leads back to the end of the new code.\<close>

definition replaces :: "u8 list \<Rightarrow> u32 \<Rightarrow> bool \<Rightarrow> cpu \<Rightarrow> cpu \<Rightarrow> bool" where
  "replaces code q call t u \<longleftrightarrow>
     (\<exists>n \<le> 3. \<exists>r. cpu_run n u = Some (u\<lparr>c_pc := c_pc t, c_thumb := c_thumb t, c_reg := r\<rparr>) \<and>
        (if call
         then \<exists>back. r = (c_reg u)(14 := back + 1) \<and> \<not> bit back 0 \<and>
                (\<forall>v. c_pc v = back \<and> c_thumb v \<and> c_code v q code \<longrightarrow> cpu_step v = Some (jump (q + of_nat (length code)) v))
         else r = c_reg u))"

lemma jump_replaces:
  assumes u: "c_thumb u" "c_code u (c_pc u) (align_code p @ ldr_pc_code w)" "\<not> bit (c_pc u) 0" "c_pc u mod 4 = p mod 4"
    and w: "\<And>v. interwork w v = Some (v\<lparr>c_pc := c_pc t, c_thumb := c_thumb t\<rparr>)"
  shows "replaces (align_code p @ ldr_pc_code w) (c_pc u) False t u"
proof -
  have "c_code u (c_pc u) (align_code p)" using u(2) by simp
  from run_align [OF u(1) this u(3,4)] obtain k where k: "k \<le> 1"
    "cpu_run k u = Some (jump (c_pc u + of_nat (length (align_code p))) u)" "take_bit 2 (c_pc u + of_nat (length (align_code p))) = 0"
    by blast
  let ?u = "jump (c_pc u + of_nat (length (align_code p))) u"
  have "cpu_step ?u = interwork w ?u" by (rule run_ldr_pc) (use u k(3) in simp_all)
  then have "cpu_run (k + 1) u = Some (u\<lparr>c_pc := c_pc t, c_thumb := c_thumb t, c_reg := c_reg u\<rparr>)"
    by (simp only: cpu_run_add k(2) option.case) (simp add: w jump_def)
  then show ?thesis using k(1) unfolding replaces_def by (intro exI [of _ "k + 1"]) auto
qed

lemma call_replaces:
  assumes u: "c_thumb u" "c_code u (c_pc u) (align_code p @ call_code w)" "\<not> bit (c_pc u) 0" "c_pc u mod 4 = p mod 4"
    and w: "\<And>v. interwork w v = Some (v\<lparr>c_pc := c_pc t, c_thumb := c_thumb t\<rparr>)"
  shows "replaces (align_code p @ call_code w) (c_pc u) True t u"
proof -
  have "c_code u (c_pc u) (align_code p)" using u(2) by simp
  from run_align [OF u(1) this u(3,4)] obtain k where k: "k \<le> 1"
    "cpu_run k u = Some (jump (c_pc u + of_nat (length (align_code p))) u)" "take_bit 2 (c_pc u + of_nat (length (align_code p))) = 0"
    by blast
  let ?q = "c_pc u + of_nat (length (align_code p))"
  have "cpu_run 2 (jump ?q u) = interwork w (jump (?q + 8) (set_r 14 (?q + 4 + 1) (jump ?q u)))"
    using run_call [of "jump ?q u" w] u k(3) by simp
  then have "cpu_run (k + 2) u = Some (u\<lparr>c_pc := c_pc t, c_thumb := c_thumb t, c_reg := (c_reg u)(14 := ?q + 4 + 1)\<rparr>)"
    by (simp only: cpu_run_add k(2) option.case) (simp add: w jump_def set_r_def)
  moreover have "take_bit 2 (?q + 4) = 0" using k(3) by (simp add: take_2_add)
  then have "\<not> bit (?q + 4) 0" by (simp add: take_2_bits)
  moreover have "cpu_step v = Some (jump (c_pc u + of_nat (length (align_code p @ call_code w))) v)"
    if "c_pc v = ?q + 4" "c_thumb v" "c_code v (c_pc u) (align_code p @ call_code w)" for v
    using run_call_return [of v ?q w] that by (simp add: add.assoc)
  ultimately show ?thesis using k(1) unfolding replaces_def
    by (intro exI [of _ "k + 2"] conjI exI [of _ "(c_reg u)(14 := ?q + 4 + 1)"]) (auto intro!: exI [of _ "?q + 4"])
qed

text \<open>
  C26: the long branches of Thumb keep their meaning when they are relocated: for \<^verbatim>\<open>b.w\<close>, \<^verbatim>\<open>bl\<close> and \<^verbatim>\<open>blx\<close> with every distance the relocator
  returns, and wherever the new code is placed with the alignment that the assembler assumed, it takes the machine to the
  target of the instruction in the instruction set that the instruction selects; a call leaves a return address from which
  control reaches the end of the new code.
\<close>

theorem thumb2_branches_relocated:
  assumes "c_thumb s" and "c_half s (c_pc s) = h1" and "c_half s (c_pc s + 2) = h2" and "\<not> bit (c_pc s) 0"
    and "long_branch (t32_decode h1 h2)"
  shows "\<exists>code t. map_sum id arm_code (Thumb2RelocateSingleInstr h1 h2 (c_pc s + 4) a) = Inr (arm_code a @ code) \<and> cpu_step s = Some t \<and>
           (\<forall>u. c_thumb u \<and> c_code u (c_pc u) code \<and> \<not> bit (c_pc u) 0 \<and> c_pc u mod 4 = (word_of_int (arm_size a) + arm_address a) mod 4 \<longrightarrow>
              replaces code (c_pc u) (is_call (t32_decode h1 h2)) t u)"
proof -
  let ?p = "word_of_int (arm_size a) + arm_address a"
  have "t32_wide h1" using assms(5) by (cases rule: long_branch_cases) (auto intro: wide_prefix)
  then have step: "cpu_step s = insn_exec 4 (t32_decode h1 h2) s"
    using assms(1-3) by (simp add: cpu_step_def t32_step_def)
  note emitted = thumb2_branch_emitted [OF assms(5), of "c_pc s + 4" a]
  show ?thesis
    using assms(5)
  proof (cases rule: long_branch_cases)
    case jump
    define off where "off = t32_long_offset h1 h2 (push_bit 1 (ucast (take_bit 11 h2)))"
    have "\<not> bit off 0" unfolding off_def by (rule long_offset_even) (rule low_clear)
    then have "interwork (c_pc s + 4 + off + 1) v = Some (v\<lparr>c_pc := c_pc s + 4 + off, c_thumb := True\<rparr>)" for v
      using assms(4) by (intro interwork_odd) (simp add: bit_0)
    then show ?thesis using emitted step assms(1) unfolding jump off_def [symmetric]
      by (auto simp: pc_value_def intro!: jump_replaces)
  next
    case call
    define off where "off = t32_long_offset h1 h2 (push_bit 1 (ucast (take_bit 11 h2)))"
    have "\<not> bit off 0" unfolding off_def by (rule long_offset_even) (rule low_clear)
    then have "interwork (c_pc s + 4 + off + 1) v = Some (v\<lparr>c_pc := c_pc s + 4 + off, c_thumb := True\<rparr>)" for v
      using assms(4) by (intro interwork_odd) (simp add: bit_0)
    then show ?thesis using emitted step assms(1) unfolding call off_def [symmetric]
      by (auto simp: pc_value_def intro!: call_replaces)
  next
    case exchange
    define off where "off = t32_long_offset h1 h2 (push_bit 2 (ucast (bits h2 1 10)))"
    have "take_bit 2 off = 0" unfolding off_def by (rule long_offset_aligned) (rule low_clear)+
    moreover have "take_bit 2 ((c_pc s + 4) AND NOT 3) = 0" by (simp add: take_2_bits bit_simps)
    ultimately have "interwork (((c_pc s + 4) AND NOT 3) + off) v = Some (v\<lparr>c_pc := ((c_pc s + 4) AND NOT 3) + off, c_thumb := False\<rparr>)" for v
      by (intro interwork_aligned) (simp add: take_2_add)
    then show ?thesis using emitted step assms(1) unfolding exchange off_def [symmetric]
      by (auto simp: pc_value_def intro!: call_replaces)
  qed
qed

text \<open>The machine of the witness is at a \<^verbatim>\<open>bl\<close> over four bytes.\<close>

definition sample_thumb :: cpu where
  "sample_thumb = \<lparr>c_reg = (\<lambda>_. 0), c_pc = 0x1000, c_thumb = True, c_cond = (\<lambda>_. False),
     c_mem = (\<lambda>x. if x = 0x1001 then 0xf0 else if x = 0x1002 then 0x02 else if x = 0x1003 then 0xf8 else 0)\<rparr>"

theorem thumb2_branches_relocated_witness:
  "\<exists>code t. map_sum id arm_code (Thumb2RelocateSingleInstr 0xf000 0xf802 0x1004 (new_arm_asm 0)) = Inr code \<and>
     cpu_step sample_thumb = Some t \<and> c_pc t = 0x1008 \<and>
     (\<forall>u. c_thumb u \<and> c_code u (c_pc u) code \<and> c_pc u mod 4 = 0 \<longrightarrow> replaces code (c_pc u) True t u)"
proof -
  have s: "c_thumb sample_thumb" "c_half sample_thumb (c_pc sample_thumb) = 0xf000" "c_half sample_thumb (c_pc sample_thumb + 2) = 0xf802"
    "\<not> bit (c_pc sample_thumb) 0" "long_branch (t32_decode 0xf000 0xf802)" by code_simp+
  have v: "c_pc sample_thumb + 4 = 0x1004" "arm_code (new_arm_asm 0) = []" "is_call (t32_decode 0xf000 0xf802) = True"
    "word_of_int (arm_size (new_arm_asm 0)) + arm_address (new_arm_asm 0) = 0" by code_simp+
  obtain code t where c: "map_sum id arm_code (Thumb2RelocateSingleInstr 0xf000 0xf802 0x1004 (new_arm_asm 0)) = Inr code" "cpu_step sample_thumb = Some t"
    "\<forall>u. c_thumb u \<and> c_code u (c_pc u) code \<and> \<not> bit (c_pc u) 0 \<and> c_pc u mod 4 = 0 mod 4 \<longrightarrow> replaces code (c_pc u) True t u"
    using thumb2_branches_relocated [OF s, of "new_arm_asm 0"] unfolding v append_Nil by blast
  have "map_option c_pc (cpu_step sample_thumb) = Some 0x1008" by code_simp
  then have "c_pc t = 0x1008" by (simp add: c(2))
  moreover have "\<not> bit p 0" if "p mod 4 = 0" for p :: u32 using that by (simp add: mod_4 take_2_bits)
  ultimately show ?thesis using c by auto
qed

section \<open>Departures\<close>

text \<open>A machine that has code at its program counter, the bytes of a relocated instruction, and the labels it left.\<close>

definition cpu_with :: "bool \<Rightarrow> (u32 \<Rightarrow> bool) \<Rightarrow> u8 list \<Rightarrow> cpu" where
  "cpu_with thumb holds bs =
     \<lparr>c_reg = (\<lambda>_. 0), c_pc = 0x8000, c_thumb = thumb, c_cond = holds,
      c_mem = (\<lambda>x. if unat (x - 0x8000) < length bs then bs ! unat (x - 0x8000) else 0)\<rparr>"

definition bytes_after :: "asm_fault + arm_asm \<Rightarrow> u8 list" where
  "bytes_after r = (case r of Inl _ \<Rightarrow> [] | Inr a \<Rightarrow> arm_code a)"

definition literals_after :: "asm_fault + (arm_asm \<times> u32 option) \<Rightarrow> u32 list" where
  "literals_after r = (case r of Inl _ \<Rightarrow> [] | Inr (a, _) \<Rightarrow> map arm_data (thumb_labels a))"

lemma a32_branch_departures:
  "let m = cpu_with False (\<lambda>_. True) (bytes_after (ARMRelocateSingleInstr 0xeb000001 0x1008 (new_arm_asm 0)))
   in map_option c_pc (cpu_run 1 m) = Some 0x800c \<and> c_word m 0x800c = 0x100c"
  "let m = cpu_with False (\<lambda>_. True) (bytes_after (ARMRelocateSingleInstr 0xeafffffe 0x1008 (new_arm_asm 0)))
   in c_word m 0x800c = 0x4001000"
  by code_simp+

lemma a32_load_departures:
  "ARMRelocateSingleInstr 0xe5df0000 pc a = ARMRelocateSingleInstr 0xe59f0000 pc a"
  "ARMRelocateSingleInstr 0x059f0000 pc a = ARMRelocateSingleInstr 0xe59f0000 pc a"
  by (simp_all add: ARMRelocateSingleInstr_def arm_load_literal_def bits_def bit_at_def submask_def Let_def)

lemma thumb2_departures:
  "map_option c_pc (cpu_run 2 (cpu_with True (\<lambda>_. False) (bytes_after (Thumb2RelocateSingleInstr 0xf000 0x8000 0x1004 (new_arm_asm 0))))) = Some 0x800c"
  "map_option c_pc (cpu_run 2 (cpu_with True (\<lambda>_. False) (bytes_after (Thumb2RelocateSingleInstr 0xf20f 0x0100 0x1004 (new_arm_asm 0))))) = Some 0x8008"
  by code_simp+

lemma thumb1_departures:
  "map_option c_pc (cpu_run 1 (cpu_with True (\<lambda>_. False) (bytes_after (thumb1_compare_branch 0xb100 0x1004 (new_arm_asm 0))))) = Some 0x8006"
  "map_option c_pc (cpu_run 3 (cpu_with True (\<lambda>_. False) (bytes_after (thumb1_compare_branch 0xb900 0x1004 (new_arm_asm 0))))) = Some 0x8008"
  "map_option c_pc (cpu_run 1 (cpu_with True (\<lambda>_. True) (bytes_after (thumb1_branch_cond 0xd0fe 0x1004 (new_arm_asm 0))))) = Some 0x7fe8"
  "literals_after (Thumb1RelocateSingleInstr 0xa001 0x1004 (new_arm_asm 0)) = [0x1005]"
  by code_simp+


end
