(* ===== verification/Spec2Isabelle.thy ===== *)
theory Spec2Isabelle
  imports X86Props CodeBuffer InstrumentCorrectness X64Props X64Trampoline AppGlueProps VariableCache ResolverProps Arm32Layout Arm32Props
begin

text \<open>
  This development verifies the native core of an Android overlay: the hooking library Dobby, which the
  overlay vendors and links, and the native activity glue that runs it. All paths are below \<^verbatim>\<open>src/\<close>.

  \<^bold>\<open>The program.\<close> The main thread of the process and the thread of the application cooperate through
  \<^verbatim>\<open>src/android_native_app_glue.c\<close>. The application hooks functions with \<^verbatim>\<open>DobbyHook\<close> (\<^verbatim>\<open>Dobby/source/\<close>): the registry
  is searched for the address, a routing object copies and relocates the first instructions of the function,
  generates a trampoline to the replacement and patches it over the function; \<^verbatim>\<open>DobbyDestroy\<close> puts the saved
  bytes back. Code is assembled into a growing buffer, placed in pages of a memory arena and written with a page
  made writable for the time of the copy. On x86 targets a table-driven decoder finds the instruction boundaries.

  \<^bold>\<open>Theories.\<close>
  \<^item> \<open>Prelude\<close>: machine types, the error monad on sums, little-endian byte sequences, shared lemmas.
  \<^item> \<open>UtilityMacro\<close>: the bit-field and alignment macros of \<^verbatim>\<open>utility_macro.h\<close>.
  \<^item> \<open>X86Spec\<close>, \<open>X86OpcodeMaps\<close>, \<open>X86GroupTables\<close>, \<open>X86Reader\<close>, \<open>X86Decode\<close>: the decoder of
    \<^verbatim>\<open>InstructionRelocation/x86/x86_insn_decode/\<close> with every row of its tables. \<open>X86Shape\<close> and \<open>X86Stages\<close> hold
    the facts about the tables and the stages, \<open>X86Props\<close> the properties: no read outside of the buffer, the
    prefix loop equals a reference function, branches are decoded, and the inputs that are decoded wrongly.
  \<^item> \<open>LiteContainers\<close>, \<open>CodeBuffer\<close>: \<^verbatim>\<open>external/xnucxx/\<close> and \<^verbatim>\<open>MemoryAllocator/CodeBuffer/\<close>; the growing buffer refines a
    byte list through the locale of byte sinks.
  \<^item> \<open>Arm64Constants\<close>, \<open>Arm64Assembler\<close>, \<open>Arm64Labels\<close>: \<^verbatim>\<open>constants-arm64.h\<close>, \<^verbatim>\<open>assembler-arm64.h\<close>, \<^verbatim>\<open>assembler-arm64.cc\<close>.
    \<open>Arm64Isa\<close> is the reference semantics of the instructions that occur, \<open>Arm64Encode\<close> relates the encoders
    to it.
  \<^item> \<open>Arm64Trampoline\<close>, \<open>NearTrampoline\<close>: \<^verbatim>\<open>trampoline-arm64.cc\<close> and \<^verbatim>\<open>codegen-arm64.cc\<close>; control arrives at the target.
  \<^item> \<open>Arm64Relocation\<close>, \<open>Arm64Layout\<close>, \<open>Arm64Simulation\<close>: \<^verbatim>\<open>ARM64InstructionRelocation.cc\<close>; the relocator with its
    forward labels produces a reference layout, and each of its fragments simulates its instruction.
  \<^item> \<open>MemoryArena\<close>, \<open>NearArena\<close>, \<open>ProcessMemory\<close>: the allocators, \<^verbatim>\<open>CodePatch\<close> and \<^verbatim>\<open>AssemblyCodeBuilder\<close> on a memory with page
    protections; granted chunks are disjoint, the retry loop of the near allocator ends below one page.
  \<^item> \<open>LinkedList\<close>, \<open>Interceptor\<close>: the intrusive list on a heap of nodes and the hook registry above it.
  \<^item> \<open>InlineHook\<close>, \<open>HookCorrectness\<close>: \<^verbatim>\<open>DobbyHook\<close> and \<^verbatim>\<open>DobbyDestroy\<close>; a call of the hooked function arrives at
    the replacement, the returned pointer runs the original function, and destroying the hook restores memory.
  \<^item> \<open>X64Assembler\<close>, \<open>X64Relocation\<close>, \<open>X64Trampoline\<close>: \<^verbatim>\<open>assembler-x64.h\<close>, \<^verbatim>\<open>X64InstructionRelocation.cc\<close> (and the one for x86) and
    \<^verbatim>\<open>trampoline-x64.cc\<close>. \<open>X86Displacement\<close> shows that the displacement the decoder reports is the one in the bytes; \<open>X64Props\<close> that
    handled instructions keep what they refer to, that the relocation ends in a chunk of bounded size, and which branches it
    gets wrong.
  \<^item> \<open>Arm32Assembler\<close>, \<open>Arm32Relocation\<close>: \<^verbatim>\<open>assembler-arm.h\<close>, \<^verbatim>\<open>code-buffer-arm.cc\<close>, \<^verbatim>\<open>trampoline-arm.cc\<close>, \<^verbatim>\<open>ARMInstructionRelocation.h\<close> and
    \<^verbatim>\<open>ARMInstructionRelocation.cc\<close>, the A32 and Thumb assemblers and relocators of the 32-bit target. \<open>Arm32Isa\<close> is the reference semantics
    of the instructions of both sets that occur; \<open>Arm32Layout\<close> shows that relocated A32 code does what the code did, \<open>Arm32Props\<close> that
    trampolines and the long branches of Thumb arrive, and which instructions the relocator gets wrong.
  \<^item> \<open>AppGlue\<close>, \<open>AppGlueInvariant\<close>, \<open>AppGlueProps\<close>: the two threads of the glue as an interleaving of their actions, an invariant
    on what is left of the programs of both, and from it that each callback returns with its effect, without
    races and without a use of the freed object.
  \<^item> \<open>ProcessLayout\<close>, \<open>ProcessMaps\<close>: \<^verbatim>\<open>UserMode/PlatformUtil/Linux/ProcessRuntimeUtility.cc\<close>, the reader of \<^verbatim>\<open>/proc/self/maps\<close> on a stream
    of characters with the parts of stdio that it uses; a file in the kernel's format is read back, its last line twice.
  \<^item> \<open>SymbolResolver\<close>, \<open>ResolverProps\<close>: \<^verbatim>\<open>builtin-plugin/SymbolResolver/elf/dobby_symbol_resolver.cc\<close>; the resolver on the bytes of
    the mapped ELF files refines a search over abstract files.
  \<^item> \<open>VariableCache\<close>: \<^verbatim>\<open>external/misc-helper/variable_cache.c\<close>; a finite map with a file format that round-trips.

  \<^bold>\<open>Conventions.\<close> A machine integer is a word where it is put together bit by bit or may wrap around, and an \<open>int\<close> or
  \<open>nat\<close> where it is a position that the code never lets wrap. Whatever stops the process or leaves the defined
  behaviour (an assertion, \<^verbatim>\<open>UNIMPLEMENTED\<close>, an access outside of an array, an unset variable) is the left part of a sum.
  What the system decides (the memory that \<^verbatim>\<open>malloc\<close> and \<^verbatim>\<open>mmap\<close> return, the layout of the process, the command
  handler of the application) is an argument, and the theorems name what they ask of it. The loops of the
  decoder, the ARM64 relocator and the list have termination proofs; the retry loop of the near allocator, the loops of the x64
  relocation and the rounds of the 32-bit one may run for ever and are partial functions into \<open>option\<close>, with theorems when they return (and one when
  the first does not).
  There is no fuel.

  \<^bold>\<open>Interfaces.\<close> The contract of a byte sink, of the page allocator, of the registry and of the store of named values
  are locales, interpreted on the definitions of the model.

  \<^bold>\<open>Not modelled.\<close> The overlay itself (\<^verbatim>\<open>src/UI.cpp\<close>, \<^verbatim>\<open>src/data.cpp\<close>, the rest of \<^verbatim>\<open>src/hook.cpp\<close>, \<^verbatim>\<open>src/native-start.cpp\<close>) reads a foreign
  engine at fixed offsets and draws with a graphics library. Logging is output only. The closure bridges of
  the targets other than ARM64, the function wrapper (disabled in \<^verbatim>\<open>dobby.h\<close>) and the back ends for Darwin and Windows are not
  built into the application or are machine code templates. The code of the C functions that the bridge calls is not executed:
  \<open>returned\<close> is what the calling convention and their model say of it. The other plugins below \<^verbatim>\<open>Dobby/builtin-plugin/\<close> are switched
  off by default or belong to Darwin, with copies of XNU headers. In the reader of \<^verbatim>\<open>/proc/self/maps\<close> the search with the linker
  iterator is disabled in the source. Its uninitialised line buffer is a function of what the buffer held before; the theorems about
  files that end with a newline take the identity for it.
\<close>

end
